(* ===== verification/Prelude.thy ===== *)
theory Prelude
  imports Main "HOL-Library.Word" "HOL-Library.Finite_Map" "HOL-Library.Char_ord" "HOL-Library.List_Lexorder" "HOL-Library.Product_Lexorder"
begin

text \<open>
  Shared vocabulary of the development.

  Rust collections are modelled as follows: a \<open>HashMap\<close> is a finite map (\<open>fmap\<close>), a
  \<open>BTreeSet\<close> or \<open>HashSet\<close> is an \<open>fset\<close>, a \<open>Vec\<close> is a list, a \<open>String\<close> is the list of its
  UTF-8 bytes (so that the derived order on characters is the byte order Rust compares
  strings with), \<open>u64\<close> is \<open>64 word\<close>, signed integers are \<open>int\<close> and \<open>usize\<close> is \<open>nat\<close>.
  The combinators below name the idioms the engine uses on hash maps: \<open>get_mut\<close>
  (\<open>if let Some(x) = m.get_mut(&k) { .. }\<close>), \<open>fmretain\<close> (\<open>m.retain(|_, v| ..)\<close>) and
  \<open>entry_or\<close> (\<open>m.entry(k).or_insert(d)\<close> followed by an in-place update).
\<close>

type_synonym u64 = "64 word"
type_synonym elementid = string

named_theorems model_simps \<open>unfolding of the model's small state-passing helpers\<close>

section \<open>Saturating and wrapping arithmetic on u64\<close>

definition saturating_add :: "u64 \<Rightarrow> u64 \<Rightarrow> u64" where
  "saturating_add a b = (if unat a + unat b < 2 ^ 64 then a + b else - 1)"

definition saturating_sub :: "u64 \<Rightarrow> u64 \<Rightarrow> u64" where
  "saturating_sub a b = (if b \<le> a then a - b else 0)"

lemma unat_less_2_64: "unat (a :: u64) < 2 ^ 64"
  using unsigned_less [of a] by simp

lemma unat_saturating_add: "unat (saturating_add a b) = min (unat a + unat b) (2 ^ 64 - 1)"
proof (cases "unat a + unat b < 2 ^ 64")
  case True
  then have "unat (a + b) = unat a + unat b"
    by (subst unat_add_lem [symmetric]) simp
  with True show ?thesis by (simp add: saturating_add_def)
next
  case False
  have "unat (- 1 :: u64) = 2 ^ 64 - 1" by (simp add: unsigned_minus_1_eq_mask mask_eq_exp_minus_1)
  with False show ?thesis by (simp add: saturating_add_def)
qed

lemma saturating_add_ge [simp]: "a \<le> saturating_add a b"
  using unat_less_2_64 [of a] by (simp add: word_le_nat_alt unat_saturating_add)

section \<open>Finite-map idioms of the engine\<close>

definition get_mut :: "'k \<Rightarrow> ('v \<Rightarrow> 'v) \<Rightarrow> ('k, 'v) fmap \<Rightarrow> ('k, 'v) fmap" where
  "get_mut k f m = (case fmlookup m k of None \<Rightarrow> m | Some v \<Rightarrow> fmupd k (f v) m)"

definition fmretain :: "('v \<Rightarrow> bool) \<Rightarrow> ('k, 'v) fmap \<Rightarrow> ('k, 'v) fmap" where
  "fmretain P m = fmfilter (\<lambda>k. case fmlookup m k of None \<Rightarrow> False | Some v \<Rightarrow> P v) m"

definition entry_or :: "'k \<Rightarrow> 'v \<Rightarrow> ('v \<Rightarrow> 'v) \<Rightarrow> ('k, 'v) fmap \<Rightarrow> ('k, 'v) fmap" where
  "entry_or k d f m = (case fmlookup m k of None \<Rightarrow> fmupd k (f d) m | Some v \<Rightarrow> fmupd k (f v) m)"

lemma fmlookup_get_mut [simp]:
  "fmlookup (get_mut k f m) k' = (if k' = k then map_option f (fmlookup m k) else fmlookup m k')"
  by (auto simp: get_mut_def split: option.splits)

lemma fmlookup_fmretain [simp]:
  "fmlookup (fmretain P m) k = (case fmlookup m k of None \<Rightarrow> None | Some v \<Rightarrow> if P v then Some v else None)"
  by (auto simp: fmretain_def split: option.splits)

lemma fmlookup_entry_or [simp]:
  "fmlookup (entry_or k d f m) k' =
     (if k' = k then Some (f (case fmlookup m k of None \<Rightarrow> d | Some v \<Rightarrow> v)) else fmlookup m k')"
  by (auto simp: entry_or_def split: option.splits)

lemma get_mut_id [simp]: "fmlookup m k = None \<Longrightarrow> get_mut k f m = m"
  by (simp add: get_mut_def)

lemma fmdom_get_mut [simp]: "fmdom (get_mut k f m) = fmdom m"
  by (auto simp: get_mut_def fmlookup_dom_iff split: option.splits)

section \<open>Counting the entries of a finite map\<close>

text \<open>\<open>fmcount P m\<close> is the number of entries of \<open>m\<close> whose value satisfies \<open>P\<close>.\<close>

definition fmcount :: "('v \<Rightarrow> bool) \<Rightarrow> ('k, 'v) fmap \<Rightarrow> nat" where
  "fmcount P m = card {k. \<exists>v. fmlookup m k = Some v \<and> P v}"

lemma finite_fmcount [simp]: "finite {k. \<exists>v. fmlookup m k = Some v \<and> P v}"
  by (rule finite_subset [OF _ finite_fset [of "fmdom m"]]) (auto intro: fmdomI)

lemma fmcount_empty [simp]: "fmcount P fmempty = 0"
  by (simp add: fmcount_def)

lemma fmcount_drop:
  "fmcount P m = fmcount P (fmdrop k m) + (case fmlookup m k of None \<Rightarrow> 0 | Some v \<Rightarrow> if P v then 1 else 0)"
proof (cases "\<exists>v. fmlookup m k = Some v \<and> P v")
  case True
  let ?S = "{j. \<exists>v. fmlookup m j = Some v \<and> P v}"
  have "k \<in> ?S" using True by blast
  then have "card ?S = Suc (card (?S - {k}))"
    by (simp only: card.remove [OF finite_fmcount])
  moreover have "?S - {k} = {j. \<exists>v. fmlookup (fmdrop k m) j = Some v \<and> P v}" by auto
  ultimately show ?thesis using True by (auto simp: fmcount_def)
next
  case False
  then have "{j. \<exists>v. fmlookup m j = Some v \<and> P v} = {j. \<exists>v. fmlookup (fmdrop k m) j = Some v \<and> P v}"
    by auto
  with False show ?thesis by (auto simp: fmcount_def split: option.splits)
qed

lemma fmdrop_fmupd_same_key [simp]: "fmdrop k (fmupd k v m) = fmdrop k m"
  by (rule fmap_ext) simp

lemma fmcount_upd:
  "fmcount P (fmupd k v m) = fmcount P (fmdrop k m) + (if P v then 1 else 0)"
  by (subst fmcount_drop [of _ _ k]) simp

lemma fmcount_cong:
  assumes "\<And>k. (\<exists>v. fmlookup m k = Some v \<and> P v) = (\<exists>v. fmlookup m' k = Some v \<and> Q v)"
  shows "fmcount P m = fmcount Q m'"
  using assms by (simp add: fmcount_def)

lemma fmcount_pos:
  "fmlookup m k = Some v \<Longrightarrow> P v \<Longrightarrow> 0 < fmcount P m"
  by (simp add: fmcount_drop [of P m k])

lemma fmcount_get_mut_same:
  "(\<And>v. P (f v) = P v) \<Longrightarrow> fmcount P (get_mut k f m) = fmcount P m"
  by (rule fmcount_cong) auto

lemma fmcount_get_mut:
  assumes "fmlookup m k = Some v"
  shows "fmcount P (get_mut k f m) + (if P v then 1 else 0) = fmcount P m + (if P (f v) then 1 else 0)"
  using assms fmcount_drop [of P m k] by (simp add: get_mut_def fmcount_upd)

lemma fmcount_fmmap: "fmcount P (fmmap f m) = fmcount (\<lambda>v. P (f v)) m"
  by (rule fmcount_cong) auto

end
