(* ===== verification/Keys.thy ===== *)
theory Keys
  imports Prelude
begin

text \<open>
  Keys, stable hashing and leases: \<open>engine-core/src/state/types.rs\<close> (the key machinery) and
  \<open>engine-core/src/lease.rs\<close>. A key is a 64-bit word whose 13 high bits name the partition that
  minted it and whose 51 low bits are that partition's counter; a lease token is the hexadecimal
  rendering of a key behind a fixed prefix.
\<close>

unbundle bit_operations_syntax

section \<open>Keys\<close>

type_synonym key = u64

definition PARTITION_BITS :: nat where
  "PARTITION_BITS = 13"

definition LOCAL_BITS :: nat where
  "LOCAL_BITS = 64 - PARTITION_BITS"

definition LOCAL_MASK :: u64 where
  "LOCAL_MASK = push_bit LOCAL_BITS 1 - 1"

definition MAX_PARTITION_ID :: u64 where
  "MAX_PARTITION_ID = push_bit PARTITION_BITS 1 - 1"

definition partition_of :: "key \<Rightarrow> u64" where
  "partition_of k = drop_bit LOCAL_BITS k"

definition local_of :: "key \<Rightarrow> u64" where
  "local_of k = k AND LOCAL_MASK"

definition compose_key :: "u64 \<Rightarrow> u64 \<Rightarrow> key" where
  "compose_key partition_id local = push_bit LOCAL_BITS partition_id OR (local AND LOCAL_MASK)"

section \<open>Stable hash and subscription placement\<close>

definition FNV_OFFSET :: u64 where
  "FNV_OFFSET = 0xcbf29ce484222325"

definition FNV_PRIME :: u64 where
  "FNV_PRIME = 0x00000100000001b3"

fun stable_hash_from :: "u64 \<Rightarrow> string \<Rightarrow> u64" where
  "stable_hash_from hash [] = hash"
| "stable_hash_from hash (b # bs) = stable_hash_from ((hash XOR of_char b) * FNV_PRIME) bs"

definition stable_hash :: "string \<Rightarrow> u64" where
  "stable_hash bytes = stable_hash_from FNV_OFFSET bytes"

definition subscription_partition :: "string \<Rightarrow> u64 \<Rightarrow> u64" where
  "subscription_partition correlation_key num_partitions =
     (if num_partitions \<le> 1 then 0 else stable_hash correlation_key mod num_partitions)"

section \<open>Lease tokens\<close>

definition hex_digit :: "nat \<Rightarrow> char" where
  "hex_digit d = (if d < 10 then char_of (48 + d) else char_of (87 + d))"

fun hex_of :: "nat \<Rightarrow> string" where
  "hex_of n = (if n < 16 then [hex_digit n] else hex_of (n div 16) @ [hex_digit (n mod 16)])"

declare hex_of.simps [simp del]

definition lower_hex_016 :: "u64 \<Rightarrow> string" where
  "lower_hex_016 k = (let s = hex_of (unat k) in replicate (16 - length s) (CHR ''0'') @ s)"

definition lease_prefix :: string where
  "lease_prefix = ''nano-lease:''"

definition issue :: "key \<Rightarrow> string" where
  "issue k = lease_prefix @ lower_hex_016 k"

definition to_digit_16 :: "char \<Rightarrow> nat option" where
  "to_digit_16 c = (let n = of_char c in
     if 48 \<le> n \<and> n \<le> (57::nat) then Some (n - 48)
     else if 97 \<le> n \<and> n \<le> 102 then Some (n - 87)
     else if 65 \<le> n \<and> n \<le> 70 then Some (n - 55)
     else None)"

fun radix_16_from :: "nat \<Rightarrow> string \<Rightarrow> nat option" where
  "radix_16_from acc [] = Some acc"
| "radix_16_from acc (c # cs) = (case to_digit_16 c of
     None \<Rightarrow> None
   | Some d \<Rightarrow> if acc * 16 + d < 2 ^ 64 then radix_16_from (acc * 16 + d) cs else None)"

text \<open>\<open>u64::from_str_radix(_, 16)\<close>: no empty input, one optional leading plus that must be followed
  by a digit, an error on an invalid digit and on overflow.\<close>

definition from_str_radix_16 :: "string \<Rightarrow> u64 option" where
  "from_str_radix_16 s = (case s of
     [] \<Rightarrow> None
   | c # cs \<Rightarrow> (if c = CHR ''+'' then (if cs = [] then None else map_option of_nat (radix_16_from 0 cs))
                else map_option of_nat (radix_16_from 0 s)))"

definition strip_prefix :: "string \<Rightarrow> string \<Rightarrow> string option" where
  "strip_prefix p s = (if take (length p) s = p then Some (drop (length p) s) else None)"

definition issued_key :: "string \<Rightarrow> key" where
  "issued_key token =
     (case Option.bind (strip_prefix lease_prefix token) from_str_radix_16 of None \<Rightarrow> 0 | Some k \<Rightarrow> k)"

section \<open>Persisted tokens\<close>

datatype persisted_token = PT_String string | PT_Legacy u64

definition into_string :: "persisted_token \<Rightarrow> string" where
  "into_string t = (case t of
     PT_String v \<Rightarrow> v
   | PT_Legacy k \<Rightarrow> if k = 0 then [] else issue k)"

definition deserialize_token :: "persisted_token \<Rightarrow> string" where
  "deserialize_token t = into_string t"

definition deserialize_optional_token :: "persisted_token option \<Rightarrow> string option" where
  "deserialize_optional_token v =
     (case map_option into_string v of
        None \<Rightarrow> None
      | Some s \<Rightarrow> if s = [] then None else Some s)"

section \<open>Bit-level facts about keys\<close>

lemma LOCAL_BITS_eq [simp]: "LOCAL_BITS = 51"
  by (simp add: LOCAL_BITS_def PARTITION_BITS_def)

lemma LOCAL_MASK_eq: "LOCAL_MASK = mask 51"
  by (simp add: LOCAL_MASK_def mask_eq_exp_minus_1 push_bit_eq_mult)

lemma MAX_PARTITION_ID_eq: "MAX_PARTITION_ID = mask 13"
  by (simp add: MAX_PARTITION_ID_def PARTITION_BITS_def mask_eq_exp_minus_1 push_bit_eq_mult)

lemma le_mask_iff_take_bit:
  "n < 64 \<Longrightarrow> w \<le> mask n \<longleftrightarrow> take_bit n w = (w :: u64)"
proof
  assume n: "n < 64" and le: "w \<le> mask n"
  have "uint (mask n :: u64) = mask n"
    using n by (simp add: uint_mask_eq)
  with le have "uint w \<le> mask n" by (simp add: word_le_def)
  moreover have "mask n < (2 :: int) ^ n" by (simp add: mask_eq_exp_minus_1)
  ultimately have "uint w < 2 ^ n" by linarith
  then have "take_bit n (uint w) = uint w" by (simp add: take_bit_int_eq_self)
  then show "take_bit n w = w" by (metis unsigned_take_bit_eq word_uint_eq_iff)
next
  assume "n < 64" and "take_bit n w = w"
  then show "w \<le> mask n" by (metis take_bit_eq_mask word_and_le1)
qed

lemma bit_partition_of [simp]: "bit (partition_of k) i \<longleftrightarrow> bit k (51 + i)"
  by (simp add: partition_of_def bit_drop_bit_eq)

lemma bit_local_of [simp]: "bit (local_of k) i \<longleftrightarrow> i < 51 \<and> bit k i"
  by (auto simp: local_of_def LOCAL_MASK_eq bit_and_iff bit_mask_iff)

lemma bit_compose_key [simp]:
  "bit (compose_key p l) i \<longleftrightarrow> (i < 51 \<and> bit l i) \<or> (51 \<le> i \<and> i < 64 \<and> bit p (i - 51))"
  by (auto simp: compose_key_def LOCAL_MASK_eq bit_or_iff bit_and_iff bit_mask_iff bit_push_bit_iff not_less)

lemma local_bits_above: "l \<le> LOCAL_MASK \<Longrightarrow> bit l i \<Longrightarrow> i < 51"
  using le_mask_iff_take_bit [of 51 l] bit_take_bit_iff [of 51 l i] by (simp add: LOCAL_MASK_eq)

lemma partition_bits_above: "p \<le> MAX_PARTITION_ID \<Longrightarrow> bit p i \<Longrightarrow> i < 13"
  using le_mask_iff_take_bit [of 13 p] bit_take_bit_iff [of 13 p i] by (simp add: MAX_PARTITION_ID_eq)

lemma local_of_compose: "local_of (compose_key p l) = l" if "l \<le> LOCAL_MASK"
  by (rule bit_word_eqI) (auto dest: local_bits_above [OF that])

lemma partition_of_compose: "partition_of (compose_key p l) = p" if "p \<le> MAX_PARTITION_ID"
  by (rule bit_word_eqI) (auto dest: partition_bits_above [OF that])

lemma compose_partition_local: "compose_key (partition_of k) (local_of k) = k"
proof (rule bit_word_eqI)
  fix n
  assume "n < LENGTH(64)"
  then show "bit (compose_key (partition_of k) (local_of k)) n = bit k n"
    by (cases "n < 51") simp_all
qed

lemma partition_of_le: "partition_of k \<le> MAX_PARTITION_ID"
proof -
  have "take_bit 13 (partition_of k) = partition_of k"
    by (rule bit_word_eqI) (auto simp: bit_take_bit_iff dest: bit_imp_le_length)
  then show ?thesis by (simp add: MAX_PARTITION_ID_eq le_mask_iff_take_bit)
qed

lemma local_of_le: "local_of k \<le> LOCAL_MASK"
  by (simp add: local_of_def word_and_le1)

lemma unat_key_split: "unat k = unat (partition_of k) * 2 ^ 51 + unat (local_of k)"
proof -
  have "unat (partition_of k) = unat k div 2 ^ 51"
    unfolding partition_of_def LOCAL_BITS_eq drop_bit_eq_div by (simp add: unat_div_distrib)
  moreover have "unat (local_of k) = unat k mod 2 ^ 51"
    by (simp add: local_of_def LOCAL_MASK_eq take_bit_eq_mod unat_mod_distrib flip: take_bit_eq_mask)
  ultimately show ?thesis by simp
qed

lemma unat_compose_key:
  "p \<le> MAX_PARTITION_ID \<Longrightarrow> l \<le> LOCAL_MASK \<Longrightarrow> unat (compose_key p l) = unat p * 2 ^ 51 + unat l"
  by (subst unat_key_split) (simp add: partition_of_compose local_of_compose)

lemma compose_key_mono:
  "p \<le> MAX_PARTITION_ID \<Longrightarrow> a < b \<Longrightarrow> b \<le> LOCAL_MASK \<Longrightarrow> compose_key p a < compose_key p b"
  by (simp add: word_less_nat_alt unat_compose_key order.strict_implies_order order.strict_trans2
      word_le_nat_alt)

section \<open>Lease round trip\<close>

lemma to_digit_hex_digit [simp]: "d < 16 \<Longrightarrow> to_digit_16 (hex_digit d) = Some d"
  by (auto simp: to_digit_16_def hex_digit_def Let_def)

lemma radix_append:
  "radix_16_from a (s @ t) = Option.bind (radix_16_from a s) (\<lambda>b. radix_16_from b t)"
  by (induction s arbitrary: a) (auto split: option.splits)

lemma radix_replicate_zero [simp]: "radix_16_from 0 (replicate n (CHR ''0'')) = Some 0"
  by (induction n) (auto simp: to_digit_16_def Let_def)

lemma radix_hex_of: "n < 2 ^ 64 \<Longrightarrow> radix_16_from 0 (hex_of n) = Some n"
proof (induction n rule: hex_of.induct)
  case (1 n)
  show ?case
  proof (cases "n < 16")
    case True
    then show ?thesis by (simp add: hex_of.simps [of n])
  next
    case False
    moreover have "n div 16 < 2 ^ 64" using "1.prems" by simp
    ultimately show ?thesis
      using 1 by (simp add: hex_of.simps [of n] radix_append)
  qed
qed

lemma hex_of_not_Nil [simp]: "hex_of n \<noteq> []"
  by (subst hex_of.simps) simp

lemma length_hex_of: "n < 16 ^ Suc k \<Longrightarrow> length (hex_of n) \<le> Suc k"
proof (induction k arbitrary: n)
  case 0
  then show ?case by (simp add: hex_of.simps [of n])
next
  case (Suc k)
  have "n div 16 < 16 ^ Suc k" using Suc.prems by (simp add: less_mult_imp_div_less mult.commute)
  with Suc.IH [of "n div 16"] show ?case by (subst hex_of.simps) auto
qed

lemma length_lower_hex_016 [simp]: "length (lower_hex_016 k) = 16"
proof -
  have "unat k < 16 ^ Suc 15" using unat_less_2_64 [of k] by simp
  from length_hex_of [OF this] show ?thesis by (simp add: lower_hex_016_def Let_def)
qed

lemma radix_lower_hex: "radix_16_from 0 (lower_hex_016 k) = Some (unat k)"
  using unat_less_2_64 [of k] by (simp add: lower_hex_016_def Let_def radix_append radix_hex_of)

lemma radix_plus [simp]: "radix_16_from a (CHR ''+'' # s) = None"
  by (simp add: to_digit_16_def Let_def)

lemma from_str_radix_lower_hex: "from_str_radix_16 (lower_hex_016 k) = Some k"
proof -
  obtain c cs where s: "lower_hex_016 k = c # cs"
    using length_lower_hex_016 [of k] by (cases "lower_hex_016 k") auto
  have "c \<noteq> CHR ''+''"
    using radix_lower_hex [of k] s radix_plus by auto
  then show ?thesis
    using radix_lower_hex [of k] by (simp add: from_str_radix_16_def s)
qed

lemma strip_prefix_append [simp]: "strip_prefix p (p @ s) = Some s"
  by (simp add: strip_prefix_def)

lemma issued_key_issue: "issued_key (issue k) = k"
  by (simp add: issued_key_def issue_def from_str_radix_lower_hex)

lemma issue_inj: "issue a = issue b \<longleftrightarrow> a = b"
  by (metis issued_key_issue)

lemma issue_not_Nil [simp]: "issue k \<noteq> []"
  by (simp add: issue_def lease_prefix_def)

section \<open>Properties of keys and leases\<close>

text \<open>C40: a key is the pair of the partition that minted it and that partition's counter: composing
  and splitting are inverse to each other.\<close>

theorem key_round_trip:
  assumes "p \<le> MAX_PARTITION_ID" "l \<le> LOCAL_MASK"
  shows "partition_of (compose_key p l) = p \<and> local_of (compose_key p l) = l
     \<and> (\<forall>k. compose_key (partition_of k) (local_of k) = k)"
  using assms by (simp add: partition_of_compose local_of_compose compose_partition_local)

theorem key_round_trip_witness:
  "partition_of (compose_key 5 7) = 5 \<and> local_of (compose_key 5 7) = 7
     \<and> (\<forall>k. compose_key (partition_of k) (local_of k) = k)"
  by (rule key_round_trip) (simp_all add: MAX_PARTITION_ID_eq LOCAL_MASK_eq mask_eq_exp_minus_1)

text \<open>keys are ordered first by partition and then by counter, so keys of two partitions never
  collide and the keys of one partition follow its counter.\<close>

theorem key_order:
  assumes "p \<le> MAX_PARTITION_ID" "q \<le> MAX_PARTITION_ID" "a \<le> LOCAL_MASK" "b \<le> LOCAL_MASK"
  shows "compose_key p a < compose_key q b \<longleftrightarrow> p < q \<or> (p = q \<and> a < b)"
proof -
  have bound: "unat x < 2 ^ 51" if "x \<le> LOCAL_MASK" for x
  proof -
    have "unat LOCAL_MASK < 2 ^ 51" by (simp add: LOCAL_MASK_eq mask_eq_exp_minus_1)
    with that show ?thesis by (simp add: word_le_nat_alt)
  qed
  have "compose_key p a < compose_key q b \<longleftrightarrow> unat p * 2 ^ 51 + unat a < unat q * 2 ^ 51 + unat b"
    using assms by (simp add: word_less_nat_alt unat_compose_key)
  also have "\<dots> \<longleftrightarrow> unat p < unat q \<or> (unat p = unat q \<and> unat a < unat b)"
    using bound [OF assms(3)] bound [OF assms(4)] by (cases "unat p" "unat q" rule: linorder_cases) auto
  finally show ?thesis by (simp add: word_less_nat_alt word_unat_eq_iff)
qed

theorem key_order_witness: "compose_key 1 9 < compose_key 2 3 \<longleftrightarrow> (1 :: u64) < 2 \<or> ((1 :: u64) = 2 \<and> (9 :: u64) < 3)"
  by (rule key_order) (simp_all add: MAX_PARTITION_ID_eq LOCAL_MASK_eq mask_eq_exp_minus_1)

text \<open>A lease token renders its key in a fixed width and can be read back; a legacy numeric token
  is migrated to the token of the same key, and the token of key zero is the absent token.\<close>

theorem lease_round_trip:
  "issued_key (issue k) = k \<and> length (issue k) = 27 \<and> issued_key (deserialize_token (PT_Legacy k)) = k
   \<and> deserialize_optional_token (Some (PT_Legacy k)) = (if k = 0 then None else Some (issue k))"
  by (simp add: issued_key_issue deserialize_token_def deserialize_optional_token_def into_string_def)
    (simp add: issue_def lease_prefix_def issued_key_def strip_prefix_def)

end
