(* ===== verification/Agent.thy ===== *)
theory Agent
  imports Keys
begin

text \<open>
  The agent-instance data model of \<open>engine-core/src/agent.rs\<close>: agent types, definitions, limits and
  metrics, the runtime agent instance, and the append-only turn log. Metrics are \<open>i64\<close> counters
  that saturate, so they are integers with the saturation written out.
\<close>

section \<open>Agent types, definitions and limits\<close>

datatype agent_type = AiAgentTask | AiAgentSubProcess | External

definition agent_type_parse :: "string \<Rightarrow> agent_type option" where
  "agent_type_parse raw =
     (if raw = ''aiAgentTask'' then Some AiAgentTask
      else if raw = ''aiAgentSubProcess'' then Some AiAgentSubProcess
      else if raw = ''external'' then Some External
      else None)"

definition agent_type_as_str :: "agent_type \<Rightarrow> string" where
  "agent_type_as_str t = (case t of
     AiAgentTask \<Rightarrow> ''aiAgentTask''
   | AiAgentSubProcess \<Rightarrow> ''aiAgentSubProcess''
   | External \<Rightarrow> ''external'')"

datatype agent_history_content_type = ContentText | ContentObject | ContentDocument

record agent_history_content =
  ahc_content_type :: agent_history_content_type
  ahc_text :: "string option"
  ahc_document_reference :: "string option"
  ahc_object :: "string option"

record agent_definition =
  ad_model :: "string option"
  ad_provider :: "string option"
  ad_system_prompt :: "agent_history_content list option"

definition default_agent_definition :: agent_definition where
  "default_agent_definition = \<lparr> ad_model = None, ad_provider = None, ad_system_prompt = None \<rparr>"

definition AGENT_LIMIT_UNLIMITED :: int where
  "AGENT_LIMIT_UNLIMITED = -1"

record agent_instance_limits =
  max_tokens :: int
  max_model_calls :: int
  max_tool_calls :: int

definition default_limits :: agent_instance_limits where
  "default_limits = \<lparr> max_tokens = AGENT_LIMIT_UNLIMITED, max_model_calls = AGENT_LIMIT_UNLIMITED,
     max_tool_calls = AGENT_LIMIT_UNLIMITED \<rparr>"

datatype agent_limit_kind = LimitTokens | LimitModelCalls | LimitToolCalls

section \<open>Metrics\<close>

definition i64_max :: int where "i64_max = 2 ^ 63 - 1"
definition i64_min :: int where "i64_min = - (2 ^ 63)"

definition i64_saturating_add :: "int \<Rightarrow> int \<Rightarrow> int" where
  "i64_saturating_add a b = max i64_min (min i64_max (a + b))"

record agent_metrics =
  input_tokens :: int
  output_tokens :: int
  reasoning_token_count :: int
  cache_creation_token_count :: int
  cache_read_token_count :: int
  model_calls :: int
  tool_calls :: int

type_synonym agent_metrics_delta = agent_metrics

definition default_metrics :: agent_metrics where
  "default_metrics = \<lparr> input_tokens = 0, output_tokens = 0, reasoning_token_count = 0,
     cache_creation_token_count = 0, cache_read_token_count = 0, model_calls = 0, tool_calls = 0 \<rparr>"

definition with_delta :: "agent_metrics \<Rightarrow> agent_metrics_delta \<Rightarrow> agent_metrics" where
  "with_delta m d = \<lparr>
     input_tokens = i64_saturating_add (input_tokens m) (max 0 (input_tokens d)),
     output_tokens = i64_saturating_add (output_tokens m) (max 0 (output_tokens d)),
     reasoning_token_count = i64_saturating_add (reasoning_token_count m) (max 0 (reasoning_token_count d)),
     cache_creation_token_count =
       i64_saturating_add (cache_creation_token_count m) (max 0 (cache_creation_token_count d)),
     cache_read_token_count = i64_saturating_add (cache_read_token_count m) (max 0 (cache_read_token_count d)),
     model_calls = i64_saturating_add (model_calls m) (max 0 (model_calls d)),
     tool_calls = i64_saturating_add (tool_calls m) (max 0 (tool_calls d)) \<rparr>"

definition first_breach :: "agent_instance_limits \<Rightarrow> agent_metrics \<Rightarrow> agent_limit_kind option" where
  "first_breach l m =
     (let total_tokens = i64_saturating_add (input_tokens m) (output_tokens m) in
      if max_tokens l \<noteq> AGENT_LIMIT_UNLIMITED \<and> max_tokens l < total_tokens then Some LimitTokens
      else if max_model_calls l \<noteq> AGENT_LIMIT_UNLIMITED \<and> max_model_calls l < model_calls m
        then Some LimitModelCalls
      else if max_tool_calls l \<noteq> AGENT_LIMIT_UNLIMITED \<and> max_tool_calls l < tool_calls m
        then Some LimitToolCalls
      else None)"

section \<open>Tools, status and the agent instance\<close>

record agent_tool =
  at_name :: string
  at_description :: "string option"
  at_element_id :: "elementid option"

datatype agent_instance_status =
  Initializing | ToolDiscovery | Thinking | ToolCalling | AgentIdle | AgentCompleted

definition agent_is_active :: "agent_instance_status \<Rightarrow> bool" where
  "agent_is_active s = (case s of AgentCompleted \<Rightarrow> False | _ \<Rightarrow> True)"

record agent_instance =
  ai_agent_instance_key :: key
  ai_agent_definition_key :: key
  ai_element_instance_key :: key
  ai_element_instance_keys :: "key list"
  ai_element_id :: elementid
  ai_process_instance_key :: key
  ai_root_process_instance_key :: key
  ai_bpmn_process_id :: string
  ai_process_definition_key :: key
  ai_process_definition_version :: int
  ai_process_definition_version_tag :: "string option"
  ai_tenant_id :: string
  ai_agent_type :: agent_type
  ai_status :: agent_instance_status
  ai_definition :: agent_definition
  ai_limits :: agent_instance_limits
  ai_metrics :: agent_metrics
  ai_tools :: "agent_tool list"
  ai_job_key :: key
  ai_job_lease :: string
  ai_created_at :: u64
  ai_last_updated_at :: u64
  ai_completed_at :: u64

section \<open>The turn log\<close>

datatype agent_history_role = RoleUser | RoleAssistant | RoleToolResult | RoleConfiguration

record agent_history_tool_call =
  ahtc_tool_call_id :: string
  ahtc_tool_name :: string
  ahtc_element_id :: "elementid option"
  ahtc_arguments :: "string option"

record agent_history_metrics =
  ahm_input_tokens :: "int option"
  ahm_output_tokens :: "int option"
  ahm_reasoning_token_count :: "int option"
  ahm_cache_creation_token_count :: "int option"
  ahm_cache_read_token_count :: "int option"
  ahm_duration_ms :: "int option"

datatype agent_history_commit_status = CommitCommitted | CommitPending | CommitDiscarded

record agent_history_turn =
  aht_changed_attributes :: "string list"
  aht_loop_iteration :: int
  aht_produced_at :: u64
  aht_role :: agent_history_role
  aht_content :: "agent_history_content list"
  aht_system_prompt :: "agent_history_content list option"
  aht_tool_calls :: "agent_history_tool_call list"
  aht_metrics :: "agent_history_metrics option"
  aht_history_item_id :: "string option"
  aht_tools :: "agent_tool list"
  aht_model :: "string option"
  aht_provider :: "string option"
  aht_limits :: "agent_instance_limits option"
  aht_is_duplicate :: bool
  aht_job_key :: key
  aht_job_lease :: string

record agent_history_record =
  ahr_changed_attributes :: "string list"
  ahr_agent_history_key :: key
  ahr_agent_instance_key :: key
  ahr_element_instance_key :: key
  ahr_process_instance_key :: key
  ahr_root_process_instance_key :: key
  ahr_bpmn_process_id :: string
  ahr_process_definition_key :: key
  ahr_tenant_id :: string
  ahr_job_key :: key
  ahr_job_lease :: string
  ahr_loop_iteration :: int
  ahr_role :: agent_history_role
  ahr_produced_at :: u64
  ahr_content :: "agent_history_content list"
  ahr_system_prompt :: "agent_history_content list option"
  ahr_tool_calls :: "agent_history_tool_call list"
  ahr_metrics :: "agent_history_metrics option"
  ahr_history_item_id :: "string option"
  ahr_tools :: "agent_tool list"
  ahr_model :: "string option"
  ahr_provider :: "string option"
  ahr_limits :: "agent_instance_limits option"
  ahr_is_duplicate :: bool
  ahr_commit_status :: agent_history_commit_status

definition order_key :: "agent_history_record \<Rightarrow> int \<times> u64 \<times> key" where
  "order_key r = (ahr_loop_iteration r, ahr_produced_at r, ahr_agent_history_key r)"

section \<open>Metrics only grow, and a breached limit stays breached\<close>

lemma agent_type_parse_as_str [simp]: "agent_type_parse (agent_type_as_str t) = Some t"
  by (cases t) (simp_all add: agent_type_parse_def agent_type_as_str_def)

lemma i64_saturating_add_mono:
  "a \<le> b \<Longrightarrow> c \<le> d \<Longrightarrow> i64_saturating_add a c \<le> i64_saturating_add b d"
  by (simp add: i64_saturating_add_def)

lemma i64_saturating_add_ge: "a \<le> i64_max \<Longrightarrow> 0 \<le> d \<Longrightarrow> a \<le> i64_saturating_add a d"
  by (simp add: i64_saturating_add_def)

definition metrics_in_range :: "agent_metrics \<Rightarrow> bool" where
  "metrics_in_range m \<longleftrightarrow>
     (\<forall>x \<in> {input_tokens m, output_tokens m, reasoning_token_count m, cache_creation_token_count m,
            cache_read_token_count m, model_calls m, tool_calls m}. i64_min \<le> x \<and> x \<le> i64_max)"

lemma with_delta_in_range: "metrics_in_range (with_delta m d)"
  by (simp add: metrics_in_range_def with_delta_def i64_saturating_add_def i64_min_def i64_max_def)

lemma breach_persists:
  assumes "metrics_in_range m" "first_breach l m \<noteq> None"
  shows "first_breach l (with_delta m d) \<noteq> None"
proof -
  have "input_tokens m \<le> input_tokens (with_delta m d)" "output_tokens m \<le> output_tokens (with_delta m d)"
    "model_calls m \<le> model_calls (with_delta m d)" "tool_calls m \<le> tool_calls (with_delta m d)"
    using assms(1) by (auto simp: metrics_in_range_def with_delta_def i64_saturating_add_ge)
  moreover from this have
    "i64_saturating_add (input_tokens m) (output_tokens m)
       \<le> i64_saturating_add (input_tokens (with_delta m d)) (output_tokens (with_delta m d))"
    by (intro i64_saturating_add_mono)
  ultimately show ?thesis
    using assms(2) by (auto simp: first_breach_def Let_def split: if_splits)
qed

section \<open>Properties of limits\<close>

text \<open>Once an agent has breached a limit, no further metrics report brings it back under: the
  totals are saturating sums of non-negative deltas and stay in the 64-bit range.\<close>

theorem limit_breach_persists:
  assumes "metrics_in_range m" "first_breach l m \<noteq> None"
  shows "first_breach l (with_delta m d) \<noteq> None \<and> metrics_in_range (with_delta m d)"
  using breach_persists [OF assms] with_delta_in_range by blast

theorem limit_breach_persists_witness:
  "first_breach \<lparr> max_tokens = 0, max_model_calls = 3, max_tool_calls = 0 \<rparr> (with_delta (default_metrics\<lparr> model_calls := 5 \<rparr>) default_metrics) \<noteq> None
   \<and> metrics_in_range (with_delta (default_metrics\<lparr> model_calls := 5 \<rparr>) default_metrics)"
  by (rule limit_breach_persists)
    (simp_all add: metrics_in_range_def default_metrics_def first_breach_def i64_min_def i64_max_def i64_saturating_add_def
      AGENT_LIMIT_UNLIMITED_def)

end
