(* ===== verification/Dmn_Model.thy ===== *)
theory Dmn_Model
  imports Keys
begin

text \<open>
  Variable values (\<open>engine-core/src/model.rs\<close>, \<open>Value\<close>) and the decision model of
  \<open>engine-core/src/dmn/model.rs\<close>: the decision requirements graph a deployment carries and the
  evaluation result an instance records.
\<close>

text \<open>A \<open>Double\<close> holds the IEEE bit pattern: the state only stores and moves doubles; the
  arithmetic on them is in the theory of decision evaluation.\<close>

datatype rval = Null | VBool bool | VInt int | VDouble u64 | VStr string
  | VList "rval list" | VMap "(string, rval) fmap"

type_synonym vars = "(string, rval) fmap"

primrec approx_bytes :: "rval \<Rightarrow> u64" where
  "approx_bytes Null = 8"
| "approx_bytes (VBool _) = 8"
| "approx_bytes (VInt _) = 8"
| "approx_bytes (VDouble _) = 8"
| "approx_bytes (VStr s) = 16 + of_nat (length s)"
| "approx_bytes (VList items) = 16 + sum_list (map approx_bytes items)"
| "approx_bytes (VMap entries) =
     16 + sum_list (map (\<lambda>(k, n). of_nat (length k) + n) (sorted_list_of_fmap (fmmap approx_bytes entries)))"

datatype hit_policy = HitUnique | HitFirst | HitPriority | HitAny | HitCollect | HitRuleOrder | HitOutputOrder

datatype aggregation = AggSum | AggMin | AggMax | AggCount

record input_clause =
  ic_id :: string
  ic_label :: "string option"
  ic_expression :: string
  ic_type_ref :: "string option"

record output_clause =
  oc_id :: string
  oc_label :: "string option"
  oc_name :: "string option"
  oc_type_ref :: "string option"
  oc_output_values :: "string list"

record decision_rule =
  dr_id :: string
  dr_input_entries :: "string list"
  dr_output_entries :: "string list"

record decision_table =
  dt_hit_policy :: hit_policy
  dt_aggregation :: "aggregation option"
  dt_inputs :: "input_clause list"
  dt_outputs :: "output_clause list"
  dt_rules :: "decision_rule list"

datatype decision_logic =
    DecisionTable decision_table
  | LiteralExpression string
  | Unsupported string

record decision =
  dc_id :: string
  dc_name :: string
  dc_variable_name :: "string option"
  dc_required_decisions :: "string list"
  dc_logic :: decision_logic

definition result_name :: "decision \<Rightarrow> string" where
  "result_name d = (case dc_variable_name d of None \<Rightarrow> dc_id d | Some n \<Rightarrow> n)"

record decision_requirements_graph =
  drg_id :: string
  drg_name :: string
  drg_namespace :: string
  drg_decisions :: "decision list"
  drg_xml :: string

definition drg_decision :: "decision_requirements_graph \<Rightarrow> string \<Rightarrow> decision option" where
  "drg_decision g i = List.find (\<lambda>d. dc_id d = i) (drg_decisions g)"

datatype decision_type = DtDecisionTable | DtLiteralExpression | DtContext | DtInvocation | DtList
  | DtRelation | DtUnknown

record evaluated_input =
  ei_input_id :: string
  ei_input_name :: "string option"
  ei_input_value :: rval

record evaluated_output =
  eo_output_id :: string
  eo_output_name :: "string option"
  eo_output_value :: rval

record matched_rule =
  mr_rule_id :: string
  mr_rule_index :: nat
  mr_evaluated_outputs :: "evaluated_output list"

record evaluated_decision =
  ed_decision_id :: string
  ed_decision_name :: string
  ed_decision_type :: decision_type
  ed_decision_output :: rval
  ed_evaluated_inputs :: "evaluated_input list"
  ed_matched_rules :: "matched_rule list"

record evaluation_failure =
  ef_message :: string
  ef_failed_decision_id :: string

record decision_evaluation_result =
  der_decision_id :: string
  der_decision_output :: rval
  der_evaluated_decisions :: "evaluated_decision list"
  der_failure :: "evaluation_failure option"

definition is_failure :: "decision_evaluation_result \<Rightarrow> bool" where
  "is_failure r = (der_failure r \<noteq> None)"

end
