(* ===== verification/Model.thy ===== *)
theory Model
  imports Agent Dmn_Model
begin

text \<open>
  The process model of \<open>engine-core/src/model.rs\<close>: sequence flows, element kinds, elements, ad-hoc
  sub-processes, user-task corrections and the process definition, with the queries the engine asks
  of them. Struct fields carry a short prefix for their struct; enum constructors keep their names
  behind the prefix \<open>EK_\<close> where they would clash.
\<close>

section \<open>Flows, mappings and listeners\<close>

type_synonym condition = string

text \<open>The derived order of \<open>IncomingFlow\<close> is lexicographic in the source element and the ordinal.\<close>

datatype incoming_flow = IncomingFlow (if_from: elementid) (if_ordinal: nat)

instantiation incoming_flow :: linorder
begin

definition less_eq_incoming_flow :: "incoming_flow \<Rightarrow> incoming_flow \<Rightarrow> bool" where
  "less_eq_incoming_flow a b \<longleftrightarrow> (if_from a, if_ordinal a) \<le> (if_from b, if_ordinal b)"

definition less_incoming_flow :: "incoming_flow \<Rightarrow> incoming_flow \<Rightarrow> bool" where
  "less_incoming_flow a b \<longleftrightarrow> (if_from a, if_ordinal a) < (if_from b, if_ordinal b)"

instance
  by standard
    (auto simp: less_eq_incoming_flow_def less_incoming_flow_def less_prod_def less_eq_prod_def incoming_flow.expand)

end

record sequence_flow =
  sf_to :: elementid
  sf_condition :: "condition option"
  sf_is_default :: bool

record mapping =
  mp_source :: string
  mp_target :: string

record io_mapping =
  io_inputs :: "mapping list"
  io_outputs :: "mapping list"

definition io_is_empty :: "io_mapping \<Rightarrow> bool" where
  "io_is_empty io = (io_inputs io = [] \<and> io_outputs io = [])"

datatype binding_type = BindDeployment | BindLatest | BindVersionTag

record linked_resource =
  lr_resource_id :: string
  lr_binding_type :: binding_type
  lr_resource_type :: string
  lr_version_tag :: "string option"
  lr_link_name :: string

datatype listener_event_type = ListenerStart | ListenerEnd

record execution_listener =
  el_event_type :: listener_event_type
  el_job_type :: string
  el_retries :: "string option"

datatype task_listener_event_type = Creating | Assigning | Updating | Completing | Canceling

record task_listener =
  tl_event_type :: task_listener_event_type
  tl_job_type :: string
  tl_retries :: "string option"

datatype timer_def_kind = TimerDuration | TimerCycle | TimerDate

record timer_def =
  td_kind :: timer_def_kind
  td_expr :: string

record multi_instance =
  mi_input_collection :: string
  mi_input_element :: "string option"
  mi_output_collection :: "string option"
  mi_output_element :: "string option"
  mi_completion_condition :: "string option"
  mi_sequential :: bool

record user_task_props =
  up_assignee :: "string option"
  up_candidate_groups :: "string option"
  up_candidate_users :: "string option"
  up_due_date :: "string option"
  up_follow_up_date :: "string option"
  up_priority :: "string option"
  up_form_id :: "string option"
  up_external_form_reference :: "string option"

section \<open>Element kinds\<close>

datatype element_kind =
    EK_StartEvent
  | EK_EndEvent
  | EK_TerminateEndEvent
  | EK_ServiceTask (ek_job_type: string) (ek_priority: "string option") (ek_agent_type: "agent_type option")
      (ek_custom_headers: "(string, string) fmap") (ek_linked_resources: "linked_resource list")
  | EK_BusinessRuleTask string "string option"
  | EK_UserTask user_task_props
  | EK_ExclusiveGateway
  | EK_ParallelGateway
  | EK_InclusiveGateway
  | EK_EventBasedGateway
  | EK_ErrorBoundaryEvent elementid string
  | EK_TimerIntermediateCatchEvent u64
  | EK_TimerBoundaryEvent elementid u64 bool bool
  | EK_MessageIntermediateCatchEvent string string
  | EK_MessageBoundaryEvent elementid string string bool
  | EK_MessageStartEvent string
  | EK_TimerStartEvent u64 bool
  | EK_SubProcess elementid
  | EK_EscalationThrowEvent string
  | EK_EscalationBoundaryEvent elementid string bool
  | EK_IntermediateThrowEvent
  | EK_LinkIntermediateThrowEvent string
  | EK_LinkIntermediateCatchEvent string
  | EK_Task
  | EK_ScriptTask string string
  | EK_CallActivity string bool bool
  | EK_SignalIntermediateCatchEvent string
  | EK_SignalBoundaryEvent elementid string bool
  | EK_ConditionalIntermediateCatchEvent string
  | EK_ConditionalBoundaryEvent elementid string bool
  | EK_CompensationBoundaryEvent elementid elementid
  | EK_CompensationThrowEvent
  | EK_AgentTask agent_type "string option" agent_definition "agent_instance_limits option"

definition is_start_event :: "element_kind \<Rightarrow> bool" where
  "is_start_event k = (case k of
     EK_StartEvent \<Rightarrow> True | EK_MessageStartEvent _ \<Rightarrow> True | EK_TimerStartEvent _ _ \<Rightarrow> True | _ \<Rightarrow> False)"

definition attached_to :: "element_kind \<Rightarrow> elementid option" where
  "attached_to k = (case k of
     EK_ErrorBoundaryEvent a _ \<Rightarrow> Some a
   | EK_TimerBoundaryEvent a _ _ _ \<Rightarrow> Some a
   | EK_MessageBoundaryEvent a _ _ _ \<Rightarrow> Some a
   | EK_SignalBoundaryEvent a _ _ \<Rightarrow> Some a
   | EK_ConditionalBoundaryEvent a _ _ \<Rightarrow> Some a
   | EK_EscalationBoundaryEvent a _ _ \<Rightarrow> Some a
   | EK_CompensationBoundaryEvent a _ \<Rightarrow> Some a
   | _ \<Rightarrow> None)"

definition is_activity :: "element_kind \<Rightarrow> bool" where
  "is_activity k = (case k of
     EK_ServiceTask _ _ _ _ _ \<Rightarrow> True
   | EK_BusinessRuleTask _ _ \<Rightarrow> True
   | EK_UserTask _ \<Rightarrow> True
   | EK_ScriptTask _ _ \<Rightarrow> True
   | EK_Task \<Rightarrow> True
   | EK_AgentTask _ _ _ _ \<Rightarrow> True
   | EK_SubProcess _ \<Rightarrow> True
   | EK_CallActivity _ _ _ \<Rightarrow> True
   | _ \<Rightarrow> False)"

definition type_name :: "element_kind \<Rightarrow> string" where
  "type_name k = (case k of
     EK_StartEvent \<Rightarrow> ''START_EVENT''
   | EK_MessageStartEvent _ \<Rightarrow> ''START_EVENT''
   | EK_TimerStartEvent _ _ \<Rightarrow> ''START_EVENT''
   | EK_EndEvent \<Rightarrow> ''END_EVENT''
   | EK_TerminateEndEvent \<Rightarrow> ''END_EVENT''
   | EK_IntermediateThrowEvent \<Rightarrow> ''INTERMEDIATE_THROW_EVENT''
   | EK_LinkIntermediateThrowEvent _ \<Rightarrow> ''INTERMEDIATE_THROW_EVENT''
   | EK_CompensationThrowEvent \<Rightarrow> ''INTERMEDIATE_THROW_EVENT''
   | EK_EscalationThrowEvent _ \<Rightarrow> ''INTERMEDIATE_THROW_EVENT''
   | EK_Task \<Rightarrow> ''TASK''
   | EK_TimerIntermediateCatchEvent _ \<Rightarrow> ''INTERMEDIATE_CATCH_EVENT''
   | EK_MessageIntermediateCatchEvent _ _ \<Rightarrow> ''INTERMEDIATE_CATCH_EVENT''
   | EK_SignalIntermediateCatchEvent _ \<Rightarrow> ''INTERMEDIATE_CATCH_EVENT''
   | EK_LinkIntermediateCatchEvent _ \<Rightarrow> ''INTERMEDIATE_CATCH_EVENT''
   | EK_ConditionalIntermediateCatchEvent _ \<Rightarrow> ''INTERMEDIATE_CATCH_EVENT''
   | EK_ErrorBoundaryEvent _ _ \<Rightarrow> ''BOUNDARY_EVENT''
   | EK_TimerBoundaryEvent _ _ _ _ \<Rightarrow> ''BOUNDARY_EVENT''
   | EK_MessageBoundaryEvent _ _ _ _ \<Rightarrow> ''BOUNDARY_EVENT''
   | EK_SignalBoundaryEvent _ _ _ \<Rightarrow> ''BOUNDARY_EVENT''
   | EK_ConditionalBoundaryEvent _ _ _ \<Rightarrow> ''BOUNDARY_EVENT''
   | EK_EscalationBoundaryEvent _ _ _ \<Rightarrow> ''BOUNDARY_EVENT''
   | EK_CompensationBoundaryEvent _ _ \<Rightarrow> ''BOUNDARY_EVENT''
   | EK_ServiceTask _ _ _ _ _ \<Rightarrow> ''SERVICE_TASK''
   | EK_AgentTask _ _ _ _ \<Rightarrow> ''SERVICE_TASK''
   | EK_BusinessRuleTask _ _ \<Rightarrow> ''BUSINESS_RULE_TASK''
   | EK_ScriptTask _ _ \<Rightarrow> ''SCRIPT_TASK''
   | EK_UserTask _ \<Rightarrow> ''USER_TASK''
   | EK_ExclusiveGateway \<Rightarrow> ''EXCLUSIVE_GATEWAY''
   | EK_ParallelGateway \<Rightarrow> ''PARALLEL_GATEWAY''
   | EK_InclusiveGateway \<Rightarrow> ''INCLUSIVE_GATEWAY''
   | EK_EventBasedGateway \<Rightarrow> ''EVENT_BASED_GATEWAY''
   | EK_SubProcess _ \<Rightarrow> ''SUB_PROCESS''
   | EK_CallActivity _ _ _ \<Rightarrow> ''CALL_ACTIVITY'')"

record element =
  e_id :: elementid
  e_kind :: element_kind
  e_name :: "string option"
  e_outgoing :: "sequence_flow list"
  e_parent :: "elementid option"
  e_io :: io_mapping
  e_timer :: "timer_def option"
  e_retries :: "string option"
  e_multi_instance :: "multi_instance option"
  e_start_listeners :: "execution_listener list"
  e_end_listeners :: "execution_listener list"
  e_task_listeners :: "task_listener list"

section \<open>Ad-hoc sub-processes\<close>

datatype adhoc_implementation_type = AdHocJobWorker | AdHocBpmnTask

datatype adhoc_tool_kind =
    ToolServiceTask string
  | ToolUserTask user_task_props
  | ToolCallActivity "string option" bool bool
  | ToolSubProcess elementid
  | ToolOther

record adhoc_inner_flow =
  aif_from :: elementid
  aif_to :: elementid
  aif_condition :: "condition option"

record adhoc_tool =
  tool_element_id :: elementid
  tool_name :: string
  tool_kind :: adhoc_tool_kind
  tool_io :: io_mapping

record adhoc_subprocess_def =
  asd_container_id :: elementid
  asd_impl_type :: adhoc_implementation_type
  asd_completion_condition :: "string option"
  asd_active_elements_collection :: "string option"
  asd_output_collection :: "string option"
  asd_output_element :: "string option"
  asd_cancel_remaining_instances :: bool
  asd_tools :: "adhoc_tool list"
  asd_inner_flows :: "adhoc_inner_flow list"

record adhoc_activate_element =
  aae_element_id :: elementid
  aae_variables :: vars

record adhoc_job_result =
  ajr_activate_elements :: "adhoc_activate_element list"
  ajr_completion_condition_fulfilled :: bool
  ajr_cancel_remaining_instances :: bool

definition adhoc_job_result_is_empty :: "adhoc_job_result \<Rightarrow> bool" where
  "adhoc_job_result_is_empty r \<longleftrightarrow>
     ajr_activate_elements r = [] \<and> \<not> ajr_completion_condition_fulfilled r \<and> \<not> ajr_cancel_remaining_instances r"

section \<open>User-task corrections\<close>

record user_task_corrections =
  uc_assignee :: "string option"
  uc_candidate_groups :: "string list option"
  uc_candidate_users :: "string list option"
  uc_due_date :: "string option"
  uc_follow_up_date :: "string option"
  uc_priority :: "int option"

definition no_corrections :: user_task_corrections where
  "no_corrections = \<lparr> uc_assignee = None, uc_candidate_groups = None, uc_candidate_users = None,
     uc_due_date = None, uc_follow_up_date = None, uc_priority = None \<rparr>"

definition corrections_is_empty :: "user_task_corrections \<Rightarrow> bool" where
  "corrections_is_empty c \<longleftrightarrow> uc_assignee c = None \<and> uc_candidate_groups c = None \<and> uc_candidate_users c = None
     \<and> uc_due_date c = None \<and> uc_follow_up_date c = None \<and> uc_priority c = None"

definition overlay :: "'a option \<Rightarrow> 'a option \<Rightarrow> 'a option" where
  "overlay old new = (case new of None \<Rightarrow> old | Some v \<Rightarrow> Some v)"

definition corrections_merge :: "user_task_corrections \<Rightarrow> user_task_corrections \<Rightarrow> user_task_corrections" where
  "corrections_merge c d = \<lparr>
     uc_assignee = overlay (uc_assignee c) (uc_assignee d),
     uc_candidate_groups = overlay (uc_candidate_groups c) (uc_candidate_groups d),
     uc_candidate_users = overlay (uc_candidate_users c) (uc_candidate_users d),
     uc_due_date = overlay (uc_due_date c) (uc_due_date d),
     uc_follow_up_date = overlay (uc_follow_up_date c) (uc_follow_up_date d),
     uc_priority = overlay (uc_priority c) (uc_priority d) \<rparr>"

record task_listener_job_result =
  tjr_denied :: bool
  tjr_denied_reason :: "string option"
  tjr_corrections :: user_task_corrections

definition task_listener_job_result_is_empty :: "task_listener_job_result \<Rightarrow> bool" where
  "task_listener_job_result_is_empty r \<longleftrightarrow>
     \<not> tjr_denied r \<and> tjr_denied_reason r = None \<and> corrections_is_empty (tjr_corrections r)"

section \<open>Process definitions\<close>

record process_definition =
  pd_id :: string
  pd_name :: "string option"
  pd_elements :: "(elementid, element) fmap"
  pd_start_event :: elementid
  pd_xml :: string
  pd_adhoc :: "adhoc_subprocess_def list"
  pd_start_form_id :: "string option"

definition normalize_element :: "element \<Rightarrow> element" where
  "normalize_element e = (case e_kind e of
     EK_AgentTask agent_type job_type _ _ \<Rightarrow>
       e\<lparr> e_kind := EK_ServiceTask (case job_type of None \<Rightarrow> e_id e | Some t \<Rightarrow> t) None (Some agent_type) fmempty [] \<rparr>
   | _ \<Rightarrow> e)"

definition normalize_legacy_agent_tasks :: "process_definition \<Rightarrow> process_definition" where
  "normalize_legacy_agent_tasks p = p\<lparr> pd_elements := fmmap normalize_element (pd_elements p) \<rparr>"

definition pd_element :: "process_definition \<Rightarrow> elementid \<Rightarrow> element option" where
  "pd_element p i = fmlookup (pd_elements p) i"

definition flows_to :: "elementid \<Rightarrow> sequence_flow list \<Rightarrow> nat" where
  "flows_to i fs = length (filter (\<lambda>f. sf_to f = i) fs)"

definition incoming_count :: "process_definition \<Rightarrow> elementid \<Rightarrow> nat" where
  "incoming_count p i =
     sum_list (map (\<lambda>(_, e). flows_to i (e_outgoing e)) (sorted_list_of_fmap (pd_elements p)))"

definition pd_incoming_flow :: "process_definition \<Rightarrow> elementid \<Rightarrow> nat \<Rightarrow> (elementid \<times> incoming_flow) option" where
  "pd_incoming_flow p from index = (case pd_element p from of
     None \<Rightarrow> None
   | Some e \<Rightarrow>
       (if index < length (e_outgoing e)
        then (let to = sf_to (e_outgoing e ! index)
              in Some (to, IncomingFlow from (flows_to to (take index (e_outgoing e)))))
        else None))"

definition has_incoming_flow :: "process_definition \<Rightarrow> elementid \<Rightarrow> incoming_flow \<Rightarrow> bool" where
  "has_incoming_flow p to flow = (case pd_element p (if_from flow) of
     None \<Rightarrow> False
   | Some e \<Rightarrow> if_ordinal flow < flows_to to (e_outgoing e))"

section \<open>Flow identities are one-to-one with the drawn sequence flows\<close>

lemma flows_to_take_strict:
  "i < j \<Longrightarrow> j \<le> length fs \<Longrightarrow> sf_to (fs ! i) = to \<Longrightarrow> flows_to to (take i fs) < flows_to to (take j fs)"
proof (induction j)
  case (Suc j)
  have step: "flows_to to (take (Suc j) fs) = flows_to to (take j fs) + (if sf_to (fs ! j) = to then 1 else 0)"
    using Suc.prems by (simp add: flows_to_def take_Suc_conv_app_nth)
  show ?case
  proof (cases "i = j")
    case True
    then show ?thesis using step Suc.prems by simp
  next
    case False
    then show ?thesis using step Suc by simp
  qed
qed simp

lemma flows_to_take_le: "flows_to to (take i fs) \<le> flows_to to fs"
  by (metis append_take_drop_id filter_append flows_to_def le_add1 length_append)

lemma flows_to_index_ex:
  "n < flows_to to fs \<Longrightarrow> \<exists>i < length fs. sf_to (fs ! i) = to \<and> flows_to to (take i fs) = n"
proof (induction fs rule: rev_induct)
  case (snoc f fs)
  show ?case
  proof (cases "n < flows_to to fs")
    case True
    then obtain i where "i < length fs" "sf_to (fs ! i) = to" "flows_to to (take i fs) = n"
      using snoc.IH by blast
    then show ?thesis by (intro exI [of _ i]) (simp add: nth_append)
  next
    case False
    with snoc.prems have "sf_to f = to" "flows_to to fs = n"
      by (auto simp: flows_to_def split: if_splits)
    then show ?thesis by (intro exI [of _ "length fs"]) simp
  qed
qed (simp add: flows_to_def)

lemma incoming_flow_has:
  "pd_incoming_flow p from i = Some (to, f) \<Longrightarrow> if_from f = from \<and> has_incoming_flow p to f"
proof -
  assume "pd_incoming_flow p from i = Some (to, f)"
  then obtain e where e: "pd_element p from = Some e" "i < length (e_outgoing e)"
      "to = sf_to (e_outgoing e ! i)" "f = IncomingFlow from (flows_to to (take i (e_outgoing e)))"
    by (auto simp: pd_incoming_flow_def Let_def split: option.splits if_splits)
  have "flows_to to (take i (e_outgoing e)) < flows_to to (take (length (e_outgoing e)) (e_outgoing e))"
    by (rule flows_to_take_strict) (use e in auto)
  with e show ?thesis by (simp add: has_incoming_flow_def)
qed

lemma incoming_flow_inj:
  assumes "pd_incoming_flow p a i = Some (to, f)" "pd_incoming_flow p b j = Some (to, f)"
  shows "a = b \<and> i = j"
proof -
  from assms [THEN incoming_flow_has] have ab: "a = b" by simp
  then obtain e where e: "pd_element p a = Some e" "i < length (e_outgoing e)" "j < length (e_outgoing e)"
      "sf_to (e_outgoing e ! i) = to" "sf_to (e_outgoing e ! j) = to"
      "flows_to to (take i (e_outgoing e)) = flows_to to (take j (e_outgoing e))"
    using assms by (auto simp: pd_incoming_flow_def Let_def split: option.splits if_splits)
  have "i = j"
    using flows_to_take_strict [of i j "e_outgoing e" to] flows_to_take_strict [of j i "e_outgoing e" to] e
    by (cases i j rule: linorder_cases) auto
  with ab show ?thesis by simp
qed

lemma incoming_flow_ex:
  assumes "has_incoming_flow p to f"
  shows "\<exists>i. pd_incoming_flow p (if_from f) i = Some (to, f)"
proof -
  obtain e where e: "pd_element p (if_from f) = Some e" "if_ordinal f < flows_to to (e_outgoing e)"
    using assms by (auto simp: has_incoming_flow_def split: option.splits)
  from flows_to_index_ex [OF e(2)] obtain i where
    "i < length (e_outgoing e)" "sf_to (e_outgoing e ! i) = to" "flows_to to (take i (e_outgoing e)) = if_ordinal f"
    by blast
  with e show ?thesis by (intro exI [of _ i]) (simp add: pd_incoming_flow_def)
qed

lemma incoming_count_sum:
  "incoming_count p to = (\<Sum>a \<in> fset (fmdom (pd_elements p)). case pd_element p a of None \<Rightarrow> 0 | Some e \<Rightarrow> flows_to to (e_outgoing e))"
proof -
  have "incoming_count p to =
      sum_list (map (\<lambda>a. flows_to to (e_outgoing (the (fmlookup (pd_elements p) a)))) (sorted_list_of_fset (fmdom (pd_elements p))))"
    by (simp add: incoming_count_def sorted_list_of_fmap_def comp_def)
  also have "\<dots> = (\<Sum>a \<in> fset (fmdom (pd_elements p)). flows_to to (e_outgoing (the (fmlookup (pd_elements p) a))))"
    by (simp add: sum_list_distinct_conv_sum_set sorted_list_of_fset.rep_eq)
  also have "\<dots> = (\<Sum>a \<in> fset (fmdom (pd_elements p)). case pd_element p a of None \<Rightarrow> 0 | Some e \<Rightarrow> flows_to to (e_outgoing e))"
    by (rule sum.cong) (auto simp: pd_element_def fmlookup_dom_iff split: option.splits)
  finally show ?thesis .
qed

lemma incoming_flow_set:
  "{f. has_incoming_flow p to f} =
     (\<Union>a \<in> fset (fmdom (pd_elements p)). IncomingFlow a ` {..< (case pd_element p a of None \<Rightarrow> 0 | Some e \<Rightarrow> flows_to to (e_outgoing e))})"
proof (intro equalityI subsetI)
  fix f
  assume "f \<in> {f. has_incoming_flow p to f}"
  then obtain e where e: "fmlookup (pd_elements p) (if_from f) = Some e" "if_ordinal f < flows_to to (e_outgoing e)"
    by (auto simp: has_incoming_flow_def pd_element_def split: option.splits)
  then have "f \<in> IncomingFlow (if_from f) ` {..< flows_to to (e_outgoing e)}"
    by (intro image_eqI [of _ _ "if_ordinal f"]) simp_all
  with e show "f \<in> (\<Union>a \<in> fset (fmdom (pd_elements p)). IncomingFlow a ` {..< (case pd_element p a of None \<Rightarrow> 0 | Some e \<Rightarrow> flows_to to (e_outgoing e))})"
    by (intro UN_I [of "if_from f"]) (auto simp: pd_element_def fmlookup_dom_iff intro: fmdomI)
qed (auto simp: has_incoming_flow_def split: option.splits)

lemma card_incoming_flows: "card {f. has_incoming_flow p to f} = incoming_count p to"
proof -
  have "card (\<Union>a \<in> fset (fmdom (pd_elements p)). IncomingFlow a ` {..< (case pd_element p a of None \<Rightarrow> 0 | Some e \<Rightarrow> flows_to to (e_outgoing e))})
      = (\<Sum>a \<in> fset (fmdom (pd_elements p)). card (IncomingFlow a ` {..< (case pd_element p a of None \<Rightarrow> 0 | Some e \<Rightarrow> flows_to to (e_outgoing e))}))"
    by (rule card_UN_disjoint) auto
  also have "\<dots> = (\<Sum>a \<in> fset (fmdom (pd_elements p)). case pd_element p a of None \<Rightarrow> 0 | Some e \<Rightarrow> flows_to to (e_outgoing e))"
    by (simp add: card_image inj_on_def)
  finally show ?thesis by (simp add: incoming_flow_set incoming_count_sum)
qed

section \<open>Properties of flow identities\<close>

text \<open>the flow identities an element can receive tokens over are one-to-one with the sequence
  flows drawn into it: every identity is that of exactly one outgoing flow, and \<open>incoming_count\<close> is
  their number.\<close>

theorem incoming_flow_identities:
  "card {f. has_incoming_flow p to f} = incoming_count p to
   \<and> (\<forall>f. has_incoming_flow p to f \<longleftrightarrow> (\<exists>!x. pd_incoming_flow p (fst x) (snd x) = Some (to, f)))"
proof -
  have "\<exists>!x. pd_incoming_flow p (fst x) (snd x) = Some (to, f)" if "has_incoming_flow p to f" for f
  proof -
    from incoming_flow_ex [OF that] obtain i where i: "pd_incoming_flow p (if_from f) i = Some (to, f)" ..
    show ?thesis
    proof (rule ex1I [of _ "(if_from f, i)"])
      fix x
      assume "pd_incoming_flow p (fst x) (snd x) = Some (to, f)"
      from incoming_flow_inj [OF this i] show "x = (if_from f, i)" by (simp add: prod_eq_iff)
    qed (simp add: i)
  qed
  moreover have "has_incoming_flow p to f" if "\<exists>!x. pd_incoming_flow p (fst x) (snd x) = Some (to, f)" for f
    using that incoming_flow_has by blast
  ultimately show ?thesis using card_incoming_flows by blast
qed

end
