(* ===== verification/Flow_Arrivals.thy ===== *)
theory Flow_Arrivals
  imports Model "HOL-Library.Multiset"
begin

text \<open>
  \<open>FlowArrivals\<close> of \<open>engine-core/src/state/types.rs\<close>: the tokens waiting at a join, counted per
  incoming flow in a vector that is sorted by flow and holds no zero count. The operations are
  translated with their binary search; the lemmas show that the vector is the unique sorted
  representation of a function from flows to counts, so every operation is determined by what it
  does to the counts.
\<close>

section \<open>Operations\<close>

type_synonym flow_arrivals = "(incoming_flow \<times> nat) list"

datatype search_result = Found nat | Missing nat

function bsearch :: "flow_arrivals \<Rightarrow> incoming_flow \<Rightarrow> nat \<Rightarrow> nat \<Rightarrow> search_result" where
  "bsearch xs f lo hi =
     (if hi \<le> lo then Missing lo
      else let mid = lo + (hi - lo) div 2 in
        if fst (xs ! mid) = f then Found mid
        else if fst (xs ! mid) < f then bsearch xs f (Suc mid) hi
        else bsearch xs f lo mid)"
  by pat_completeness auto
termination
  by (relation "measure (\<lambda>(xs, f, lo, hi). hi - lo)") auto

declare bsearch.simps [simp del]

definition binary_search_by :: "flow_arrivals \<Rightarrow> incoming_flow \<Rightarrow> search_result" where
  "binary_search_by xs f = bsearch xs f 0 (length xs)"

definition fa_add :: "flow_arrivals \<Rightarrow> incoming_flow \<Rightarrow> nat \<Rightarrow> flow_arrivals" where
  "fa_add xs flow tokens =
     (if tokens = 0 then xs
      else case binary_search_by xs flow of
        Found i \<Rightarrow> xs[i := (fst (xs ! i), snd (xs ! i) + tokens)]
      | Missing i \<Rightarrow> take i xs @ (flow, tokens) # drop i xs)"

definition fa_record :: "flow_arrivals \<Rightarrow> incoming_flow \<Rightarrow> flow_arrivals" where
  "fa_record xs flow = fa_add xs flow 1"

definition distinct_flows :: "flow_arrivals \<Rightarrow> nat" where
  "distinct_flows xs = length xs"

definition fa_count :: "flow_arrivals \<Rightarrow> incoming_flow \<Rightarrow> nat" where
  "fa_count xs flow = (case binary_search_by xs flow of Found i \<Rightarrow> snd (xs ! i) | Missing _ \<Rightarrow> 0)"

definition consume_one_each :: "flow_arrivals \<Rightarrow> flow_arrivals" where
  "consume_one_each xs = filter (\<lambda>(_, count). 0 < count) (map (\<lambda>(f, count). (f, count - 1)) xs)"

definition fa_is_empty :: "flow_arrivals \<Rightarrow> bool" where
  "fa_is_empty xs = (xs = [])"

definition fa_remap :: "(elementid \<Rightarrow> elementid) \<Rightarrow> flow_arrivals \<Rightarrow> flow_arrivals" where
  "fa_remap remap_id old =
     foldl (\<lambda>acc (flow, count). fa_add acc (IncomingFlow (remap_id (if_from flow)) (if_ordinal flow)) count) [] old"

section \<open>The representation invariant and the abstract counts\<close>

definition fa_inv :: "flow_arrivals \<Rightarrow> bool" where
  "fa_inv xs \<longleftrightarrow> sorted_wrt (<) (map fst xs) \<and> (\<forall>(f, n) \<in> set xs. 0 < n)"

definition counts :: "flow_arrivals \<Rightarrow> incoming_flow \<Rightarrow> nat" where
  "counts xs f = (case map_of xs f of None \<Rightarrow> 0 | Some n \<Rightarrow> n)"

lemma fa_inv_Nil [simp]: "fa_inv []"
  by (simp add: fa_inv_def)

lemma fa_inv_Cons:
  "fa_inv ((f, n) # xs) \<longleftrightarrow> 0 < n \<and> (\<forall>g \<in> fst ` set xs. f < g) \<and> fa_inv xs"
  by (auto simp: fa_inv_def)

lemma fa_inv_distinct: "fa_inv xs \<Longrightarrow> distinct (map fst xs)"
  by (simp add: fa_inv_def strict_sorted_iff)

lemma sorted_nth_less:
  "sorted_wrt (<) (map fst xs) \<Longrightarrow> i < j \<Longrightarrow> j < length xs \<Longrightarrow> fst (xs ! i) < fst (xs ! j)"
  using sorted_wrt_nth_less [of "(<)" "map fst xs" i j] by simp

text \<open>The binary search of a sorted vector finds the flow or the place where it belongs.\<close>

lemma bsearch_spec:
  assumes "sorted_wrt (<) (map fst xs)" "hi \<le> length xs" "lo \<le> hi"
    "\<forall>j < lo. fst (xs ! j) < f" "\<forall>j. hi \<le> j \<and> j < length xs \<longrightarrow> f < fst (xs ! j)"
  shows "case bsearch xs f lo hi of
           Found i \<Rightarrow> i < length xs \<and> fst (xs ! i) = f
         | Missing i \<Rightarrow> i \<le> length xs \<and> (\<forall>j < i. fst (xs ! j) < f) \<and> (\<forall>j. i \<le> j \<and> j < length xs \<longrightarrow> f < fst (xs ! j))"
  using assms
proof (induction xs f lo hi rule: bsearch.induct)
  case (1 xs f lo hi)
  show ?case
  proof (cases "hi \<le> lo")
    case True
    then have "bsearch xs f lo hi = Missing lo" by (simp add: bsearch.simps [of xs f lo hi])
    with True "1.prems" show ?thesis by simp
  next
    case False
    define mid where "mid = lo + (hi - lo) div 2"
    have mid: "lo \<le> mid" "mid < hi" "mid < length xs" using False "1.prems" by (auto simp: mid_def)
    consider "fst (xs ! mid) = f" | "fst (xs ! mid) < f" | "f < fst (xs ! mid)" by fastforce
    then show ?thesis
    proof cases
      case 1
      then show ?thesis using False mid by (simp add: bsearch.simps [of xs f lo hi] mid_def)
    next
      case 2
      then have "\<forall>j < Suc mid. fst (xs ! j) < f"
        using sorted_nth_less [OF "1.prems"(1)] mid by (metis less_Suc_eq order.strict_trans)
      with "1.IH"(1) [OF False mid_def] 2 mid "1.prems" have
        "case bsearch xs f (Suc mid) hi of
           Found i \<Rightarrow> i < length xs \<and> fst (xs ! i) = f
         | Missing i \<Rightarrow> i \<le> length xs \<and> (\<forall>j < i. fst (xs ! j) < f) \<and> (\<forall>j. i \<le> j \<and> j < length xs \<longrightarrow> f < fst (xs ! j))"
        by auto
      moreover have "bsearch xs f lo hi = bsearch xs f (Suc mid) hi"
        using False less_imp_neq [OF 2] 2 by (simp add: bsearch.simps [of xs f lo hi] mid_def [symmetric])
      ultimately show ?thesis by simp
    next
      case 3
      then have "\<forall>j. mid \<le> j \<and> j < length xs \<longrightarrow> f < fst (xs ! j)"
        using sorted_nth_less [OF "1.prems"(1)] by (metis le_neq_implies_less order.strict_trans)
      with "1.IH"(2) [OF False mid_def] 3 mid "1.prems" have
        "case bsearch xs f lo mid of
           Found i \<Rightarrow> i < length xs \<and> fst (xs ! i) = f
         | Missing i \<Rightarrow> i \<le> length xs \<and> (\<forall>j < i. fst (xs ! j) < f) \<and> (\<forall>j. i \<le> j \<and> j < length xs \<longrightarrow> f < fst (xs ! j))"
        by auto
      moreover have "bsearch xs f lo hi = bsearch xs f lo mid"
        using False less_imp_neq [OF 3] less_not_sym [OF 3] by (simp add: bsearch.simps [of xs f lo hi] mid_def [symmetric])
      ultimately show ?thesis by simp
    qed
  qed
qed

lemma binary_search_spec:
  assumes "fa_inv xs"
  shows "case binary_search_by xs f of
           Found i \<Rightarrow> i < length xs \<and> fst (xs ! i) = f
         | Missing i \<Rightarrow> i \<le> length xs \<and> (\<forall>j < i. fst (xs ! j) < f) \<and> (\<forall>j. i \<le> j \<and> j < length xs \<longrightarrow> f < fst (xs ! j))"
  unfolding binary_search_by_def
  by (rule bsearch_spec) (use assms in \<open>auto simp: fa_inv_def\<close>)

lemma binary_search_Found:
  "fa_inv xs \<Longrightarrow> binary_search_by xs f = Found i \<Longrightarrow> i < length xs \<and> fst (xs ! i) = f"
  using binary_search_spec [of xs f] by simp

lemma binary_search_Missing:
  "fa_inv xs \<Longrightarrow> binary_search_by xs f = Missing i \<Longrightarrow>
     i \<le> length xs \<and> (\<forall>j < i. fst (xs ! j) < f) \<and> (\<forall>j. i \<le> j \<and> j < length xs \<longrightarrow> f < fst (xs ! j))"
  using binary_search_spec [of xs f] by simp

lemma Missing_bounds:
  assumes "fa_inv xs" "binary_search_by xs f = Missing i"
  shows "g \<in> fst ` set (take i xs) \<Longrightarrow> g < f" "g \<in> fst ` set (drop i xs) \<Longrightarrow> f < g" "f \<notin> fst ` set xs"
proof -
  note b = binary_search_Missing [OF assms]
  show 1: "g \<in> fst ` set (take i xs) \<Longrightarrow> g < f" for g
  proof -
    assume "g \<in> fst ` set (take i xs)"
    then obtain j where "j < i" "g = fst (xs ! j)" by (auto simp: in_set_conv_nth)
    with b show "g < f" by auto
  qed
  show 2: "g \<in> fst ` set (drop i xs) \<Longrightarrow> f < g" for g
  proof -
    assume "g \<in> fst ` set (drop i xs)"
    then obtain j where "j < length xs - i" "g = fst (xs ! (i + j))"
      by (auto simp: in_set_conv_nth)
    with b show "f < g" by auto
  qed
  show "f \<notin> fst ` set xs"
    using 1 [of f] 2 [of f] by (metis Un_iff append_take_drop_id image_Un less_irrefl set_append)
qed

lemma fa_count_counts: "fa_inv xs \<Longrightarrow> fa_count xs f = counts xs f"
proof (cases "binary_search_by xs f")
  case (Found i)
  assume inv: "fa_inv xs"
  with Found have "(f, snd (xs ! i)) \<in> set xs" by (metis binary_search_Found nth_mem prod.collapse)
  with inv Found show ?thesis by (simp add: fa_count_def counts_def fa_inv_distinct)
next
  case (Missing i)
  assume "fa_inv xs"
  from Missing_bounds(3) [OF this Missing] Missing show ?thesis
    by (simp add: fa_count_def counts_def map_of_eq_None_iff [THEN iffD2])
qed

section \<open>What every operation does to the invariant and to the counts\<close>

lemma fa_add_inv [simp]: assumes "fa_inv xs" shows "fa_inv (fa_add xs f n)"
proof (cases "binary_search_by xs f")
  case (Found i)
  have "map fst (xs[i := (fst (xs ! i), snd (xs ! i) + n)]) = map fst xs"
    by (metis fst_conv list_update_id map_update nth_map list_update_beyond not_le)
  then show ?thesis using assms Found
    by (auto simp: fa_add_def fa_inv_def dest!: subsetD [OF set_update_subset_insert])
next
  case (Missing i)
  note b = Missing_bounds [OF assms Missing]
  have "sorted_wrt (<) (map fst (take i xs) @ map fst (drop i xs))"
    using assms by (simp add: fa_inv_def flip: map_append)
  then have "sorted_wrt (<) (map fst (take i xs @ (f, n) # drop i xs))"
    using b(1) b(2) by (auto simp: sorted_wrt_append)
  moreover have "set (take i xs) \<subseteq> set xs" "set (drop i xs) \<subseteq> set xs"
    by (simp_all add: set_take_subset set_drop_subset)
  ultimately show ?thesis using assms Missing by (auto simp: fa_add_def fa_inv_def)
qed

lemma counts_eqI: "fa_inv xs \<Longrightarrow> (f, n) \<in> set xs \<Longrightarrow> counts xs f = n"
  by (simp add: counts_def fa_inv_distinct)

lemma counts_zero: "f \<notin> fst ` set xs \<Longrightarrow> counts xs f = 0"
  by (simp add: counts_def map_of_eq_None_iff [THEN iffD2])

lemma counts_pos_iff: "fa_inv xs \<Longrightarrow> 0 < counts xs f \<longleftrightarrow> f \<in> fst ` set xs"
  by (auto simp: counts_eqI counts_zero fa_inv_def dest: counts_eqI [rotated] intro: ccontr)

lemma counts_append: "counts (xs @ ys) g = (if g \<in> fst ` set xs then counts xs g else counts ys g)"
proof (cases "map_of xs g")
  case None
  then have "g \<notin> fst ` set xs" by (simp add: map_of_eq_None_iff)
  with None show ?thesis by (simp add: counts_def map_add_def)
next
  case (Some n)
  then have "g \<in> fst ` set xs" by (metis domI dom_map_of_conv_image_fst)
  with Some show ?thesis by (simp add: counts_def map_add_Some_iff [THEN iffD2])
qed

lemma counts_Cons_eq: "counts ((f, n) # xs) g = (if g = f then n else counts xs g)"
  by (simp add: counts_def)

lemma counts_fa_add:
  assumes "fa_inv xs"
  shows "counts (fa_add xs f n) g = counts xs g + (if g = f then n else 0)"
proof (cases "n = 0")
  case True
  then show ?thesis by (simp add: fa_add_def)
next
  case n: False
  show ?thesis
  proof (cases "binary_search_by xs f")
    case (Found i)
    from binary_search_Found [OF assms Found] have i: "i < length xs" "fst (xs ! i) = f" by auto
    have xs: "xs = take i xs @ (f, snd (xs ! i)) # drop (Suc i) xs"
      using i by (metis id_take_nth_drop prod.collapse)
    have "fa_add xs f n = take i xs @ (f, snd (xs ! i) + n) # drop (Suc i) xs"
      using Found n i by (simp add: fa_add_def upd_conv_take_nth_drop)
    moreover have "f \<notin> fst ` set (take i xs)"
      using fa_inv_distinct [OF assms] by (subst (asm) xs) auto
    ultimately have "counts (fa_add xs f n) g =
        counts (take i xs @ (f, snd (xs ! i)) # drop (Suc i) xs) g + (if g = f then n else 0)"
      by (simp add: counts_append counts_Cons_eq)
    then show ?thesis using xs by simp
  next
    case (Missing i)
    note b = Missing_bounds [OF assms Missing]
    have "f \<notin> fst ` set (take i xs)" using b(1) by blast
    then have "counts (fa_add xs f n) g = (if g = f then n else counts (take i xs @ drop i xs) g)"
      using Missing n by (simp add: fa_add_def counts_append counts_Cons_eq del: append_take_drop_id)
    then show ?thesis using b(3) by (simp add: counts_zero)
  qed
qed

lemma consume_inv [simp]: "fa_inv xs \<Longrightarrow> fa_inv (consume_one_each xs)"
proof (induction xs)
  case (Cons x xs)
  obtain f n where x: "x = (f, n)" by fastforce
  have "fst ` set (consume_one_each xs) \<subseteq> fst ` set xs"
    by (force simp: consume_one_each_def)
  with Cons x show ?case by (auto simp: fa_inv_Cons consume_one_each_def)
qed (simp add: consume_one_each_def)

lemma counts_consume: "fa_inv xs \<Longrightarrow> counts (consume_one_each xs) g = counts xs g - 1"
proof (induction xs)
  case (Cons x xs)
  obtain f n where x: "x = (f, n)" by fastforce
  with Cons.prems have inv: "fa_inv xs" "f \<notin> fst ` set xs" by (auto simp: fa_inv_Cons)
  have tail: "map_of (consume_one_each xs) f = None"
    using inv(2) by (force simp: consume_one_each_def map_of_eq_None_iff)
  have "consume_one_each (x # xs) = (if 1 < n then [(f, n - 1)] else []) @ consume_one_each xs"
    using x by (auto simp: consume_one_each_def)
  with Cons.IH [OF inv(1)] tail x show ?case by (auto simp: counts_def)
qed (simp add: consume_one_each_def counts_def)

text \<open>The vector is the only sorted representation of its counts.\<close>

lemma fa_canonical:
  "fa_inv xs \<Longrightarrow> fa_inv ys \<Longrightarrow> counts xs = counts ys \<Longrightarrow> xs = ys"
proof (induction xs arbitrary: ys)
  case Nil
  have "fst ` set ys = {}" using Nil counts_pos_iff [of ys] by (metis counts_zero emptyE equals0I list.set(1) image_empty less_irrefl)
  then show ?case by simp
next
  case (Cons x xs)
  obtain f n where x: "x = (f, n)" by fastforce
  have keys: "fst ` set (x # xs) = fst ` set ys"
    using Cons.prems counts_pos_iff [of "x # xs"] counts_pos_iff [of ys] by (metis equalityI subsetI)
  then obtain g m ys' where ys: "ys = (g, m) # ys'" by (cases ys) auto
  have "\<forall>h \<in> fst ` set (x # xs). f \<le> h" "\<forall>h \<in> fst ` set ys. g \<le> h"
    using Cons.prems x ys by (auto simp: fa_inv_Cons intro: less_imp_le)
  then have fg: "f = g" using keys x ys by (metis antisym fst_conv image_eqI list.set_intros(1))
  have nm: "n = m" using Cons.prems(3) x ys fg by (metis counts_def map_of_Cons_code(2) option.simps(5))
  have "counts xs = counts ys'"
  proof
    fix h
    show "counts xs h = counts ys' h"
    proof (cases "h = f")
      case True
      then show ?thesis using Cons.prems x ys fg by (metis counts_zero fa_inv_Cons less_irrefl)
    next
      case False
      then show ?thesis using Cons.prems x ys fg by (metis counts_Cons_eq)
    qed
  qed
  with Cons.IH [of ys'] Cons.prems x ys fg nm show ?case by (auto simp: fa_inv_Cons)
qed

lemma distinct_flows_card: "fa_inv xs \<Longrightarrow> distinct_flows xs = card {f. 0 < counts xs f}"
proof -
  assume inv: "fa_inv xs"
  then have "{f. 0 < counts xs f} = set (map fst xs)" by (auto simp: counts_pos_iff)
  with fa_inv_distinct [OF inv] show ?thesis
    by (metis distinct_card distinct_flows_def length_map)
qed

section \<open>Counted bags: the contract the join bookkeeping relies on\<close>

text \<open>A counted bag is a container that is determined by the counts of its items. Adding is then
  commutative and a whole batch of arrivals can be recorded in any order.\<close>

locale counted_bag =
  fixes add :: "'b \<Rightarrow> 'f \<Rightarrow> nat \<Rightarrow> 'b"
    and count :: "'b \<Rightarrow> 'f \<Rightarrow> nat"
    and inv :: "'b \<Rightarrow> bool"
    and empty :: 'b
  assumes inv_empty: "inv empty"
    and count_empty: "count empty g = 0"
    and inv_add: "inv b \<Longrightarrow> inv (add b f n)"
    and count_add: "inv b \<Longrightarrow> count (add b f n) g = count b g + (if g = f then n else 0)"
    and canonical: "inv b \<Longrightarrow> inv c \<Longrightarrow> count b = count c \<Longrightarrow> b = c"
begin

lemma inv_foldl: "inv b \<Longrightarrow> inv (foldl (\<lambda>b (f, n). add b (h f) n) b xs)"
  by (induction xs arbitrary: b) (auto simp: inv_add)

lemma count_foldl:
  "inv b \<Longrightarrow> count (foldl (\<lambda>b (f, n). add b (h f) n) b xs) g =
     count b g + sum_list (map snd (filter (\<lambda>(f, n). h f = g) xs))"
  by (induction xs arbitrary: b) (auto simp: inv_add count_add)

lemma foldl_mset_cong:
  assumes "inv b" "mset xs = mset ys"
  shows "foldl (\<lambda>b (f, n). add b (h f) n) b xs = foldl (\<lambda>b (f, n). add b (h f) n) b ys"
proof (rule canonical)
  have "sum_list (map snd (filter (\<lambda>(f, n). h f = g) xs)) = sum_list (map snd (filter (\<lambda>(f, n). h f = g) ys))" for g
  proof -
    have "mset (map snd (filter (\<lambda>(f, n). h f = g) xs)) = mset (map snd (filter (\<lambda>(f, n). h f = g) ys))"
      using assms(2) by (simp only: mset_map mset_filter)
    then show ?thesis by (simp only: flip: sum_mset_sum_list)
  qed
  then show "count (foldl (\<lambda>b (f, n). add b (h f) n) b xs) = count (foldl (\<lambda>b (f, n). add b (h f) n) b ys)"
    using assms(1) by (intro ext) (simp add: count_foldl)
qed (simp_all add: inv_foldl assms(1))

end

interpretation fa: counted_bag fa_add counts fa_inv "[]"
proof unfold_locales
  show "counts [] g = 0" for g by (simp add: counts_def)
  show "fa_inv b \<Longrightarrow> fa_inv c \<Longrightarrow> counts b = counts c \<Longrightarrow> b = c" for b c
    by (rule fa_canonical)
qed (simp_all only: fa_inv_Nil fa_add_inv counts_fa_add)

lemma fa_remap_foldl:
  "fa_remap r xs = foldl (\<lambda>b (f, n). fa_add b (IncomingFlow (r (if_from f)) (if_ordinal f)) n) [] xs"
  by (simp add: fa_remap_def)

lemma fa_remap_inv [simp]: "fa_inv (fa_remap r xs)"
  using fa.inv_foldl [of "[]" "\<lambda>f. IncomingFlow (r (if_from f)) (if_ordinal f)" xs]
  by (simp add: fa_remap_foldl)

lemma counts_fa_remap:
  "counts (fa_remap r xs) g =
     sum_list (map snd (filter (\<lambda>(f, n). IncomingFlow (r (if_from f)) (if_ordinal f) = g) xs))"
  using fa.count_foldl [of "[]" "\<lambda>f. IncomingFlow (r (if_from f)) (if_ordinal f)" xs g]
  by (simp add: fa_remap_foldl counts_def)

lemma foldl_fa_record:
  "foldl fa_record b fs = foldl (\<lambda>b (f, n). fa_add b f n) b (map (\<lambda>f. (f, 1)) fs)"
  by (induction fs arbitrary: b) (simp_all add: fa_record_def)

section \<open>Properties\<close>

lemma fa_total_counts: "fa_inv xs \<Longrightarrow> finite S \<Longrightarrow> fst ` set xs \<subseteq> S \<Longrightarrow> sum_list (map snd xs) = sum (counts xs) S"
proof (induction xs)
  case Nil
  then show ?case by (simp add: counts_def)
next
  case (Cons x xs)
  obtain f n where x: "x = (f, n)" by fastforce
  with Cons.prems have inv: "fa_inv xs" "f \<notin> fst ` set xs" "f \<in> S" by (auto simp: fa_inv_Cons)
  have "sum (counts (x # xs)) S = n + sum (counts (x # xs)) (S - {f})"
    using Cons.prems(2) inv(3) x by (simp add: sum.remove counts_Cons_eq)
  also have "sum (counts (x # xs)) (S - {f}) = sum (counts xs) (S - {f})"
    by (rule sum.cong) (auto simp: x counts_Cons_eq)
  also have "\<dots> = sum (counts xs) S"
    using Cons.prems(2) inv(2) inv(3) by (simp add: sum.remove [of S f] counts_zero)
  finally show ?case using Cons inv x by auto
qed

lemma sum_filter_fibres:
  "finite S \<Longrightarrow> (\<forall>(f, n) \<in> set xs. h f \<in> S) \<Longrightarrow>
   (\<Sum>g \<in> S. sum_list (map snd (filter (\<lambda>(f, n). h f = g) xs))) = sum_list (map snd (xs :: ('a \<times> nat) list))"
proof (induction xs)
  case (Cons x xs)
  obtain f n where x: "x = (f, n)" by fastforce
  have "(\<Sum>g \<in> S. sum_list (map snd (filter (\<lambda>(f, n). h f = g) (x # xs))))
      = (\<Sum>g \<in> S. (if g = h f then n else 0) + sum_list (map snd (filter (\<lambda>(f, n). h f = g) xs)))"
    by (rule sum.cong) (auto simp: x)
  also have "\<dots> = n + (\<Sum>g \<in> S. sum_list (map snd (filter (\<lambda>(f, n). h f = g) xs)))"
    using Cons.prems x by (simp add: sum.distrib)
  finally show ?case using Cons x by simp
qed simp

lemma fa_remap_total: "sum_list (map snd (fa_remap r xs)) = sum_list (map snd xs)"
proof -
  let ?h = "\<lambda>f. IncomingFlow (r (if_from f)) (if_ordinal f)"
  let ?S = "fst ` set (fa_remap r xs) \<union> ?h ` fst ` set xs"
  have "sum_list (map snd (fa_remap r xs)) = sum (counts (fa_remap r xs)) ?S"
    by (rule fa_total_counts) auto
  also have "\<dots> = (\<Sum>g \<in> ?S. sum_list (map snd (filter (\<lambda>(f, n). ?h f = g) xs)))"
    by (simp add: counts_fa_remap)
  also have "\<dots> = sum_list (map snd xs)"
    by (rule sum_filter_fibres) force+
  finally show ?thesis .
qed

text \<open>C38: recording tokens refines counting: whatever the order in which a batch of tokens arrives, the
  join holds the same vector, whose count of a flow is the number of tokens that came over it and
  whose length is the number of flows taken.\<close>

theorem arrivals_order_independent:
  assumes "mset fs = mset gs"
  shows "foldl fa_record [] fs = foldl fa_record [] gs
     \<and> fa_count (foldl fa_record [] fs) f = length (filter (\<lambda>g. g = f) fs)
     \<and> distinct_flows (foldl fa_record [] fs) = card (set fs)"
proof -
  let ?b = "foldl fa_record [] fs"
  have eq: "?b = foldl fa_record [] gs"
    unfolding foldl_fa_record
    by (rule fa.foldl_mset_cong [where h = "\<lambda>f. f"]) (simp_all add: assms)
  have inv: "fa_inv ?b" unfolding foldl_fa_record by (rule fa.inv_foldl [where h = "\<lambda>f. f"]) simp
  have cnt: "counts ?b f = length (filter (\<lambda>g. g = f) fs)" for f
  proof -
    have "sum_list (map snd (filter (\<lambda>(g, n). g = f) (map (\<lambda>f. (f, 1 :: nat)) fs))) = length (filter (\<lambda>g. g = f) fs)"
      by (induction fs) auto
    then show ?thesis unfolding foldl_fa_record
      using fa.count_foldl [of "[]" "\<lambda>f. f" "map (\<lambda>f. (f, 1)) fs" f] by (simp add: counts_def [of "[]"])
  qed
  have "{f. 0 < counts ?b f} = set fs" by (auto simp: cnt filter_empty_conv)
  then have "distinct_flows ?b = card (set fs)" by (simp add: distinct_flows_card [OF inv])
  moreover have "fa_count ?b f = length (filter (\<lambda>g. g = f) fs)" by (simp only: fa_count_counts [OF inv] cnt)
  ultimately show ?thesis using eq by blast
qed

theorem arrivals_order_independent_witness:
  "foldl fa_record [] [IncomingFlow ''b'' 0, IncomingFlow ''a'' 0] = foldl fa_record [] [IncomingFlow ''a'' 0, IncomingFlow ''b'' 0]
   \<and> fa_count (foldl fa_record [] [IncomingFlow ''b'' 0, IncomingFlow ''a'' 0]) (IncomingFlow ''a'' 0)
     = length (filter (\<lambda>g. g = IncomingFlow ''a'' 0) [IncomingFlow ''b'' 0, IncomingFlow ''a'' 0])
   \<and> distinct_flows (foldl fa_record [] [IncomingFlow ''b'' 0, IncomingFlow ''a'' 0]) = card (set [IncomingFlow ''b'' 0, IncomingFlow ''a'' 0])"
  by (rule arrivals_order_independent) simp

text \<open>Migrating the tokens of a join renames the flows they came over and loses none: the total is
  kept, and flows that become one flow add up.\<close>

theorem remap_keeps_tokens:
  "sum_list (map snd (fa_remap r xs)) = sum_list (map snd xs) \<and> fa_inv (fa_remap r xs)
   \<and> fa_count (fa_remap r xs) g =
       sum_list (map snd (filter (\<lambda>(f, n). IncomingFlow (r (if_from f)) (if_ordinal f) = g) xs))"
  by (simp add: fa_remap_total fa_count_counts counts_fa_remap)

text \<open>firing a join consumes exactly one token of every flow that has one and keeps the surplus.\<close>

theorem consume_keeps_surplus:
  assumes "fa_inv xs"
  shows "fa_inv (consume_one_each xs) \<and> fa_count (consume_one_each xs) f = fa_count xs f - 1
     \<and> (fa_is_empty (consume_one_each xs) \<longleftrightarrow> (\<forall>f. fa_count xs f \<le> 1))"
proof -
  have "consume_one_each xs = [] \<longleftrightarrow> counts (consume_one_each xs) = counts []"
    using fa_canonical [OF consume_inv [OF assms] fa_inv_Nil] by auto
  also have "\<dots> \<longleftrightarrow> (\<forall>f. counts xs f \<le> 1)"
    by (auto simp: fun_eq_iff counts_consume [OF assms] counts_def [of "[]"])
  finally show ?thesis
    using assms by (simp add: fa_count_counts counts_consume fa_is_empty_def)
qed

theorem consume_keeps_surplus_witness:
  "fa_inv (consume_one_each [(IncomingFlow ''a'' 0, 2)])
   \<and> fa_count (consume_one_each [(IncomingFlow ''a'' 0, 2)]) (IncomingFlow ''a'' 0)
     = fa_count [(IncomingFlow ''a'' 0, 2)] (IncomingFlow ''a'' 0) - 1
   \<and> (fa_is_empty (consume_one_each [(IncomingFlow ''a'' 0, 2)])
      \<longleftrightarrow> (\<forall>f. fa_count [(IncomingFlow ''a'' 0, 2)] f \<le> 1))"
  by (rule consume_keeps_surplus) (simp add: fa_inv_def)

end
