(* ===== verification/State_Types.thy ===== *)
theory State_Types
  imports Flow_Arrivals
begin

text \<open>
  The record types of the engine's working memory (\<open>engine-core/src/state/types.rs\<close>): jobs, user
  tasks, process instances, incidents, timers, subscriptions, deployed resources and \<open>State\<close>
  itself, with the queries over deployed definitions.
\<close>

section \<open>Process instances\<close>

datatype process_instance_state = PIActive | PICompleted | PITerminated | PITerminating | PISuspended

definition pi_state_as_str :: "process_instance_state \<Rightarrow> string" where
  "pi_state_as_str s = (case s of
     PIActive \<Rightarrow> ''ACTIVE''
   | PICompleted \<Rightarrow> ''COMPLETED''
   | PITerminated \<Rightarrow> ''TERMINATED''
   | PITerminating \<Rightarrow> ''TERMINATING''
   | PISuspended \<Rightarrow> ''SUSPENDED'')"

record compensation_subscription =
  cs_element_instance_key :: key
  cs_element_id :: elementid
  cs_handler :: elementid
  cs_scope :: key

record compensation_wait =
  cw_throw_element_id :: elementid
  cw_scope :: key
  cw_pending_handlers :: "elementid list"

record multi_instance_state =
  mis_element_id :: elementid
  mis_sequential :: bool
  mis_items :: "rval list"
  mis_output_collection :: "string option"
  mis_output_element :: "string option"
  mis_completion_condition :: "string option"
  mis_input_element :: "string option"
  mis_spawned :: nat
  mis_active :: "key fset"
  mis_child_indices :: "(key, nat) fmap"
  mis_output_values :: "rval option list"

record adhoc_state =
  ahs_element_id :: elementid
  ahs_output_collection :: "string option"
  ahs_output_element :: "string option"
  ahs_active :: "key fset"
  ahs_iterations :: nat
  ahs_completion_condition_fulfilled :: bool

record process_instance =
  pi_key :: key
  pi_process_id :: string
  pi_process_definition_key :: key
  pi_state :: process_instance_state
  pi_suspended_at :: "u64 option"
  pi_created_at :: u64
  pi_tags :: "string list"
  pi_business_id :: "string option"
  pi_parent_process_instance_key :: "key option"
  pi_parent_element_instance_key :: "key option"
  pi_active :: "(key, elementid) fmap"
  pi_scopes :: "(key, key) fmap"
  pi_variables :: vars
  pi_join_counts :: "(elementid, nat) fmap"
  pi_join_flow_arrivals :: "(elementid, flow_arrivals) fmap"
  pi_join_instances :: "(elementid, key) fmap"
  pi_incidents :: "key list"
  pi_variables_spilled :: bool
  pi_multi_instances :: "(key, multi_instance_state) fmap"
  pi_adhoc_instances :: "(key, adhoc_state) fmap"
  pi_scope_parents :: "(key, key) fmap"
  pi_scope_variables :: "(key, vars) fmap"
  pi_compensable :: "compensation_subscription list"
  pi_compensation_waits :: "(key, compensation_wait) fmap"
  pi_agent_instances :: "(key, agent_instance) fmap"
  pi_agent_history :: "(key, agent_history_record list) fmap"

definition join_flows_taken :: "process_instance \<Rightarrow> elementid \<Rightarrow> nat" where
  "join_flows_taken i join =
     (case fmlookup (pi_join_flow_arrivals i) join of None \<Rightarrow> 0 | Some a \<Rightarrow> distinct_flows a)
   + (case fmlookup (pi_join_counts i) join of None \<Rightarrow> 0 | Some n \<Rightarrow> n)"

section \<open>Jobs\<close>

datatype job_state = JCreated | JActivated | JFailed | JErrored | JCanceled | JCompleted

datatype job_kind =
    BpmnElement
  | ExecutionListener listener_event_type nat key
  | TaskListener task_listener_event_type nat key

record job =
  jb_key :: key
  jb_instance_key :: key
  jb_element_instance_key :: key
  jb_element_id :: elementid
  jb_job_type :: string
  jb_state :: job_state
  jb_worker :: "string option"
  jb_deadline :: "u64 option"
  jb_activated_at :: "u64 option"
  jb_activation_timeout :: "u64 option"
  jb_lease_token :: "string option"
  jb_durable_activation :: bool
  jb_activated :: bool
  jb_retries :: int
  jb_priority :: int
  jb_created_at :: u64
  jb_kind :: job_kind

definition attribution_worker :: "job \<Rightarrow> string option" where
  "attribution_worker j =
     (case jb_worker j of None \<Rightarrow> None | Some w \<Rightarrow> if w = [] then None else Some w)"

definition DEFAULT_JOB_PRIORITY :: int where
  "DEFAULT_JOB_PRIORITY = 50"

definition DEFAULT_JOB_RETRIES :: int where
  "DEFAULT_JOB_RETRIES = 3"

definition i32_min :: int where "i32_min = - (2 ^ 31)"
definition i32_max :: int where "i32_max = 2 ^ 31 - 1"

text \<open>Negation of an \<open>i32\<close> wraps at the minimum.\<close>

definition i32_neg :: "int \<Rightarrow> int" where
  "i32_neg p = (if p = i32_min then i32_min else - p)"

definition activation_order :: "int \<Rightarrow> key \<Rightarrow> int \<times> key" where
  "activation_order priority k = (i32_neg priority, k)"

section \<open>User tasks\<close>

record pending_user_task_update =
  puu_candidate_groups :: "string list option"
  puu_candidate_users :: "string list option"
  puu_due_date :: "string option option"
  puu_follow_up_date :: "string option option"
  puu_priority :: "int option"

record pending_user_task_transition =
  put_event_type :: task_listener_event_type
  put_assignee :: "string option"
  put_update :: "pending_user_task_update option"
  put_variables :: vars
  put_corrections :: user_task_corrections

datatype user_task_state = UTCreated | UTCompleted | UTCanceled

record user_task =
  ut_key :: key
  ut_instance_key :: key
  ut_element_instance_key :: key
  ut_element_id :: elementid
  ut_state :: user_task_state
  ut_assignee :: "string option"
  ut_candidate_groups :: "string list"
  ut_candidate_users :: "string list"
  ut_due_date :: "string option"
  ut_follow_up_date :: "string option"
  ut_priority :: int
  ut_form_key :: "key option"
  ut_external_form_reference :: "string option"
  ut_created_at :: u64
  ut_pending :: "pending_user_task_transition option"

section \<open>Incidents\<close>

datatype incident_kind = JobNoRetries | NoMatchingSequenceFlow | ExpressionEvaluation | UnhandledError
  | DecisionEvaluation | CalledElementError | IoMappingIncident

datatype io_mapping_redrive =
    RedriveActivation
  | RedriveCompletion
  | MiChildActivation key nat
  | MiBodyActivation
  | MiBodyCompletion
  | AdHocToolActivation elementid vars
  | CallActivitySpawn
  | AdHocCallActivitySpawn vars
  | AdHocToolOutputCollection vars
  | CallActivityCompletion vars

datatype incident_state = IncActive | IncResolved

record incident =
  inc_key :: key
  inc_instance_key :: key
  inc_element_instance_key :: key
  inc_element_id :: elementid
  inc_kind :: incident_kind
  inc_redrive :: "io_mapping_redrive option"
  inc_reason :: string
  inc_job_key :: "key option"
  inc_created_at :: u64
  inc_state :: incident_state
  inc_resolved_at :: "u64 option"
  inc_operation_reference :: "int option"

section \<open>Timers and subscriptions\<close>

datatype timer_state = TMCreated | TMTriggered | TMCanceled

datatype timer_kind =
    TimerIntermediateCatch
  | TimerInterruptingBoundary elementid
  | TimerNonInterruptingBoundary elementid

record timer =
  tm_key :: key
  tm_instance_key :: key
  tm_element_instance_key :: key
  tm_element_id :: elementid
  tm_due_at :: u64
  tm_state :: timer_state
  tm_kind :: timer_kind

datatype message_subscription_state = SubOpen | SubOpening | SubCorrelated | SubCanceled

datatype message_subscription_kind =
    SubIntermediateCatch
  | SubInterruptingBoundary elementid
  | SubNonInterruptingBoundary elementid

record message_subscription =
  ms_key :: key
  ms_instance_key :: key
  ms_element_instance_key :: key
  ms_element_id :: elementid
  ms_message_name :: string
  ms_correlation_key :: string
  ms_state :: message_subscription_state
  ms_kind :: message_subscription_kind

record signal_subscription =
  ss_key :: key
  ss_instance_key :: key
  ss_element_instance_key :: key
  ss_element_id :: elementid
  ss_signal_name :: string
  ss_state :: message_subscription_state
  ss_kind :: message_subscription_kind

record conditional_subscription =
  cd_key :: key
  cd_instance_key :: key
  cd_element_instance_key :: key
  cd_element_id :: elementid
  cd_condition :: string
  cd_referenced_vars :: "string list"
  cd_state :: message_subscription_state
  cd_kind :: message_subscription_kind

record message_start_subscription =
  mss_process_definition_key :: key
  mss_process_id :: string
  mss_message_name :: string
  mss_start_element_id :: elementid

record start_timer =
  st_timer_key :: key
  st_process_definition_key :: key
  st_process_id :: string
  st_start_element_id :: elementid
  st_due_at :: "u64 option"
  st_interval_millis :: u64
  st_repeating :: bool

section \<open>Deployed resources\<close>

record deployed_process =
  dp_key :: key
  dp_version :: int
  dp_definition :: process_definition

record deployed_drg =
  dg_key :: key
  dg_version :: int
  dg_drg :: decision_requirements_graph

record deployed_decision =
  dd_key :: key
  dd_version :: int
  dd_decision_requirements_key :: key
  dd_decision_id :: string
  dd_decision_name :: string
  dd_drg :: decision_requirements_graph

record deployed_form =
  df_key :: key
  df_version :: int
  df_form_id :: string
  df_resource_name :: string
  df_schema :: string

record deployed_resource =
  dres_key :: key
  dres_version :: int
  dres_resource_id :: string
  dres_resource_name :: string
  dres_content :: string

section \<open>The engine state\<close>

record state =
  processes :: "(string, deployed_process) fmap"
  process_versions :: "(key, deployed_process) fmap"
  instances :: "(key, process_instance) fmap"
  jobs :: "(key, job) fmap"
  user_tasks :: "(key, user_task) fmap"
  incidents :: "(key, incident) fmap"
  timers :: "(key, timer) fmap"
  message_subscriptions :: "(key, message_subscription) fmap"
  signal_subscriptions :: "(key, signal_subscription) fmap"
  conditional_subscriptions :: "(key, conditional_subscription) fmap"
  message_start_subscriptions :: "(string, message_start_subscription) fmap"
  start_timers :: "(key, start_timer) fmap"
  activatable_jobs :: "(string, (int \<times> key) fset) fmap"
  activated_jobs :: "key fset"
  jobs_by_instance :: "(key, key fset) fmap"
  inflight_by_process :: "(string, nat) fmap"
  created_by_process :: "(string, nat) fmap"
  decision_requirements :: "(string, deployed_drg) fmap"
  decision_requirements_versions :: "(key, deployed_drg) fmap"
  decisions :: "(string, deployed_decision) fmap"
  decision_versions :: "(key, deployed_decision) fmap"
  forms :: "(string, deployed_form) fmap"
  form_versions :: "(key, deployed_form) fmap"
  resources :: "(string, deployed_resource) fmap"
  resource_versions :: "(key, deployed_resource) fmap"

record instance_snapshot =
  is_instance :: process_instance
  is_jobs :: "job list"
  is_timers :: "timer list"
  is_message_subscriptions :: "message_subscription list"
  is_signal_subscriptions :: "signal_subscription list"
  is_conditional_subscriptions :: "conditional_subscription list"
  is_user_tasks :: "user_task list"
  is_incidents :: "incident list"

definition state_new :: state where
  "state_new = \<lparr> processes = fmempty, process_versions = fmempty, instances = fmempty, jobs = fmempty,
     user_tasks = fmempty, incidents = fmempty, timers = fmempty, message_subscriptions = fmempty,
     signal_subscriptions = fmempty, conditional_subscriptions = fmempty,
     message_start_subscriptions = fmempty, start_timers = fmempty, activatable_jobs = fmempty,
     activated_jobs = {||}, jobs_by_instance = fmempty, inflight_by_process = fmempty,
     created_by_process = fmempty, decision_requirements = fmempty,
     decision_requirements_versions = fmempty, decisions = fmempty, decision_versions = fmempty,
     forms = fmempty, form_versions = fmempty, resources = fmempty, resource_versions = fmempty \<rparr>"

end
