(* ===== verification/Events.thy ===== *)
theory Events
  imports State_Types
begin

text \<open>
  The journal events of \<open>engine-core/src/event.rs\<close>. The enum \<open>Event\<close> is split into one datatype
  per group of variants, in the order of the source, and \<open>event\<close> is their sum; constructor
  arguments are the fields of the variant in the source order. The second half translates
  \<open>terminal_instance_key\<close>, \<open>instance_key\<close> and \<open>max_key\<close>.
\<close>

section \<open>Event variants\<close>

datatype process_event =
    DeploymentCreated key
  | ProcessDeployed key key int process_definition

datatype resource_event =
    DecisionRequirementsDeployed key key int decision_requirements_graph
  | DecisionDeployed key key key string string int
  | FormDeployed key key int string string string
  | GenericResourceDeployed key key int string string string
  | DecisionEvaluated key key elementid key string rval "evaluated_decision list" u64
  | DecisionInstanceDeleted key key

datatype variable_event =
    ProcessInstanceCreated key string vars u64 "string list" "string option" key int "key option" "key option"
  | VariablesUpdated key vars
  | ScopedVariablesUpdated key key vars
  | VariableScopeCreated key key key
  | VariableScopeDestroyed key key

datatype element_event =
    ElementActivating key key elementid
  | ElementActivated key key elementid key
  | ElementCompleting key key elementid
  | ElementCompleted key key elementid
  | SequenceFlowTaken key elementid elementid
  | ParallelJoinOpened key key elementid
  | ParallelJoinTokenArrived key elementid "incoming_flow option"
  | ParallelJoinReset key elementid
  | ParallelJoinFired key elementid

datatype job_event =
    JobCreated key key key elementid string u64 int int
  | ExecutionListenerJobCreated key key key elementid string listener_event_type nat key u64 int
  | JobActivated key key bool string u64 "u64 option" "string list" "string option"
  | JobLockExpired key key
  | JobFailed key key int "string option"
  | JobErrorThrown key key string "string option"
  | JobCompleted key key u64 string "string option"
  | JobRetriesUpdated key key int "int option"
  | JobTimeoutUpdated key key u64 "int option"
  | TaskListenerJobCreated key key key elementid key string task_listener_event_type nat u64 int
  | JobCanceled key key

datatype user_task_event =
    UserTaskCreated key key key elementid u64 "string option" "string list" "string list"
      "string option" "string option" int "key option" "string option"
  | UserTaskAssigned key key "string option"
  | UserTaskUpdated key key "string list option" "string list option" "string option option"
      "string option option" "int option"
  | UserTaskCompleted key key
  | UserTaskCanceled key key
  | UserTaskTransitionDeferred key key pending_user_task_transition
  | UserTaskCorrectionsApplied key key user_task_corrections
  | UserTaskTransitionResolved key key "string option"

datatype incident_event =
    IncidentRaised key key key elementid incident_kind "io_mapping_redrive option" string "key option" u64
  | IncidentResolved key key "key option" u64 "int option"

datatype lifecycle_event =
    ProcessInstanceCompleted key
  | ProcessInstanceTerminated key
  | ProcessInstanceTerminating key
  | ProcessInstanceSuspended key u64
  | ProcessInstanceResumed key
  | ProcessInstanceMigrated key string key "(elementid \<times> elementid) list"

datatype timer_event =
    TimerCreated key key key elementid u64 timer_kind
  | TimerTriggered key key key elementid
  | TimerCanceled key key key elementid
  | ProcessStartTimerArmed key key string elementid u64 u64 bool
  | ProcessStartTimerFired key "u64 option"

datatype message_event =
    MessagePublished key string string
  | MessageSubscriptionCreated key key key elementid string string message_subscription_kind
  | MessageSubscriptionOpening key key key elementid string string message_subscription_kind
  | MessageCorrelated key key key key elementid
  | RemoteMessageCorrelation key key key key elementid message_subscription_kind vars
  | MessageSubscriptionCanceled key key key elementid
  | MessageSubscriptionClosing key key key elementid string string
  | MessageStartSubscriptionCreated key string string elementid

datatype signal_event =
    SignalBroadcast key string
  | SignalSubscriptionCreated key key key elementid string message_subscription_kind
  | SignalCorrelated key key key key elementid
  | SignalSubscriptionCanceled key key key elementid
  | ConditionalSubscriptionCreated key key key elementid string "string list" message_subscription_kind
  | ConditionalTriggered key key key elementid
  | ConditionalSubscriptionCanceled key key key elementid

datatype compensation_event =
    CompensationSubscriptionCreated key key elementid elementid key
  | CompensationTriggered key key elementid key "elementid list" "key list"
  | CompensationHandlerCompleted key key elementid
  | ScopedCompensationCleared key "key list"

datatype multi_instance_event =
    MultiInstanceActivated key key elementid bool "rval list" "string option" "string option"
      "string option" "string option"
  | MultiInstanceChildActivated key key key nat vars
  | MultiInstanceChildCompleted key key key nat "rval option"
  | MultiInstanceCompleted key key

datatype adhoc_event =
    AdHocActivated key key elementid "string option" "string option"
  | AdHocToolActivated key key key vars
  | AdHocToolCompleted key key key "rval option"
  | AdHocIterated key key
  | AdHocCompletionConditionFulfilled key key
  | AdHocCompleted key key bool

datatype agent_event =
    StartInstanceDispatched string elementid vars "string list" "string option" u64
  | AgentInstanceCreated key agent_instance
  | AgentInstanceUpdated key agent_instance
  | AgentInstanceCompleted key agent_instance
  | AgentHistoryCreated key agent_history_record
  | AgentHistoryCommitted key key "key list"
  | AgentHistoryDiscarded key key "key list"
  | AgentHistoryDeduplicated key key string key

datatype event =
    EProcess process_event
  | EResource resource_event
  | EVariable variable_event
  | EElement element_event
  | EJob job_event
  | EUserTask user_task_event
  | EIncident incident_event
  | ELifecycle lifecycle_event
  | ETimer timer_event
  | EMessage message_event
  | ESignal signal_event
  | ECompensation compensation_event
  | EMultiInstance multi_instance_event
  | EAdHoc adhoc_event
  | EAgent agent_event

section \<open>Instance keys of an event\<close>

definition terminal_instance_key :: "event \<Rightarrow> key option" where
  "terminal_instance_key e = (case e of
     ELifecycle (ProcessInstanceCompleted ik) \<Rightarrow> Some ik
   | ELifecycle (ProcessInstanceTerminated ik) \<Rightarrow> Some ik
   | _ \<Rightarrow> None)"

primrec resource_instance_key :: "resource_event \<Rightarrow> key option" where
  "resource_instance_key (DecisionRequirementsDeployed _ _ _ _) = None"
| "resource_instance_key (DecisionDeployed _ _ _ _ _ _) = None"
| "resource_instance_key (FormDeployed _ _ _ _ _ _) = None"
| "resource_instance_key (GenericResourceDeployed _ _ _ _ _ _) = None"
| "resource_instance_key (DecisionEvaluated ik _ _ _ _ _ _ _) = Some ik"
| "resource_instance_key (DecisionInstanceDeleted ik _) = Some ik"

primrec variable_instance_key :: "variable_event \<Rightarrow> key" where
  "variable_instance_key (ProcessInstanceCreated ik _ _ _ _ _ _ _ _ _) = ik"
| "variable_instance_key (VariablesUpdated ik _) = ik"
| "variable_instance_key (ScopedVariablesUpdated ik _ _) = ik"
| "variable_instance_key (VariableScopeCreated ik _ _) = ik"
| "variable_instance_key (VariableScopeDestroyed ik _) = ik"

primrec element_instance_key_of :: "element_event \<Rightarrow> key" where
  "element_instance_key_of (ElementActivating ik _ _) = ik"
| "element_instance_key_of (ElementActivated ik _ _ _) = ik"
| "element_instance_key_of (ElementCompleting ik _ _) = ik"
| "element_instance_key_of (ElementCompleted ik _ _) = ik"
| "element_instance_key_of (SequenceFlowTaken ik _ _) = ik"
| "element_instance_key_of (ParallelJoinOpened ik _ _) = ik"
| "element_instance_key_of (ParallelJoinTokenArrived ik _ _) = ik"
| "element_instance_key_of (ParallelJoinReset ik _) = ik"
| "element_instance_key_of (ParallelJoinFired ik _) = ik"

primrec job_instance_key :: "job_event \<Rightarrow> key" where
  "job_instance_key (JobCreated _ ik _ _ _ _ _ _) = ik"
| "job_instance_key (ExecutionListenerJobCreated _ ik _ _ _ _ _ _ _ _) = ik"
| "job_instance_key (JobActivated _ ik _ _ _ _ _ _) = ik"
| "job_instance_key (JobLockExpired _ ik) = ik"
| "job_instance_key (JobFailed _ ik _ _) = ik"
| "job_instance_key (JobErrorThrown _ ik _ _) = ik"
| "job_instance_key (JobCompleted _ ik _ _ _) = ik"
| "job_instance_key (JobRetriesUpdated _ ik _ _) = ik"
| "job_instance_key (JobTimeoutUpdated _ ik _ _) = ik"
| "job_instance_key (TaskListenerJobCreated _ ik _ _ _ _ _ _ _ _) = ik"
| "job_instance_key (JobCanceled _ ik) = ik"

primrec user_task_instance_key :: "user_task_event \<Rightarrow> key" where
  "user_task_instance_key (UserTaskCreated _ ik _ _ _ _ _ _ _ _ _ _ _) = ik"
| "user_task_instance_key (UserTaskAssigned _ ik _) = ik"
| "user_task_instance_key (UserTaskUpdated _ ik _ _ _ _ _) = ik"
| "user_task_instance_key (UserTaskCompleted _ ik) = ik"
| "user_task_instance_key (UserTaskCanceled _ ik) = ik"
| "user_task_instance_key (UserTaskTransitionDeferred _ ik _) = ik"
| "user_task_instance_key (UserTaskCorrectionsApplied _ ik _) = ik"
| "user_task_instance_key (UserTaskTransitionResolved _ ik _) = ik"

primrec incident_instance_key :: "incident_event \<Rightarrow> key" where
  "incident_instance_key (IncidentRaised _ ik _ _ _ _ _ _ _) = ik"
| "incident_instance_key (IncidentResolved _ ik _ _ _) = ik"

primrec lifecycle_instance_key :: "lifecycle_event \<Rightarrow> key" where
  "lifecycle_instance_key (ProcessInstanceCompleted ik) = ik"
| "lifecycle_instance_key (ProcessInstanceTerminated ik) = ik"
| "lifecycle_instance_key (ProcessInstanceTerminating ik) = ik"
| "lifecycle_instance_key (ProcessInstanceSuspended ik _) = ik"
| "lifecycle_instance_key (ProcessInstanceResumed ik) = ik"
| "lifecycle_instance_key (ProcessInstanceMigrated ik _ _ _) = ik"

primrec timer_instance_key :: "timer_event \<Rightarrow> key option" where
  "timer_instance_key (TimerCreated _ ik _ _ _ _) = Some ik"
| "timer_instance_key (TimerTriggered _ ik _ _) = Some ik"
| "timer_instance_key (TimerCanceled _ ik _ _) = Some ik"
| "timer_instance_key (ProcessStartTimerArmed _ _ _ _ _ _ _) = None"
| "timer_instance_key (ProcessStartTimerFired _ _) = None"

primrec message_instance_key :: "message_event \<Rightarrow> key option" where
  "message_instance_key (MessagePublished _ _ _) = None"
| "message_instance_key (MessageSubscriptionCreated _ ik _ _ _ _ _) = Some ik"
| "message_instance_key (MessageSubscriptionOpening _ ik _ _ _ _ _) = Some ik"
| "message_instance_key (MessageCorrelated _ _ ik _ _) = Some ik"
| "message_instance_key (RemoteMessageCorrelation _ _ ik _ _ _ _) = Some ik"
| "message_instance_key (MessageSubscriptionCanceled _ ik _ _) = Some ik"
| "message_instance_key (MessageSubscriptionClosing _ ik _ _ _ _) = Some ik"
| "message_instance_key (MessageStartSubscriptionCreated _ _ _ _) = None"

primrec signal_instance_key :: "signal_event \<Rightarrow> key option" where
  "signal_instance_key (SignalBroadcast _ _) = None"
| "signal_instance_key (SignalSubscriptionCreated _ ik _ _ _ _) = Some ik"
| "signal_instance_key (SignalCorrelated _ _ ik _ _) = Some ik"
| "signal_instance_key (SignalSubscriptionCanceled _ ik _ _) = Some ik"
| "signal_instance_key (ConditionalSubscriptionCreated _ ik _ _ _ _ _) = Some ik"
| "signal_instance_key (ConditionalTriggered _ ik _ _) = Some ik"
| "signal_instance_key (ConditionalSubscriptionCanceled _ ik _ _) = Some ik"

primrec compensation_instance_key :: "compensation_event \<Rightarrow> key" where
  "compensation_instance_key (CompensationSubscriptionCreated ik _ _ _ _) = ik"
| "compensation_instance_key (CompensationTriggered ik _ _ _ _ _) = ik"
| "compensation_instance_key (CompensationHandlerCompleted ik _ _) = ik"
| "compensation_instance_key (ScopedCompensationCleared ik _) = ik"

primrec multi_instance_instance_key :: "multi_instance_event \<Rightarrow> key" where
  "multi_instance_instance_key (MultiInstanceActivated ik _ _ _ _ _ _ _ _) = ik"
| "multi_instance_instance_key (MultiInstanceChildActivated ik _ _ _ _) = ik"
| "multi_instance_instance_key (MultiInstanceChildCompleted ik _ _ _ _) = ik"
| "multi_instance_instance_key (MultiInstanceCompleted ik _) = ik"

primrec adhoc_instance_key :: "adhoc_event \<Rightarrow> key" where
  "adhoc_instance_key (AdHocActivated ik _ _ _ _) = ik"
| "adhoc_instance_key (AdHocToolActivated ik _ _ _) = ik"
| "adhoc_instance_key (AdHocToolCompleted ik _ _ _) = ik"
| "adhoc_instance_key (AdHocIterated ik _) = ik"
| "adhoc_instance_key (AdHocCompletionConditionFulfilled ik _) = ik"
| "adhoc_instance_key (AdHocCompleted ik _ _) = ik"

primrec agent_instance_key :: "agent_event \<Rightarrow> key option" where
  "agent_instance_key (StartInstanceDispatched _ _ _ _ _ _) = None"
| "agent_instance_key (AgentInstanceCreated ik _) = Some ik"
| "agent_instance_key (AgentInstanceUpdated ik _) = Some ik"
| "agent_instance_key (AgentInstanceCompleted ik _) = Some ik"
| "agent_instance_key (AgentHistoryCreated ik _) = Some ik"
| "agent_instance_key (AgentHistoryCommitted ik _ _) = Some ik"
| "agent_instance_key (AgentHistoryDiscarded ik _ _) = Some ik"
| "agent_instance_key (AgentHistoryDeduplicated ik _ _ _) = Some ik"

primrec event_instance_key :: "event \<Rightarrow> key option" where
  "event_instance_key (EProcess _) = None"
| "event_instance_key (EResource e) = resource_instance_key e"
| "event_instance_key (EVariable e) = Some (variable_instance_key e)"
| "event_instance_key (EElement e) = Some (element_instance_key_of e)"
| "event_instance_key (EJob e) = Some (job_instance_key e)"
| "event_instance_key (EUserTask e) = Some (user_task_instance_key e)"
| "event_instance_key (EIncident e) = Some (incident_instance_key e)"
| "event_instance_key (ELifecycle e) = Some (lifecycle_instance_key e)"
| "event_instance_key (ETimer e) = timer_instance_key e"
| "event_instance_key (EMessage e) = message_instance_key e"
| "event_instance_key (ESignal e) = signal_instance_key e"
| "event_instance_key (ECompensation e) = Some (compensation_instance_key e)"
| "event_instance_key (EMultiInstance e) = Some (multi_instance_instance_key e)"
| "event_instance_key (EAdHoc e) = Some (adhoc_instance_key e)"
| "event_instance_key (EAgent e) = agent_instance_key e"

section \<open>The highest key of an event\<close>

text \<open>The arms of \<open>max_key\<close>: for each variant the fields that are compared, in the source order.
  A variant without an arm of its own (the wildcard of the source) contributes no further key.\<close>

definition process_max_keys :: "process_event \<Rightarrow> key list" where
  "process_max_keys e = (case e of
     DeploymentCreated dk \<Rightarrow> [dk]
   | ProcessDeployed dk pdk _ _ \<Rightarrow> [dk, pdk])"

definition resource_max_keys :: "resource_event \<Rightarrow> key list" where
  "resource_max_keys e = (case e of
     DecisionRequirementsDeployed dk drk _ _ \<Rightarrow> [dk, drk]
   | DecisionDeployed dk drk dck _ _ _ \<Rightarrow> [dk, drk, dck]
   | FormDeployed dk fk _ _ _ _ \<Rightarrow> [dk, fk]
   | GenericResourceDeployed dk rk _ _ _ _ \<Rightarrow> [dk, rk]
   | DecisionEvaluated _ eik _ dck _ _ _ _ \<Rightarrow> [eik, dck]
   | DecisionInstanceDeleted _ dek \<Rightarrow> [dek])"

definition element_max_keys :: "element_event \<Rightarrow> key list" where
  "element_max_keys e = (case e of
     ElementActivating _ eik _ \<Rightarrow> [eik]
   | ElementActivated _ eik _ _ \<Rightarrow> [eik]
   | ElementCompleting _ eik _ \<Rightarrow> [eik]
   | ElementCompleted _ eik _ \<Rightarrow> [eik]
   | ParallelJoinOpened _ eik _ \<Rightarrow> [eik]
   | _ \<Rightarrow> [])"

definition job_max_keys :: "job_event \<Rightarrow> key list" where
  "job_max_keys e = (case e of
     JobCreated jk _ eik _ _ _ _ _ \<Rightarrow> [jk, eik]
   | ExecutionListenerJobCreated jk _ eik _ _ _ _ scope _ _ \<Rightarrow> [jk, eik, scope]
   | TaskListenerJobCreated jk _ eik _ utk _ _ _ _ _ \<Rightarrow> [jk, eik, utk]
   | JobActivated jk _ _ _ _ _ _ lease_token \<Rightarrow>
       [jk, case lease_token of None \<Rightarrow> 0 | Some t \<Rightarrow> issued_key t]
   | JobLockExpired jk _ \<Rightarrow> [jk]
   | JobFailed jk _ _ _ \<Rightarrow> [jk]
   | JobErrorThrown jk _ _ _ \<Rightarrow> [jk]
   | JobCompleted jk _ _ _ _ \<Rightarrow> [jk]
   | JobCanceled jk _ \<Rightarrow> [jk]
   | JobRetriesUpdated jk _ _ _ \<Rightarrow> [jk]
   | JobTimeoutUpdated jk _ _ _ \<Rightarrow> [jk])"

definition opt_list :: "'a option \<Rightarrow> 'a list" where
  "opt_list x = (case x of None \<Rightarrow> [] | Some a \<Rightarrow> [a])"

definition incident_max_keys :: "incident_event \<Rightarrow> key list" where
  "incident_max_keys e = (case e of
     IncidentRaised ick _ eik _ _ _ _ jk _ \<Rightarrow> [ick, eik] @ opt_list jk
   | IncidentResolved ick _ jk _ _ \<Rightarrow> [ick] @ opt_list jk)"

definition timer_max_keys :: "timer_event \<Rightarrow> key list" where
  "timer_max_keys e = (case e of
     TimerCreated tk _ eik _ _ _ \<Rightarrow> [tk, eik]
   | TimerTriggered tk _ eik _ \<Rightarrow> [tk, eik]
   | TimerCanceled tk _ eik _ \<Rightarrow> [tk, eik]
   | ProcessStartTimerArmed tk pdk _ _ _ _ _ \<Rightarrow> [tk, pdk]
   | ProcessStartTimerFired tk _ \<Rightarrow> [tk])"

definition signal_max_keys :: "signal_event \<Rightarrow> key list" where
  "signal_max_keys e = (case e of
     SignalBroadcast sk _ \<Rightarrow> [sk]
   | SignalSubscriptionCreated sk _ eik _ _ _ \<Rightarrow> [sk, eik]
   | SignalSubscriptionCanceled sk _ eik _ \<Rightarrow> [sk, eik]
   | ConditionalSubscriptionCreated sk _ eik _ _ _ _ \<Rightarrow> [sk, eik]
   | ConditionalTriggered sk _ eik _ \<Rightarrow> [sk, eik]
   | ConditionalSubscriptionCanceled sk _ eik _ \<Rightarrow> [sk, eik]
   | SignalCorrelated sk sigk _ eik _ \<Rightarrow> [sk, sigk, eik])"

definition compensation_max_keys :: "compensation_event \<Rightarrow> key list" where
  "compensation_max_keys e = (case e of
     CompensationSubscriptionCreated _ eik _ _ scope \<Rightarrow> [eik, scope]
   | CompensationTriggered _ teik _ scope _ consumed \<Rightarrow> [teik, scope] @ consumed
   | CompensationHandlerCompleted _ teik _ \<Rightarrow> [teik]
   | ScopedCompensationCleared _ scopes \<Rightarrow> scopes)"

definition multi_instance_max_keys :: "multi_instance_event \<Rightarrow> key list" where
  "multi_instance_max_keys e = (case e of
     MultiInstanceActivated _ bk _ _ _ _ _ _ _ \<Rightarrow> [bk]
   | MultiInstanceCompleted _ bk \<Rightarrow> [bk]
   | MultiInstanceChildActivated _ bk ck _ _ \<Rightarrow> [bk, ck]
   | MultiInstanceChildCompleted _ bk ck _ _ \<Rightarrow> [bk, ck])"

definition adhoc_max_keys :: "adhoc_event \<Rightarrow> key list" where
  "adhoc_max_keys e = (case e of
     AdHocActivated _ ck _ _ _ \<Rightarrow> [ck]
   | AdHocIterated _ ck \<Rightarrow> [ck]
   | AdHocCompletionConditionFulfilled _ ck \<Rightarrow> [ck]
   | AdHocCompleted _ ck _ \<Rightarrow> [ck]
   | AdHocToolActivated _ ck chk _ \<Rightarrow> [ck, chk]
   | AdHocToolCompleted _ ck chk _ \<Rightarrow> [ck, chk])"

definition message_max_keys :: "message_event \<Rightarrow> key list" where
  "message_max_keys e = (case e of
     MessagePublished mk _ _ \<Rightarrow> [mk]
   | MessageSubscriptionCreated sk _ eik _ _ _ _ \<Rightarrow> [sk, eik]
   | MessageSubscriptionOpening sk _ eik _ _ _ _ \<Rightarrow> [sk, eik]
   | MessageSubscriptionCanceled sk _ eik _ \<Rightarrow> [sk, eik]
   | MessageSubscriptionClosing sk _ eik _ _ _ \<Rightarrow> [sk, eik]
   | MessageCorrelated sk mk _ eik _ \<Rightarrow> [sk, mk, eik]
   | RemoteMessageCorrelation sk mk _ eik _ _ _ \<Rightarrow> [sk, mk, eik]
   | MessageStartSubscriptionCreated pdk _ _ _ \<Rightarrow> [pdk])"

definition user_task_max_keys :: "user_task_event \<Rightarrow> key list" where
  "user_task_max_keys e = (case e of
     UserTaskCreated utk _ eik _ _ _ _ _ _ _ _ _ _ \<Rightarrow> [utk, eik]
   | UserTaskAssigned utk _ _ \<Rightarrow> [utk]
   | UserTaskUpdated utk _ _ _ _ _ _ \<Rightarrow> [utk]
   | UserTaskCompleted utk _ \<Rightarrow> [utk]
   | UserTaskCanceled utk _ \<Rightarrow> [utk]
   | UserTaskTransitionDeferred utk _ _ \<Rightarrow> [utk]
   | UserTaskCorrectionsApplied utk _ _ \<Rightarrow> [utk]
   | UserTaskTransitionResolved utk _ _ \<Rightarrow> [utk])"

definition agent_max_keys :: "agent_event \<Rightarrow> key list" where
  "agent_max_keys e = (case e of
     StartInstanceDispatched _ _ _ _ _ _ \<Rightarrow> []
   | AgentInstanceCreated _ a \<Rightarrow> [ai_agent_instance_key a, ai_element_instance_key a]
   | AgentInstanceUpdated _ a \<Rightarrow> [ai_agent_instance_key a, ai_element_instance_key a]
   | AgentInstanceCompleted _ a \<Rightarrow> [ai_agent_instance_key a, ai_element_instance_key a]
   | AgentHistoryCreated _ r \<Rightarrow> [ahr_agent_history_key r, ahr_agent_instance_key r, ahr_element_instance_key r]
   | AgentHistoryCommitted _ aik hks \<Rightarrow> aik # hks
   | AgentHistoryDiscarded _ aik hks \<Rightarrow> aik # hks
   | AgentHistoryDeduplicated _ aik _ orig \<Rightarrow> [aik, orig])"

primrec max_keys :: "event \<Rightarrow> key list" where
  "max_keys (EProcess e) = process_max_keys e"
| "max_keys (EResource e) = resource_max_keys e"
| "max_keys (EVariable _) = []"
| "max_keys (EElement e) = element_max_keys e"
| "max_keys (EJob e) = job_max_keys e"
| "max_keys (EUserTask e) = user_task_max_keys e"
| "max_keys (EIncident e) = incident_max_keys e"
| "max_keys (ELifecycle _) = []"
| "max_keys (ETimer e) = timer_max_keys e"
| "max_keys (EMessage e) = message_max_keys e"
| "max_keys (ESignal e) = signal_max_keys e"
| "max_keys (ECompensation e) = compensation_max_keys e"
| "max_keys (EMultiInstance e) = multi_instance_max_keys e"
| "max_keys (EAdHoc e) = adhoc_max_keys e"
| "max_keys (EAgent e) = agent_max_keys e"

definition max_key :: "event \<Rightarrow> key" where
  "max_key e = foldl max (case event_instance_key e of None \<Rightarrow> 0 | Some ik \<Rightarrow> ik) (max_keys e)"

lemma foldl_max_ge:
  fixes m :: "'a :: linorder"
  shows "m \<le> foldl max m ks \<and> (\<forall>k \<in> set ks. k \<le> foldl max m ks)"
proof (induction ks arbitrary: m)
  case (Cons a ks)
  from Cons.IH [of "max m a"] show ?case by auto
qed simp

lemma max_key_ge: "k \<in> set (max_keys e) \<Longrightarrow> k \<le> max_key e"
  by (auto simp: max_key_def foldl_max_ge)

lemma max_key_ge_instance: "event_instance_key e = Some ik \<Longrightarrow> ik \<le> max_key e"
  by (simp add: max_key_def foldl_max_ge)

end
