(* ===== verification/Registry.thy ===== *)
theory Registry
  imports Events
begin

text \<open>
  Deployed definitions: the queries of \<open>State\<close> over deployed processes, decisions, forms and
  resources (\<open>state/types.rs\<close>) and the deploy appliers (\<open>state/apply/process.rs\<close> and
  \<open>state/apply/resource.rs\<close>). Each kind is kept twice: a map from the unique key to every version
  and an index from the id to the latest version. The locale \<open>versioned_registry\<close> states that
  contract once; its interpretations discharge it for the five kinds.
\<close>

section \<open>Queries\<close>

definition find_value :: "('v \<Rightarrow> bool) \<Rightarrow> ('k :: linorder, 'v) fmap \<Rightarrow> 'v option" where
  "find_value P m = map_option snd (List.find (\<lambda>(_, v). P v) (sorted_list_of_fmap m))"

definition filter_option :: "('v \<Rightarrow> bool) \<Rightarrow> 'v option \<Rightarrow> 'v option" where
  "filter_option P x = (case x of None \<Rightarrow> None | Some v \<Rightarrow> if P v then Some v else None)"

definition or_else :: "'v option \<Rightarrow> 'v option \<Rightarrow> 'v option" where
  "or_else a b = (case a of None \<Rightarrow> b | Some v \<Rightarrow> Some v)"

definition definition_for :: "state \<Rightarrow> process_instance \<Rightarrow> deployed_process option" where
  "definition_for s i =
     or_else (if pi_process_definition_key i \<noteq> 0
              then fmlookup (process_versions s) (pi_process_definition_key i) else None)
       (fmlookup (processes s) (pi_process_id i))"

definition process_by_key :: "state \<Rightarrow> key \<Rightarrow> deployed_process option" where
  "process_by_key s k = or_else (fmlookup (process_versions s) k) (find_value (\<lambda>d. dp_key d = k) (processes s))"

definition process_version :: "state \<Rightarrow> string \<Rightarrow> int \<Rightarrow> deployed_process option" where
  "process_version s process_id v =
     or_else (find_value (\<lambda>d. pd_id (dp_definition d) = process_id \<and> dp_version d = v) (process_versions s))
       (filter_option (\<lambda>d. dp_version d = v) (fmlookup (processes s) process_id))"

definition drg_by_key :: "state \<Rightarrow> key \<Rightarrow> deployed_drg option" where
  "drg_by_key s k =
     or_else (fmlookup (decision_requirements_versions s) k) (find_value (\<lambda>d. dg_key d = k) (decision_requirements s))"

definition drg_version :: "state \<Rightarrow> string \<Rightarrow> int \<Rightarrow> deployed_drg option" where
  "drg_version s i v =
     or_else (find_value (\<lambda>d. drg_id (dg_drg d) = i \<and> dg_version d = v) (decision_requirements_versions s))
       (filter_option (\<lambda>d. dg_version d = v) (fmlookup (decision_requirements s) i))"

definition decision_by_key :: "state \<Rightarrow> key \<Rightarrow> deployed_decision option" where
  "decision_by_key s k = or_else (fmlookup (decision_versions s) k) (find_value (\<lambda>d. dd_key d = k) (decisions s))"

definition decision_version :: "state \<Rightarrow> string \<Rightarrow> int \<Rightarrow> deployed_decision option" where
  "decision_version s i v =
     or_else (find_value (\<lambda>d. dd_decision_id d = i \<and> dd_version d = v) (decision_versions s))
       (filter_option (\<lambda>d. dd_version d = v) (fmlookup (decisions s) i))"

definition form_by_key :: "state \<Rightarrow> key \<Rightarrow> deployed_form option" where
  "form_by_key s k = or_else (fmlookup (form_versions s) k) (find_value (\<lambda>f. df_key f = k) (forms s))"

definition form_version :: "state \<Rightarrow> string \<Rightarrow> int \<Rightarrow> deployed_form option" where
  "form_version s i v =
     or_else (find_value (\<lambda>f. df_form_id f = i \<and> df_version f = v) (form_versions s))
       (filter_option (\<lambda>f. df_version f = v) (fmlookup (forms s) i))"

definition resource_by_key :: "state \<Rightarrow> key \<Rightarrow> deployed_resource option" where
  "resource_by_key s k = or_else (fmlookup (resource_versions s) k) (find_value (\<lambda>r. dres_key r = k) (resources s))"

definition resource_version :: "state \<Rightarrow> string \<Rightarrow> int \<Rightarrow> deployed_resource option" where
  "resource_version s i v =
     or_else (find_value (\<lambda>r. dres_resource_id r = i \<and> dres_version r = v) (resource_versions s))
       (filter_option (\<lambda>r. dres_version r = v) (fmlookup (resources s) i))"

section \<open>Deploy appliers\<close>

definition insert_if_latest :: "('d \<Rightarrow> int) \<Rightarrow> string \<Rightarrow> 'd \<Rightarrow> (string, 'd) fmap \<Rightarrow> (string, 'd) fmap" where
  "insert_if_latest ver i d m =
     (if (case fmlookup m i of None \<Rightarrow> True | Some existing \<Rightarrow> ver existing \<le> ver d) then fmupd i d m else m)"

definition register_process :: "deployed_process \<Rightarrow> state \<Rightarrow> state" where
  "register_process d s = s\<lparr>
     process_versions := fmupd (dp_key d) d (process_versions s),
     processes := insert_if_latest dp_version (pd_id (dp_definition d)) d (processes s) \<rparr>"

definition apply_ProcessDeployed :: "key \<Rightarrow> int \<Rightarrow> process_definition \<Rightarrow> state \<Rightarrow> state" where
  "apply_ProcessDeployed pdk version process s =
     register_process \<lparr> dp_key = pdk, dp_version = version,
       dp_definition = normalize_legacy_agent_tasks process \<rparr> s"

primrec apply_process :: "process_event \<Rightarrow> state \<Rightarrow> state" where
  "apply_process (DeploymentCreated _) s = s"
| "apply_process (ProcessDeployed _ pdk version process) s = apply_ProcessDeployed pdk version process s"

definition register_drg :: "deployed_drg \<Rightarrow> state \<Rightarrow> state" where
  "register_drg d s = s\<lparr>
     decision_requirements_versions := fmupd (dg_key d) d (decision_requirements_versions s),
     decision_requirements := insert_if_latest dg_version (drg_id (dg_drg d)) d (decision_requirements s) \<rparr>"

definition apply_DecisionRequirementsDeployed :: "key \<Rightarrow> int \<Rightarrow> decision_requirements_graph \<Rightarrow> state \<Rightarrow> state" where
  "apply_DecisionRequirementsDeployed drk version drg s =
     register_drg \<lparr> dg_key = drk, dg_version = version, dg_drg = drg \<rparr> s"

definition register_decision :: "deployed_decision \<Rightarrow> state \<Rightarrow> state" where
  "register_decision d s = s\<lparr>
     decision_versions := fmupd (dd_key d) d (decision_versions s),
     decisions := insert_if_latest dd_version (dd_decision_id d) d (decisions s) \<rparr>"

definition apply_DecisionDeployed :: "key \<Rightarrow> key \<Rightarrow> string \<Rightarrow> string \<Rightarrow> int \<Rightarrow> state \<Rightarrow> state" where
  "apply_DecisionDeployed drk dck decision_id decision_name version s =
     (case map_option dg_drg (fmlookup (decision_requirements_versions s) drk) of
        None \<Rightarrow> s
      | Some drg \<Rightarrow> register_decision \<lparr> dd_key = dck, dd_version = version, dd_decision_requirements_key = drk,
          dd_decision_id = decision_id, dd_decision_name = decision_name, dd_drg = drg \<rparr> s)"

definition register_form :: "deployed_form \<Rightarrow> state \<Rightarrow> state" where
  "register_form d s = s\<lparr>
     form_versions := fmupd (df_key d) d (form_versions s),
     forms := insert_if_latest df_version (df_form_id d) d (forms s) \<rparr>"

definition apply_FormDeployed :: "key \<Rightarrow> int \<Rightarrow> string \<Rightarrow> string \<Rightarrow> string \<Rightarrow> state \<Rightarrow> state" where
  "apply_FormDeployed fk version form_id resource_name schema s =
     register_form \<lparr> df_key = fk, df_version = version, df_form_id = form_id,
       df_resource_name = resource_name, df_schema = schema \<rparr> s"

definition register_resource :: "deployed_resource \<Rightarrow> state \<Rightarrow> state" where
  "register_resource d s = s\<lparr>
     resource_versions := fmupd (dres_key d) d (resource_versions s),
     resources := insert_if_latest dres_version (dres_resource_id d) d (resources s) \<rparr>"

definition apply_GenericResourceDeployed :: "key \<Rightarrow> int \<Rightarrow> string \<Rightarrow> string \<Rightarrow> string \<Rightarrow> state \<Rightarrow> state" where
  "apply_GenericResourceDeployed rk version resource_id resource_name content s =
     register_resource \<lparr> dres_key = rk, dres_version = version, dres_resource_id = resource_id,
       dres_resource_name = resource_name, dres_content = content \<rparr> s"

primrec apply_resource :: "resource_event \<Rightarrow> state \<Rightarrow> state" where
  "apply_resource (DecisionRequirementsDeployed _ drk version drg) s =
     apply_DecisionRequirementsDeployed drk version drg s"
| "apply_resource (DecisionDeployed _ drk dck decision_id decision_name version) s =
     apply_DecisionDeployed drk dck decision_id decision_name version s"
| "apply_resource (FormDeployed _ fk version form_id resource_name schema) s =
     apply_FormDeployed fk version form_id resource_name schema s"
| "apply_resource (GenericResourceDeployed _ rk version resource_id resource_name content) s =
     apply_GenericResourceDeployed rk version resource_id resource_name content s"
| "apply_resource (DecisionEvaluated _ _ _ _ _ _ _ _) s = s"
| "apply_resource (DecisionInstanceDeleted _ _) s = s"

section \<open>The contract of a versioned registry\<close>

text \<open>\<open>latest_among\<close> is the specification of the latest-by-id index: it points at a member of the
  deployed set with the highest version of that id, and is empty only when the id was never deployed.\<close>

definition latest_among :: "('d \<Rightarrow> string) \<Rightarrow> ('d \<Rightarrow> int) \<Rightarrow> 'd set \<Rightarrow> string \<Rightarrow> 'd option \<Rightarrow> bool" where
  "latest_among idf ver D i r \<longleftrightarrow> (case r of
     None \<Rightarrow> \<forall>d \<in> D. idf d \<noteq> i
   | Some e \<Rightarrow> e \<in> D \<and> idf e = i \<and> (\<forall>d \<in> D. idf d = i \<longrightarrow> ver d \<le> ver e))"

lemma latest_among_unique:
  assumes "latest_among idf ver D i r" "latest_among idf ver D i r'"
    and "\<And>d e. d \<in> D \<Longrightarrow> e \<in> D \<Longrightarrow> idf d = idf e \<Longrightarrow> ver d = ver e \<Longrightarrow> d = e"
  shows "r = r'"
  using assms(1,2) by (cases r; cases r') (auto simp: latest_among_def intro!: assms(3) antisym)

locale versioned_registry =
  fixes register :: "'d \<Rightarrow> 's \<Rightarrow> 's"
    and latest :: "'s \<Rightarrow> string \<Rightarrow> 'd option"
    and by_key :: "'s \<Rightarrow> key \<Rightarrow> 'd option"
    and id_of :: "'d \<Rightarrow> string"
    and ver_of :: "'d \<Rightarrow> int"
    and key_of :: "'d \<Rightarrow> key"
  assumes latest_register:
      "latest (register d s) i =
         (if i = id_of d \<and> (\<forall>e. latest s i = Some e \<longrightarrow> ver_of e \<le> ver_of d) then Some d else latest s i)"
    and by_key_register: "by_key (register d s) k = (if k = key_of d then Some d else by_key s k)"
begin

lemma by_key_fold_other: "k \<notin> key_of ` set ds \<Longrightarrow> by_key (fold register ds s) k = by_key s k"
  by (induction ds arbitrary: s) (auto simp: by_key_register)

lemma version_retained:
  "distinct (map key_of ds) \<Longrightarrow> d \<in> set ds \<Longrightarrow> by_key (fold register ds s) (key_of d) = Some d"
proof (induction ds arbitrary: s)
  case (Cons a ds)
  show ?case
  proof (cases "d = a")
    case True
    then show ?thesis using Cons.prems by (simp add: by_key_fold_other by_key_register)
  next
    case False
    then show ?thesis using Cons by simp
  qed
qed simp

lemma latest_max:
  "latest_among id_of ver_of D i (latest s i) \<Longrightarrow>
   latest_among id_of ver_of (D \<union> set ds) i (latest (fold register ds s) i)"
proof (induction ds arbitrary: s D)
  case (Cons a ds)
  have "latest_among id_of ver_of (insert a D) i (latest (register a s) i)"
  proof (cases "latest s i")
    case None
    with Cons.prems show ?thesis by (auto simp: latest_among_def latest_register)
  next
    case (Some e)
    with Cons.prems show ?thesis by (force simp: latest_among_def latest_register)
  qed
  from Cons.IH [OF this] show ?case by simp
qed simp

lemma latest_order_independent:
  assumes "latest s i = None" "set ds = set es"
    and "\<And>d e. d \<in> set ds \<Longrightarrow> e \<in> set ds \<Longrightarrow> id_of d = id_of e \<Longrightarrow> ver_of d = ver_of e \<Longrightarrow> d = e"
  shows "latest (fold register ds s) i = latest (fold register es s) i"
proof -
  have "latest_among id_of ver_of (set xs) i (latest (fold register xs s) i)" for xs
    using latest_max [of "{}" i s xs] assms(1) by (simp add: latest_among_def [of _ _ "{}"])
  from latest_among_unique [OF this [of ds] this [of es, folded assms(2)]] assms(3) show ?thesis by blast
qed

end

lemma fmlookup_insert_if_latest:
  "fmlookup (insert_if_latest ver j d m) i =
     (if i = j \<and> (\<forall>e. fmlookup m i = Some e \<longrightarrow> ver e \<le> ver d) then Some d else fmlookup m i)"
  by (auto simp: insert_if_latest_def split: option.splits)

interpretation process_registry: versioned_registry register_process "\<lambda>s. fmlookup (processes s)"
  "\<lambda>s. fmlookup (process_versions s)" "\<lambda>d. pd_id (dp_definition d)" dp_version dp_key
  by unfold_locales (simp_all add: register_process_def fmlookup_insert_if_latest)

interpretation drg_registry: versioned_registry register_drg "\<lambda>s. fmlookup (decision_requirements s)"
  "\<lambda>s. fmlookup (decision_requirements_versions s)" "\<lambda>d. drg_id (dg_drg d)" dg_version dg_key
  by unfold_locales (simp_all add: register_drg_def fmlookup_insert_if_latest)

interpretation decision_registry: versioned_registry register_decision "\<lambda>s. fmlookup (decisions s)"
  "\<lambda>s. fmlookup (decision_versions s)" dd_decision_id dd_version dd_key
  by unfold_locales (simp_all add: register_decision_def fmlookup_insert_if_latest)

interpretation form_registry: versioned_registry register_form "\<lambda>s. fmlookup (forms s)"
  "\<lambda>s. fmlookup (form_versions s)" df_form_id df_version df_key
  by unfold_locales (simp_all add: register_form_def fmlookup_insert_if_latest)

interpretation resource_registry: versioned_registry register_resource "\<lambda>s. fmlookup (resources s)"
  "\<lambda>s. fmlookup (resource_versions s)" dres_resource_id dres_version dres_key
  by unfold_locales (simp_all add: register_resource_def fmlookup_insert_if_latest)

section \<open>Properties of deployments\<close>

definition deployed_of :: "key \<times> int \<times> process_definition \<Rightarrow> deployed_process" where
  "deployed_of x = (case x of (pdk, version, process) \<Rightarrow>
     \<lparr> dp_key = pdk, dp_version = version, dp_definition = normalize_legacy_agent_tasks process \<rparr>)"

definition deploy_all :: "(key \<times> int \<times> process_definition) list \<Rightarrow> state \<Rightarrow> state" where
  "deploy_all ds s = fold (\<lambda>(pdk, version, process). apply_ProcessDeployed pdk version process) ds s"

lemma deploy_all_register: "deploy_all ds s = fold register_process (map deployed_of ds) s"
  by (induction ds arbitrary: s) (auto simp: deploy_all_def deployed_of_def apply_ProcessDeployed_def)

lemma pd_id_normalize [simp]: "pd_id (normalize_legacy_agent_tasks p) = pd_id p"
  by (simp add: normalize_legacy_agent_tasks_def)

text \<open>C39: deployments under distinct keys keep every version retrievable by its key, and the
  latest-by-id index holds the highest version of each id, whatever order the deployments are
  applied in.\<close>

theorem deployments_order_independent:
  assumes "distinct (map fst ds)" "set ds = set es" "distinct (map fst es)"
    and versions: "\<forall>x \<in> set ds. \<forall>y \<in> set ds.
      pd_id (snd (snd x)) = pd_id (snd (snd y)) \<and> fst (snd x) = fst (snd y) \<longrightarrow> x = y"
  shows "processes (deploy_all ds state_new) = processes (deploy_all es state_new)
     \<and> (\<forall>x \<in> set ds. process_by_key (deploy_all ds state_new) (fst x) = Some (deployed_of x)
          \<and> process_by_key (deploy_all es state_new) (fst x) = Some (deployed_of x))
     \<and> latest_among (\<lambda>d. pd_id (dp_definition d)) dp_version (deployed_of ` set ds) i
         (fmlookup (processes (deploy_all ds state_new)) i)"
proof -
  have key: "dp_key \<circ> deployed_of = fst" by (auto simp: deployed_of_def)
  have uniq: "d = d'" if d: "d \<in> set (map deployed_of ds)" "d' \<in> set (map deployed_of ds)"
      "pd_id (dp_definition d) = pd_id (dp_definition d')" "dp_version d = dp_version d'" for d d'
  proof -
    from d(1,2) obtain x y where xy: "x \<in> set ds" "d = deployed_of x" "y \<in> set ds" "d' = deployed_of y" by auto
    with d(3,4) versions have "x = y" by (simp add: deployed_of_def case_prod_beta)
    with xy show ?thesis by simp
  qed
  have "fmlookup (processes (deploy_all ds state_new)) j = fmlookup (processes (deploy_all es state_new)) j" for j
    unfolding deploy_all_register
    by (rule process_registry.latest_order_independent) (use assms(2) uniq in \<open>auto simp: state_new_def\<close>)
  then have same: "processes (deploy_all ds state_new) = processes (deploy_all es state_new)" by (intro fmap_ext)
  have kept: "process_by_key (deploy_all xs state_new) (fst x) = Some (deployed_of x)"
    if "distinct (map fst xs)" "x \<in> set xs" for xs x
  proof -
    have "fmlookup (process_versions (fold register_process (map deployed_of xs) state_new)) (dp_key (deployed_of x)) = Some (deployed_of x)"
      by (rule process_registry.version_retained) (use that key in auto)
    moreover have "dp_key (deployed_of x) = fst x" using key by (metis comp_apply)
    ultimately show ?thesis by (simp add: process_by_key_def or_else_def deploy_all_register)
  qed
  have "latest_among (\<lambda>d. pd_id (dp_definition d)) dp_version ({} \<union> set (map deployed_of ds)) i
      (fmlookup (processes (fold register_process (map deployed_of ds) state_new)) i)"
    by (rule process_registry.latest_max) (simp add: latest_among_def state_new_def)
  then show ?thesis using same kept [OF assms(1)] kept [OF assms(3)] assms(2) by (auto simp: deploy_all_register)
qed

definition demo_process :: process_definition where
  "demo_process = \<lparr> pd_id = ''order'', pd_name = None, pd_elements = fmempty, pd_start_event = ''start'',
     pd_xml = [], pd_adhoc = [], pd_start_form_id = None \<rparr>"

theorem deployments_order_independent_witness:
  "processes (deploy_all [(1, 1, demo_process), (2, 2, demo_process)] state_new)
     = processes (deploy_all [(2, 2, demo_process), (1, 1, demo_process)] state_new)
   \<and> list_all (\<lambda>x. process_by_key (deploy_all [(1, 1, demo_process), (2, 2, demo_process)] state_new) (fst x) = Some (deployed_of x)
        \<and> process_by_key (deploy_all [(2, 2, demo_process), (1, 1, demo_process)] state_new) (fst x) = Some (deployed_of x))
       [(1, 1, demo_process), (2, 2, demo_process)]
   \<and> latest_among (\<lambda>d. pd_id (dp_definition d)) dp_version (deployed_of ` set [(1, 1, demo_process), (2, 2, demo_process)]) ''order''
       (fmlookup (processes (deploy_all [(1, 1, demo_process), (2, 2, demo_process)] state_new)) ''order'')"
  unfolding list_all_iff by (rule deployments_order_independent) auto

end
