(* ===== verification/Job_Index.thy ===== *)
theory Job_Index
  imports State_Types
begin

text \<open>
  The job indices of \<open>State\<close> (\<open>state/types.rs\<close>): \<open>activatable_jobs\<close>, the created jobs of each type in
  activation order, and \<open>activated_jobs\<close>, the locked ones, both kept in lockstep with \<open>jobs\<close> by
  \<open>resync_job_index\<close>. The invariant says the indices hold exactly the created and the activated
  jobs; \<open>live_job_count\<close> then counts the live jobs.
\<close>

section \<open>Operations\<close>

definition set_remove :: "string \<Rightarrow> int \<times> key \<Rightarrow> (string, (int \<times> key) fset) fmap \<Rightarrow> (string, (int \<times> key) fset) fmap" where
  "set_remove ty order m = (case fmlookup m ty of
     None \<Rightarrow> m
   | Some ks \<Rightarrow> (let ks' = ks |-| {|order|} in if ks' = {||} then fmdrop ty m else fmupd ty ks' m))"

definition live_job_count :: "state \<Rightarrow> nat" where
  "live_job_count s = fcard (activated_jobs s)
     + sum_list (map (\<lambda>(_, ks). fcard ks) (sorted_list_of_fmap (activatable_jobs s)))"

definition deindex_job :: "string \<Rightarrow> key \<Rightarrow> int \<Rightarrow> state \<Rightarrow> state" where
  "deindex_job job_type k priority s = s\<lparr>
     activatable_jobs := set_remove job_type (activation_order priority k) (activatable_jobs s),
     activated_jobs := activated_jobs s |-| {|k|} \<rparr>"

definition resync_job_index :: "key \<Rightarrow> state \<Rightarrow> state" where
  "resync_job_index job_key s = (case fmlookup (jobs s) job_key of
     None \<Rightarrow> s
   | Some job \<Rightarrow>
       (let order = activation_order (jb_priority job) job_key in s\<lparr>
          activatable_jobs :=
            (if jb_state job = JCreated then entry_or (jb_job_type job) {||} (finsert order) (activatable_jobs s)
             else set_remove (jb_job_type job) order (activatable_jobs s)),
          activated_jobs :=
            (if jb_state job = JActivated then finsert job_key (activated_jobs s)
             else activated_jobs s |-| {|job_key|}) \<rparr>))"

section \<open>The index invariant\<close>

definition activatable_set :: "state \<Rightarrow> string \<Rightarrow> (int \<times> key) fset" where
  "activatable_set s ty = (case fmlookup (activatable_jobs s) ty of None \<Rightarrow> {||} | Some ks \<Rightarrow> ks)"

definition job_index_inv :: "state \<Rightarrow> bool" where
  "job_index_inv s \<longleftrightarrow>
     (\<forall>ty. fmlookup (activatable_jobs s) ty \<noteq> Some {||})
   \<and> (\<forall>ty p k. (p, k) |\<in>| activatable_set s ty \<longleftrightarrow>
        (\<exists>j. fmlookup (jobs s) k = Some j \<and> jb_state j = JCreated \<and> jb_job_type j = ty
           \<and> activation_order (jb_priority j) k = (p, k)))
   \<and> (\<forall>k. k |\<in>| activated_jobs s \<longleftrightarrow> (\<exists>j. fmlookup (jobs s) k = Some j \<and> jb_state j = JActivated))"

definition job_live :: "job \<Rightarrow> bool" where
  "job_live j \<longleftrightarrow> jb_state j = JCreated \<or> jb_state j = JActivated"

definition set_lookup :: "(string, (int \<times> key) fset) fmap \<Rightarrow> string \<Rightarrow> (int \<times> key) fset" where
  "set_lookup m ty = (case fmlookup m ty of None \<Rightarrow> {||} | Some ks \<Rightarrow> ks)"

lemma activatable_set_lookup: "activatable_set s ty = set_lookup (activatable_jobs s) ty"
  by (simp add: activatable_set_def set_lookup_def)

lemma set_lookup_remove [simp]:
  "set_lookup (set_remove ty order m) ty' = (if ty' = ty then set_lookup m ty |-| {|order|} else set_lookup m ty')"
  by (auto simp: set_lookup_def set_remove_def Let_def split: option.splits)

lemma set_lookup_insert [simp]:
  "set_lookup (entry_or ty {||} (finsert order) m) ty' = (if ty' = ty then finsert order (set_lookup m ty) else set_lookup m ty')"
  by (auto simp: set_lookup_def split: option.splits)

lemma set_remove_nonempty:
  "(\<forall>ty. fmlookup m ty \<noteq> Some {||}) \<Longrightarrow> fmlookup (set_remove ty' order m) ty \<noteq> Some {||}"
  by (auto simp: set_remove_def Let_def split: option.splits)

lemma activation_order_snd [simp]: "activation_order p k = (q, k') \<longleftrightarrow> k' = k \<and> q = i32_neg p"
  by (auto simp: activation_order_def)

text \<open>The master step: the indices are right for every other key, and for this key they hold at most
  the entry that the job's type and priority determine; then \<open>resync_job_index\<close> makes them right.\<close>

lemma resync_establishes:
  assumes job: "fmlookup (jobs s) k = Some j"
    and ne: "\<forall>ty. fmlookup (activatable_jobs s) ty \<noteq> Some {||}"
    and others: "\<And>ty p k'. k' \<noteq> k \<Longrightarrow> (p, k') |\<in>| activatable_set s ty \<longleftrightarrow>
        (\<exists>j. fmlookup (jobs s) k' = Some j \<and> jb_state j = JCreated \<and> jb_job_type j = ty \<and> p = i32_neg (jb_priority j))"
    and self: "\<And>ty p. (p, k) |\<in>| activatable_set s ty \<Longrightarrow> ty = jb_job_type j \<and> p = i32_neg (jb_priority j)"
    and act: "\<And>k'. k' \<noteq> k \<Longrightarrow> k' |\<in>| activated_jobs s \<longleftrightarrow> (\<exists>j. fmlookup (jobs s) k' = Some j \<and> jb_state j = JActivated)"
  shows "job_index_inv (resync_job_index k s)"
proof -
  let ?s = "resync_job_index k s"
  let ?ord = "activation_order (jb_priority j) k"
  have jobs: "jobs ?s = jobs s" using job by (simp add: resync_job_index_def Let_def)
  have idx: "activatable_set ?s ty = (if ty = jb_job_type j
      then (if jb_state j = JCreated then finsert ?ord (activatable_set s ty) else activatable_set s ty |-| {|?ord|})
      else activatable_set s ty)" for ty
    using job by (auto simp: resync_job_index_def Let_def activatable_set_lookup)
  have "activated_jobs ?s = (if jb_state j = JActivated then finsert k (activated_jobs s) else activated_jobs s |-| {|k|})"
    using job by (simp add: resync_job_index_def Let_def)
  then have act': "k' |\<in>| activated_jobs ?s \<longleftrightarrow> (\<exists>j. fmlookup (jobs s) k' = Some j \<and> jb_state j = JActivated)" for k'
    using job act by (cases "k' = k") auto
  have ne': "fmlookup (activatable_jobs ?s) ty \<noteq> Some {||}" for ty
    using job ne set_remove_nonempty [of "activatable_jobs s"]
    by (simp add: resync_job_index_def Let_def)
  have "(p, k') |\<in>| activatable_set ?s ty \<longleftrightarrow>
      (\<exists>j. fmlookup (jobs s) k' = Some j \<and> jb_state j = JCreated \<and> jb_job_type j = ty \<and> p = i32_neg (jb_priority j))" for ty p k'
  proof (cases "k' = k")
    case True
    show ?thesis
    proof (cases "ty = jb_job_type j \<and> p = i32_neg (jb_priority j)")
      case True
      with \<open>k' = k\<close> job show ?thesis by (simp add: idx activation_order_def)
    next
      case False
      then have "(p, k) |\<notin>| activatable_set s ty" using self [of p ty] by blast
      then have "(p, k) |\<notin>| activatable_set ?s ty"
        using False unfolding idx activation_order_def by (cases "ty = jb_job_type j") auto
      with False \<open>k' = k\<close> job show ?thesis by auto
    qed
  next
    case False
    then show ?thesis using others [OF False, of p ty] by (auto simp: idx activation_order_def)
  qed
  with ne' act' show ?thesis unfolding job_index_inv_def jobs activation_order_snd by simp
qed

lemma index_entryD:
  "job_index_inv s \<Longrightarrow> (p, k) |\<in>| activatable_set s ty \<longleftrightarrow>
     (\<exists>j. fmlookup (jobs s) k = Some j \<and> jb_state j = JCreated \<and> jb_job_type j = ty \<and> p = i32_neg (jb_priority j))"
  by (simp add: job_index_inv_def)

lemma index_activatedD:
  "job_index_inv s \<Longrightarrow> k |\<in>| activated_jobs s \<longleftrightarrow> (\<exists>j. fmlookup (jobs s) k = Some j \<and> jb_state j = JActivated)"
  by (simp add: job_index_inv_def)

lemma index_nonempty: "job_index_inv s \<Longrightarrow> \<forall>ty. fmlookup (activatable_jobs s) ty \<noteq> Some {||}"
  by (simp add: job_index_inv_def)

text \<open>The two ways the appliers change a job: insert a fresh one, or rewrite one in place keeping its
  type and priority.\<close>

lemma job_index_inv_insert:
  assumes "job_index_inv s" "fmlookup (jobs s) k = None"
  shows "job_index_inv (resync_job_index k (s\<lparr> jobs := fmupd k j (jobs s) \<rparr>))"
  by (rule resync_establishes [where j = j])
    (use assms in \<open>auto simp: index_nonempty index_entryD index_activatedD activatable_set_def [of "jobs_update _ _"]
       activatable_set_def [of s, symmetric]\<close>)

lemma job_index_inv_update:
  assumes inv: "job_index_inv s" and keep: "\<And>j. jb_job_type (f j) = jb_job_type j" "\<And>j. jb_priority (f j) = jb_priority j"
  shows "job_index_inv (resync_job_index k (s\<lparr> jobs := get_mut k f (jobs s) \<rparr>))"
proof (cases "fmlookup (jobs s) k")
  case None
  then show ?thesis using inv by (simp add: resync_job_index_def)
next
  case (Some j)
  show ?thesis
    by (rule resync_establishes [where j = "f j"])
      (use assms Some in \<open>auto simp: index_nonempty index_entryD index_activatedD activatable_set_def [of "jobs_update _ _"]
         activatable_set_def [of s, symmetric]\<close>)
qed

lemma job_index_inv_same:
  assumes inv: "job_index_inv s"
    and "activatable_jobs s' = activatable_jobs s" "activated_jobs s' = activated_jobs s"
    and same: "\<And>k. rel_option (\<lambda>j j'. jb_state j' = jb_state j \<and> jb_job_type j' = jb_job_type j \<and> jb_priority j' = jb_priority j)
        (fmlookup (jobs s) k) (fmlookup (jobs s') k)"
  shows "job_index_inv s'"
proof -
  have iff: "(\<exists>j. fmlookup (jobs s') k = Some j \<and> P (jb_state j) (jb_job_type j) (jb_priority j)) \<longleftrightarrow>
        (\<exists>j. fmlookup (jobs s) k = Some j \<and> P (jb_state j) (jb_job_type j) (jb_priority j))" for k P
    using same [of k] by (cases "fmlookup (jobs s) k"; cases "fmlookup (jobs s') k") auto
  have "activatable_set s' = activatable_set s" by (simp add: fun_eq_iff activatable_set_def assms(2))
  moreover have "(\<exists>j. fmlookup (jobs s') k = Some j \<and> jb_state j = JCreated \<and> jb_job_type j = ty \<and> p = i32_neg (jb_priority j)) \<longleftrightarrow>
      (\<exists>j. fmlookup (jobs s) k = Some j \<and> jb_state j = JCreated \<and> jb_job_type j = ty \<and> p = i32_neg (jb_priority j))" for k ty p
    by (rule iff [where P = "\<lambda>st t q. st = JCreated \<and> t = ty \<and> p = i32_neg q"])
  moreover have "(\<exists>j. fmlookup (jobs s') k = Some j \<and> jb_state j = JActivated) \<longleftrightarrow>
      (\<exists>j. fmlookup (jobs s) k = Some j \<and> jb_state j = JActivated)" for k
    by (rule iff [where P = "\<lambda>st t q. st = JActivated"])
  ultimately show ?thesis
    using inv unfolding job_index_inv_def assms(2,3) by simp
qed

section \<open>The indices count the live jobs\<close>

lemma sum_list_fmap_values:
  "sum_list (map (\<lambda>(_, v). f v) (sorted_list_of_fmap m)) = (\<Sum>k \<in> fset (fmdom m). f (the (fmlookup m k)))"
  for f :: "'v \<Rightarrow> nat"
proof -
  have "sum_list (map (\<lambda>(_, v). f v) (sorted_list_of_fmap m)) =
      sum_list (map (\<lambda>k. f (the (fmlookup m k))) (sorted_list_of_fset (fmdom m)))"
    by (simp add: sorted_list_of_fmap_def comp_def)
  then show ?thesis
    by (simp add: sum_list_distinct_conv_sum_set sorted_list_of_fset.rep_eq)
qed

lemma live_job_count_live:
  assumes inv: "job_index_inv s"
  shows "live_job_count s = fmcount job_live (jobs s)"
proof -
  let ?created = "{k. \<exists>j. fmlookup (jobs s) k = Some j \<and> jb_state j = JCreated}"
  let ?activated = "{k. \<exists>j. fmlookup (jobs s) k = Some j \<and> jb_state j = JActivated}"
  let ?U = "\<Union>ty \<in> fset (fmdom (activatable_jobs s)). fset (activatable_set s ty)"
  have disj: "fset (activatable_set s ty) \<inter> fset (activatable_set s ty') = {}" if "ty \<noteq> ty'" for ty ty'
    using that by (auto simp: index_entryD [OF inv])
  have "sum_list (map (\<lambda>(_, ks). fcard ks) (sorted_list_of_fmap (activatable_jobs s)))
      = (\<Sum>ty \<in> fset (fmdom (activatable_jobs s)). card (fset (activatable_set s ty)))"
    unfolding sum_list_fmap_values
    by (rule sum.cong) (auto simp: activatable_set_def fcard.rep_eq fmlookup_dom_iff)
  also have "\<dots> = card ?U"
    by (rule card_UN_disjoint [symmetric]) (use disj in auto)
  also have "\<dots> = card (snd ` ?U)"
    by (rule card_image [symmetric]) (auto simp: inj_on_def index_entryD [OF inv])
  also have "snd ` ?U = ?created"
  proof (intro equalityI subsetI)
    fix k
    assume "k \<in> ?created"
    then obtain j where j: "fmlookup (jobs s) k = Some j" "jb_state j = JCreated" by blast
    then have e: "(i32_neg (jb_priority j), k) |\<in>| activatable_set s (jb_job_type j)"
      by (auto simp: index_entryD [OF inv])
    then have "jb_job_type j |\<in>| fmdom (activatable_jobs s)"
      by (auto simp: activatable_set_def intro: fmdomI split: option.splits)
    with e show "k \<in> snd ` ?U" by force
  qed (auto simp: index_entryD [OF inv])
  finally have "sum_list (map (\<lambda>(_, ks). fcard ks) (sorted_list_of_fmap (activatable_jobs s))) = card ?created" .
  moreover have "fset (activated_jobs s) = ?activated" using index_activatedD [OF inv] by auto
  ultimately have "live_job_count s = card ?activated + card ?created"
    by (simp only: live_job_count_def fcard.rep_eq)
  also have "\<dots> = card (?activated \<union> ?created)"
    by (rule card_Un_disjoint [symmetric]) auto
  also have "?activated \<union> ?created = {k. \<exists>j. fmlookup (jobs s) k = Some j \<and> job_live j}"
    by (auto simp: job_live_def)
  finally show ?thesis by (simp add: fmcount_def)
qed

end
