(* ===== verification/Apply_Job.thy ===== *)
theory Apply_Job
  imports Events Job_Index
begin

text \<open>
  The job and incident appliers of \<open>engine-core/src/state/apply/job.rs\<close>, one definition per event
  arm, and the proof that they keep the job indices in lockstep with the jobs.
\<close>

section \<open>Appliers\<close>

definition insert_job :: "job \<Rightarrow> state \<Rightarrow> state" where
  "insert_job j s =
     (let s1 = s\<lparr> jobs := fmupd (jb_key j) j (jobs s) \<rparr>;
          s2 = resync_job_index (jb_key j) s1
      in s2\<lparr> jobs_by_instance := entry_or (jb_instance_key j) {||} (finsert (jb_key j)) (jobs_by_instance s2) \<rparr>)"

definition apply_JobCreated :: "key \<Rightarrow> key \<Rightarrow> key \<Rightarrow> elementid \<Rightarrow> string \<Rightarrow> u64 \<Rightarrow> int \<Rightarrow> int \<Rightarrow> state \<Rightarrow> state" where
  "apply_JobCreated job_key instance_key element_instance_key element_id job_type created_at priority retries s =
     insert_job \<lparr> jb_key = job_key, jb_instance_key = instance_key,
       jb_element_instance_key = element_instance_key, jb_element_id = element_id, jb_job_type = job_type,
       jb_state = JCreated, jb_worker = None, jb_deadline = None, jb_activated_at = None,
       jb_activation_timeout = None, jb_lease_token = None, jb_durable_activation = False,
       jb_activated = False, jb_retries = retries, jb_priority = priority, jb_created_at = created_at,
       jb_kind = BpmnElement \<rparr> s"

definition apply_ExecutionListenerJobCreated ::
  "key \<Rightarrow> key \<Rightarrow> key \<Rightarrow> elementid \<Rightarrow> string \<Rightarrow> listener_event_type \<Rightarrow> nat \<Rightarrow> key \<Rightarrow> u64 \<Rightarrow> int \<Rightarrow> state \<Rightarrow> state" where
  "apply_ExecutionListenerJobCreated job_key instance_key element_instance_key element_id job_type event_type
      listener_index scope created_at retries s =
     insert_job \<lparr> jb_key = job_key, jb_instance_key = instance_key,
       jb_element_instance_key = element_instance_key, jb_element_id = element_id, jb_job_type = job_type,
       jb_state = JCreated, jb_worker = None, jb_deadline = None, jb_activated_at = None,
       jb_activation_timeout = None, jb_lease_token = None, jb_durable_activation = False,
       jb_activated = False, jb_retries = retries, jb_priority = DEFAULT_JOB_PRIORITY,
       jb_created_at = created_at, jb_kind = ExecutionListener event_type listener_index scope \<rparr> s"

definition apply_TaskListenerJobCreated ::
  "key \<Rightarrow> key \<Rightarrow> key \<Rightarrow> elementid \<Rightarrow> key \<Rightarrow> string \<Rightarrow> task_listener_event_type \<Rightarrow> nat \<Rightarrow> u64 \<Rightarrow> int \<Rightarrow> state \<Rightarrow> state" where
  "apply_TaskListenerJobCreated job_key instance_key element_instance_key element_id user_task_key job_type
      event_type listener_index created_at retries s =
     insert_job \<lparr> jb_key = job_key, jb_instance_key = instance_key,
       jb_element_instance_key = element_instance_key, jb_element_id = element_id, jb_job_type = job_type,
       jb_state = JCreated, jb_worker = None, jb_deadline = None, jb_activated_at = None,
       jb_activation_timeout = None, jb_lease_token = None, jb_durable_activation = False,
       jb_activated = False, jb_retries = retries, jb_priority = DEFAULT_JOB_PRIORITY,
       jb_created_at = created_at, jb_kind = TaskListener event_type listener_index user_task_key \<rparr> s"

definition update_job :: "key \<Rightarrow> (job \<Rightarrow> job) \<Rightarrow> state \<Rightarrow> state" where
  "update_job k f s = resync_job_index k (s\<lparr> jobs := get_mut k f (jobs s) \<rparr>)"

definition apply_JobActivated ::
  "key \<Rightarrow> bool \<Rightarrow> string \<Rightarrow> u64 \<Rightarrow> u64 option \<Rightarrow> string option \<Rightarrow> state \<Rightarrow> state" where
  "apply_JobActivated job_key durable worker deadline activated_at lease_token s =
     update_job job_key (\<lambda>job. job\<lparr>
       jb_state := JActivated,
       jb_worker := (if worker = [] then None else Some worker),
       jb_deadline := Some deadline,
       jb_activated_at := activated_at,
       jb_activation_timeout := map_option (\<lambda>a. saturating_sub deadline a) activated_at,
       jb_lease_token := lease_token,
       jb_durable_activation := jb_durable_activation job \<or> durable,
       jb_activated := True \<rparr>) s"

definition apply_JobLockExpired :: "key \<Rightarrow> state \<Rightarrow> state" where
  "apply_JobLockExpired job_key s =
     update_job job_key (\<lambda>job. if jb_state job = JActivated
       then job\<lparr> jb_state := JCreated, jb_worker := None, jb_deadline := None, jb_activated_at := None,
                 jb_activation_timeout := None \<rparr>
       else job) s"

definition apply_JobFailed :: "key \<Rightarrow> int \<Rightarrow> string option \<Rightarrow> state \<Rightarrow> state" where
  "apply_JobFailed job_key retries worker s =
     update_job job_key (\<lambda>job.
       let job1 = job\<lparr> jb_retries := retries, jb_deadline := None, jb_activated_at := None,
                       jb_activation_timeout := None \<rparr>
       in if 0 < retries then job1\<lparr> jb_worker := None, jb_state := JCreated \<rparr>
          else job1\<lparr> jb_worker := (if worker \<noteq> None then worker else jb_worker job1), jb_state := JFailed \<rparr>) s"

definition apply_JobErrorThrown :: "key \<Rightarrow> string option \<Rightarrow> state \<Rightarrow> state" where
  "apply_JobErrorThrown job_key worker s =
     update_job job_key (\<lambda>job. job\<lparr> jb_state := JErrored, jb_deadline := None, jb_activated_at := None,
       jb_activation_timeout := None, jb_lease_token := None,
       jb_worker := (if worker \<noteq> None then worker else jb_worker job) \<rparr>) s"

definition apply_JobCompleted :: "key \<Rightarrow> state \<Rightarrow> state" where
  "apply_JobCompleted job_key s =
     update_job job_key (\<lambda>job. job\<lparr> jb_state := JCompleted, jb_worker := None, jb_deadline := None,
       jb_activated_at := None, jb_activation_timeout := None \<rparr>) s"

definition apply_IncidentRaised ::
  "key \<Rightarrow> key \<Rightarrow> key \<Rightarrow> elementid \<Rightarrow> incident_kind \<Rightarrow> io_mapping_redrive option \<Rightarrow> string \<Rightarrow> key option \<Rightarrow> u64 \<Rightarrow> state \<Rightarrow> state" where
  "apply_IncidentRaised incident_key instance_key element_instance_key element_id kind redrive reason job_key created_at s =
     s\<lparr> incidents := fmupd incident_key \<lparr> inc_key = incident_key, inc_instance_key = instance_key,
          inc_element_instance_key = element_instance_key, inc_element_id = element_id, inc_kind = kind,
          inc_redrive = redrive, inc_reason = reason, inc_job_key = job_key, inc_created_at = created_at,
          inc_state = IncActive, inc_resolved_at = None, inc_operation_reference = None \<rparr> (incidents s),
        instances := get_mut instance_key (\<lambda>i. i\<lparr> pi_incidents := pi_incidents i @ [incident_key] \<rparr>) (instances s) \<rparr>"

definition apply_JobRetriesUpdated :: "key \<Rightarrow> int \<Rightarrow> state \<Rightarrow> state" where
  "apply_JobRetriesUpdated job_key retries s =
     s\<lparr> jobs := get_mut job_key (\<lambda>job. job\<lparr> jb_retries := retries \<rparr>) (jobs s) \<rparr>"

definition apply_JobTimeoutUpdated :: "key \<Rightarrow> u64 \<Rightarrow> state \<Rightarrow> state" where
  "apply_JobTimeoutUpdated job_key deadline s =
     s\<lparr> jobs := get_mut job_key (\<lambda>job. job\<lparr> jb_deadline := Some deadline \<rparr>) (jobs s) \<rparr>"

definition return_parked_job :: "key \<Rightarrow> state \<Rightarrow> state" where
  "return_parked_job job_key s =
     (if map_option jb_state (fmlookup (jobs s) job_key) = Some JFailed
      then update_job job_key (\<lambda>job. job\<lparr> jb_state := JCreated, jb_worker := None, jb_deadline := None,
             jb_activated_at := None, jb_activation_timeout := None, jb_lease_token := None \<rparr>) s
      else s)"

definition apply_IncidentResolved :: "key \<Rightarrow> key \<Rightarrow> key option \<Rightarrow> u64 \<Rightarrow> int option \<Rightarrow> state \<Rightarrow> state" where
  "apply_IncidentResolved incident_key instance_key job_key resolved_at operation_reference s =
     (let s1 = s\<lparr> incidents := get_mut incident_key (\<lambda>i. i\<lparr> inc_state := IncResolved,
                    inc_resolved_at := Some resolved_at, inc_operation_reference := operation_reference \<rparr>) (incidents s),
                  instances := get_mut instance_key
                    (\<lambda>i. i\<lparr> pi_incidents := filter (\<lambda>k. k \<noteq> incident_key) (pi_incidents i) \<rparr>) (instances s) \<rparr>
      in case job_key of None \<Rightarrow> s1 | Some jk \<Rightarrow> return_parked_job jk s1)"

definition apply_JobCanceled :: "key \<Rightarrow> state \<Rightarrow> state" where
  "apply_JobCanceled job_key s =
     update_job job_key (\<lambda>job. job\<lparr> jb_state := JCanceled, jb_worker := None, jb_deadline := None,
       jb_activated_at := None, jb_activation_timeout := None, jb_lease_token := None \<rparr>) s"

primrec apply_job :: "job_event \<Rightarrow> state \<Rightarrow> state" where
  "apply_job (JobCreated jk ik eik eid ty created priority retries) s =
     apply_JobCreated jk ik eik eid ty created priority retries s"
| "apply_job (ExecutionListenerJobCreated jk ik eik eid ty et idx scope created retries) s =
     apply_ExecutionListenerJobCreated jk ik eik eid ty et idx scope created retries s"
| "apply_job (JobActivated jk _ durable worker deadline activated_at _ lease) s =
     apply_JobActivated jk durable worker deadline activated_at lease s"
| "apply_job (JobLockExpired jk _) s = apply_JobLockExpired jk s"
| "apply_job (JobFailed jk _ retries worker) s = apply_JobFailed jk retries worker s"
| "apply_job (JobErrorThrown jk _ _ worker) s = apply_JobErrorThrown jk worker s"
| "apply_job (JobCompleted jk _ _ _ _) s = apply_JobCompleted jk s"
| "apply_job (JobRetriesUpdated jk _ retries _) s = apply_JobRetriesUpdated jk retries s"
| "apply_job (JobTimeoutUpdated jk _ deadline _) s = apply_JobTimeoutUpdated jk deadline s"
| "apply_job (TaskListenerJobCreated jk ik eik eid utk ty et idx created retries) s =
     apply_TaskListenerJobCreated jk ik eik eid utk ty et idx created retries s"
| "apply_job (JobCanceled jk _) s = apply_JobCanceled jk s"

primrec apply_incident :: "incident_event \<Rightarrow> state \<Rightarrow> state" where
  "apply_incident (IncidentRaised ick ik eik eid kind redrive reason jk created) s =
     apply_IncidentRaised ick ik eik eid kind redrive reason jk created s"
| "apply_incident (IncidentResolved ick ik jk resolved_at opref) s =
     apply_IncidentResolved ick ik jk resolved_at opref s"

section \<open>The appliers keep the job indices\<close>

lemmas job_arm_defs = apply_JobCreated_def apply_ExecutionListenerJobCreated_def apply_TaskListenerJobCreated_def
  apply_JobActivated_def apply_JobLockExpired_def apply_JobFailed_def apply_JobErrorThrown_def
  apply_JobCompleted_def apply_JobRetriesUpdated_def apply_JobTimeoutUpdated_def apply_JobCanceled_def

lemmas incident_arm_defs = apply_IncidentRaised_def apply_IncidentResolved_def return_parked_job_def

text \<open>The key a job event creates a job under, if it creates one.\<close>

definition created_job_key :: "job_event \<Rightarrow> key option" where
  "created_job_key e = (case e of
     JobCreated jk _ _ _ _ _ _ _ \<Rightarrow> Some jk
   | ExecutionListenerJobCreated jk _ _ _ _ _ _ _ _ _ \<Rightarrow> Some jk
   | TaskListenerJobCreated jk _ _ _ _ _ _ _ _ _ \<Rightarrow> Some jk
   | _ \<Rightarrow> None)"

lemma resync_jobs [simp]: "jobs (resync_job_index k s) = jobs s"
  by (simp add: resync_job_index_def Let_def split: option.splits)

lemma resync_frame [simp]:
  "instances (resync_job_index k s) = instances s" "incidents (resync_job_index k s) = incidents s"
  "jobs_by_instance (resync_job_index k s) = jobs_by_instance s"
  "inflight_by_process (resync_job_index k s) = inflight_by_process s"
  "timers (resync_job_index k s) = timers s"
  "message_subscriptions (resync_job_index k s) = message_subscriptions s"
  "signal_subscriptions (resync_job_index k s) = signal_subscriptions s"
  "conditional_subscriptions (resync_job_index k s) = conditional_subscriptions s"
  "user_tasks (resync_job_index k s) = user_tasks s"
  "created_by_process (resync_job_index k s) = created_by_process s"
  by (simp_all add: resync_job_index_def Let_def split: option.splits)

lemma job_index_inv_frame:
  "job_index_inv s \<Longrightarrow> jobs s' = jobs s \<Longrightarrow> activatable_jobs s' = activatable_jobs s \<Longrightarrow>
   activated_jobs s' = activated_jobs s \<Longrightarrow> job_index_inv s'"
  by (rule job_index_inv_same [of s]) (auto intro: option.rel_refl)

lemma insert_job_inv:
  "job_index_inv s \<Longrightarrow> fmlookup (jobs s) (jb_key j) = None \<Longrightarrow> job_index_inv (insert_job j s)"
  unfolding insert_job_def Let_def
  by (rule job_index_inv_frame [OF job_index_inv_insert [of s "jb_key j" j]]) simp_all

lemma update_job_inv:
  "job_index_inv s \<Longrightarrow> (\<And>j. jb_job_type (f j) = jb_job_type j) \<Longrightarrow> (\<And>j. jb_priority (f j) = jb_priority j) \<Longrightarrow>
   job_index_inv (update_job k f s)"
  unfolding update_job_def by (rule job_index_inv_update)

lemma get_mut_inv:
  assumes "job_index_inv s" "\<And>j. jb_state (f j) = jb_state j" "\<And>j. jb_job_type (f j) = jb_job_type j"
    "\<And>j. jb_priority (f j) = jb_priority j"
  shows "job_index_inv (s\<lparr> jobs := get_mut k f (jobs s) \<rparr>)"
  by (rule job_index_inv_same [OF assms(1)]) (auto simp: assms(2-4) option.rel_map intro: option.rel_refl)

lemma apply_job_index_inv:
  assumes "job_index_inv s" "\<And>k. created_job_key e = Some k \<Longrightarrow> fmlookup (jobs s) k = None"
  shows "job_index_inv (apply_job e s)"
  using assms
  by (cases e) (simp_all add: job_arm_defs created_job_key_def insert_job_inv update_job_inv get_mut_inv Let_def)

lemma apply_incident_index_inv:
  assumes "job_index_inv s"
  shows "job_index_inv (apply_incident e s)"
proof (cases e)
  case (IncidentRaised ick ik eik eid kind redrive reason jk created)
  then show ?thesis using assms by (auto simp: incident_arm_defs intro: job_index_inv_frame)
next
  case (IncidentResolved ick ik jk resolved_at opref)
  define s1 where "s1 = s\<lparr> incidents := get_mut ick (\<lambda>i. i\<lparr> inc_state := IncResolved,
      inc_resolved_at := Some resolved_at, inc_operation_reference := opref \<rparr>) (incidents s),
    instances := get_mut ik (\<lambda>i. i\<lparr> pi_incidents := filter (\<lambda>k. k \<noteq> ick) (pi_incidents i) \<rparr>) (instances s) \<rparr>"
  have "job_index_inv s1" using assms by (auto simp: s1_def intro: job_index_inv_frame)
  then show ?thesis
    by (simp add: IncidentResolved apply_IncidentResolved_def s1_def [symmetric] Let_def return_parked_job_def
        update_job_inv split: option.splits)
qed

section \<open>Properties of incident resolution\<close>

definition job_terminal :: "job_state \<Rightarrow> bool" where
  "job_terminal st \<longleftrightarrow> st \<in> {JCompleted, JErrored, JCanceled}"

text \<open>Resolving an incident never brings a settled job back: a completed, errored or canceled job
  is untouched, and only a job parked as failed returns to the activatable pool, without its lease.\<close>

theorem incident_resolution_job:
  assumes "fmlookup (jobs s) jk = Some j"
  shows "fmlookup (jobs (apply_IncidentResolved ick ik (Some jk) t opref s)) jk =
     Some (if jb_state j = JFailed
           then j\<lparr> jb_state := JCreated, jb_worker := None, jb_deadline := None, jb_activated_at := None,
                   jb_activation_timeout := None, jb_lease_token := None \<rparr>
           else j)
     \<and> (job_terminal (jb_state j) \<longrightarrow> fmlookup (jobs (apply_IncidentResolved ick ik (Some jk) t opref s)) jk = Some j)
     \<and> (\<forall>k. k \<noteq> jk \<longrightarrow> fmlookup (jobs (apply_IncidentResolved ick ik (Some jk) t opref s)) k = fmlookup (jobs s) k)"
  using assms by (auto simp: apply_IncidentResolved_def return_parked_job_def update_job_def Let_def job_terminal_def)

definition parked_job :: job where
  "parked_job = \<lparr> jb_key = 4, jb_instance_key = 1, jb_element_instance_key = 3, jb_element_id = ''task'', jb_job_type = ''pay'',
     jb_state = JFailed, jb_worker = Some ''w'', jb_deadline = None, jb_activated_at = None, jb_activation_timeout = None,
     jb_lease_token = None, jb_durable_activation = False, jb_activated = True, jb_retries = 0, jb_priority = 50,
     jb_created_at = 0, jb_kind = BpmnElement \<rparr>"

theorem incident_resolution_job_witness:
  "fmlookup (jobs (apply_IncidentResolved 9 1 (Some 4) 0 None (insert_job parked_job state_new))) 4 =
     Some (parked_job\<lparr> jb_state := JCreated, jb_worker := None, jb_deadline := None, jb_activated_at := None,
                   jb_activation_timeout := None, jb_lease_token := None \<rparr>)
   \<and> fmlookup (jobs (apply_IncidentResolved 9 1 (Some 4) 0 None (insert_job parked_job state_new))) 5 = None"
proof -
  have job: "fmlookup (jobs (insert_job parked_job state_new)) 4 = Some parked_job"
      "fmlookup (jobs (insert_job parked_job state_new)) 5 = None"
    by (simp_all add: insert_job_def Let_def parked_job_def state_new_def)
  have "jb_state parked_job = JFailed" by (simp add: parked_job_def)
  with incident_resolution_job [OF job(1), of 9 1 0 None] job(2) show ?thesis by simp
qed

end
