(* ===== verification/Apply_Instance.thy ===== *)
theory Apply_Instance
  imports Events
begin

text \<open>
  The instance appliers of \<open>engine-core/src/state/apply/instance.rs\<close>: creation, variables and
  scopes, agent records, and the lifecycle transitions including migration. The per-definition
  counter \<open>inflight_by_process\<close> is maintained here.
\<close>

section \<open>Creation, variables and scopes\<close>

definition pi_terminal :: "process_instance_state \<Rightarrow> bool" where
  "pi_terminal st \<longleftrightarrow> st = PICompleted \<or> st = PITerminated"

definition non_terminal_process_id :: "state \<Rightarrow> key \<Rightarrow> string option" where
  "non_terminal_process_id s ik = (case fmlookup (instances s) ik of
     None \<Rightarrow> None
   | Some i \<Rightarrow> if pi_terminal (pi_state i) then None else Some (pi_process_id i))"

definition decrement_inflight_by_process :: "string option \<Rightarrow> state \<Rightarrow> state" where
  "decrement_inflight_by_process process_id s = (case process_id of
     None \<Rightarrow> s
   | Some pid \<Rightarrow> (case fmlookup (inflight_by_process s) pid of
        None \<Rightarrow> s
      | Some cnt \<Rightarrow> s\<lparr> inflight_by_process :=
          (if cnt - 1 = 0 then fmdrop pid (inflight_by_process s)
           else fmupd pid (cnt - 1) (inflight_by_process s)) \<rparr>))"

definition apply_ProcessInstanceCreated ::
  "key \<Rightarrow> string \<Rightarrow> vars \<Rightarrow> u64 \<Rightarrow> string list \<Rightarrow> string option \<Rightarrow> key \<Rightarrow> key option \<Rightarrow> key option \<Rightarrow> state \<Rightarrow> state" where
  "apply_ProcessInstanceCreated ik process_id vs created_at tags business_id pdk parent_pik parent_eik s =
     (let pinned_key = (if pdk \<noteq> 0 then pdk
                        else case fmlookup (processes s) process_id of None \<Rightarrow> 0 | Some d \<Rightarrow> dp_key d)
      in s\<lparr> inflight_by_process := entry_or process_id 0 Suc (inflight_by_process s),
            created_by_process := entry_or process_id 0 Suc (created_by_process s),
            instances := fmupd ik \<lparr> pi_key = ik, pi_process_id = process_id,
              pi_process_definition_key = pinned_key, pi_state = PIActive, pi_suspended_at = None,
              pi_created_at = created_at, pi_tags = tags, pi_business_id = business_id,
              pi_parent_process_instance_key = parent_pik, pi_parent_element_instance_key = parent_eik,
              pi_active = fmempty, pi_scopes = fmempty, pi_variables = vs, pi_join_counts = fmempty,
              pi_join_flow_arrivals = fmempty, pi_join_instances = fmempty, pi_incidents = [],
              pi_variables_spilled = False, pi_multi_instances = fmempty, pi_adhoc_instances = fmempty,
              pi_scope_parents = fmempty, pi_scope_variables = fmempty, pi_compensable = [],
              pi_compensation_waits = fmempty, pi_agent_instances = fmempty, pi_agent_history = fmempty \<rparr>
              (instances s) \<rparr>)"

definition on_instance :: "key \<Rightarrow> (process_instance \<Rightarrow> process_instance) \<Rightarrow> state \<Rightarrow> state" where
  "on_instance ik f s = s\<lparr> instances := get_mut ik f (instances s) \<rparr>"

definition apply_VariablesUpdated :: "key \<Rightarrow> vars \<Rightarrow> state \<Rightarrow> state" where
  "apply_VariablesUpdated ik vs s = on_instance ik (\<lambda>i. i\<lparr> pi_variables := pi_variables i ++\<^sub>f vs \<rparr>) s"

definition apply_ScopedVariablesUpdated :: "key \<Rightarrow> key \<Rightarrow> vars \<Rightarrow> state \<Rightarrow> state" where
  "apply_ScopedVariablesUpdated ik scope_key vs s = on_instance ik (\<lambda>i.
     if scope_key = 0 \<or> scope_key = ik then i\<lparr> pi_variables := pi_variables i ++\<^sub>f vs \<rparr>
     else i\<lparr> pi_scope_variables := entry_or scope_key fmempty (\<lambda>m. m ++\<^sub>f vs) (pi_scope_variables i) \<rparr>) s"

definition apply_VariableScopeCreated :: "key \<Rightarrow> key \<Rightarrow> key \<Rightarrow> state \<Rightarrow> state" where
  "apply_VariableScopeCreated ik scope_key parent_scope_key s = on_instance ik (\<lambda>i. i\<lparr>
     pi_scope_parents := fmupd scope_key parent_scope_key (pi_scope_parents i),
     pi_scope_variables := entry_or scope_key fmempty (\<lambda>m. m) (pi_scope_variables i) \<rparr>) s"

definition apply_VariableScopeDestroyed :: "key \<Rightarrow> key \<Rightarrow> state \<Rightarrow> state" where
  "apply_VariableScopeDestroyed ik scope_key s = on_instance ik (\<lambda>i. i\<lparr>
     pi_scope_parents := fmdrop scope_key (pi_scope_parents i),
     pi_scope_variables := fmdrop scope_key (pi_scope_variables i) \<rparr>) s"

primrec apply_variable :: "variable_event \<Rightarrow> state \<Rightarrow> state" where
  "apply_variable (ProcessInstanceCreated ik pid vs created tags bid pdk _ ppik peik) s =
     apply_ProcessInstanceCreated ik pid vs created tags bid pdk ppik peik s"
| "apply_variable (VariablesUpdated ik vs) s = apply_VariablesUpdated ik vs s"
| "apply_variable (ScopedVariablesUpdated ik sk vs) s = apply_ScopedVariablesUpdated ik sk vs s"
| "apply_variable (VariableScopeCreated ik sk psk) s = apply_VariableScopeCreated ik sk psk s"
| "apply_variable (VariableScopeDestroyed ik sk) s = apply_VariableScopeDestroyed ik sk s"

section \<open>Agent records\<close>

definition apply_AgentInstanceCreated :: "key \<Rightarrow> agent_instance \<Rightarrow> state \<Rightarrow> state" where
  "apply_AgentInstanceCreated ik a s = on_instance ik (\<lambda>i. i\<lparr>
     pi_agent_instances := fmupd (ai_agent_instance_key a) a (pi_agent_instances i) \<rparr>) s"

definition apply_AgentInstanceUpserted :: "key \<Rightarrow> agent_instance \<Rightarrow> state \<Rightarrow> state" where
  "apply_AgentInstanceUpserted ik a s = on_instance ik (\<lambda>i. i\<lparr>
     pi_agent_instances := fmupd (ai_agent_instance_key a) a (pi_agent_instances i) \<rparr>) s"

definition insert_history :: "agent_history_record \<Rightarrow> agent_history_record list \<Rightarrow> agent_history_record list" where
  "insert_history r log =
     (let pos = length (takeWhile (\<lambda>x. order_key x \<le> order_key r) log)
      in take pos log @ r # drop pos log)"

definition apply_AgentHistoryCreated :: "key \<Rightarrow> agent_history_record \<Rightarrow> state \<Rightarrow> state" where
  "apply_AgentHistoryCreated ik r s = on_instance ik (\<lambda>i. i\<lparr>
     pi_agent_history := entry_or (ahr_agent_instance_key r) [] (insert_history r) (pi_agent_history i) \<rparr>) s"

definition settle_history ::
  "agent_history_commit_status \<Rightarrow> key list \<Rightarrow> agent_history_record list \<Rightarrow> agent_history_record list" where
  "settle_history status keys log =
     map (\<lambda>r. if ahr_commit_status r = CommitPending \<and> ahr_agent_history_key r \<in> set keys
              then r\<lparr> ahr_commit_status := status \<rparr> else r) log"

definition apply_AgentHistoryCommitted :: "key \<Rightarrow> key \<Rightarrow> key list \<Rightarrow> state \<Rightarrow> state" where
  "apply_AgentHistoryCommitted ik aik keys s = on_instance ik (\<lambda>i. i\<lparr>
     pi_agent_history := get_mut aik (settle_history CommitCommitted keys) (pi_agent_history i) \<rparr>) s"

definition apply_AgentHistoryDiscarded :: "key \<Rightarrow> key \<Rightarrow> key list \<Rightarrow> state \<Rightarrow> state" where
  "apply_AgentHistoryDiscarded ik aik keys s = on_instance ik (\<lambda>i. i\<lparr>
     pi_agent_history := get_mut aik (settle_history CommitDiscarded keys) (pi_agent_history i) \<rparr>) s"

primrec apply_agent :: "agent_event \<Rightarrow> state \<Rightarrow> state" where
  "apply_agent (StartInstanceDispatched _ _ _ _ _ _) s = s"
| "apply_agent (AgentInstanceCreated ik a) s = apply_AgentInstanceCreated ik a s"
| "apply_agent (AgentInstanceUpdated ik a) s = apply_AgentInstanceUpserted ik a s"
| "apply_agent (AgentInstanceCompleted ik a) s = apply_AgentInstanceUpserted ik a s"
| "apply_agent (AgentHistoryCreated ik r) s = apply_AgentHistoryCreated ik r s"
| "apply_agent (AgentHistoryCommitted ik aik keys) s = apply_AgentHistoryCommitted ik aik keys s"
| "apply_agent (AgentHistoryDiscarded ik aik keys) s = apply_AgentHistoryDiscarded ik aik keys s"
| "apply_agent (AgentHistoryDeduplicated _ _ _ _) s = s"

section \<open>Lifecycle transitions\<close>

definition clear_completed :: "process_instance \<Rightarrow> process_instance" where
  "clear_completed i = i\<lparr> pi_state := PICompleted, pi_suspended_at := None, pi_active := fmempty,
     pi_scopes := fmempty, pi_multi_instances := fmempty, pi_adhoc_instances := fmempty,
     pi_join_counts := fmempty, pi_join_flow_arrivals := fmempty, pi_join_instances := fmempty,
     pi_compensable := [], pi_compensation_waits := fmempty, pi_variables := fmempty,
     pi_variables_spilled := False, pi_scope_variables := fmempty, pi_scope_parents := fmempty \<rparr>"

definition apply_ProcessInstanceCompleted :: "key \<Rightarrow> state \<Rightarrow> state" where
  "apply_ProcessInstanceCompleted ik s =
     (let terminal_pid = non_terminal_process_id s ik
      in decrement_inflight_by_process terminal_pid (on_instance ik clear_completed s))"

definition apply_ProcessInstanceTerminating :: "key \<Rightarrow> state \<Rightarrow> state" where
  "apply_ProcessInstanceTerminating ik s = on_instance ik (\<lambda>i. i\<lparr> pi_state := PITerminating \<rparr>) s"

definition apply_ProcessInstanceSuspended :: "key \<Rightarrow> u64 \<Rightarrow> state \<Rightarrow> state" where
  "apply_ProcessInstanceSuspended ik at s =
     on_instance ik (\<lambda>i. i\<lparr> pi_state := PISuspended, pi_suspended_at := Some at \<rparr>) s"

definition apply_ProcessInstanceResumed :: "key \<Rightarrow> state \<Rightarrow> state" where
  "apply_ProcessInstanceResumed ik s =
     on_instance ik (\<lambda>i. i\<lparr> pi_state := PIActive, pi_suspended_at := None \<rparr>) s"

definition remap_id :: "(elementid \<times> elementid) list \<Rightarrow> elementid \<Rightarrow> elementid" where
  "remap_id mappings i = (case map_of (rev mappings) i of None \<Rightarrow> i | Some t \<Rightarrow> t)"

definition remap_join_counts :: "(elementid \<Rightarrow> elementid) \<Rightarrow> (elementid, nat) fmap \<Rightarrow> (elementid, nat) fmap" where
  "remap_join_counts r m =
     foldl (\<lambda>acc (eid, cnt). entry_or (r eid) 0 (\<lambda>n. n + cnt) acc) fmempty (sorted_list_of_fmap m)"

definition remap_join_flow_arrivals ::
  "(elementid \<Rightarrow> elementid) \<Rightarrow> (elementid, flow_arrivals) fmap \<Rightarrow> (elementid, flow_arrivals) fmap" where
  "remap_join_flow_arrivals r m =
     foldl (\<lambda>acc (eid, arrivals). entry_or (r eid) []
              (\<lambda>merged. foldl (\<lambda>a (flow, cnt). fa_add a flow cnt) merged (fa_remap r arrivals)) acc)
       fmempty (sorted_list_of_fmap m)"

definition remap_join_instances :: "(elementid \<Rightarrow> elementid) \<Rightarrow> (elementid, key) fmap \<Rightarrow> (elementid, key) fmap" where
  "remap_join_instances r m =
     foldl (\<lambda>acc (eid, eik). entry_or (r eid) eik (\<lambda>existing. if eik < existing then eik else existing) acc)
       fmempty (sorted_list_of_fmap m)"

definition migrate_instance ::
  "string \<Rightarrow> key \<Rightarrow> (elementid \<Rightarrow> elementid) \<Rightarrow> process_instance \<Rightarrow> process_instance" where
  "migrate_instance target_pid target_pdk r i = i\<lparr> pi_process_id := target_pid,
     pi_process_definition_key := target_pdk,
     pi_active := fmmap r (pi_active i),
     pi_join_counts := remap_join_counts r (pi_join_counts i),
     pi_join_flow_arrivals := remap_join_flow_arrivals r (pi_join_flow_arrivals i),
     pi_join_instances := remap_join_instances r (pi_join_instances i) \<rparr>"

definition migrate_attached :: "key \<Rightarrow> (elementid \<Rightarrow> elementid) \<Rightarrow> state \<Rightarrow> state" where
  "migrate_attached ik r s = s\<lparr>
     jobs := fmmap (\<lambda>j. if jb_instance_key j = ik then j\<lparr> jb_element_id := r (jb_element_id j) \<rparr> else j) (jobs s),
     user_tasks := fmmap (\<lambda>t. if ut_instance_key t = ik then t\<lparr> ut_element_id := r (ut_element_id t) \<rparr> else t) (user_tasks s),
     timers := fmmap (\<lambda>t. if tm_instance_key t = ik then t\<lparr> tm_element_id := r (tm_element_id t) \<rparr> else t) (timers s),
     message_subscriptions :=
       fmmap (\<lambda>t. if ms_instance_key t = ik then t\<lparr> ms_element_id := r (ms_element_id t) \<rparr> else t) (message_subscriptions s),
     signal_subscriptions :=
       fmmap (\<lambda>t. if ss_instance_key t = ik then t\<lparr> ss_element_id := r (ss_element_id t) \<rparr> else t) (signal_subscriptions s),
     conditional_subscriptions :=
       fmmap (\<lambda>t. if cd_instance_key t = ik then t\<lparr> cd_element_id := r (cd_element_id t) \<rparr> else t) (conditional_subscriptions s),
     incidents :=
       fmmap (\<lambda>t. if inc_instance_key t = ik then t\<lparr> inc_element_id := r (inc_element_id t) \<rparr> else t) (incidents s) \<rparr>"

definition migrate_inflight :: "string option \<Rightarrow> string \<Rightarrow> state \<Rightarrow> state" where
  "migrate_inflight source_pid target_pid s =
     (if source_pid \<noteq> Some target_pid
      then (let s1 = decrement_inflight_by_process source_pid s
            in s1\<lparr> inflight_by_process := entry_or target_pid 0 Suc (inflight_by_process s1) \<rparr>)
      else s)"

definition apply_ProcessInstanceMigrated ::
  "key \<Rightarrow> string \<Rightarrow> key \<Rightarrow> (elementid \<times> elementid) list \<Rightarrow> state \<Rightarrow> state" where
  "apply_ProcessInstanceMigrated ik target_pid target_pdk mappings s =
     (let r = remap_id mappings;
          source_pid = map_option pi_process_id (fmlookup (instances s) ik);
          s1 = on_instance ik (migrate_instance target_pid target_pdk r) s;
          s2 = migrate_inflight source_pid target_pid s1
      in migrate_attached ik r s2)"

definition clear_terminated :: "process_instance \<Rightarrow> process_instance" where
  "clear_terminated i = i\<lparr> pi_state := PITerminated, pi_suspended_at := None, pi_active := fmempty,
     pi_scopes := fmempty, pi_incidents := [], pi_multi_instances := fmempty, pi_adhoc_instances := fmempty,
     pi_join_counts := fmempty, pi_join_flow_arrivals := fmempty, pi_join_instances := fmempty,
     pi_compensable := [], pi_compensation_waits := fmempty, pi_variables := fmempty,
     pi_variables_spilled := False, pi_scope_variables := fmempty, pi_scope_parents := fmempty \<rparr>"

definition resolve_incidents :: "key \<Rightarrow> state \<Rightarrow> state" where
  "resolve_incidents ik s = (case fmlookup (instances s) ik of
     None \<Rightarrow> s
   | Some i \<Rightarrow> s\<lparr> incidents :=
       foldl (\<lambda>m k. get_mut k (\<lambda>inc. inc\<lparr> inc_state := IncResolved \<rparr>) m) (incidents s) (pi_incidents i) \<rparr>)"

definition apply_ProcessInstanceTerminated :: "key \<Rightarrow> state \<Rightarrow> state" where
  "apply_ProcessInstanceTerminated ik s =
     (let terminal_pid = non_terminal_process_id s ik
      in decrement_inflight_by_process terminal_pid (on_instance ik clear_terminated (resolve_incidents ik s)))"

primrec apply_lifecycle :: "lifecycle_event \<Rightarrow> state \<Rightarrow> state" where
  "apply_lifecycle (ProcessInstanceCompleted ik) s = apply_ProcessInstanceCompleted ik s"
| "apply_lifecycle (ProcessInstanceTerminated ik) s = apply_ProcessInstanceTerminated ik s"
| "apply_lifecycle (ProcessInstanceTerminating ik) s = apply_ProcessInstanceTerminating ik s"
| "apply_lifecycle (ProcessInstanceSuspended ik at) s = apply_ProcessInstanceSuspended ik at s"
| "apply_lifecycle (ProcessInstanceResumed ik) s = apply_ProcessInstanceResumed ik s"
| "apply_lifecycle (ProcessInstanceMigrated ik pid pdk mappings) s = apply_ProcessInstanceMigrated ik pid pdk mappings s"

end
