(* ===== verification/Apply_Element.thy ===== *)
theory Apply_Element
  imports Apply_Instance
begin

text \<open>
  The element appliers of \<open>engine-core/src/state/apply/element.rs\<close>: element instances and their
  scopes, join bookkeeping, compensation, multi-instance bodies and ad-hoc containers.
\<close>

section \<open>Elements and joins\<close>

definition apply_ElementActivated :: "key \<Rightarrow> key \<Rightarrow> elementid \<Rightarrow> key \<Rightarrow> state \<Rightarrow> state" where
  "apply_ElementActivated ik eik eid scope s = on_instance ik (\<lambda>i. i\<lparr>
     pi_active := fmupd eik eid (pi_active i),
     pi_scopes := (if scope \<noteq> 0 then fmupd eik scope (pi_scopes i) else pi_scopes i) \<rparr>) s"

definition apply_ElementCompleted :: "key \<Rightarrow> key \<Rightarrow> state \<Rightarrow> state" where
  "apply_ElementCompleted ik eik s = on_instance ik (\<lambda>i. i\<lparr>
     pi_active := fmdrop eik (pi_active i), pi_scopes := fmdrop eik (pi_scopes i),
     pi_scope_parents := fmdrop eik (pi_scope_parents i),
     pi_scope_variables := fmdrop eik (pi_scope_variables i) \<rparr>) s"

definition apply_ParallelJoinOpened :: "key \<Rightarrow> key \<Rightarrow> elementid \<Rightarrow> state \<Rightarrow> state" where
  "apply_ParallelJoinOpened ik eik eid s = on_instance ik (\<lambda>i. i\<lparr>
     pi_join_instances := fmupd eid eik (pi_join_instances i) \<rparr>) s"

definition apply_ParallelJoinTokenArrived :: "key \<Rightarrow> elementid \<Rightarrow> incoming_flow option \<Rightarrow> state \<Rightarrow> state" where
  "apply_ParallelJoinTokenArrived ik eid flow s = on_instance ik (\<lambda>i. case flow of
     Some f \<Rightarrow> i\<lparr> pi_join_flow_arrivals := entry_or eid [] (\<lambda>a. fa_record a f) (pi_join_flow_arrivals i) \<rparr>
   | None \<Rightarrow> i\<lparr> pi_join_counts := entry_or eid 0 Suc (pi_join_counts i) \<rparr>) s"

definition apply_ParallelJoinReset :: "key \<Rightarrow> elementid \<Rightarrow> state \<Rightarrow> state" where
  "apply_ParallelJoinReset ik eid s = on_instance ik (\<lambda>i. i\<lparr>
     pi_join_counts := fmdrop eid (pi_join_counts i),
     pi_join_flow_arrivals := fmdrop eid (pi_join_flow_arrivals i),
     pi_join_instances := fmdrop eid (pi_join_instances i) \<rparr>) s"

definition consume_arrivals :: "elementid \<Rightarrow> (elementid, flow_arrivals) fmap \<Rightarrow> (elementid, flow_arrivals) fmap" where
  "consume_arrivals eid m = (case fmlookup m eid of
     None \<Rightarrow> m
   | Some arrivals \<Rightarrow>
       (let a = consume_one_each arrivals in if fa_is_empty a then fmdrop eid m else fmupd eid a m))"

definition apply_ParallelJoinFired :: "key \<Rightarrow> elementid \<Rightarrow> state \<Rightarrow> state" where
  "apply_ParallelJoinFired ik eid s = on_instance ik (\<lambda>i. i\<lparr>
     pi_join_counts := fmdrop eid (pi_join_counts i),
     pi_join_flow_arrivals := consume_arrivals eid (pi_join_flow_arrivals i),
     pi_join_instances := fmdrop eid (pi_join_instances i) \<rparr>) s"

primrec apply_element :: "element_event \<Rightarrow> state \<Rightarrow> state" where
  "apply_element (ElementActivating _ _ _) s = s"
| "apply_element (ElementActivated ik eik eid scope) s = apply_ElementActivated ik eik eid scope s"
| "apply_element (ElementCompleting _ _ _) s = s"
| "apply_element (ElementCompleted ik eik _) s = apply_ElementCompleted ik eik s"
| "apply_element (SequenceFlowTaken _ _ _) s = s"
| "apply_element (ParallelJoinOpened ik eik eid) s = apply_ParallelJoinOpened ik eik eid s"
| "apply_element (ParallelJoinTokenArrived ik eid flow) s = apply_ParallelJoinTokenArrived ik eid flow s"
| "apply_element (ParallelJoinReset ik eid) s = apply_ParallelJoinReset ik eid s"
| "apply_element (ParallelJoinFired ik eid) s = apply_ParallelJoinFired ik eid s"

section \<open>Compensation\<close>

definition apply_CompensationSubscriptionCreated :: "key \<Rightarrow> key \<Rightarrow> elementid \<Rightarrow> elementid \<Rightarrow> key \<Rightarrow> state \<Rightarrow> state" where
  "apply_CompensationSubscriptionCreated ik eik eid handler scope s = on_instance ik (\<lambda>i. i\<lparr>
     pi_compensable := pi_compensable i @ [\<lparr> cs_element_instance_key = eik, cs_element_id = eid,
       cs_handler = handler, cs_scope = scope \<rparr>] \<rparr>) s"

definition apply_CompensationTriggered ::
  "key \<Rightarrow> key \<Rightarrow> elementid \<Rightarrow> key \<Rightarrow> elementid list \<Rightarrow> key list \<Rightarrow> state \<Rightarrow> state" where
  "apply_CompensationTriggered ik throw_eik throw_eid scope handlers consumed s = on_instance ik (\<lambda>i. i\<lparr>
     pi_compensable := filter (\<lambda>c. cs_element_instance_key c \<notin> set consumed) (pi_compensable i),
     pi_compensation_waits := fmupd throw_eik \<lparr> cw_throw_element_id = throw_eid, cw_scope = scope,
       cw_pending_handlers = handlers \<rparr> (pi_compensation_waits i) \<rparr>) s"

definition apply_CompensationHandlerCompleted :: "key \<Rightarrow> key \<Rightarrow> elementid \<Rightarrow> state \<Rightarrow> state" where
  "apply_CompensationHandlerCompleted ik throw_eik handler s = on_instance ik (\<lambda>i. i\<lparr>
     pi_compensation_waits := (case fmlookup (pi_compensation_waits i) throw_eik of
       None \<Rightarrow> pi_compensation_waits i
     | Some wait \<Rightarrow>
         (let wait' = wait\<lparr> cw_pending_handlers := remove1 handler (cw_pending_handlers wait) \<rparr>
          in if cw_pending_handlers wait' = [] then fmdrop throw_eik (pi_compensation_waits i)
             else fmupd throw_eik wait' (pi_compensation_waits i))) \<rparr>) s"

definition apply_ScopedCompensationCleared :: "key \<Rightarrow> key list \<Rightarrow> state \<Rightarrow> state" where
  "apply_ScopedCompensationCleared ik scopes s = on_instance ik (\<lambda>i. i\<lparr>
     pi_compensable := filter (\<lambda>c. cs_scope c \<notin> set scopes) (pi_compensable i),
     pi_compensation_waits := fmretain (\<lambda>w. cw_scope w \<notin> set scopes) (pi_compensation_waits i) \<rparr>) s"

primrec apply_compensation :: "compensation_event \<Rightarrow> state \<Rightarrow> state" where
  "apply_compensation (CompensationSubscriptionCreated ik eik eid handler scope) s =
     apply_CompensationSubscriptionCreated ik eik eid handler scope s"
| "apply_compensation (CompensationTriggered ik teik teid scope handlers consumed) s =
     apply_CompensationTriggered ik teik teid scope handlers consumed s"
| "apply_compensation (CompensationHandlerCompleted ik teik handler) s =
     apply_CompensationHandlerCompleted ik teik handler s"
| "apply_compensation (ScopedCompensationCleared ik scopes) s = apply_ScopedCompensationCleared ik scopes s"

section \<open>Multi-instance bodies\<close>

definition apply_MultiInstanceActivated ::
  "key \<Rightarrow> key \<Rightarrow> elementid \<Rightarrow> bool \<Rightarrow> rval list \<Rightarrow> string option \<Rightarrow> string option \<Rightarrow> string option \<Rightarrow> string option \<Rightarrow> state \<Rightarrow> state" where
  "apply_MultiInstanceActivated ik body_key eid sequential items input_element output_collection output_element
      completion_condition s = on_instance ik (\<lambda>i. i\<lparr>
     pi_multi_instances := fmupd body_key \<lparr> mis_element_id = eid, mis_sequential = sequential, mis_items = items,
       mis_output_collection = output_collection, mis_output_element = output_element,
       mis_completion_condition = completion_condition, mis_input_element = input_element, mis_spawned = 0,
       mis_active = {||}, mis_child_indices = fmempty,
       mis_output_values = replicate (length items) None \<rparr> (pi_multi_instances i) \<rparr>) s"

definition apply_MultiInstanceChildActivated :: "key \<Rightarrow> key \<Rightarrow> key \<Rightarrow> nat \<Rightarrow> vars \<Rightarrow> state \<Rightarrow> state" where
  "apply_MultiInstanceChildActivated ik body_key child_key index local_variables s = on_instance ik (\<lambda>i. i\<lparr>
     pi_scope_parents := fmupd child_key body_key (pi_scope_parents i),
     pi_scope_variables := fmupd child_key local_variables (pi_scope_variables i),
     pi_multi_instances := get_mut body_key (\<lambda>mi. mi\<lparr> mis_active := finsert child_key (mis_active mi),
       mis_child_indices := fmupd child_key index (mis_child_indices mi),
       mis_spawned := max (mis_spawned mi) (index + 1) \<rparr>) (pi_multi_instances i) \<rparr>) s"

definition apply_MultiInstanceChildCompleted :: "key \<Rightarrow> key \<Rightarrow> key \<Rightarrow> nat \<Rightarrow> rval option \<Rightarrow> state \<Rightarrow> state" where
  "apply_MultiInstanceChildCompleted ik body_key child_key index out s = on_instance ik (\<lambda>i. i\<lparr>
     pi_multi_instances := get_mut body_key (\<lambda>mi. mi\<lparr> mis_active := mis_active mi |-| {|child_key|},
       mis_child_indices := fmdrop child_key (mis_child_indices mi),
       mis_output_values := (mis_output_values mi)[index := out] \<rparr>) (pi_multi_instances i) \<rparr>) s"

definition apply_MultiInstanceCompleted :: "key \<Rightarrow> key \<Rightarrow> state \<Rightarrow> state" where
  "apply_MultiInstanceCompleted ik body_key s = on_instance ik (\<lambda>i. i\<lparr>
     pi_multi_instances := fmdrop body_key (pi_multi_instances i) \<rparr>) s"

primrec apply_multi_instance :: "multi_instance_event \<Rightarrow> state \<Rightarrow> state" where
  "apply_multi_instance (MultiInstanceActivated ik bk eid sq items ie oc oe cc) s =
     apply_MultiInstanceActivated ik bk eid sq items ie oc oe cc s"
| "apply_multi_instance (MultiInstanceChildActivated ik bk ck index lv) s =
     apply_MultiInstanceChildActivated ik bk ck index lv s"
| "apply_multi_instance (MultiInstanceChildCompleted ik bk ck index out) s =
     apply_MultiInstanceChildCompleted ik bk ck index out s"
| "apply_multi_instance (MultiInstanceCompleted ik bk) s = apply_MultiInstanceCompleted ik bk s"

section \<open>Ad-hoc containers\<close>

definition apply_AdHocActivated :: "key \<Rightarrow> key \<Rightarrow> elementid \<Rightarrow> string option \<Rightarrow> string option \<Rightarrow> state \<Rightarrow> state" where
  "apply_AdHocActivated ik container_key eid output_collection output_element s = on_instance ik (\<lambda>i. i\<lparr>
     pi_adhoc_instances := fmupd container_key \<lparr> ahs_element_id = eid, ahs_output_collection = output_collection,
       ahs_output_element = output_element, ahs_active = {||}, ahs_iterations = 0,
       ahs_completion_condition_fulfilled = False \<rparr> (pi_adhoc_instances i) \<rparr>) s"

definition apply_AdHocToolActivated :: "key \<Rightarrow> key \<Rightarrow> key \<Rightarrow> vars \<Rightarrow> state \<Rightarrow> state" where
  "apply_AdHocToolActivated ik container_key child_key local_variables s = on_instance ik (\<lambda>i. i\<lparr>
     pi_scope_parents := fmupd child_key container_key (pi_scope_parents i),
     pi_scope_variables := fmupd child_key local_variables (pi_scope_variables i),
     pi_adhoc_instances := get_mut container_key (\<lambda>a. a\<lparr> ahs_active := finsert child_key (ahs_active a) \<rparr>)
       (pi_adhoc_instances i) \<rparr>) s"

definition push_output :: "string \<Rightarrow> rval \<Rightarrow> vars \<Rightarrow> vars" where
  "push_output name v m =
     get_mut name (\<lambda>old. case old of VList xs \<Rightarrow> VList (xs @ [v]) | _ \<Rightarrow> old) m"

definition apply_AdHocToolCompleted :: "key \<Rightarrow> key \<Rightarrow> key \<Rightarrow> rval option \<Rightarrow> state \<Rightarrow> state" where
  "apply_AdHocToolCompleted ik container_key child_key out s = on_instance ik (\<lambda>i.
     let name = Option.bind (fmlookup (pi_adhoc_instances i) container_key) ahs_output_collection
     in i\<lparr> pi_adhoc_instances := get_mut container_key (\<lambda>a. a\<lparr> ahs_active := ahs_active a |-| {|child_key|} \<rparr>)
             (pi_adhoc_instances i),
           pi_scope_variables := (case (name, out) of
               (Some n, Some v) \<Rightarrow> get_mut container_key (push_output n v) (pi_scope_variables i)
             | _ \<Rightarrow> pi_scope_variables i) \<rparr>) s"

definition apply_AdHocCompletionConditionFulfilled :: "key \<Rightarrow> key \<Rightarrow> state \<Rightarrow> state" where
  "apply_AdHocCompletionConditionFulfilled ik container_key s = on_instance ik (\<lambda>i. i\<lparr>
     pi_adhoc_instances := get_mut container_key (\<lambda>a. a\<lparr> ahs_completion_condition_fulfilled := True \<rparr>)
       (pi_adhoc_instances i) \<rparr>) s"

definition apply_AdHocIterated :: "key \<Rightarrow> key \<Rightarrow> state \<Rightarrow> state" where
  "apply_AdHocIterated ik container_key s = on_instance ik (\<lambda>i. i\<lparr>
     pi_adhoc_instances := get_mut container_key
       (\<lambda>a. a\<lparr> ahs_iterations := min (2 ^ 32 - 1) (ahs_iterations a + 1) \<rparr>) (pi_adhoc_instances i) \<rparr>) s"

definition apply_AdHocCompleted :: "key \<Rightarrow> key \<Rightarrow> state \<Rightarrow> state" where
  "apply_AdHocCompleted ik container_key s = on_instance ik (\<lambda>i. i\<lparr>
     pi_adhoc_instances := fmdrop container_key (pi_adhoc_instances i) \<rparr>) s"

primrec apply_adhoc :: "adhoc_event \<Rightarrow> state \<Rightarrow> state" where
  "apply_adhoc (AdHocActivated ik ck eid oc oe) s = apply_AdHocActivated ik ck eid oc oe s"
| "apply_adhoc (AdHocToolActivated ik ck chk lv) s = apply_AdHocToolActivated ik ck chk lv s"
| "apply_adhoc (AdHocToolCompleted ik ck chk out) s = apply_AdHocToolCompleted ik ck chk out s"
| "apply_adhoc (AdHocIterated ik ck) s = apply_AdHocIterated ik ck s"
| "apply_adhoc (AdHocCompletionConditionFulfilled ik ck) s = apply_AdHocCompletionConditionFulfilled ik ck s"
| "apply_adhoc (AdHocCompleted ik ck _) s = apply_AdHocCompleted ik ck s"

end
