(* ===== verification/Apply_Waiting.thy ===== *)
theory Apply_Waiting
  imports Apply_Instance
begin

text \<open>
  The appliers for what an instance waits on: timers (\<open>state/apply/timer.rs\<close>), user tasks
  (\<open>state/apply/user_task.rs\<close>) and message, signal and conditional subscriptions
  (\<open>state/apply/subscription.rs\<close>).
\<close>

section \<open>Timers\<close>

definition apply_TimerCreated :: "key \<Rightarrow> key \<Rightarrow> key \<Rightarrow> elementid \<Rightarrow> u64 \<Rightarrow> timer_kind \<Rightarrow> state \<Rightarrow> state" where
  "apply_TimerCreated tk ik eik eid due_at kind s = s\<lparr> timers := fmupd tk \<lparr> tm_key = tk, tm_instance_key = ik,
     tm_element_instance_key = eik, tm_element_id = eid, tm_due_at = due_at, tm_state = TMCreated,
     tm_kind = kind \<rparr> (timers s) \<rparr>"

definition apply_TimerTriggered :: "key \<Rightarrow> state \<Rightarrow> state" where
  "apply_TimerTriggered tk s = s\<lparr> timers := get_mut tk (\<lambda>t. t\<lparr> tm_state := TMTriggered \<rparr>) (timers s) \<rparr>"

definition apply_TimerCanceled :: "key \<Rightarrow> state \<Rightarrow> state" where
  "apply_TimerCanceled tk s = s\<lparr> timers := get_mut tk (\<lambda>t. t\<lparr> tm_state := TMCanceled \<rparr>) (timers s) \<rparr>"

definition apply_ProcessStartTimerArmed ::
  "key \<Rightarrow> key \<Rightarrow> string \<Rightarrow> elementid \<Rightarrow> u64 \<Rightarrow> u64 \<Rightarrow> bool \<Rightarrow> state \<Rightarrow> state" where
  "apply_ProcessStartTimerArmed tk pdk pid start_eid due_at interval repeating s =
     s\<lparr> start_timers := fmupd tk \<lparr> st_timer_key = tk, st_process_definition_key = pdk, st_process_id = pid,
       st_start_element_id = start_eid, st_due_at = Some due_at, st_interval_millis = interval,
       st_repeating = repeating \<rparr> (start_timers s) \<rparr>"

definition apply_ProcessStartTimerFired :: "key \<Rightarrow> u64 option \<Rightarrow> state \<Rightarrow> state" where
  "apply_ProcessStartTimerFired tk next_due_at s =
     s\<lparr> start_timers := get_mut tk (\<lambda>t. t\<lparr> st_due_at := next_due_at \<rparr>) (start_timers s) \<rparr>"

primrec apply_timer :: "timer_event \<Rightarrow> state \<Rightarrow> state" where
  "apply_timer (TimerCreated tk ik eik eid due kind) s = apply_TimerCreated tk ik eik eid due kind s"
| "apply_timer (TimerTriggered tk _ _ _) s = apply_TimerTriggered tk s"
| "apply_timer (TimerCanceled tk _ _ _) s = apply_TimerCanceled tk s"
| "apply_timer (ProcessStartTimerArmed tk pdk pid eid due interval repeating) s =
     apply_ProcessStartTimerArmed tk pdk pid eid due interval repeating s"
| "apply_timer (ProcessStartTimerFired tk next_due) s = apply_ProcessStartTimerFired tk next_due s"

section \<open>User tasks\<close>

definition on_user_task :: "key \<Rightarrow> (user_task \<Rightarrow> user_task) \<Rightarrow> state \<Rightarrow> state" where
  "on_user_task k f s = s\<lparr> user_tasks := get_mut k f (user_tasks s) \<rparr>"

definition apply_UserTaskTransitionDeferred :: "key \<Rightarrow> pending_user_task_transition \<Rightarrow> state \<Rightarrow> state" where
  "apply_UserTaskTransitionDeferred k pending s = on_user_task k (\<lambda>t. t\<lparr> ut_pending := Some pending \<rparr>) s"

definition apply_UserTaskCorrectionsApplied :: "key \<Rightarrow> user_task_corrections \<Rightarrow> state \<Rightarrow> state" where
  "apply_UserTaskCorrectionsApplied k c s = on_user_task k (\<lambda>t. t\<lparr>
     ut_pending := map_option (\<lambda>p. p\<lparr> put_corrections := corrections_merge (put_corrections p) c \<rparr>) (ut_pending t) \<rparr>) s"

definition apply_UserTaskTransitionResolved :: "key \<Rightarrow> state \<Rightarrow> state" where
  "apply_UserTaskTransitionResolved k s = on_user_task k (\<lambda>t. t\<lparr> ut_pending := None \<rparr>) s"

definition apply_UserTaskCreated ::
  "key \<Rightarrow> key \<Rightarrow> key \<Rightarrow> elementid \<Rightarrow> u64 \<Rightarrow> string option \<Rightarrow> string list \<Rightarrow> string list \<Rightarrow> string option \<Rightarrow>
   string option \<Rightarrow> int \<Rightarrow> key option \<Rightarrow> string option \<Rightarrow> state \<Rightarrow> state" where
  "apply_UserTaskCreated k ik eik eid created_at assignee groups users due follow priority form_key ext_form s =
     s\<lparr> user_tasks := fmupd k \<lparr> ut_key = k, ut_instance_key = ik, ut_element_instance_key = eik,
       ut_element_id = eid, ut_state = UTCreated, ut_assignee = assignee, ut_candidate_groups = groups,
       ut_candidate_users = users, ut_due_date = due, ut_follow_up_date = follow, ut_priority = priority,
       ut_form_key = form_key, ut_external_form_reference = ext_form, ut_created_at = created_at,
       ut_pending = None \<rparr> (user_tasks s) \<rparr>"

definition apply_UserTaskAssigned :: "key \<Rightarrow> string option \<Rightarrow> state \<Rightarrow> state" where
  "apply_UserTaskAssigned k assignee s = on_user_task k (\<lambda>t. t\<lparr> ut_assignee := assignee \<rparr>) s"

definition set_if_some :: "'a option \<Rightarrow> 'a \<Rightarrow> 'a" where
  "set_if_some new old = (case new of None \<Rightarrow> old | Some v \<Rightarrow> v)"

definition apply_UserTaskUpdated ::
  "key \<Rightarrow> string list option \<Rightarrow> string list option \<Rightarrow> string option option \<Rightarrow> string option option \<Rightarrow> int option \<Rightarrow> state \<Rightarrow> state" where
  "apply_UserTaskUpdated k groups users due follow priority s = on_user_task k (\<lambda>t. t\<lparr>
     ut_candidate_groups := set_if_some groups (ut_candidate_groups t),
     ut_candidate_users := set_if_some users (ut_candidate_users t),
     ut_due_date := set_if_some due (ut_due_date t),
     ut_follow_up_date := set_if_some follow (ut_follow_up_date t),
     ut_priority := set_if_some priority (ut_priority t) \<rparr>) s"

definition apply_UserTaskCompleted :: "key \<Rightarrow> state \<Rightarrow> state" where
  "apply_UserTaskCompleted k s = on_user_task k (\<lambda>t. t\<lparr> ut_state := UTCompleted \<rparr>) s"

definition apply_UserTaskCanceled :: "key \<Rightarrow> state \<Rightarrow> state" where
  "apply_UserTaskCanceled k s = on_user_task k (\<lambda>t. t\<lparr> ut_state := UTCanceled, ut_pending := None \<rparr>) s"

primrec apply_user_task :: "user_task_event \<Rightarrow> state \<Rightarrow> state" where
  "apply_user_task (UserTaskCreated k ik eik eid created a g u d f p fk ef) s =
     apply_UserTaskCreated k ik eik eid created a g u d f p fk ef s"
| "apply_user_task (UserTaskAssigned k _ a) s = apply_UserTaskAssigned k a s"
| "apply_user_task (UserTaskUpdated k _ g u d f p) s = apply_UserTaskUpdated k g u d f p s"
| "apply_user_task (UserTaskCompleted k _) s = apply_UserTaskCompleted k s"
| "apply_user_task (UserTaskCanceled k _) s = apply_UserTaskCanceled k s"
| "apply_user_task (UserTaskTransitionDeferred k _ p) s = apply_UserTaskTransitionDeferred k p s"
| "apply_user_task (UserTaskCorrectionsApplied k _ c) s = apply_UserTaskCorrectionsApplied k c s"
| "apply_user_task (UserTaskTransitionResolved k _ _) s = apply_UserTaskTransitionResolved k s"

section \<open>Message subscriptions\<close>

definition settled_state :: "message_subscription_kind \<Rightarrow> message_subscription_state \<Rightarrow> message_subscription_state" where
  "settled_state kind st = (case kind of SubNonInterruptingBoundary _ \<Rightarrow> st | _ \<Rightarrow> SubCorrelated)"

definition on_message_subscription ::
  "key \<Rightarrow> (message_subscription \<Rightarrow> message_subscription) \<Rightarrow> state \<Rightarrow> state" where
  "on_message_subscription k f s = s\<lparr> message_subscriptions := get_mut k f (message_subscriptions s) \<rparr>"

definition apply_MessageSubscriptionCreated ::
  "key \<Rightarrow> key \<Rightarrow> key \<Rightarrow> elementid \<Rightarrow> string \<Rightarrow> string \<Rightarrow> message_subscription_kind \<Rightarrow> state \<Rightarrow> state" where
  "apply_MessageSubscriptionCreated k ik eik eid name ck kind s = s\<lparr> message_subscriptions :=
     fmupd k \<lparr> ms_key = k, ms_instance_key = ik, ms_element_instance_key = eik, ms_element_id = eid,
       ms_message_name = name, ms_correlation_key = ck, ms_state = SubOpen, ms_kind = kind \<rparr>
       (message_subscriptions s) \<rparr>"

definition apply_MessageSubscriptionOpening ::
  "key \<Rightarrow> key \<Rightarrow> key \<Rightarrow> elementid \<Rightarrow> string \<Rightarrow> string \<Rightarrow> message_subscription_kind \<Rightarrow> state \<Rightarrow> state" where
  "apply_MessageSubscriptionOpening k ik eik eid name ck kind s = s\<lparr> message_subscriptions :=
     fmupd k \<lparr> ms_key = k, ms_instance_key = ik, ms_element_instance_key = eik, ms_element_id = eid,
       ms_message_name = name, ms_correlation_key = ck, ms_state = SubOpening, ms_kind = kind \<rparr>
       (message_subscriptions s) \<rparr>"

definition apply_MessageCorrelated :: "key \<Rightarrow> state \<Rightarrow> state" where
  "apply_MessageCorrelated k s =
     on_message_subscription k (\<lambda>m. m\<lparr> ms_state := settled_state (ms_kind m) (ms_state m) \<rparr>) s"

definition apply_MessageSubscriptionCanceled :: "key \<Rightarrow> state \<Rightarrow> state" where
  "apply_MessageSubscriptionCanceled k s = on_message_subscription k (\<lambda>m. m\<lparr> ms_state := SubCanceled \<rparr>) s"

definition apply_MessageSubscriptionClosing :: "key \<Rightarrow> state \<Rightarrow> state" where
  "apply_MessageSubscriptionClosing k s = on_message_subscription k (\<lambda>m. m\<lparr> ms_state := SubCanceled \<rparr>) s"

definition apply_RemoteMessageCorrelation :: "key \<Rightarrow> state \<Rightarrow> state" where
  "apply_RemoteMessageCorrelation k s =
     on_message_subscription k (\<lambda>m. m\<lparr> ms_state := settled_state (ms_kind m) (ms_state m) \<rparr>) s"

definition apply_MessageStartSubscriptionCreated :: "key \<Rightarrow> string \<Rightarrow> string \<Rightarrow> elementid \<Rightarrow> state \<Rightarrow> state" where
  "apply_MessageStartSubscriptionCreated pdk pid name eid s = s\<lparr> message_start_subscriptions :=
     fmupd name \<lparr> mss_process_definition_key = pdk, mss_process_id = pid, mss_message_name = name,
       mss_start_element_id = eid \<rparr> (message_start_subscriptions s) \<rparr>"

primrec apply_message :: "message_event \<Rightarrow> state \<Rightarrow> state" where
  "apply_message (MessagePublished _ _ _) s = s"
| "apply_message (MessageSubscriptionCreated k ik eik eid name ck kind) s =
     apply_MessageSubscriptionCreated k ik eik eid name ck kind s"
| "apply_message (MessageSubscriptionOpening k ik eik eid name ck kind) s =
     apply_MessageSubscriptionOpening k ik eik eid name ck kind s"
| "apply_message (MessageCorrelated k _ _ _ _) s = apply_MessageCorrelated k s"
| "apply_message (RemoteMessageCorrelation k _ _ _ _ _ _) s = apply_RemoteMessageCorrelation k s"
| "apply_message (MessageSubscriptionCanceled k _ _ _) s = apply_MessageSubscriptionCanceled k s"
| "apply_message (MessageSubscriptionClosing k _ _ _ _ _) s = apply_MessageSubscriptionClosing k s"
| "apply_message (MessageStartSubscriptionCreated pdk pid name eid) s =
     apply_MessageStartSubscriptionCreated pdk pid name eid s"

section \<open>Signal and conditional subscriptions\<close>

definition apply_SignalSubscriptionCreated ::
  "key \<Rightarrow> key \<Rightarrow> key \<Rightarrow> elementid \<Rightarrow> string \<Rightarrow> message_subscription_kind \<Rightarrow> state \<Rightarrow> state" where
  "apply_SignalSubscriptionCreated k ik eik eid name kind s = s\<lparr> signal_subscriptions :=
     fmupd k \<lparr> ss_key = k, ss_instance_key = ik, ss_element_instance_key = eik, ss_element_id = eid,
       ss_signal_name = name, ss_state = SubOpen, ss_kind = kind \<rparr> (signal_subscriptions s) \<rparr>"

definition apply_SignalCorrelated :: "key \<Rightarrow> state \<Rightarrow> state" where
  "apply_SignalCorrelated k s = s\<lparr> signal_subscriptions :=
     get_mut k (\<lambda>m. m\<lparr> ss_state := settled_state (ss_kind m) (ss_state m) \<rparr>) (signal_subscriptions s) \<rparr>"

definition apply_SignalSubscriptionCanceled :: "key \<Rightarrow> state \<Rightarrow> state" where
  "apply_SignalSubscriptionCanceled k s = s\<lparr> signal_subscriptions :=
     get_mut k (\<lambda>m. m\<lparr> ss_state := SubCanceled \<rparr>) (signal_subscriptions s) \<rparr>"

definition apply_ConditionalSubscriptionCreated ::
  "key \<Rightarrow> key \<Rightarrow> key \<Rightarrow> elementid \<Rightarrow> string \<Rightarrow> string list \<Rightarrow> message_subscription_kind \<Rightarrow> state \<Rightarrow> state" where
  "apply_ConditionalSubscriptionCreated k ik eik eid condition refs kind s = s\<lparr> conditional_subscriptions :=
     fmupd k \<lparr> cd_key = k, cd_instance_key = ik, cd_element_instance_key = eik, cd_element_id = eid,
       cd_condition = condition, cd_referenced_vars = refs, cd_state = SubOpen, cd_kind = kind \<rparr>
       (conditional_subscriptions s) \<rparr>"

definition apply_ConditionalTriggered :: "key \<Rightarrow> state \<Rightarrow> state" where
  "apply_ConditionalTriggered k s = s\<lparr> conditional_subscriptions :=
     get_mut k (\<lambda>m. m\<lparr> cd_state := settled_state (cd_kind m) (cd_state m) \<rparr>) (conditional_subscriptions s) \<rparr>"

definition apply_ConditionalSubscriptionCanceled :: "key \<Rightarrow> state \<Rightarrow> state" where
  "apply_ConditionalSubscriptionCanceled k s = s\<lparr> conditional_subscriptions :=
     get_mut k (\<lambda>m. m\<lparr> cd_state := SubCanceled \<rparr>) (conditional_subscriptions s) \<rparr>"

primrec apply_signal :: "signal_event \<Rightarrow> state \<Rightarrow> state" where
  "apply_signal (SignalBroadcast _ _) s = s"
| "apply_signal (SignalSubscriptionCreated k ik eik eid name kind) s =
     apply_SignalSubscriptionCreated k ik eik eid name kind s"
| "apply_signal (SignalCorrelated k _ _ _ _) s = apply_SignalCorrelated k s"
| "apply_signal (SignalSubscriptionCanceled k _ _ _) s = apply_SignalSubscriptionCanceled k s"
| "apply_signal (ConditionalSubscriptionCreated k ik eik eid condition refs kind) s =
     apply_ConditionalSubscriptionCreated k ik eik eid condition refs kind s"
| "apply_signal (ConditionalTriggered k _ _ _) s = apply_ConditionalTriggered k s"
| "apply_signal (ConditionalSubscriptionCanceled k _ _ _) s = apply_ConditionalSubscriptionCanceled k s"

end
