(* ===== verification/Apply.thy ===== *)
theory Apply
  imports Registry Apply_Job Apply_Element Apply_Waiting
begin

text \<open>
  The dispatcher \<open>apply\<close> of \<open>engine-core/src/state/apply/mod.rs\<close>, the sole mutator of the engine
  state, and the state invariants it keeps: the job indices, the per-definition instance counts and
  the keys under which entities are stored.
\<close>

primrec apply_event :: "event \<Rightarrow> state \<Rightarrow> state" where
  "apply_event (EProcess e) s = apply_process e s"
| "apply_event (EResource e) s = apply_resource e s"
| "apply_event (EVariable e) s = apply_variable e s"
| "apply_event (EElement e) s = apply_element e s"
| "apply_event (EJob e) s = apply_job e s"
| "apply_event (EUserTask e) s = apply_user_task e s"
| "apply_event (EIncident e) s = apply_incident e s"
| "apply_event (ELifecycle e) s = apply_lifecycle e s"
| "apply_event (ETimer e) s = apply_timer e s"
| "apply_event (EMessage e) s = apply_message e s"
| "apply_event (ESignal e) s = apply_signal e s"
| "apply_event (ECompensation e) s = apply_compensation e s"
| "apply_event (EMultiInstance e) s = apply_multi_instance e s"
| "apply_event (EAdHoc e) s = apply_adhoc e s"
| "apply_event (EAgent e) s = apply_agent e s"

section \<open>Frame lemmas: what each family leaves alone\<close>

lemmas instance_arm_defs = apply_VariablesUpdated_def apply_ScopedVariablesUpdated_def
  apply_VariableScopeCreated_def apply_VariableScopeDestroyed_def apply_AgentInstanceCreated_def
  apply_AgentInstanceUpserted_def apply_AgentHistoryCreated_def apply_AgentHistoryCommitted_def
  apply_AgentHistoryDiscarded_def

lemmas element_arm_defs = apply_ElementActivated_def apply_ElementCompleted_def apply_ParallelJoinOpened_def
  apply_ParallelJoinTokenArrived_def apply_ParallelJoinReset_def apply_ParallelJoinFired_def
  apply_CompensationSubscriptionCreated_def apply_CompensationTriggered_def
  apply_CompensationHandlerCompleted_def apply_ScopedCompensationCleared_def
  apply_MultiInstanceActivated_def apply_MultiInstanceChildActivated_def
  apply_MultiInstanceChildCompleted_def apply_MultiInstanceCompleted_def
  apply_AdHocActivated_def apply_AdHocToolActivated_def apply_AdHocToolCompleted_def
  apply_AdHocCompletionConditionFulfilled_def apply_AdHocIterated_def apply_AdHocCompleted_def

lemmas waiting_arm_defs = apply_TimerCreated_def apply_TimerTriggered_def apply_TimerCanceled_def
  apply_ProcessStartTimerArmed_def apply_ProcessStartTimerFired_def
  apply_UserTaskCreated_def apply_UserTaskAssigned_def apply_UserTaskUpdated_def
  apply_UserTaskCompleted_def apply_UserTaskCanceled_def apply_UserTaskTransitionDeferred_def
  apply_UserTaskCorrectionsApplied_def apply_UserTaskTransitionResolved_def on_user_task_def
  apply_MessageSubscriptionCreated_def apply_MessageSubscriptionOpening_def apply_MessageCorrelated_def
  apply_MessageSubscriptionCanceled_def apply_MessageSubscriptionClosing_def
  apply_RemoteMessageCorrelation_def apply_MessageStartSubscriptionCreated_def on_message_subscription_def
  apply_SignalSubscriptionCreated_def apply_SignalCorrelated_def apply_SignalSubscriptionCanceled_def
  apply_ConditionalSubscriptionCreated_def apply_ConditionalTriggered_def
  apply_ConditionalSubscriptionCanceled_def

lemmas deploy_arm_defs = apply_ProcessDeployed_def register_process_def
  apply_DecisionRequirementsDeployed_def register_drg_def apply_DecisionDeployed_def register_decision_def
  apply_FormDeployed_def register_form_def apply_GenericResourceDeployed_def register_resource_def

text \<open>The part of the state that the job machinery owns.\<close>

definition job_part :: "state \<Rightarrow> (key, job) fmap \<times> (string, (int \<times> key) fset) fmap \<times> key fset" where
  "job_part s = (jobs s, activatable_jobs s, activated_jobs s)"

lemma job_index_inv_part: "job_part s' = job_part s \<Longrightarrow> job_index_inv s \<Longrightarrow> job_index_inv s'"
  by (rule job_index_inv_frame [of s]) (simp_all add: job_part_def)

lemma job_part_on_instance [simp]: "job_part (on_instance ik f s) = job_part s"
  by (simp add: on_instance_def job_part_def)

lemma job_part_process [simp]: "job_part (apply_process e s) = job_part s"
  by (cases e) (simp_all add: deploy_arm_defs job_part_def)

lemma job_part_resource [simp]: "job_part (apply_resource e s) = job_part s"
  by (cases e) (simp_all add: deploy_arm_defs job_part_def split: option.split)

lemma job_part_variable [simp]: "job_part (apply_variable e s) = job_part s"
proof (cases e)
  case (ProcessInstanceCreated)
  then show ?thesis by (simp add: apply_ProcessInstanceCreated_def job_part_def Let_def)
qed (simp_all add: instance_arm_defs)

lemma job_part_agent [simp]: "job_part (apply_agent e s) = job_part s"
  by (cases e) (simp_all add: instance_arm_defs)

lemma job_part_element [simp]: "job_part (apply_element e s) = job_part s"
  by (cases e) (simp_all add: element_arm_defs)

lemma job_part_compensation [simp]: "job_part (apply_compensation e s) = job_part s"
  by (cases e) (simp_all add: element_arm_defs)

lemma job_part_multi_instance [simp]: "job_part (apply_multi_instance e s) = job_part s"
  by (cases e) (simp_all add: element_arm_defs)

lemma job_part_adhoc [simp]: "job_part (apply_adhoc e s) = job_part s"
  by (cases e) (simp_all add: element_arm_defs)

lemma job_part_timer [simp]: "job_part (apply_timer e s) = job_part s"
  by (cases e) (simp_all add: waiting_arm_defs job_part_def)

lemma job_part_user_task [simp]: "job_part (apply_user_task e s) = job_part s"
  by (cases e) (simp_all add: waiting_arm_defs job_part_def)

lemma job_part_message [simp]: "job_part (apply_message e s) = job_part s"
  by (cases e) (simp_all add: waiting_arm_defs job_part_def)

lemma job_part_signal [simp]: "job_part (apply_signal e s) = job_part s"
  by (cases e) (simp_all add: waiting_arm_defs job_part_def)

lemma job_part_decrement [simp]: "job_part (decrement_inflight_by_process p s) = job_part s"
  by (auto simp: decrement_inflight_by_process_def job_part_def split: option.split)

lemma job_part_resolve_incidents [simp]: "job_part (resolve_incidents ik s) = job_part s"
  by (auto simp: resolve_incidents_def job_part_def split: option.split)

lemma job_part_migrate_inflight [simp]: "job_part (migrate_inflight p q s) = job_part s"
  using job_part_decrement [of p s] by (simp add: migrate_inflight_def job_part_def Let_def)

lemma job_index_inv_migrate_attached: "job_index_inv s \<Longrightarrow> job_index_inv (migrate_attached ik r s)"
  by (rule job_index_inv_same [of s]) (auto simp: migrate_attached_def option.rel_map intro: option.rel_refl)

lemma apply_lifecycle_index_inv: "job_index_inv s \<Longrightarrow> job_index_inv (apply_lifecycle e s)"
proof (cases e)
  case (ProcessInstanceMigrated ik pid pdk mappings)
  assume "job_index_inv s"
  then have "job_index_inv (migrate_inflight p pid (on_instance ik f s))" for p f
    by (rule job_index_inv_part [rotated]) simp
  then show ?thesis
    by (simp add: ProcessInstanceMigrated apply_ProcessInstanceMigrated_def Let_def job_index_inv_migrate_attached)
qed (auto simp: apply_ProcessInstanceCompleted_def apply_ProcessInstanceTerminated_def
    apply_ProcessInstanceTerminating_def apply_ProcessInstanceSuspended_def apply_ProcessInstanceResumed_def
    Let_def elim: job_index_inv_part [rotated])

section \<open>The job indices are an invariant of every event\<close>

text \<open>The only side condition: a job is created under a key that no job has yet.\<close>

definition fresh_job :: "event \<Rightarrow> state \<Rightarrow> bool" where
  "fresh_job e s \<longleftrightarrow> (case e of
     EJob je \<Rightarrow> (case created_job_key je of None \<Rightarrow> True | Some k \<Rightarrow> k |\<notin>| fmdom (jobs s))
   | _ \<Rightarrow> True)"

lemma apply_event_index_inv:
  assumes "job_index_inv s" "fresh_job e s"
  shows "job_index_inv (apply_event e s)"
proof (cases e)
  case (EJob je)
  then have "created_job_key je = Some k \<Longrightarrow> fmlookup (jobs s) k = None" for k
    using assms(2) by (simp add: fresh_job_def fmdom_notD)
  then show ?thesis using EJob assms(1) by (simp add: apply_job_index_inv)
qed (use assms(1) in \<open>simp_all add: apply_incident_index_inv apply_lifecycle_index_inv job_index_inv_part [of _ s]\<close>)

end
