(* ===== verification/State_Invariants.thy ===== *)
theory State_Invariants
  imports Apply
begin

text \<open>
  Invariants of the engine state under the applier: the per-definition count of live instances, the
  record of suspension, the well-formedness of the waiting join tokens, and what a terminal
  transition leaves behind.
\<close>

section \<open>The live-instance count of a definition\<close>

definition live_instance_of :: "string \<Rightarrow> process_instance \<Rightarrow> bool" where
  "live_instance_of pid i \<longleftrightarrow> \<not> pi_terminal (pi_state i) \<and> pi_process_id i = pid"

definition inflight :: "state \<Rightarrow> string \<Rightarrow> nat" where
  "inflight s pid = (case fmlookup (inflight_by_process s) pid of None \<Rightarrow> 0 | Some n \<Rightarrow> n)"

definition inflight_inv :: "state \<Rightarrow> bool" where
  "inflight_inv s \<longleftrightarrow>
     (\<forall>pid. fmlookup (inflight_by_process s) pid \<noteq> Some 0)
   \<and> (\<forall>pid. inflight s pid = fmcount (live_instance_of pid) (instances s))"

text \<open>When an event may be applied: an instance is created under a new key, and only a live instance
  is suspended, resumed, marked terminating or migrated.\<close>

definition live_instance :: "state \<Rightarrow> key \<Rightarrow> bool" where
  "live_instance s ik \<longleftrightarrow> (case fmlookup (instances s) ik of
     None \<Rightarrow> False | Some i \<Rightarrow> \<not> pi_terminal (pi_state i))"

definition instance_guard :: "event \<Rightarrow> state \<Rightarrow> bool" where
  "instance_guard e s \<longleftrightarrow> (case e of
     EVariable (ProcessInstanceCreated ik _ _ _ _ _ _ _ _ _) \<Rightarrow> ik |\<notin>| fmdom (instances s)
   | ELifecycle (ProcessInstanceTerminating ik) \<Rightarrow> live_instance s ik
   | ELifecycle (ProcessInstanceSuspended ik _) \<Rightarrow> live_instance s ik
   | ELifecycle (ProcessInstanceResumed ik) \<Rightarrow> live_instance s ik
   | ELifecycle (ProcessInstanceMigrated ik _ _ _) \<Rightarrow> live_instance s ik
   | _ \<Rightarrow> True)"

text \<open>The part of the state the count depends on.\<close>

definition count_part :: "state \<Rightarrow> (string, nat) fmap \<times> (key, process_instance) fmap" where
  "count_part s = (inflight_by_process s, instances s)"

lemma inflight_inv_part: "count_part s' = count_part s \<Longrightarrow> inflight_inv s \<Longrightarrow> inflight_inv s'"
  by (simp add: inflight_inv_def count_part_def inflight_def)

lemma inflight_inv_on_instance:
  assumes "inflight_inv s" "\<And>i. pi_state (f i) = pi_state i" "\<And>i. pi_process_id (f i) = pi_process_id i"
  shows "inflight_inv (on_instance ik f s)"
  using assms(1)
  by (simp add: inflight_inv_def inflight_def on_instance_def fmcount_get_mut_same live_instance_of_def assms(2,3))

lemma inflight_inv_stays_live:
  assumes "inflight_inv s" "live_instance s ik" "\<And>i. \<not> pi_terminal (pi_state (f i))"
    "\<And>i. pi_process_id (f i) = pi_process_id i"
  shows "inflight_inv (on_instance ik f s)"
proof -
  obtain i where i: "fmlookup (instances s) ik = Some i" "\<not> pi_terminal (pi_state i)"
    using assms(2) by (auto simp: live_instance_def split: option.splits)
  have "fmcount (live_instance_of pid) (get_mut ik f (instances s)) = fmcount (live_instance_of pid) (instances s)" for pid
    using fmcount_get_mut [OF i(1), of "live_instance_of pid" f] i(2) by (simp add: live_instance_of_def assms(3,4))
  then show ?thesis using assms(1) by (simp add: inflight_inv_def inflight_def on_instance_def)
qed

lemma inflight_decrement:
  "inflight (decrement_inflight_by_process (Some p) s) pid = inflight s pid - (if pid = p then 1 else 0)"
  by (auto simp: inflight_def decrement_inflight_by_process_def split: option.splits)

lemma decrement_no_zero:
  "\<forall>pid. fmlookup (inflight_by_process s) pid \<noteq> Some 0 \<Longrightarrow>
   fmlookup (inflight_by_process (decrement_inflight_by_process p s)) pid \<noteq> Some 0"
  by (auto simp: decrement_inflight_by_process_def split: option.splits)

lemma instances_decrement [simp]: "instances (decrement_inflight_by_process p s) = instances s"
  by (auto simp: decrement_inflight_by_process_def split: option.splits)

text \<open>A transition to a terminal state removes exactly one live instance, or nothing.\<close>

lemma inflight_inv_terminal:
  assumes inv: "inflight_inv s"
    and same: "inflight_by_process s' = inflight_by_process s" "instances s' = get_mut ik f (instances s)"
    and fin: "\<And>i. pi_terminal (pi_state (f i))"
  shows "inflight_inv (decrement_inflight_by_process (non_terminal_process_id s ik) s')"
proof (cases "fmlookup (instances s) ik")
  case None
  then have "count_part s' = count_part s" by (simp add: count_part_def same)
  with inv None show ?thesis
    by (simp add: non_terminal_process_id_def decrement_inflight_by_process_def inflight_inv_part)
next
  case (Some i)
  have "inflight s' = inflight s" by (simp add: fun_eq_iff inflight_def same)
  have cnt: "fmcount (live_instance_of pid) (get_mut ik f (instances s)) + (if live_instance_of pid i then 1 else 0) =
      fmcount (live_instance_of pid) (instances s) + (if live_instance_of pid (f i) then 1 else 0)" for pid
    by (rule fmcount_get_mut [OF Some])
  show ?thesis
  proof (cases "pi_terminal (pi_state i)")
    case True
    then have "fmcount (live_instance_of pid) (instances s') = fmcount (live_instance_of pid) (instances s)" for pid
      using cnt [of pid] by (simp add: same live_instance_of_def fin)
    then show ?thesis using inv True Some \<open>inflight s' = inflight s\<close>
      by (simp add: non_terminal_process_id_def decrement_inflight_by_process_def inflight_inv_def same)
  next
    case False
    then have "fmcount (live_instance_of pid) (instances s') =
        fmcount (live_instance_of pid) (instances s) - (if pid = pi_process_id i then 1 else 0)" for pid
      using cnt [of pid] by (auto simp: same live_instance_of_def fin split: if_splits)
    moreover have "non_terminal_process_id s ik = Some (pi_process_id i)"
      using False Some by (simp add: non_terminal_process_id_def)
    ultimately show ?thesis
      using inv \<open>inflight s' = inflight s\<close> decrement_no_zero [of s']
      by (simp add: inflight_inv_def inflight_decrement same)
  qed
qed

lemma inflight_inv_created:
  assumes "inflight_inv s" "ik |\<notin>| fmdom (instances s)"
  shows "inflight_inv (apply_ProcessInstanceCreated ik pid vs created tags bid pdk ppik peik s)"
proof -
  have "fmdrop ik (instances s) = instances s" using assms(2) by (simp add: fmdrop_idle)
  then show ?thesis using assms(1)
    by (auto simp: apply_ProcessInstanceCreated_def Let_def inflight_inv_def inflight_def fmcount_upd
        live_instance_of_def pi_terminal_def split: option.splits)
qed

lemma inflight_inv_migrated:
  assumes inv: "inflight_inv s" and live: "live_instance s ik"
  shows "inflight_inv (apply_ProcessInstanceMigrated ik target pdk mappings s)"
proof -
  obtain i where i: "fmlookup (instances s) ik = Some i" "\<not> pi_terminal (pi_state i)"
    using live by (auto simp: live_instance_def split: option.splits)
  let ?f = "migrate_instance target pdk (remap_id mappings)"
  let ?s1 = "on_instance ik ?f s"
  let ?s2 = "migrate_inflight (Some (pi_process_id i)) target ?s1"
  have cnt: "fmcount (live_instance_of pid) (instances ?s1) + (if pid = pi_process_id i then 1 else 0) =
      fmcount (live_instance_of pid) (instances s) + (if pid = target then 1 else 0)" for pid
    using fmcount_get_mut [OF i(1), of "live_instance_of pid" ?f] i(2)
    by (auto simp: on_instance_def migrate_instance_def live_instance_of_def)
  have same: "inflight ?s1 = inflight s" "inflight_by_process ?s1 = inflight_by_process s"
    by (simp_all add: fun_eq_iff inflight_def on_instance_def)
  have "inflight_inv ?s2"
  proof (cases "pi_process_id i = target")
    case True
    then have "fmcount (live_instance_of pid) (instances ?s1) = fmcount (live_instance_of pid) (instances s)" for pid
      using cnt [of pid] by simp
    then show ?thesis using inv same True by (simp add: migrate_inflight_def inflight_inv_def)
  next
    case False
    let ?d = "decrement_inflight_by_process (Some (pi_process_id i)) ?s1"
    have c: "inflight ?s2 pid = inflight ?d pid + (if pid = target then 1 else 0)" for pid
      using False by (auto simp: migrate_inflight_def Let_def inflight_def split: option.splits)
    have nz: "fmlookup (inflight_by_process ?s2) pid \<noteq> Some 0" for pid
      using False inv decrement_no_zero [of ?s1 "Some (pi_process_id i)"] same
      by (auto simp: migrate_inflight_def Let_def inflight_inv_def)
    have is2: "instances ?s2 = instances ?s1" using False by (simp add: migrate_inflight_def Let_def)
    have pos: "0 < fmcount (live_instance_of (pi_process_id i)) (instances s)"
      by (rule fmcount_pos [OF i(1)]) (simp add: live_instance_of_def i(2))
    have "inflight ?s2 pid = fmcount (live_instance_of pid) (instances ?s2)" for pid
    proof -
      have "inflight s pid = fmcount (live_instance_of pid) (instances s)" using inv by (simp add: inflight_inv_def)
      then show ?thesis
        using c [of pid] cnt [of pid] False pos is2 by (auto simp: inflight_decrement same split: if_splits)
    qed
    with nz show ?thesis unfolding inflight_inv_def by simp
  qed
  then show ?thesis
    by (rule inflight_inv_part [rotated])
      (simp add: apply_ProcessInstanceMigrated_def Let_def i count_part_def migrate_attached_def)
qed

subsection \<open>Frames\<close>

lemma count_part_process [simp]: "count_part (apply_process e s) = count_part s"
  by (cases e) (simp_all add: deploy_arm_defs count_part_def)

lemma count_part_resource [simp]: "count_part (apply_resource e s) = count_part s"
  by (cases e) (simp_all add: deploy_arm_defs count_part_def split: option.split)

lemma count_part_update_job [simp]: "count_part (update_job k f s) = count_part s"
  by (simp add: update_job_def count_part_def)

lemma count_part_insert_job [simp]: "count_part (insert_job j s) = count_part s"
  by (simp add: insert_job_def count_part_def Let_def)

lemma count_part_job [simp]: "count_part (apply_job e s) = count_part s"
  by (cases e) (simp_all add: job_arm_defs, simp_all add: count_part_def)

lemma count_part_timer [simp]: "count_part (apply_timer e s) = count_part s"
  by (cases e) (simp_all add: waiting_arm_defs count_part_def)

lemma count_part_user_task [simp]: "count_part (apply_user_task e s) = count_part s"
  by (cases e) (simp_all add: waiting_arm_defs count_part_def)

lemma count_part_message [simp]: "count_part (apply_message e s) = count_part s"
  by (cases e) (simp_all add: waiting_arm_defs count_part_def)

lemma count_part_signal [simp]: "count_part (apply_signal e s) = count_part s"
  by (cases e) (simp_all add: waiting_arm_defs count_part_def)

lemma count_part_return_parked [simp]: "count_part (return_parked_job k s) = count_part s"
  by (simp add: return_parked_job_def)

text \<open>Families that only rewrite one instance: what the rewrite keeps of it.\<close>

definition instance_rewrite :: "(process_instance \<Rightarrow> process_instance \<Rightarrow> bool) \<Rightarrow> state \<Rightarrow> state \<Rightarrow> bool" where
  "instance_rewrite R s s' \<longleftrightarrow> inflight_by_process s' = inflight_by_process s
     \<and> (\<forall>k. rel_option R (fmlookup (instances s) k) (fmlookup (instances s') k))"

lemma instance_rewrite_refl: "count_part s' = count_part s \<Longrightarrow> (\<And>i. R i i) \<Longrightarrow> instance_rewrite R s s'"
  by (auto simp: instance_rewrite_def count_part_def intro: option.rel_refl)

lemma instance_rewrite_on_instance:
  "(\<And>i. R i (f i)) \<Longrightarrow> (\<And>i. R i i) \<Longrightarrow> instance_rewrite R s (on_instance ik f s)"
  by (auto simp: instance_rewrite_def on_instance_def option.rel_map intro: option.rel_refl)

text \<open>Every event outside creation and the lifecycle keeps the state, definition and suspension
  instant of every instance.\<close>

definition same_lifecycle :: "process_instance \<Rightarrow> process_instance \<Rightarrow> bool" where
  "same_lifecycle i i' \<longleftrightarrow> pi_state i' = pi_state i \<and> pi_process_id i' = pi_process_id i
     \<and> pi_suspended_at i' = pi_suspended_at i \<and> pi_process_definition_key i' = pi_process_definition_key i
     \<and> pi_key i' = pi_key i"

lemma same_lifecycle_refl [simp]: "same_lifecycle i i"
  by (simp add: same_lifecycle_def)

definition lifecycle_neutral :: "event \<Rightarrow> bool" where
  "lifecycle_neutral e \<longleftrightarrow> (case e of
     EVariable (ProcessInstanceCreated _ _ _ _ _ _ _ _ _ _) \<Rightarrow> False
   | ELifecycle _ \<Rightarrow> False
   | _ \<Rightarrow> True)"

lemma incident_rewrite: "instance_rewrite same_lifecycle s (apply_incident e s)"
proof (cases e)
  case (IncidentRaised ick ik eik eid kind redrive reason jk created)
  then show ?thesis
    by (auto simp: incident_arm_defs instance_rewrite_def option.rel_map same_lifecycle_def intro: option.rel_refl)
next
  case (IncidentResolved ick ik jk resolved_at opref)
  have "count_part (apply_incident e s) = (inflight_by_process s,
      get_mut ik (\<lambda>i. i\<lparr> pi_incidents := filter (\<lambda>k. k \<noteq> ick) (pi_incidents i) \<rparr>) (instances s))"
    by (simp add: IncidentResolved apply_IncidentResolved_def Let_def split: option.split) (simp add: count_part_def)
  then show ?thesis
    by (auto simp: count_part_def instance_rewrite_def option.rel_map same_lifecycle_def intro: option.rel_refl)
qed

lemma neutral_rewrite: "lifecycle_neutral e \<Longrightarrow> instance_rewrite same_lifecycle s (apply_event e s)"
proof (cases e)
  case (EVariable ve)
  assume "lifecycle_neutral e"
  with EVariable show ?thesis
    by (cases ve) (simp_all add: lifecycle_neutral_def instance_arm_defs instance_rewrite_on_instance same_lifecycle_def)
next
  case (EElement ee)
  then show ?thesis
    by (cases ee) (simp_all add: element_arm_defs instance_rewrite_on_instance instance_rewrite_refl same_lifecycle_def
        split: option.split)
next
  case (ECompensation ee)
  then show ?thesis
    by (cases ee) (simp_all add: element_arm_defs instance_rewrite_on_instance same_lifecycle_def)
next
  case (EMultiInstance ee)
  then show ?thesis
    by (cases ee) (simp_all add: element_arm_defs instance_rewrite_on_instance same_lifecycle_def)
next
  case (EAdHoc ee)
  then show ?thesis
    by (cases ee) (simp_all add: element_arm_defs instance_rewrite_on_instance same_lifecycle_def Let_def)
next
  case (EAgent ee)
  then show ?thesis
    by (cases ee) (simp_all add: instance_arm_defs instance_rewrite_on_instance instance_rewrite_refl same_lifecycle_def)
qed (simp_all add: instance_rewrite_refl incident_rewrite, simp add: lifecycle_neutral_def)

lemma inflight_inv_rewrite:
  assumes inv: "inflight_inv s" and rw: "instance_rewrite same_lifecycle s s'"
  shows "inflight_inv s'"
proof -
  have "fmcount (live_instance_of pid) (instances s') = fmcount (live_instance_of pid) (instances s)" for pid
  proof (rule fmcount_cong)
    fix k
    have "rel_option same_lifecycle (fmlookup (instances s) k) (fmlookup (instances s') k)"
      using rw by (simp add: instance_rewrite_def)
    then show "(\<exists>v. fmlookup (instances s') k = Some v \<and> live_instance_of pid v) =
        (\<exists>v. fmlookup (instances s) k = Some v \<and> live_instance_of pid v)"
      by (cases rule: option.rel_cases) (auto simp: same_lifecycle_def live_instance_of_def)
  qed
  then show ?thesis using inv rw by (simp add: inflight_inv_def inflight_def instance_rewrite_def)
qed

lemma inflight_inv_lifecycle:
  assumes "inflight_inv s" "instance_guard (ELifecycle e) s"
  shows "inflight_inv (apply_lifecycle e s)"
proof (cases e)
  case (ProcessInstanceCompleted ik)
  then show ?thesis
    using inflight_inv_terminal [OF assms(1), of "on_instance ik clear_completed s" ik clear_completed]
    by (simp add: apply_ProcessInstanceCompleted_def Let_def on_instance_def clear_completed_def pi_terminal_def)
next
  case (ProcessInstanceTerminated ik)
  let ?s' = "on_instance ik clear_terminated (resolve_incidents ik s)"
  have "inflight_by_process ?s' = inflight_by_process s" "instances ?s' = get_mut ik clear_terminated (instances s)"
    by (auto simp: on_instance_def resolve_incidents_def split: option.split)
  from inflight_inv_terminal [OF assms(1) this] show ?thesis
    by (simp add: ProcessInstanceTerminated apply_ProcessInstanceTerminated_def Let_def clear_terminated_def pi_terminal_def)
next
  case (ProcessInstanceMigrated ik pid pdk mappings)
  then show ?thesis using assms by (simp add: instance_guard_def inflight_inv_migrated)
qed (use assms in \<open>auto simp: instance_guard_def apply_ProcessInstanceTerminating_def apply_ProcessInstanceSuspended_def
    apply_ProcessInstanceResumed_def pi_terminal_def intro: inflight_inv_stays_live\<close>)

lemma apply_event_inflight_inv:
  assumes "inflight_inv s" "instance_guard e s"
  shows "inflight_inv (apply_event e s)"
proof (cases "lifecycle_neutral e")
  case True
  then show ?thesis using assms(1) by (rule inflight_inv_rewrite [OF _ neutral_rewrite, rotated])
next
  case False
  then consider (created) ik pid vs created tags bid pdk v ppik peik
      where "e = EVariable (ProcessInstanceCreated ik pid vs created tags bid pdk v ppik peik)"
    | (lifecycle) le where "e = ELifecycle le"
    by (auto simp: lifecycle_neutral_def split: event.splits variable_event.splits)
  then show ?thesis
    using assms by cases (simp_all add: instance_guard_def inflight_inv_created inflight_inv_lifecycle)
qed

section \<open>Suspension\<close>

definition suspension_inv :: "state \<Rightarrow> bool" where
  "suspension_inv s \<longleftrightarrow> fmpred (\<lambda>_ i. (pi_suspended_at i \<noteq> None) = (pi_state i = PISuspended)) (instances s)"

text \<open>Cancelling starts from an active instance, so only an instance that is not suspended is marked
  terminating.\<close>

definition suspension_guard :: "event \<Rightarrow> state \<Rightarrow> bool" where
  "suspension_guard e s \<longleftrightarrow> (case e of
     ELifecycle (ProcessInstanceTerminating ik) \<Rightarrow>
       (case fmlookup (instances s) ik of None \<Rightarrow> True | Some i \<Rightarrow> pi_state i \<noteq> PISuspended)
   | _ \<Rightarrow> True)"

lemma suspension_inv_get_mut:
  assumes "suspension_inv s" "instances s' = get_mut ik f (instances s)"
    and "\<And>i. fmlookup (instances s) ik = Some i \<Longrightarrow> (pi_suspended_at i \<noteq> None) = (pi_state i = PISuspended) \<Longrightarrow>
        (pi_suspended_at (f i) \<noteq> None) = (pi_state (f i) = PISuspended)"
  shows "suspension_inv s'"
  using assms by (auto simp: suspension_inv_def fmpred_iff split: if_splits)

lemma suspension_inv_rewrite:
  assumes "suspension_inv s" "instance_rewrite same_lifecycle s s'"
  shows "suspension_inv s'"
  unfolding suspension_inv_def fmpred_iff
proof (intro allI impI)
  fix k i'
  assume i': "fmlookup (instances s') k = Some i'"
  have "rel_option same_lifecycle (fmlookup (instances s) k) (fmlookup (instances s') k)"
    using assms(2) by (simp add: instance_rewrite_def)
  then obtain i where "fmlookup (instances s) k = Some i" "same_lifecycle i i'"
    using i' by (auto simp: option_rel_Some2)
  then show "(pi_suspended_at i' \<noteq> None) = (pi_state i' = PISuspended)"
    using assms(1) by (simp add: suspension_inv_def fmpred_iff same_lifecycle_def)
qed

lemma apply_event_suspension_inv:
  assumes "suspension_inv s" "suspension_guard e s"
  shows "suspension_inv (apply_event e s)"
proof (cases "lifecycle_neutral e")
  case True
  then show ?thesis using assms(1) by (rule suspension_inv_rewrite [OF _ neutral_rewrite, rotated])
next
  case False
  then consider (created) ik pid vs created tags bid pdk v ppik peik
      where "e = EVariable (ProcessInstanceCreated ik pid vs created tags bid pdk v ppik peik)"
    | (lifecycle) le where "e = ELifecycle le"
    by (auto simp: lifecycle_neutral_def split: event.splits variable_event.splits)
  then show ?thesis
  proof cases
    case created
    then show ?thesis using assms(1)
      by (auto simp: apply_ProcessInstanceCreated_def Let_def suspension_inv_def fmpred_iff)
  next
    case lifecycle
    note g = suspension_inv_get_mut [OF assms(1), of "apply_lifecycle le s"]
    show ?thesis
    proof (cases le)
      case (ProcessInstanceTerminated ik)
      have "instances (apply_lifecycle le s) = get_mut ik clear_terminated (instances s)"
        by (auto simp: ProcessInstanceTerminated apply_ProcessInstanceTerminated_def Let_def on_instance_def
            resolve_incidents_def split: option.split)
      from g [OF this] show ?thesis by (simp add: lifecycle clear_terminated_def)
    next
      case (ProcessInstanceMigrated ik pid pdk mappings)
      have "instances (apply_lifecycle le s) = get_mut ik (migrate_instance pid pdk (remap_id mappings)) (instances s)"
        by (simp add: ProcessInstanceMigrated apply_ProcessInstanceMigrated_def Let_def migrate_attached_def
            migrate_inflight_def on_instance_def)
      from g [OF this] show ?thesis by (simp add: lifecycle migrate_instance_def)
    next
      case (ProcessInstanceTerminating ik)
      have "instances (apply_lifecycle le s) = get_mut ik (\<lambda>i. i\<lparr> pi_state := PITerminating \<rparr>) (instances s)"
        by (simp add: ProcessInstanceTerminating apply_ProcessInstanceTerminating_def on_instance_def)
      from g [OF this] show ?thesis
        using assms(2) by (auto simp: lifecycle ProcessInstanceTerminating suspension_guard_def split: option.splits)
    qed (simp_all add: lifecycle apply_ProcessInstanceCompleted_def apply_ProcessInstanceSuspended_def
        apply_ProcessInstanceResumed_def Let_def,
        (rule suspension_inv_get_mut [OF assms(1)], (simp add: on_instance_def; fail), simp add: clear_completed_def)+)
  qed
qed

section \<open>Well-formed instances\<close>

text \<open>Unconditional invariants of an instance: every waiting join holds a sorted, zero-free and
  non-empty arrival vector, and every agent turn log is sorted by its order key.\<close>

definition join_wf :: "process_instance \<Rightarrow> bool" where
  "join_wf i \<longleftrightarrow> fmpred (\<lambda>_ a. fa_inv a \<and> a \<noteq> []) (pi_join_flow_arrivals i)"

definition history_wf :: "process_instance \<Rightarrow> bool" where
  "history_wf i \<longleftrightarrow> fmpred (\<lambda>_ log. sorted (map order_key log)) (pi_agent_history i)"

definition instance_wf :: "process_instance \<Rightarrow> bool" where
  "instance_wf i \<longleftrightarrow> join_wf i \<and> history_wf i"

definition wf_state :: "state \<Rightarrow> bool" where
  "wf_state s \<longleftrightarrow> fmpred (\<lambda>_ i. instance_wf i) (instances s)"

lemma insert_history_eq:
  "insert_history r log = takeWhile (\<lambda>x. order_key x \<le> order_key r) log @ r # dropWhile (\<lambda>x. order_key x \<le> order_key r) log"
  by (simp add: insert_history_def Let_def takeWhile_eq_take [symmetric] dropWhile_eq_drop [symmetric])

lemma dropWhile_sorted_gt:
  "sorted (map h log) \<Longrightarrow> x \<in> set (dropWhile (\<lambda>x. h x \<le> b) log) \<Longrightarrow> b < (h x :: 'a :: linorder)"
proof (induction log)
  case (Cons a log)
  then show ?case by (cases "h a \<le> b") (auto simp: not_le intro: less_le_trans)
qed simp

lemma insert_history_sorted: "sorted (map order_key log) \<Longrightarrow> sorted (map order_key (insert_history r log))"
proof -
  assume sorted: "sorted (map order_key log)"
  let ?P = "\<lambda>x. order_key x \<le> order_key r"
  have "sorted (map order_key (takeWhile ?P log @ dropWhile ?P log))" using sorted by simp
  then have "sorted (map order_key (takeWhile ?P log))" "sorted (map order_key (dropWhile ?P log))"
    by (simp_all add: sorted_append del: takeWhile_dropWhile_id)
  moreover have "\<forall>x \<in> set (takeWhile ?P log). order_key x \<le> order_key r" by (auto dest: set_takeWhileD)
  moreover have "\<forall>x \<in> set (dropWhile ?P log). order_key r \<le> order_key x"
    using dropWhile_sorted_gt [OF sorted] by (blast intro: less_imp_le)
  ultimately show ?thesis
    by (auto simp: insert_history_eq sorted_append intro: order_trans)
qed

lemma order_key_settle [simp]: "map order_key (settle_history st ks log) = map order_key log"
  by (simp add: settle_history_def order_key_def comp_def if_distrib cong: if_cong)

lemma history_wf_entry:
  "history_wf i \<Longrightarrow> history_wf (i\<lparr> pi_agent_history := entry_or k [] (insert_history r) (pi_agent_history i) \<rparr>)"
  by (auto simp: history_wf_def fmpred_iff insert_history_sorted split: option.splits if_splits)

lemma history_wf_settle:
  "history_wf i \<Longrightarrow> history_wf (i\<lparr> pi_agent_history := get_mut k (settle_history st ks) (pi_agent_history i) \<rparr>)"
  by (auto simp: history_wf_def fmpred_iff split: if_splits)

lemma fa_add_not_Nil: "n \<noteq> 0 \<Longrightarrow> fa_add a f n \<noteq> []"
proof -
  assume "n \<noteq> 0"
  have "xs[i := v] \<noteq> []" if "bsearch xs f 0 (length xs) = Found i" for xs i v
  proof -
    have "xs \<noteq> []" using that by (auto simp: bsearch.simps)
    then show ?thesis by simp
  qed
  then show ?thesis using \<open>n \<noteq> 0\<close> by (auto simp: fa_add_def binary_search_by_def split: search_result.split)
qed

lemma join_wf_record:
  "join_wf i \<Longrightarrow> join_wf (i\<lparr> pi_join_flow_arrivals := entry_or k [] (\<lambda>a. fa_record a f) (pi_join_flow_arrivals i) \<rparr>)"
  by (auto simp: join_wf_def fmpred_iff fa_record_def fa_add_not_Nil split: option.splits if_splits)

lemma join_wf_consume:
  "fmpred (\<lambda>_ a. fa_inv a \<and> a \<noteq> []) m \<Longrightarrow> fmpred (\<lambda>_ a. fa_inv a \<and> a \<noteq> []) (consume_arrivals k m)"
  by (auto simp: join_wf_def fmpred_iff consume_arrivals_def Let_def fa_is_empty_def split: option.splits if_splits)

lemma foldl_fa_add_inv: "fa_inv m \<Longrightarrow> fa_inv (foldl (\<lambda>a (flow, cnt). fa_add a flow cnt) m xs)"
  by (induction xs arbitrary: m) auto

lemma foldl_fa_add_not_Nil:
  "m \<noteq> [] \<or> (\<exists>(f, n) \<in> set xs. n \<noteq> 0) \<Longrightarrow> foldl (\<lambda>a (flow, cnt). fa_add a flow cnt) m xs \<noteq> []"
proof (induction xs arbitrary: m)
  case (Cons x xs)
  obtain f n where x: "x = (f, n)" by fastforce
  show ?case
  proof (cases "n = 0")
    case True
    then show ?thesis using Cons x by (simp add: fa_add_def)
  next
    case False
    then show ?thesis using Cons.IH [of "fa_add m f n"] x by (simp add: fa_add_not_Nil)
  qed
qed simp

lemma fa_remap_pos: "fa_inv a \<Longrightarrow> a \<noteq> [] \<Longrightarrow> \<exists>(f, n) \<in> set (fa_remap r a). n \<noteq> 0"
proof -
  assume a: "fa_inv a" "a \<noteq> []"
  obtain f n where "(f, n) \<in> set a" using a(2) by (cases a) auto
  moreover from this have "0 < n" using a(1) by (auto simp: fa_inv_def)
  ultimately have "0 < sum_list (map snd a)"
    by (metis image_eqI list.set_map not_gr0 snd_conv sum_list_eq_0_iff)
  then have "0 < sum_list (map snd (fa_remap r a))" by (simp only: fa_remap_total)
  then have "fa_remap r a \<noteq> []" by auto
  then obtain g m where "(g, m) \<in> set (fa_remap r a)" by (cases "fa_remap r a") auto
  moreover have "fa_inv (fa_remap r a)" by simp
  ultimately show ?thesis by (auto simp: fa_inv_def)
qed

lemma join_wf_remap:
  assumes "fmpred (\<lambda>_ a. fa_inv a \<and> a \<noteq> []) m"
  shows "fmpred (\<lambda>_ a. fa_inv a \<and> a \<noteq> []) (remap_join_flow_arrivals r m)"
proof -
  have "fmpred (\<lambda>_ a. fa_inv a \<and> a \<noteq> []) acc \<Longrightarrow> \<forall>(k, a) \<in> set xs. fa_inv a \<and> a \<noteq> [] \<Longrightarrow>
    fmpred (\<lambda>_ a. fa_inv a \<and> a \<noteq> []) (foldl (\<lambda>acc (eid, arrivals). entry_or (r eid) []
      (\<lambda>merged. foldl (\<lambda>a (flow, cnt). fa_add a flow cnt) merged (fa_remap r arrivals)) acc) acc xs)" for acc xs
  proof (induction xs arbitrary: acc)
    case (Cons x xs)
    obtain k a where x: "x = (k, a)" by fastforce
    have "fmpred (\<lambda>_ a. fa_inv a \<and> a \<noteq> []) (entry_or (r k) []
        (\<lambda>merged. foldl (\<lambda>a (flow, cnt). fa_add a flow cnt) merged (fa_remap r a)) acc)"
      using Cons.prems x fa_remap_pos [of a r]
      by (auto simp: fmpred_iff foldl_fa_add_inv foldl_fa_add_not_Nil split: option.splits if_splits)
    with Cons x show ?case by simp
  qed simp
  moreover have "\<forall>(k, a) \<in> set (sorted_list_of_fmap m). fa_inv a \<and> a \<noteq> []"
    using assms by (auto simp: sorted_list_of_fmap_def fmpred_iff sorted_list_of_fset.rep_eq fmlookup_dom_iff)
  ultimately show ?thesis by (simp add: remap_join_flow_arrivals_def)
qed

lemma wf_state_get_mut:
  "wf_state s \<Longrightarrow> instances s' = get_mut ik f (instances s) \<Longrightarrow> (\<And>i. instance_wf i \<Longrightarrow> instance_wf (f i)) \<Longrightarrow> wf_state s'"
  by (auto simp: wf_state_def fmpred_iff split: if_splits)

lemma wf_state_on_instance:
  "wf_state s \<Longrightarrow> (\<And>i. instance_wf i \<Longrightarrow> instance_wf (f i)) \<Longrightarrow> wf_state (on_instance ik f s)"
  by (rule wf_state_get_mut [of s _ ik f]) (simp_all add: on_instance_def)

lemma wf_state_part: "count_part s' = count_part s \<Longrightarrow> wf_state s \<Longrightarrow> wf_state s'"
  by (simp add: wf_state_def count_part_def)

lemma instance_wf_keep:
  "instance_wf i \<Longrightarrow> pi_join_flow_arrivals i' = pi_join_flow_arrivals i \<Longrightarrow> pi_agent_history i' = pi_agent_history i \<Longrightarrow>
   instance_wf i'"
  by (simp add: instance_wf_def join_wf_def history_wf_def)

lemma apply_element_wf: "wf_state s \<Longrightarrow> wf_state (apply_element e s)"
proof (cases e)
  case (ParallelJoinTokenArrived ik eid flow)
  assume "wf_state s"
  then show ?thesis unfolding ParallelJoinTokenArrived apply_element.simps apply_ParallelJoinTokenArrived_def
    by (rule wf_state_on_instance)
      (auto simp: instance_wf_def join_wf_record split: option.split, simp_all add: join_wf_def history_wf_def)
next
  case (ParallelJoinReset ik eid)
  assume "wf_state s"
  then show ?thesis unfolding ParallelJoinReset apply_element.simps apply_ParallelJoinReset_def
    by (rule wf_state_on_instance) (auto simp: instance_wf_def join_wf_def history_wf_def fmpred_iff split: if_splits)
next
  case (ParallelJoinFired ik eid)
  assume "wf_state s"
  then show ?thesis unfolding ParallelJoinFired apply_element.simps apply_ParallelJoinFired_def
    by (rule wf_state_on_instance) (auto simp: instance_wf_def join_wf_def history_wf_def join_wf_consume)
qed (auto simp: element_arm_defs intro!: wf_state_on_instance elim: instance_wf_keep)

lemma apply_agent_wf: "wf_state s \<Longrightarrow> wf_state (apply_agent e s)"
proof (cases e)
  case (AgentHistoryCreated ik r)
  assume "wf_state s"
  then show ?thesis unfolding AgentHistoryCreated apply_agent.simps apply_AgentHistoryCreated_def
    by (rule wf_state_on_instance) (auto simp: instance_wf_def history_wf_entry, simp add: join_wf_def)
next
  case (AgentHistoryCommitted ik a ks)
  assume "wf_state s"
  then show ?thesis unfolding AgentHistoryCommitted apply_agent.simps apply_AgentHistoryCommitted_def
    by (rule wf_state_on_instance) (auto simp: instance_wf_def history_wf_settle, simp add: join_wf_def)
next
  case (AgentHistoryDiscarded ik a ks)
  assume "wf_state s"
  then show ?thesis unfolding AgentHistoryDiscarded apply_agent.simps apply_AgentHistoryDiscarded_def
    by (rule wf_state_on_instance) (auto simp: instance_wf_def history_wf_settle, simp add: join_wf_def)
qed (auto simp: instance_arm_defs intro!: wf_state_on_instance elim: instance_wf_keep)

lemma apply_lifecycle_wf: "wf_state s \<Longrightarrow> wf_state (apply_lifecycle e s)"
proof (cases e)
  case (ProcessInstanceTerminated ik)
  assume "wf_state s"
  moreover have "instances (apply_lifecycle e s) = get_mut ik clear_terminated (instances s)"
    by (auto simp: ProcessInstanceTerminated apply_ProcessInstanceTerminated_def Let_def on_instance_def
        resolve_incidents_def split: option.split)
  ultimately show ?thesis
    by (rule wf_state_get_mut) (simp add: instance_wf_def join_wf_def history_wf_def clear_terminated_def)
next
  case (ProcessInstanceMigrated ik pid pdk mappings)
  assume "wf_state s"
  moreover have "instances (apply_lifecycle e s) = get_mut ik (migrate_instance pid pdk (remap_id mappings)) (instances s)"
    by (simp add: ProcessInstanceMigrated apply_ProcessInstanceMigrated_def Let_def migrate_attached_def
        migrate_inflight_def on_instance_def)
  ultimately show ?thesis
    by (rule wf_state_get_mut) (simp add: instance_wf_def join_wf_def history_wf_def migrate_instance_def join_wf_remap)
next
  case (ProcessInstanceCompleted ik)
  assume "wf_state s"
  then show ?thesis
    by (rule wf_state_get_mut [of _ _ ik clear_completed])
      (simp_all add: ProcessInstanceCompleted apply_ProcessInstanceCompleted_def Let_def on_instance_def
        instance_wf_def join_wf_def history_wf_def clear_completed_def)
qed (auto simp: apply_ProcessInstanceTerminating_def apply_ProcessInstanceSuspended_def
    apply_ProcessInstanceResumed_def intro!: wf_state_on_instance elim: instance_wf_keep)

lemma apply_variable_wf: "wf_state s \<Longrightarrow> wf_state (apply_variable e s)"
proof (cases e)
  case ProcessInstanceCreated
  assume "wf_state s"
  then show ?thesis unfolding ProcessInstanceCreated
    by (auto simp: apply_ProcessInstanceCreated_def Let_def wf_state_def fmpred_iff instance_wf_def join_wf_def history_wf_def)
qed (auto simp: instance_arm_defs intro!: wf_state_on_instance elim: instance_wf_keep)

lemma apply_incident_wf: "wf_state s \<Longrightarrow> wf_state (apply_incident e s)"
proof (cases e)
  case (IncidentRaised ick ik eik eid kind redrive reason jk created)
  assume "wf_state s"
  then show ?thesis unfolding IncidentRaised
    by (rule wf_state_get_mut [where ik = ik]) (simp add: apply_IncidentRaised_def, erule instance_wf_keep, simp_all)
next
  case (IncidentResolved ick ik jk resolved_at opref)
  assume "wf_state s"
  moreover have "count_part (apply_incident e s) = (inflight_by_process s,
      get_mut ik (\<lambda>i. i\<lparr> pi_incidents := filter (\<lambda>k. k \<noteq> ick) (pi_incidents i) \<rparr>) (instances s))"
    by (simp add: IncidentResolved apply_IncidentResolved_def Let_def split: option.split) (simp add: count_part_def)
  ultimately show ?thesis
    by (auto simp: count_part_def elim!: wf_state_get_mut elim: instance_wf_keep)
qed

lemma apply_scopes_wf:
  "wf_state s \<Longrightarrow> wf_state (apply_compensation ce s)" "wf_state s \<Longrightarrow> wf_state (apply_multi_instance me s)"
  "wf_state s \<Longrightarrow> wf_state (apply_adhoc ae s)"
  by (cases ce, auto simp: element_arm_defs intro!: wf_state_on_instance elim: instance_wf_keep)
    (cases me, auto simp: element_arm_defs intro!: wf_state_on_instance elim: instance_wf_keep,
     cases ae, auto simp: element_arm_defs Let_def intro!: wf_state_on_instance elim: instance_wf_keep)

lemma apply_event_wf: "wf_state s \<Longrightarrow> wf_state (apply_event e s)"
  by (cases e) (simp_all add: apply_element_wf apply_agent_wf apply_lifecycle_wf apply_variable_wf
      apply_incident_wf apply_scopes_wf wf_state_part [of _ s])

section \<open>Jobs are stored under their own key\<close>

definition job_keys_inv :: "state \<Rightarrow> bool" where
  "job_keys_inv s \<longleftrightarrow> fmpred (\<lambda>k j. jb_key j = k) (jobs s)"

lemma job_keys_part: "job_part s' = job_part s \<Longrightarrow> job_keys_inv s \<Longrightarrow> job_keys_inv s'"
  by (simp add: job_keys_inv_def job_part_def)

lemma job_keys_get_mut:
  "job_keys_inv s \<Longrightarrow> jobs s' = get_mut k f (jobs s) \<Longrightarrow> (\<And>j. jb_key (f j) = jb_key j) \<Longrightarrow> job_keys_inv s'"
  by (auto simp: job_keys_inv_def fmpred_iff split: if_splits)

lemma job_keys_rewrite:
  "job_keys_inv s \<Longrightarrow> (\<And>j. jb_key (f j) = jb_key j) \<Longrightarrow> job_keys_inv (s\<lparr> jobs := get_mut k f (jobs s) \<rparr>)"
  by (rule job_keys_get_mut [of s _ k f]) simp_all

lemma job_keys_update_job:
  "job_keys_inv s \<Longrightarrow> (\<And>j. jb_key (f j) = jb_key j) \<Longrightarrow> job_keys_inv (update_job k f s)"
  by (rule job_keys_get_mut [of s _ k f]) (simp_all add: update_job_def)

lemma job_keys_insert_job: "job_keys_inv s \<Longrightarrow> job_keys_inv (insert_job j s)"
  by (auto simp: job_keys_inv_def fmpred_iff insert_job_def Let_def)

lemma job_keys_lifecycle: "job_keys_inv s \<Longrightarrow> job_keys_inv (apply_lifecycle e s)"
proof (cases e)
  case (ProcessInstanceMigrated ik pid pdk mappings)
  assume "job_keys_inv s"
  then have "job_keys_inv (migrate_inflight p pid (on_instance ik f s))" for p f
    by (rule job_keys_part [rotated]) simp
  then show ?thesis unfolding ProcessInstanceMigrated
    by (auto simp: apply_ProcessInstanceMigrated_def Let_def job_keys_inv_def fmpred_iff migrate_attached_def split: if_splits)
qed (auto simp: apply_ProcessInstanceCompleted_def apply_ProcessInstanceTerminated_def
    apply_ProcessInstanceTerminating_def apply_ProcessInstanceSuspended_def apply_ProcessInstanceResumed_def
    Let_def elim: job_keys_part [rotated])

lemma job_keys_job: "job_keys_inv s \<Longrightarrow> job_keys_inv (apply_job e s)"
  by (cases e) (simp_all add: job_arm_defs Let_def job_keys_insert_job job_keys_update_job job_keys_rewrite)

lemma job_keys_incident: "job_keys_inv s \<Longrightarrow> job_keys_inv (apply_incident e s)"
proof (cases e)
  case (IncidentRaised ick ik eik eid kind redrive reason jk created)
  assume "job_keys_inv s"
  then show ?thesis unfolding IncidentRaised by (simp add: incident_arm_defs job_keys_inv_def)
next
  case (IncidentResolved ick ik jk resolved_at opref)
  assume "job_keys_inv s"
  then have "job_keys_inv (s\<lparr> incidents := i, instances := n \<rparr>)" for i n by (simp add: job_keys_inv_def)
  then show ?thesis unfolding IncidentResolved
    by (auto simp: incident_arm_defs Let_def intro!: job_keys_update_job split: option.split)
qed

lemma apply_event_job_keys: "job_keys_inv s \<Longrightarrow> job_keys_inv (apply_event e s)"
  by (cases e) (simp_all add: job_keys_job job_keys_incident job_keys_lifecycle job_keys_part [of _ s])

end
