(* ===== verification/Entity_Keys.thy ===== *)
theory Entity_Keys
  imports State_Invariants
begin

text \<open>
  Two more invariants of \<open>apply\<close>: every entity of the state is stored under its own key, and the
  reverse index \<open>jobs_by_instance\<close> holds exactly the jobs of each instance. Eviction and cold spill
  rely on both.
\<close>

section \<open>Entities are stored under their own key\<close>

definition stored_under :: "('v \<Rightarrow> key) \<Rightarrow> (key, 'v) fmap \<Rightarrow> bool" where
  "stored_under own m \<longleftrightarrow> fmpred (\<lambda>k v. own v = k) m"

definition entity_keys_inv :: "state \<Rightarrow> bool" where
  "entity_keys_inv s \<longleftrightarrow> stored_under pi_key (instances s) \<and> stored_under tm_key (timers s)
     \<and> stored_under ms_key (message_subscriptions s) \<and> stored_under ss_key (signal_subscriptions s)
     \<and> stored_under cd_key (conditional_subscriptions s) \<and> stored_under ut_key (user_tasks s)
     \<and> stored_under inc_key (incidents s)"

lemma stored_underD: "stored_under own m \<Longrightarrow> fmlookup m k = Some v \<Longrightarrow> own v = k"
  by (auto simp: stored_under_def fmpred_iff)

lemma stored_under_empty [simp]: "stored_under own fmempty"
  by (simp add: stored_under_def)

lemma stored_under_upd [intro]: "stored_under own m \<Longrightarrow> own v = k \<Longrightarrow> stored_under own (fmupd k v m)"
  by (auto simp: stored_under_def fmpred_iff)

lemma stored_under_get_mut [intro]:
  "stored_under own m \<Longrightarrow> (\<And>v. own (f v) = own v) \<Longrightarrow> stored_under own (get_mut k f m)"
  by (auto simp: stored_under_def fmpred_iff split: if_splits)

lemma stored_under_map [intro]:
  "stored_under own m \<Longrightarrow> (\<And>v. own (f v) = own v) \<Longrightarrow> stored_under own (fmmap f m)"
  by (auto simp: stored_under_def fmpred_iff)

lemma stored_under_foldl [intro]:
  "stored_under own m \<Longrightarrow> (\<And>v. own (f v) = own v) \<Longrightarrow> stored_under own (foldl (\<lambda>m k. get_mut k f m) m ks)"
  by (induction ks arbitrary: m) auto

text \<open>The part of the state the invariant reads, without the instances.\<close>

definition waiting_part where
  "waiting_part s = (timers s, message_subscriptions s, signal_subscriptions s, conditional_subscriptions s,
     user_tasks s, incidents s)"

lemma entity_keys_part:
  "entity_keys_inv s \<Longrightarrow> waiting_part s' = waiting_part s \<Longrightarrow> stored_under pi_key (instances s') \<Longrightarrow> entity_keys_inv s'"
  by (auto simp: entity_keys_inv_def waiting_part_def)

lemma entity_keys_frame:
  "entity_keys_inv s \<Longrightarrow> waiting_part s' = waiting_part s \<Longrightarrow> instances s' = instances s \<Longrightarrow> entity_keys_inv s'"
  by (rule entity_keys_part) (auto simp: entity_keys_inv_def)

lemma entity_keys_on_instance:
  assumes "entity_keys_inv s" "\<And>i. pi_key (f i) = pi_key i"
  shows "entity_keys_inv (on_instance ik f s)"
  by (rule entity_keys_part [OF assms(1)]) (use assms in \<open>auto simp: on_instance_def waiting_part_def entity_keys_inv_def\<close>)

lemma entity_keys_decrement: "entity_keys_inv s \<Longrightarrow> entity_keys_inv (decrement_inflight_by_process p s)"
  by (erule entity_keys_frame) (auto simp: decrement_inflight_by_process_def waiting_part_def split: option.split)

lemma entity_keys_inv_resync: "entity_keys_inv (resync_job_index k s) = entity_keys_inv s"
  by (simp add: entity_keys_inv_def resync_job_index_def Let_def split: option.split)

lemma entity_keys_update_job: "entity_keys_inv s \<Longrightarrow> entity_keys_inv (update_job k f s)"
  by (simp add: update_job_def entity_keys_inv_resync) (simp add: entity_keys_inv_def)

lemma entity_keys_job: "entity_keys_inv s \<Longrightarrow> entity_keys_inv (apply_job e s)"
  by (cases e) (simp_all add: job_arm_defs insert_job_def Let_def entity_keys_update_job,
      simp_all add: entity_keys_inv_def resync_job_index_def Let_def)

lemma entity_keys_incident: "entity_keys_inv s \<Longrightarrow> entity_keys_inv (apply_incident e s)"
proof (cases e)
  case (IncidentRaised ick ik eik eid kind redrive reason jk created)
  assume "entity_keys_inv s"
  then show ?thesis unfolding IncidentRaised by (auto simp: incident_arm_defs entity_keys_inv_def)
next
  case (IncidentResolved ick ik jk resolved_at opref)
  assume "entity_keys_inv s"
  then have "entity_keys_inv (s\<lparr> incidents := get_mut ick f (incidents s), instances := get_mut ik g (instances s) \<rparr>)"
    if "\<And>i. inc_key (f i) = inc_key i" "\<And>i. pi_key (g i) = pi_key i" for f g
    using that by (auto simp: entity_keys_inv_def)
  then show ?thesis unfolding IncidentResolved
    by (auto simp: incident_arm_defs Let_def intro!: entity_keys_update_job split: option.split)
qed

lemma entity_keys_migrate_attached: "entity_keys_inv s \<Longrightarrow> entity_keys_inv (migrate_attached ik r s)"
  by (auto simp: entity_keys_inv_def migrate_attached_def)

lemma entity_keys_migrate_inflight: "entity_keys_inv s \<Longrightarrow> entity_keys_inv (migrate_inflight p q s)"
proof -
  assume "entity_keys_inv s"
  then have "entity_keys_inv (decrement_inflight_by_process p s)" by (rule entity_keys_decrement)
  then have "entity_keys_inv ((decrement_inflight_by_process p s)\<lparr> inflight_by_process := m \<rparr>)" for m
    by (simp add: entity_keys_inv_def)
  with \<open>entity_keys_inv s\<close> show ?thesis by (simp add: migrate_inflight_def Let_def)
qed

lemma entity_keys_resolve_incidents: "entity_keys_inv s \<Longrightarrow> entity_keys_inv (resolve_incidents ik s)"
  by (auto simp: resolve_incidents_def entity_keys_inv_def split: option.split)

lemma entity_keys_lifecycle: "entity_keys_inv s \<Longrightarrow> entity_keys_inv (apply_lifecycle e s)"
  by (cases e) (simp_all add: apply_ProcessInstanceCompleted_def apply_ProcessInstanceTerminated_def
    apply_ProcessInstanceTerminating_def apply_ProcessInstanceSuspended_def apply_ProcessInstanceResumed_def
    apply_ProcessInstanceMigrated_def Let_def entity_keys_decrement entity_keys_on_instance
    entity_keys_resolve_incidents entity_keys_migrate_attached entity_keys_migrate_inflight
    clear_completed_def clear_terminated_def migrate_instance_def)

lemma entity_keys_variable: "entity_keys_inv s \<Longrightarrow> entity_keys_inv (apply_variable e s)"
proof (cases e)
  case (ProcessInstanceCreated)
  assume "entity_keys_inv s"
  then show ?thesis unfolding ProcessInstanceCreated
    by (auto simp: apply_ProcessInstanceCreated_def Let_def entity_keys_inv_def)
qed (simp_all add: instance_arm_defs entity_keys_on_instance)

lemma entity_keys_timer: "entity_keys_inv s \<Longrightarrow> entity_keys_inv (apply_timer e s)"
  by (cases e) (auto simp: waiting_arm_defs entity_keys_inv_def)

lemma entity_keys_user_task: "entity_keys_inv s \<Longrightarrow> entity_keys_inv (apply_user_task e s)"
  by (cases e) (auto simp: waiting_arm_defs entity_keys_inv_def)

lemma entity_keys_message: "entity_keys_inv s \<Longrightarrow> entity_keys_inv (apply_message e s)"
  by (cases e) (auto simp: waiting_arm_defs entity_keys_inv_def)

lemma entity_keys_signal: "entity_keys_inv s \<Longrightarrow> entity_keys_inv (apply_signal e s)"
  by (cases e) (auto simp: waiting_arm_defs entity_keys_inv_def)

lemma entity_keys_element: "entity_keys_inv s \<Longrightarrow> entity_keys_inv (apply_element e s)"
  by (cases e) (auto simp: element_arm_defs intro!: entity_keys_on_instance split: option.splits)

lemma entity_keys_compensation: "entity_keys_inv s \<Longrightarrow> entity_keys_inv (apply_compensation e s)"
  by (cases e) (auto simp: element_arm_defs intro!: entity_keys_on_instance)

lemma entity_keys_multi_instance: "entity_keys_inv s \<Longrightarrow> entity_keys_inv (apply_multi_instance e s)"
  by (cases e) (auto simp: element_arm_defs intro!: entity_keys_on_instance)

lemma entity_keys_adhoc: "entity_keys_inv s \<Longrightarrow> entity_keys_inv (apply_adhoc e s)"
  by (cases e) (auto simp: element_arm_defs Let_def intro!: entity_keys_on_instance)

lemma entity_keys_agent: "entity_keys_inv s \<Longrightarrow> entity_keys_inv (apply_agent e s)"
  by (cases e) (auto simp: instance_arm_defs intro!: entity_keys_on_instance)

lemma entity_keys_process: "entity_keys_inv s \<Longrightarrow> entity_keys_inv (apply_process e s)"
  by (cases e) (simp_all add: deploy_arm_defs entity_keys_inv_def)

lemma entity_keys_resource: "entity_keys_inv s \<Longrightarrow> entity_keys_inv (apply_resource e s)"
  by (cases e) (simp_all add: deploy_arm_defs entity_keys_inv_def split: option.split)

lemmas entity_keys_families = entity_keys_job entity_keys_incident entity_keys_lifecycle entity_keys_variable
  entity_keys_timer entity_keys_user_task entity_keys_message entity_keys_signal entity_keys_element
  entity_keys_compensation entity_keys_multi_instance entity_keys_adhoc entity_keys_agent
  entity_keys_process entity_keys_resource

lemma apply_event_entity_keys: "entity_keys_inv s \<Longrightarrow> entity_keys_inv (apply_event e s)"
  by (cases e) (simp_all add: entity_keys_families)

section \<open>The reverse index holds the jobs of each instance\<close>

definition owner_inv :: "state \<Rightarrow> bool" where
  "owner_inv s \<longleftrightarrow> (\<forall>ik. fmlookup (jobs_by_instance s) ik \<noteq> Some {||})
     \<and> (\<forall>ik k. (\<exists>ks. fmlookup (jobs_by_instance s) ik = Some ks \<and> k |\<in>| ks) \<longleftrightarrow>
          (\<exists>j. fmlookup (jobs s) k = Some j \<and> jb_instance_key j = ik))"

text \<open>What the invariant reads of a state: the reverse index and the owner of every job.\<close>

definition owner_part :: "state \<Rightarrow> (key, key fset) fmap \<times> (key, key) fmap" where
  "owner_part s = (jobs_by_instance s, fmmap jb_instance_key (jobs s))"

lemma owner_inv_part: assumes "owner_part s' = owner_part s" "owner_inv s" shows "owner_inv s'"
proof -
  have eq: "fmmap jb_instance_key (jobs s') = fmmap jb_instance_key (jobs s)"
    using assms(1) by (simp add: owner_part_def)
  have own: "map_option jb_instance_key (fmlookup (jobs s') k) = map_option jb_instance_key (fmlookup (jobs s) k)" for k
    using arg_cong [OF eq, of "\<lambda>m. fmlookup m k"] by simp
  have "(\<exists>j. fmlookup (jobs s') k = Some j \<and> jb_instance_key j = ik) \<longleftrightarrow>
      (\<exists>j. fmlookup (jobs s) k = Some j \<and> jb_instance_key j = ik)" for k ik
    using own [of k] by (cases "fmlookup (jobs s') k"; cases "fmlookup (jobs s) k") auto
  then show ?thesis using assms by (simp add: owner_inv_def owner_part_def)
qed

lemma owner_part_jobs:
  "jobs_by_instance s' = jobs_by_instance s \<Longrightarrow> jobs s' = get_mut k f (jobs s) \<Longrightarrow>
   (\<And>j. jb_instance_key (f j) = jb_instance_key j) \<Longrightarrow> owner_part s' = owner_part s"
  by (auto simp: owner_part_def intro!: fmap_ext) (auto simp: option.map_comp comp_def)

lemma owner_part_update_job:
  "(\<And>j. jb_instance_key (f j) = jb_instance_key j) \<Longrightarrow> owner_part (update_job k f s) = owner_part s"
  by (rule owner_part_jobs [of _ _ k f]) (simp_all add: update_job_def)

lemma owner_part_frame:
  "jobs_by_instance s' = jobs_by_instance s \<Longrightarrow> jobs s' = jobs s \<Longrightarrow> owner_part s' = owner_part s"
  by (simp add: owner_part_def)

lemma owner_inv_insert:
  assumes inv: "owner_inv s" and fresh: "fmlookup (jobs s) (jb_key j) = None"
  shows "owner_inv (insert_job j s)"
proof -
  let ?s = "insert_job j s"
  have jobs: "jobs ?s = fmupd (jb_key j) j (jobs s)" by (simp add: insert_job_def Let_def)
  have idx: "jobs_by_instance ?s = entry_or (jb_instance_key j) {||} (finsert (jb_key j)) (jobs_by_instance s)"
    by (simp add: insert_job_def Let_def)
  have old: "\<nexists>ks. fmlookup (jobs_by_instance s) ik = Some ks \<and> jb_key j |\<in>| ks" for ik
    using inv fresh unfolding owner_inv_def by auto
  have "(\<exists>ks. fmlookup (jobs_by_instance ?s) ik = Some ks \<and> k |\<in>| ks) \<longleftrightarrow>
      (\<exists>j'. fmlookup (jobs ?s) k = Some j' \<and> jb_instance_key j' = ik)" for ik k
  proof (cases "k = jb_key j")
    case True
    with old [of ik] show ?thesis by (auto simp: jobs idx)
  next
    case False
    then have "(\<exists>ks. fmlookup (jobs_by_instance ?s) ik = Some ks \<and> k |\<in>| ks) \<longleftrightarrow>
        (\<exists>ks. fmlookup (jobs_by_instance s) ik = Some ks \<and> k |\<in>| ks)"
      by (auto simp: idx split: option.splits)
    with False inv show ?thesis by (simp add: jobs owner_inv_def)
  qed
  moreover have "fmlookup (jobs_by_instance ?s) ik \<noteq> Some {||}" for ik
    using inv by (auto simp: idx owner_inv_def)
  ultimately show ?thesis unfolding owner_inv_def by blast
qed

lemma apply_job_owner:
  assumes "owner_inv s" "\<And>k. created_job_key e = Some k \<Longrightarrow> fmlookup (jobs s) k = None"
  shows "owner_inv (apply_job e s)"
proof (cases "created_job_key e")
  case None
  then have "owner_part (apply_job e s) = owner_part s"
    by (cases e) (simp_all add: job_arm_defs created_job_key_def owner_part_update_job Let_def owner_part_jobs)
  then show ?thesis using assms(1) by (rule owner_inv_part)
next
  case (Some k)
  then show ?thesis using assms
    by (cases e) (simp_all add: job_arm_defs created_job_key_def owner_inv_insert)
qed

lemma owner_part_incident [simp]: "owner_part (apply_incident e s) = owner_part s"
proof (cases e)
  case (IncidentResolved ick ik jk resolved_at opref)
  have "owner_part (return_parked_job k t) = owner_part t" for k t
    by (simp add: return_parked_job_def owner_part_update_job)
  moreover have "owner_part (s\<lparr> incidents := x, instances := y \<rparr>) = owner_part s" for x y
    by (simp add: owner_part_def)
  ultimately show ?thesis unfolding IncidentResolved
    by (simp add: apply_IncidentResolved_def Let_def split: option.split)
qed (simp add: apply_IncidentRaised_def owner_part_def)

lemma owner_part_decrement [simp]: "owner_part (decrement_inflight_by_process p s) = owner_part s"
  by (auto simp: decrement_inflight_by_process_def owner_part_def split: option.split)

lemma owner_part_on_instance [simp]: "owner_part (on_instance ik f s) = owner_part s"
  by (simp add: on_instance_def owner_part_def)

lemma owner_part_resolve_incidents [simp]: "owner_part (resolve_incidents ik s) = owner_part s"
  by (simp add: resolve_incidents_def owner_part_def split: option.split)

lemma owner_part_migrate_inflight [simp]: "owner_part (migrate_inflight p q s) = owner_part s"
  using owner_part_decrement [of p s] by (simp add: migrate_inflight_def Let_def owner_part_def)

lemma owner_part_migrate_attached [simp]: "owner_part (migrate_attached ik r s) = owner_part s"
  by (auto simp: owner_part_def migrate_attached_def option.map_comp intro!: fmap_ext option.map_cong)

lemma owner_part_lifecycle [simp]: "owner_part (apply_lifecycle e s) = owner_part s"
  by (cases e) (simp_all add: apply_ProcessInstanceCompleted_def apply_ProcessInstanceTerminated_def
    apply_ProcessInstanceTerminating_def apply_ProcessInstanceSuspended_def apply_ProcessInstanceResumed_def
    apply_ProcessInstanceMigrated_def Let_def)

lemma owner_part_deploy [simp]:
  "owner_part (apply_process pe s) = owner_part s" "owner_part (apply_resource re s) = owner_part s"
proof -
  show "owner_part (apply_process pe s) = owner_part s"
    by (cases pe) (simp_all add: deploy_arm_defs owner_part_def)
  show "owner_part (apply_resource re s) = owner_part s"
    by (cases re) (simp_all add: deploy_arm_defs owner_part_def split: option.split)
qed

lemma owner_part_variable [simp]: "owner_part (apply_variable e s) = owner_part s"
proof (cases e)
  case (ProcessInstanceCreated)
  then show ?thesis by (simp add: apply_ProcessInstanceCreated_def Let_def owner_part_def)
qed (simp_all add: instance_arm_defs)

lemma owner_part_agent [simp]: "owner_part (apply_agent e s) = owner_part s"
  by (cases e) (simp_all add: instance_arm_defs)

lemma owner_part_element [simp]: "owner_part (apply_element e s) = owner_part s"
  by (cases e) (simp_all add: element_arm_defs split: option.split)

lemma owner_part_scopes [simp]:
  "owner_part (apply_compensation ce s) = owner_part s" "owner_part (apply_multi_instance me s) = owner_part s"
  "owner_part (apply_adhoc ae s) = owner_part s"
proof -
  show "owner_part (apply_compensation ce s) = owner_part s" by (cases ce) (simp_all add: element_arm_defs)
  show "owner_part (apply_multi_instance me s) = owner_part s" by (cases me) (simp_all add: element_arm_defs)
  show "owner_part (apply_adhoc ae s) = owner_part s" by (cases ae) (simp_all add: element_arm_defs Let_def)
qed

lemma owner_part_waiting [simp]:
  "owner_part (apply_timer te s) = owner_part s" "owner_part (apply_user_task ue s) = owner_part s"
  "owner_part (apply_message me s) = owner_part s" "owner_part (apply_signal se s) = owner_part s"
proof -
  show "owner_part (apply_timer te s) = owner_part s" by (cases te) (simp_all add: waiting_arm_defs owner_part_def)
  show "owner_part (apply_user_task ue s) = owner_part s" by (cases ue) (simp_all add: waiting_arm_defs owner_part_def)
  show "owner_part (apply_message me s) = owner_part s" by (cases me) (simp_all add: waiting_arm_defs owner_part_def)
  show "owner_part (apply_signal se s) = owner_part s" by (cases se) (simp_all add: waiting_arm_defs owner_part_def)
qed

lemma apply_event_owner:
  assumes "owner_inv s" "fresh_job e s"
  shows "owner_inv (apply_event e s)"
proof (cases e)
  case (EJob je)
  then have "created_job_key je = Some k \<Longrightarrow> fmlookup (jobs s) k = None" for k
    using assms(2) by (simp add: fresh_job_def fmdom_notD)
  then show ?thesis using EJob assms(1) by (simp add: apply_job_owner)
qed (use assms(1) in \<open>simp_all add: owner_inv_part [of _ s]\<close>)

end
