(* ===== verification/Cluster_Vars.thy ===== *)
theory Cluster_Vars
  imports Dmn_Model
begin

text \<open>
  Host-injected cluster variables (\<open>engine-core/src/cluster_vars.rs\<close>): a set of global variables and an
  overlay per tenant. The engine reads the snapshot behind the shared handle when it assembles the
  variables an expression sees; the handle is modelled by the snapshot it holds.
\<close>

definition DEFAULT_TENANT :: string where
  "DEFAULT_TENANT = ''<default>''"

record cluster_variable_snapshot =
  cv_global :: vars
  cv_tenants :: "(string, vars) fmap"

definition no_cluster_variables :: cluster_variable_snapshot where
  "no_cluster_variables = \<lparr> cv_global = fmempty, cv_tenants = fmempty \<rparr>"

definition cv_is_empty :: "cluster_variable_snapshot \<Rightarrow> bool" where
  "cv_is_empty s = (cv_global s = fmempty \<and> fmpred (\<lambda>_ m. m = fmempty) (cv_tenants s))"

text \<open>The pairs come out global first, then the tenant's own; inserting them in that order into a map
  lets the tenant shadow the globals.\<close>

definition resolved_for :: "cluster_variable_snapshot \<Rightarrow> string \<Rightarrow> vars" where
  "resolved_for s tenant = cv_global s ++\<^sub>f (case fmlookup (cv_tenants s) tenant of None \<Rightarrow> fmempty | Some m \<Rightarrow> m)"

lemma resolved_for_empty: "cv_is_empty s \<Longrightarrow> resolved_for s tenant = fmempty"
  by (auto simp: cv_is_empty_def resolved_for_def dest: fmpredD split: option.splits)

end
