(* ===== verification/Engine.thy ===== *)
theory Engine
  imports State_Invariants Cluster_Vars
begin

text \<open>
  The engine shell of \<open>engine-core/src/engine/mod.rs\<close>: construction, key minting, replay, the
  installation of replicated deployments and \<open>emit\<close>, with the agent settlement that \<open>emit\<close>
  triggers (\<open>engine/agent_behavior.rs\<close>). The host-owned cluster-variable handle is not part of the
  record: none of these operations reads it. An operation that appends to the event log takes and
  returns the pair of engine and log.
\<close>

section \<open>Errors\<close>

datatype engine_error =
    ProcessNotFound string
  | NoStartEvent string
  | JobNotFound key
  | JobNotActive key
  | JobLeaseMismatch key
  | JobUpdateInvalid key string
  | AgentInstanceAlreadyExists key key
  | AgentInstanceActiveWriter key key
  | AgentHistoryInvalid string
  | JobNotActivated key
  | IncidentNotFound key
  | IncidentNotResolvable key string
  | ScopeNotFound key
  | InstanceNotFound key
  | InstanceTransitionInvalid key string string
  | ElementNotFound key elementid
  | ElementInstanceNotFound key key
  | UserTaskNotFound key
  | UserTaskNotActive key
  | UserTaskAlreadyAssigned key
  | TaskListenerJobWithVariables key
  | TaskListenerDenyWithCorrections key
  | TaskListenerDenyNotSupported key
  | TaskListenerAssigneeCorrectionOnCreating key
  | AdHocUnknownElement key elementid
  | AdHocActivateWithCompletion key
  | AdHocSubProcessNotFound key
  | AdHocNoActivationTargets key
  | TargetProcessDefinitionNotFound key
  | DuplicateMappingSourceElement key elementid
  | MappingSourceElementNotFound key elementid
  | MappingTargetElementNotFound key elementid
  | UnmappedActiveElement key elementid
  | MappedElementTypeChanged key elementid elementid
  | MigratedParallelJoinArityChanged key elementid elementid nat nat
  | MigratedJoinFlowMissing key elementid elementid elementid nat
  | UnsupportedMigration key elementid string
  | AgentInstanceNotFound key
  | AgentInstanceElementInstanceInactive key
  | AgentInstanceElementNotEligible key
  | AgentInstanceMissingAgentDefinition key
  | AgentInstanceJobRequiredForHistory key
  | AgentInstanceJobNotActive key key
  | AgentInstanceJobLeaseMismatch key key
  | AgentInstanceJobElementMismatch key key key
  | AgentInstanceOwnershipMismatch key
  | AgentInstanceConflict key key key
  | AgentInstanceStatusNotSettable key agent_instance_status
  | AgentInstanceAlreadyCompleted key
  | AgentInstanceLimitExceeded key agent_limit_kind

section \<open>The engine and its key generator\<close>

record engine =
  est :: state
  partition_id :: u64
  next_local :: u64
  num_partitions :: u64
  now :: u64
  start_dispatch_rr :: u64
  lenient_completion :: bool
  track_dirty_vars :: bool
  dirty_vars :: "key fset"
  forgotten_vars :: "key fset"
  retired_tombstones :: "key fset"
  torn_down_scopes :: "key fset"
  cluster_variables :: cluster_variable_snapshot

definition engine_of :: "state \<Rightarrow> u64 \<Rightarrow> u64 \<Rightarrow> engine" where
  "engine_of st pid nl = \<lparr> est = st, partition_id = pid, next_local = nl, num_partitions = 1, now = 0,
     start_dispatch_rr = 0, lenient_completion = False, track_dirty_vars = False, dirty_vars = {||},
     forgotten_vars = {||}, retired_tombstones = {||}, torn_down_scopes = {||}, cluster_variables = no_cluster_variables \<rparr>"

text \<open>The assertion on the partition id panics: the result is \<open>None\<close>.\<close>

definition with_partition :: "u64 \<Rightarrow> engine option" where
  "with_partition pid = (if pid \<le> MAX_PARTITION_ID then Some (engine_of state_new pid 0) else None)"

definition set_num_partitions :: "u64 \<Rightarrow> engine \<Rightarrow> engine" where
  "set_num_partitions n e = e\<lparr> num_partitions := max n 1 \<rparr>"

definition set_lenient_completion :: "bool \<Rightarrow> engine \<Rightarrow> engine" where
  "set_lenient_completion b e = e\<lparr> lenient_completion := b \<rparr>"

definition set_cluster_variables :: "cluster_variable_snapshot \<Rightarrow> engine \<Rightarrow> engine" where
  "set_cluster_variables cv e = e\<lparr> cluster_variables := cv \<rparr>"

definition engine_subscription_partition :: "engine \<Rightarrow> string \<Rightarrow> u64" where
  "engine_subscription_partition e correlation_key = subscription_partition correlation_key (num_partitions e)"

definition mint_key :: "engine \<Rightarrow> key \<times> engine" where
  "mint_key e = (let e' = e\<lparr> next_local := next_local e + 1 \<rparr>
                 in (compose_key (partition_id e') (next_local e'), e'))"

definition advance_local :: "u64 \<Rightarrow> event \<Rightarrow> u64 \<Rightarrow> u64" where
  "advance_local pid e nl = (if partition_of (max_key e) = pid then max nl (local_of (max_key e)) else nl)"

definition replay_step :: "u64 \<Rightarrow> state \<times> u64 \<Rightarrow> event \<Rightarrow> state \<times> u64" where
  "replay_step pid acc e = (case acc of (st, nl) \<Rightarrow> (apply_event e st, advance_local pid e nl))"

definition replay_partition :: "u64 \<Rightarrow> event list \<Rightarrow> engine option" where
  "replay_partition pid events =
     (if pid \<le> MAX_PARTITION_ID
      then (case foldl (replay_step pid) (state_new, 0) events of (st, nl) \<Rightarrow> Some (engine_of st pid nl))
      else None)"

definition replay :: "event list \<Rightarrow> engine option" where
  "replay events = replay_partition 0 events"

definition is_deploy_event :: "event \<Rightarrow> bool" where
  "is_deploy_event e = (case e of
     EProcess (ProcessDeployed _ _ _ _) \<Rightarrow> True
   | EResource (DecisionRequirementsDeployed _ _ _ _) \<Rightarrow> True
   | EResource (DecisionDeployed _ _ _ _ _ _) \<Rightarrow> True
   | EResource (FormDeployed _ _ _ _ _ _) \<Rightarrow> True
   | EResource (GenericResourceDeployed _ _ _ _ _ _) \<Rightarrow> True
   | _ \<Rightarrow> False)"

definition install_deployment :: "event list \<Rightarrow> engine \<Rightarrow> engine" where
  "install_deployment events eng = fold (\<lambda>e g.
     let g1 = g\<lparr> next_local := advance_local (partition_id g) e (next_local g) \<rparr>
     in if is_deploy_event e then g1\<lparr> est := apply_event e (est g1) \<rparr> else g1) events eng"

definition install_deployment_if_newer :: "event list \<Rightarrow> engine \<Rightarrow> engine" where
  "install_deployment_if_newer events eng = fold (\<lambda>e g.
     let g1 = g\<lparr> next_local := advance_local (partition_id g) e (next_local g) \<rparr>
     in if is_deploy_event e then g1\<lparr> est := apply_event e (est g1) \<rparr> else g1) events eng"

definition MAX_CALL_ACTIVITY_DEPTH :: nat where
  "MAX_CALL_ACTIVITY_DEPTH = 1000"

fun root_from :: "nat \<Rightarrow> engine \<Rightarrow> key \<Rightarrow> key" where
  "root_from 0 e current = current"
| "root_from (Suc n) e current =
     (case Option.bind (fmlookup (instances (est e)) current) pi_parent_process_instance_key of
        Some parent \<Rightarrow> root_from n e parent
      | None \<Rightarrow> current)"

definition root_process_instance_key :: "engine \<Rightarrow> key \<Rightarrow> key" where
  "root_process_instance_key e ik = root_from (Suc MAX_CALL_ACTIVITY_DEPTH) e ik"

section \<open>Emitting events\<close>

type_synonym logged = "engine \<times> event list"

definition track_dirty :: "event \<Rightarrow> engine \<Rightarrow> engine" where
  "track_dirty ev e = (if \<not> track_dirty_vars e then e else case ev of
     EVariable (ProcessInstanceCreated ik _ _ _ _ _ _ _ _ _) \<Rightarrow>
       e\<lparr> dirty_vars := finsert ik (dirty_vars e), forgotten_vars := forgotten_vars e |-| {|ik|} \<rparr>
   | EVariable (VariablesUpdated ik _) \<Rightarrow>
       e\<lparr> dirty_vars := finsert ik (dirty_vars e), forgotten_vars := forgotten_vars e |-| {|ik|} \<rparr>
   | ELifecycle (ProcessInstanceCompleted ik) \<Rightarrow>
       e\<lparr> dirty_vars := dirty_vars e |-| {|ik|}, forgotten_vars := finsert ik (forgotten_vars e) \<rparr>
   | ELifecycle (ProcessInstanceTerminated ik) \<Rightarrow>
       e\<lparr> dirty_vars := dirty_vars e |-| {|ik|}, forgotten_vars := finsert ik (forgotten_vars e) \<rparr>
   | _ \<Rightarrow> e)"

text \<open>The part of \<open>emit\<close> that every event goes through: dirty tracking, apply, append.\<close>

definition emit_plain :: "event \<Rightarrow> logged \<Rightarrow> logged" where
  "emit_plain ev el = (case el of (e, log) \<Rightarrow>
     (let e1 = track_dirty ev e in (e1\<lparr> est := apply_event ev (est e1) \<rparr>, log @ [ev])))"

definition find_agent_instance :: "engine \<Rightarrow> key \<Rightarrow> agent_instance option" where
  "find_agent_instance e aik =
     Option.bind (List.find (\<lambda>(_, i). fmlookup (pi_agent_instances i) aik \<noteq> None) (sorted_list_of_fmap (instances (est e))))
       (\<lambda>(_, i). fmlookup (pi_agent_instances i) aik)"

definition configuration_attributes :: "agent_history_turn \<Rightarrow> string list" where
  "configuration_attributes turn =
     (if aht_changed_attributes turn \<noteq> [] then aht_changed_attributes turn
      else map snd (filter fst
        [(aht_model turn \<noteq> None, ''model''), (aht_provider turn \<noteq> None, ''provider''),
         (aht_system_prompt turn \<noteq> None, ''systemPrompt''), (aht_tools turn \<noteq> [], ''tools''),
         (aht_limits turn \<noteq> None, ''maxTokens''), (aht_limits turn \<noteq> None, ''maxModelCalls''),
         (aht_limits turn \<noteq> None, ''maxToolCalls'')]))"

definition limits_or_default :: "agent_history_turn \<Rightarrow> agent_instance_limits" where
  "limits_or_default turn = (case aht_limits turn of None \<Rightarrow> default_limits | Some l \<Rightarrow> l)"

definition apply_configuration_field :: "agent_history_turn \<Rightarrow> string \<Rightarrow> agent_instance \<Rightarrow> agent_instance" where
  "apply_configuration_field turn field a =
     (if field = ''model'' then a\<lparr> ai_definition := (ai_definition a)\<lparr> ad_model := aht_model turn \<rparr> \<rparr>
      else if field = ''provider'' then a\<lparr> ai_definition := (ai_definition a)\<lparr> ad_provider := aht_provider turn \<rparr> \<rparr>
      else if field = ''systemPrompt'' then a\<lparr> ai_definition := (ai_definition a)\<lparr> ad_system_prompt := aht_system_prompt turn \<rparr> \<rparr>
      else if field = ''tools'' then a\<lparr> ai_tools := aht_tools turn \<rparr>
      else if field = ''maxTokens'' then a\<lparr> ai_limits := (ai_limits a)\<lparr> max_tokens := max_tokens (limits_or_default turn) \<rparr> \<rparr>
      else if field = ''maxModelCalls''
        then a\<lparr> ai_limits := (ai_limits a)\<lparr> max_model_calls := max_model_calls (limits_or_default turn) \<rparr> \<rparr>
      else if field = ''maxToolCalls''
        then a\<lparr> ai_limits := (ai_limits a)\<lparr> max_tool_calls := max_tool_calls (limits_or_default turn) \<rparr> \<rparr>
      else a)"

definition apply_agent_configuration :: "agent_history_turn \<Rightarrow> agent_instance \<Rightarrow> agent_instance" where
  "apply_agent_configuration turn a =
     (if aht_role turn \<noteq> RoleConfiguration then a
      else fold (apply_configuration_field turn) (configuration_attributes turn) a)"

definition turn_of_record :: "agent_history_record \<Rightarrow> agent_history_turn" where
  "turn_of_record r = \<lparr> aht_changed_attributes = ahr_changed_attributes r, aht_loop_iteration = 0,
     aht_produced_at = 0, aht_role = ahr_role r, aht_content = [], aht_system_prompt = ahr_system_prompt r,
     aht_tool_calls = [], aht_metrics = None, aht_history_item_id = None, aht_tools = ahr_tools r,
     aht_model = ahr_model r, aht_provider = ahr_provider r, aht_limits = ahr_limits r,
     aht_is_duplicate = False, aht_job_key = 0, aht_job_lease = [] \<rparr>"

definition settle_record :: "key \<Rightarrow> string \<Rightarrow> bool \<Rightarrow> agent_history_record \<Rightarrow> logged \<Rightarrow> logged" where
  "settle_record ik lease commit r el =
     (let winning = commit \<and> (lease = [] \<or> ahr_job_lease r = lease);
          aik = ahr_agent_instance_key r;
          el1 = emit_plain (EAgent (if winning then AgentHistoryCommitted ik aik [ahr_agent_history_key r]
                                    else AgentHistoryDiscarded ik aik [ahr_agent_history_key r])) el
      in if winning \<and> ahr_role r = RoleConfiguration
         then (case find_agent_instance (fst el1) aik of
                 None \<Rightarrow> el1
               | Some a \<Rightarrow> emit_plain (EAgent (AgentInstanceUpdated ik (apply_agent_configuration (turn_of_record r) a))) el1)
         else el1)"

definition settle_job_history :: "key \<Rightarrow> key \<Rightarrow> string \<Rightarrow> bool \<Rightarrow> logged \<Rightarrow> logged" where
  "settle_job_history ik jk lease commit el =
     (let records = (case fmlookup (instances (est (fst el))) ik of
            None \<Rightarrow> []
          | Some i \<Rightarrow> filter (\<lambda>r. ahr_job_key r = jk \<and> ahr_commit_status r = CommitPending)
                       (concat (map snd (sorted_list_of_fmap (pi_agent_history i)))))
      in fold (settle_record ik lease commit) (sort_key ahr_agent_history_key records) el)"

definition transition_pending_agent_history :: "key \<Rightarrow> bool \<Rightarrow> engine \<Rightarrow> engine \<times> event list" where
  "transition_pending_agent_history aik commit e = (case find_agent_instance e aik of
     None \<Rightarrow> (e, [])
   | Some ai \<Rightarrow>
       (let ik = ai_process_instance_key ai;
            pending = (case Option.bind (fmlookup (instances (est e)) ik) (\<lambda>i. fmlookup (pi_agent_history i) aik) of
                None \<Rightarrow> []
              | Some records \<Rightarrow> map ahr_agent_history_key (filter (\<lambda>r. ahr_commit_status r = CommitPending) records))
        in if pending = [] then (e, [])
           else emit_plain (EAgent (if commit then AgentHistoryCommitted ik aik pending
                                    else AgentHistoryDiscarded ik aik pending)) (e, [])))"

definition cleanup_agent :: "key \<Rightarrow> agent_instance \<Rightarrow> logged \<Rightarrow> logged" where
  "cleanup_agent ik a el =
     (let (e1, discarded) = transition_pending_agent_history (ai_agent_instance_key a) False (fst el);
          a' = a\<lparr> ai_status := AgentCompleted, ai_completed_at := now e1, ai_last_updated_at := now e1 \<rparr>
      in emit_plain (EAgent (AgentInstanceCompleted ik a')) (e1, snd el @ discarded))"

definition cleanup_agent_instances :: "key \<Rightarrow> logged \<Rightarrow> logged" where
  "cleanup_agent_instances ik el =
     (let agents = (case fmlookup (instances (est (fst el))) ik of
            None \<Rightarrow> []
          | Some i \<Rightarrow> filter (\<lambda>a. agent_is_active (ai_status a)) (map snd (sorted_list_of_fmap (pi_agent_instances i))))
      in fold (cleanup_agent ik) (sort_key ai_agent_instance_key agents) el)"

definition emit_resolution :: "event \<Rightarrow> engine \<Rightarrow> (key \<times> key \<times> string \<times> bool) option" where
  "emit_resolution ev e = (case ev of
     EJob (JobCompleted jk ik _ _ _) \<Rightarrow>
       Some (ik, jk, (case Option.bind (fmlookup (jobs (est e)) jk) jb_lease_token of None \<Rightarrow> [] | Some t \<Rightarrow> t), True)
   | EJob (JobCanceled jk ik) \<Rightarrow> Some (ik, jk, [], False)
   | EJob (JobErrorThrown jk ik _ _) \<Rightarrow> Some (ik, jk, [], False)
   | _ \<Rightarrow> None)"

text \<open>\<open>emit\<close> in full. Settlement and clean-up only emit agent events, on which \<open>emit\<close> is
  \<open>emit_plain\<close> (lemma \<open>emit_agent\<close>), so the recursion of the source is one level deep.\<close>

definition emit :: "event \<Rightarrow> logged \<Rightarrow> logged" where
  "emit ev el =
     (let resolution = emit_resolution ev (fst el);
          el1 = (case terminal_instance_key ev of None \<Rightarrow> el | Some ik \<Rightarrow> cleanup_agent_instances ik el);
          el2 = emit_plain ev el1
      in case resolution of
           None \<Rightarrow> el2
         | Some (ik, jk, lease, commit) \<Rightarrow> settle_job_history ik jk lease commit el2)"

lemma emit_agent: "emit (EAgent ae) el = emit_plain (EAgent ae) el"
  by (simp add: emit_def emit_resolution_def terminal_instance_key_def)

section \<open>The log determines the state\<close>

text \<open>\<open>logs el el'\<close>: \<open>el'\<close> extends the log of \<open>el\<close>, its state is the old state with the new
  events applied in order, and the identity of the engine is unchanged.\<close>

definition logs :: "logged \<Rightarrow> logged \<Rightarrow> bool" where
  "logs el el' \<longleftrightarrow> (\<exists>evs. snd el' = snd el @ evs \<and> est (fst el') = fold apply_event evs (est (fst el)))
     \<and> partition_id (fst el') = partition_id (fst el) \<and> next_local (fst el') = next_local (fst el)
     \<and> now (fst el') = now (fst el) \<and> lenient_completion (fst el') = lenient_completion (fst el)"

lemma logs_refl [simp]: "logs el el"
  by (auto simp: logs_def intro: exI [of _ "[]"])

lemma logs_trans: "logs a b \<Longrightarrow> logs b c \<Longrightarrow> logs a c"
proof -
  assume ab: "logs a b" and bc: "logs b c"
  from ab obtain xs where xs: "snd b = snd a @ xs" "est (fst b) = fold apply_event xs (est (fst a))"
    unfolding logs_def by blast
  from bc obtain ys where ys: "snd c = snd b @ ys" "est (fst c) = fold apply_event ys (est (fst b))"
    unfolding logs_def by blast
  have "\<exists>evs. snd c = snd a @ evs \<and> est (fst c) = fold apply_event evs (est (fst a))"
    by (rule exI [of _ "xs @ ys"]) (simp add: xs ys)
  with ab bc show ?thesis unfolding logs_def by simp
qed

lemma track_dirty_frame [simp]:
  "est (track_dirty ev e) = est e" "partition_id (track_dirty ev e) = partition_id e"
  "next_local (track_dirty ev e) = next_local e" "now (track_dirty ev e) = now e"
  "lenient_completion (track_dirty ev e) = lenient_completion e"
  by (simp_all add: track_dirty_def split: event.split variable_event.split lifecycle_event.split)

lemma logs_emit_plain [simp]: "logs el (emit_plain ev el)"
  by (cases el) (auto simp: logs_def emit_plain_def Let_def intro: exI [of _ "[ev]"])

lemma logs_fold: "(\<And>x el. logs el (f x el)) \<Longrightarrow> logs el (fold f xs el)"
proof (induction xs arbitrary: el)
  case (Cons x xs)
  have "logs el (f x el)" "logs (f x el) (fold f xs (f x el))" using Cons by blast+
  then show ?case by (simp add: logs_trans [of el "f x el"])
qed simp

lemma logs_emit_plainI: "logs el el1 \<Longrightarrow> logs el (emit_plain ev el1)"
  by (rule logs_trans [OF _ logs_emit_plain])

lemma logs_settle_record [simp]: "logs el (settle_record ik lease commit r el)"
  by (auto simp: settle_record_def Let_def split: option.split intro: logs_emit_plainI)

lemma logs_settle_job_history [simp]: "logs el (settle_job_history ik jk lease commit el)"
  by (simp add: settle_job_history_def Let_def logs_fold)

lemma logs_transition:
  "transition_pending_agent_history aik c e = (e1, evs) \<Longrightarrow> logs (e, log) (e1, log @ evs)"
proof -
  assume "transition_pending_agent_history aik c e = (e1, evs)"
  then have "(e1, evs) = (e, []) \<or> (\<exists>ev. emit_plain ev (e, []) = (e1, evs))"
    by (auto simp: transition_pending_agent_history_def Let_def split: option.splits if_splits)
  then show ?thesis
  proof
    assume "\<exists>ev. emit_plain ev (e, []) = (e1, evs)"
    then obtain ev where "emit_plain ev (e, []) = (e1, evs)" ..
    then have "(e1, log @ evs) = emit_plain ev (e, log)" by (auto simp: emit_plain_def Let_def)
    then show ?thesis by (metis logs_emit_plain)
  qed simp
qed

lemma logs_cleanup_agent [simp]: "logs el (cleanup_agent ik a el)"
proof -
  obtain e1 evs where t: "transition_pending_agent_history (ai_agent_instance_key a) False (fst el) = (e1, evs)"
    by fastforce
  from logs_transition [OF t, of "snd el"] have "logs el (e1, snd el @ evs)" by simp
  then show ?thesis by (simp add: cleanup_agent_def t Let_def logs_trans)
qed

lemma logs_cleanup [simp]: "logs el (cleanup_agent_instances ik el)"
  by (simp add: cleanup_agent_instances_def Let_def logs_fold)

lemma logs_emit [simp]: "logs el (emit ev el)"
proof -
  have "logs el (emit_plain ev (case terminal_instance_key ev of None \<Rightarrow> el | Some ik \<Rightarrow> cleanup_agent_instances ik el))"
    (is "logs el ?el2") by (auto intro: logs_emit_plainI split: option.split)
  moreover from this have "logs el (settle_job_history ik jk lease commit ?el2)" for ik jk lease commit
    by (rule logs_trans [OF _ logs_settle_job_history])
  ultimately show ?thesis by (auto simp: emit_def Let_def split: option.split)
qed

lemma replay_step_eq [simp]: "replay_step pid (st, nl) e = (apply_event e st, advance_local pid e nl)"
  by (simp add: replay_step_def)

lemma replay_fold: "fst (foldl (replay_step pid) (st, nl) events) = fold apply_event events st"
  by (induction events arbitrary: st nl) simp_all

lemma logs_replay:
  assumes "with_partition pid = Some e0" "logs (e0, []) (e, log)"
  shows "map_option est (replay_partition pid log) = Some (est e)"
proof -
  have "pid \<le> MAX_PARTITION_ID" "est e0 = state_new"
    using assms(1) by (auto simp: with_partition_def engine_of_def split: if_splits)
  moreover have "est e = fold apply_event log state_new"
    using assms(2) \<open>est e0 = state_new\<close> by (auto simp: logs_def)
  ultimately show ?thesis
    using replay_fold [of pid state_new 0 log]
    by (cases "foldl (replay_step pid) (state_new, 0) log") (simp add: replay_partition_def engine_of_def)
qed

section \<open>Minted keys are fresh\<close>

lemma advance_local_ge: "nl \<le> advance_local pid e nl"
  by (simp add: advance_local_def)

lemma advance_local_own: "partition_of (max_key e) = pid \<Longrightarrow> local_of (max_key e) \<le> advance_local pid e nl"
  by (simp add: advance_local_def)

lemma replay_local_mono: "nl \<le> snd (foldl (replay_step pid) (st, nl) events)"
proof (induction events arbitrary: st nl)
  case (Cons e events)
  from advance_local_ge [of nl pid e] Cons.IH [of "advance_local pid e nl" "apply_event e st"]
  show ?case by simp
qed simp

lemma replay_local_own:
  "e \<in> set events \<Longrightarrow> partition_of (max_key e) = pid \<Longrightarrow>
   local_of (max_key e) \<le> snd (foldl (replay_step pid) (st, nl) events)"
proof (induction events arbitrary: st nl)
  case (Cons a events)
  show ?case
  proof (cases "e = a")
    case True
    have "advance_local pid a nl \<le> snd (foldl (replay_step pid) (apply_event a st, advance_local pid a nl) events)"
      by (rule replay_local_mono)
    with True Cons.prems(2) advance_local_own [of a pid nl] show ?thesis by simp
  next
    case False
    then show ?thesis using Cons by simp
  qed
qed simp

lemma replay_partitionE:
  assumes "replay_partition pid log = Some e"
  shows "pid \<le> MAX_PARTITION_ID" "partition_id e = pid"
    "next_local e = snd (foldl (replay_step pid) (state_new, 0) log)"
    "est e = fold apply_event log state_new"
  using assms replay_fold [of pid state_new 0 log]
  by (auto simp: replay_partition_def engine_of_def split: if_splits prod.splits)

text \<open>\<open>event_key k ev\<close>: a key the event carries, as far as \<open>max_key\<close> looks at it.\<close>

definition event_key :: "key \<Rightarrow> event \<Rightarrow> bool" where
  "event_key k ev \<longleftrightarrow> event_instance_key ev = Some k \<or> k \<in> set (max_keys ev)"

lemma event_key_le: "event_key k ev \<Longrightarrow> k \<le> max_key ev"
  by (auto simp: event_key_def max_key_ge max_key_ge_instance)

lemma word_suc_less: "(a :: u64) < b \<Longrightarrow> unat (a + 1) = unat a + 1"
proof -
  assume "a < b"
  then have "unat a + 1 < 2 ^ 64" using unat_less_2_64 [of b] by (simp add: word_less_nat_alt)
  then show ?thesis by (simp add: unat_word_ariths)
qed

lemma mint_above:
  assumes "partition_id e \<le> MAX_PARTITION_ID" "next_local e < LOCAL_MASK"
    "partition_of m = partition_id e" "local_of m \<le> next_local e"
  shows "m < fst (mint_key e)"
proof -
  have suc: "unat (next_local e + 1) = unat (next_local e) + 1" using assms(2) by (rule word_suc_less)
  have "next_local e + 1 \<le> LOCAL_MASK" using assms(2) suc by (simp add: word_le_nat_alt word_less_nat_alt)
  then have "unat (fst (mint_key e)) = unat (partition_id e) * 2 ^ 51 + unat (next_local e) + 1"
    using assms(1) suc by (simp add: mint_key_def Let_def unat_compose_key)
  moreover have "unat m \<le> unat (partition_id e) * 2 ^ 51 + unat (next_local e)"
    using assms(3,4) by (subst unat_key_split) (simp add: word_le_nat_alt)
  ultimately show ?thesis by (simp add: word_less_nat_alt)
qed

lemma mint_partition:
  "partition_id e \<le> MAX_PARTITION_ID \<Longrightarrow> partition_of (fst (mint_key e)) = partition_id e"
  by (simp add: mint_key_def Let_def partition_of_compose)

fun mint_many :: "nat \<Rightarrow> engine \<Rightarrow> key list \<times> engine" where
  "mint_many 0 e = ([], e)"
| "mint_many (Suc n) e = (let (k, e1) = mint_key e; (ks, e2) = mint_many n e1 in (k # ks, e2))"

lemma mint_many_keys:
  "partition_id e \<le> MAX_PARTITION_ID \<Longrightarrow> unat (next_local e) + n \<le> unat LOCAL_MASK \<Longrightarrow>
   map unat (fst (mint_many n e)) = map (\<lambda>i. unat (partition_id e) * 2 ^ 51 + unat (next_local e) + i) [1..<n + 1]"
proof (induction n arbitrary: e)
  case (Suc n)
  let ?e1 = "e\<lparr> next_local := next_local e + 1 \<rparr>"
  have "next_local e < LOCAL_MASK" using Suc.prems(2) by (simp add: word_less_nat_alt)
  then have suc: "unat (next_local e + 1) = unat (next_local e) + 1" by (rule word_suc_less)
  then have "next_local e + 1 \<le> LOCAL_MASK" using Suc.prems(2) by (simp add: word_le_nat_alt)
  then have k: "unat (compose_key (partition_id e) (next_local e + 1)) = unat (partition_id e) * 2 ^ 51 + unat (next_local e) + 1"
    using Suc.prems(1) suc by (simp add: unat_compose_key)
  have IH: "map unat (fst (mint_many n ?e1)) = map (\<lambda>i. unat (partition_id e) * 2 ^ 51 + unat (next_local e) + 1 + i) [1..<n + 1]"
    using Suc.IH [of ?e1] Suc.prems suc by simp
  have "[1..<Suc n + 1] = 1 # map Suc [1..<n + 1]"
    by (metis Suc_eq_plus1 map_Suc_upt not_less_eq_eq le_add2 upt_conv_Cons Suc_leI zero_less_Suc One_nat_def less_Suc_eq_le le0 add_Suc)
  then show ?case
    using k IH by (simp add: mint_key_def Let_def case_prod_beta comp_def del: upt_Suc)
qed simp

section \<open>Properties of the engine\<close>

lemma minted_key_split:
  assumes "unat k = unat p * 2 ^ 51 + m" "m < 2 ^ 51" "p \<le> MAX_PARTITION_ID"
  shows "partition_of k = p" "unat (local_of k) = m"
proof -
  have "k = compose_key p (of_nat m)"
    using assms by (simp add: word_unat_eq_iff unat_compose_key word_le_nat_alt LOCAL_MASK_eq mask_eq_exp_minus_1 unat_of_nat)
  then show "partition_of k = p" using assms(3) by (simp add: partition_of_compose)
  with unat_key_split [of k] assms(1) show "unat (local_of k) = m" by simp
qed

text \<open>C22: until the counter of a partition is exhausted, the keys it mints are strictly increasing, so
  distinct, carry the partition's id and lie above every counter value used before.\<close>

theorem minted_keys_increasing:
  assumes "partition_id e \<le> MAX_PARTITION_ID" "unat (next_local e) + n \<le> unat LOCAL_MASK"
  shows "length (fst (mint_many n e)) = n \<and> sorted_wrt (<) (fst (mint_many n e))
     \<and> (\<forall>k \<in> set (fst (mint_many n e)). partition_of k = partition_id e \<and> next_local e < local_of k)"
proof -
  let ?ks = "fst (mint_many n e)"
  let ?f = "\<lambda>i. unat (partition_id e) * 2 ^ 51 + (unat (next_local e) + i)"
  have keys: "map unat ?ks = map ?f [1..<n + 1]" using mint_many_keys [OF assms] by (simp only: add.assoc)
  have len: "length ?ks = n" using arg_cong [OF keys, of length] by simp
  have "sorted_wrt (<) (map ?f [1..<n + 1])" by (simp add: sorted_wrt_map del: upt_Suc)
  then have "sorted_wrt (\<lambda>a b. unat a < unat b) ?ks" by (simp only: keys [symmetric] sorted_wrt_map)
  then have "sorted_wrt (<) ?ks" by (rule sorted_wrt_mono_rel [rotated]) (simp add: word_less_nat_alt)
  moreover have "partition_of k = partition_id e \<and> next_local e < local_of k" if "k \<in> set ?ks" for k
  proof -
    have "unat k \<in> set (map unat ?ks)" using that by simp
    then obtain i where i: "1 \<le> i" "i \<le> n" "unat k = ?f i" unfolding keys by auto
    have "unat LOCAL_MASK < 2 ^ 51" by (simp add: LOCAL_MASK_eq mask_eq_exp_minus_1)
    then have "unat (next_local e) + i < 2 ^ 51" using i(2) assms(2) by simp
    from minted_key_split [OF i(3) this assms(1)] i(1) show ?thesis by (simp add: word_less_nat_alt)
  qed
  ultimately show ?thesis using len by blast
qed

theorem minted_keys_increasing_witness:
  "length (fst (mint_many 3 (engine_of state_new 5 0))) = 3 \<and> sorted_wrt (<) (fst (mint_many 3 (engine_of state_new 5 0)))
   \<and> list_all (\<lambda>k. partition_of k = partition_id (engine_of state_new 5 0) \<and> next_local (engine_of state_new 5 0) < local_of k)
       (fst (mint_many 3 (engine_of state_new 5 0)))"
  unfolding list_all_iff
  by (rule minted_keys_increasing) (simp_all add: engine_of_def MAX_PARTITION_ID_eq LOCAL_MASK_eq mask_eq_exp_minus_1)

lemma emit_logs_event: "set (snd el) \<union> {ev} \<subseteq> set (snd (emit ev el))"
proof -
  define el1 where "el1 = (case terminal_instance_key ev of None \<Rightarrow> el | Some ik \<Rightarrow> cleanup_agent_instances ik el)"
  have "logs el el1" by (simp add: el1_def split: option.split)
  then have pre: "set (snd el) \<union> {ev} \<subseteq> set (snd (emit_plain ev el1))"
    by (cases el1) (auto simp: logs_def emit_plain_def Let_def)
  have "set (snd (emit_plain ev el1)) \<subseteq> set (snd (settle_job_history ik jk l c (emit_plain ev el1)))" for ik jk l c
    using logs_settle_job_history [of "emit_plain ev el1" ik jk l c] by (auto simp: logs_def)
  with pre show ?thesis unfolding emit_def Let_def el1_def [symmetric] by (fastforce split: option.split)
qed

text \<open>C1: event sourcing: whatever events an engine emits, with the agent settlement and clean-up they
  trigger, replaying its log rebuilds its state exactly, and the log contains every event emitted.\<close>

theorem log_determines_state:
  assumes "with_partition pid = Some e0"
  shows "map_option est (replay_partition pid (snd (fold emit evs (e0, [])))) = Some (est (fst (fold emit evs (e0, []))))
     \<and> set evs \<subseteq> set (snd (fold emit evs (e0, [])))"
proof -
  have "logs (e0, []) (fold emit evs (e0, []))" by (rule logs_fold) simp
  then have "map_option est (replay_partition pid (snd (fold emit evs (e0, [])))) = Some (est (fst (fold emit evs (e0, []))))"
    by (intro logs_replay [OF assms]) simp
  moreover have "set (snd el) \<union> set evs \<subseteq> set (snd (fold emit evs el))" for el
  proof (induction evs arbitrary: el)
    case (Cons ev evs)
    from Cons.IH [of "emit ev el"] emit_logs_event [of el ev] show ?case by auto
  qed simp
  ultimately show ?thesis by (metis Un_upper2 order_trans)
qed

theorem log_determines_state_witness:
  "map_option est (replay_partition 3 (snd (fold emit [EJob (JobCanceled 7 1)] (engine_of state_new 3 0, []))))
     = Some (est (fst (fold emit [EJob (JobCanceled 7 1)] (engine_of state_new 3 0, []))))
   \<and> set [EJob (JobCanceled 7 1)] \<subseteq> set (snd (fold emit [EJob (JobCanceled 7 1)] (engine_of state_new 3 0, [])))"
  by (rule log_determines_state) (simp add: with_partition_def MAX_PARTITION_ID_eq mask_eq_exp_minus_1)

text \<open>A correlation key is placed on an existing partition, whatever partition count the host sets.\<close>

theorem subscription_partition_exists:
  "engine_subscription_partition (set_num_partitions n e) correlation_key < num_partitions (set_num_partitions n e)"
proof -
  have "x mod m < m" if "\<not> m \<le> 1" for x m :: u64
  proof -
    have "unat m \<noteq> 0" using that by (simp add: word_le_nat_alt)
    then show ?thesis by (simp add: word_less_nat_alt unat_mod_distrib)
  qed
  moreover have "(0 :: u64) < max n 1" by (simp add: word_less_nat_alt max_def) (simp add: word_le_nat_alt)
  ultimately show ?thesis
    by (simp add: engine_subscription_partition_def subscription_partition_def set_num_partitions_def)
qed

text \<open>Installing a deployment "if newer" is installing it: the two entry points behave alike on
  every batch of events, and no event is skipped for being older.\<close>

theorem install_if_newer_is_install: "install_deployment_if_newer events e = install_deployment events e"
  by (simp add: install_deployment_if_newer_def install_deployment_def)

section \<open>Call-activity ancestry\<close>

inductive parent_chain :: "engine \<Rightarrow> key \<Rightarrow> nat \<Rightarrow> key \<Rightarrow> bool" for e where
  root: "Option.bind (fmlookup (instances (est e)) k) pi_parent_process_instance_key = None \<Longrightarrow> parent_chain e k 0 k"
| child: "Option.bind (fmlookup (instances (est e)) k) pi_parent_process_instance_key = Some p \<Longrightarrow>
    parent_chain e p n r \<Longrightarrow> parent_chain e k (Suc n) r"

lemma root_from_chain: "parent_chain e k n r \<Longrightarrow> n \<le> m \<Longrightarrow> root_from (Suc m) e k = r"
proof (induction arbitrary: m rule: parent_chain.induct)
  case (child k p n r)
  from child.prems obtain m' where m: "m = Suc m'" "n \<le> m'" by (cases m) auto
  with child show ?case by simp
qed simp

text \<open>For every call-activity nesting up to the allowed depth, the root instance is found.\<close>

theorem root_instance_found:
  assumes "parent_chain e k n r" "n \<le> MAX_CALL_ACTIVITY_DEPTH"
  shows "root_process_instance_key e k = r"
  unfolding root_process_instance_key_def by (rule root_from_chain [OF assms])

theorem root_instance_found_witness: "root_process_instance_key (engine_of state_new 0 0) 8 = 8"
  by (rule root_instance_found [of _ _ 0])
    (simp_all add: parent_chain.root engine_of_def state_new_def)

text \<open>The generator looks only at the largest key of an event: after replaying a correlation whose
  message was published on a higher partition, the counter is not advanced past the subscription key
  of this partition in the same event, and the next minted key is that key.\<close>

theorem replay_skips_mixed_event:
  "\<exists>ev e k. replay_partition 1 [ev] = Some e \<and> event_key k ev \<and> partition_of k = 1 \<and> fst (mint_key e) = k"
proof -
  let ?k = "compose_key 1 1" and ?m = "compose_key 2 1"
  let ?ev = "EMessage (MessageCorrelated ?k ?m ?k ?k ''catch'')"
  have b: "(1 :: u64) \<le> MAX_PARTITION_ID" "(2 :: u64) \<le> MAX_PARTITION_ID" "(1 :: u64) \<le> LOCAL_MASK"
    by (simp_all add: MAX_PARTITION_ID_eq LOCAL_MASK_eq mask_eq_exp_minus_1)
  have "?k < ?m" by (simp add: word_less_nat_alt unat_compose_key b)
  then have "max ?k ?m = ?m" "max ?m ?k = ?m" by (auto simp: max_def dest: leD)
  then have "max_key ?ev = ?m" by (simp add: max_key_def event_instance_key_def message_max_keys_def)
  then have "partition_of (max_key ?ev) = 2" using b(2) by (simp add: partition_of_compose)
  then have "replay_partition 1 [?ev] = Some (engine_of (apply_event ?ev state_new) 1 0)"
    using b(1) by (simp add: replay_partition_def advance_local_def)
  moreover have "fst (mint_key (engine_of (apply_event ?ev state_new) 1 0)) = ?k"
    by (simp add: mint_key_def engine_of_def Let_def)
  moreover have "event_key ?k ?ev" "partition_of ?k = 1"
    using b(1) by (simp_all add: event_key_def message_max_keys_def partition_of_compose)
  ultimately show ?thesis by blast
qed

end
