(* ===== verification/Histories.thy ===== *)
theory Histories
  imports Entity_Keys Engine
begin

text \<open>
  Event histories. A state invariant holds initially and is kept by every event that its guard
  admits; the locale \<open>event_invariant\<close> draws the consequences once (for runs of events, for replay
  and for everything an engine emits), and its interpretations are the invariants of the preceding
  theories.
\<close>

section \<open>Admissible histories\<close>

primrec admissible :: "(event \<Rightarrow> state \<Rightarrow> bool) \<Rightarrow> event list \<Rightarrow> state \<Rightarrow> bool" where
  "admissible G [] s = True"
| "admissible G (e # es) s = (G e s \<and> admissible G es (apply_event e s))"

lemma admissible_append:
  "admissible G (xs @ ys) s \<longleftrightarrow> admissible G xs s \<and> admissible G ys (fold apply_event xs s)"
  by (induction xs arbitrary: s) auto

lemma admissible_mono: "(\<And>e s. G e s \<Longrightarrow> H e s) \<Longrightarrow> admissible G es s \<Longrightarrow> admissible H es s"
  by (induction es arbitrary: s) auto

lemma admissible_True [simp]: "admissible (\<lambda>_ _. True) es s"
  by (induction es arbitrary: s) auto

locale event_invariant =
  fixes I :: "state \<Rightarrow> bool"
    and G :: "event \<Rightarrow> state \<Rightarrow> bool"
  assumes initial: "I state_new"
    and kept: "I s \<Longrightarrow> G e s \<Longrightarrow> I (apply_event e s)"
begin

lemma run: "I s \<Longrightarrow> admissible G es s \<Longrightarrow> I (fold apply_event es s)"
  by (induction es arbitrary: s) (auto simp: kept)

lemma replayed:
  "replay_partition pid log = Some e \<Longrightarrow> admissible G log state_new \<Longrightarrow> I (est e)"
  using run [OF initial] by (simp add: replay_partitionE)

lemma logged:
  assumes "logs (e, log) (e', log @ evs)" "I (est e)" "admissible G evs (est e)"
  shows "I (est e')"
  using assms run [of "est e" evs] by (auto simp: logs_def)

end

interpretation job_index: event_invariant job_index_inv fresh_job
proof
  show "job_index_inv state_new" by (simp add: job_index_inv_def state_new_def activatable_set_def)
qed (rule apply_event_index_inv)

interpretation inflight_count: event_invariant inflight_inv instance_guard
proof
  show "inflight_inv state_new" by (simp add: inflight_inv_def state_new_def inflight_def)
qed (rule apply_event_inflight_inv)

interpretation suspension: event_invariant suspension_inv suspension_guard
proof
  show "suspension_inv state_new" by (simp add: suspension_inv_def state_new_def)
qed (rule apply_event_suspension_inv)

interpretation well_formed: event_invariant wf_state "\<lambda>_ _. True"
proof
  show "wf_state state_new" by (simp add: wf_state_def state_new_def)
qed (rule apply_event_wf)

interpretation job_keys: event_invariant job_keys_inv "\<lambda>_ _. True"
proof
  show "job_keys_inv state_new" by (simp add: job_keys_inv_def state_new_def)
qed (rule apply_event_job_keys)

interpretation entity_keys: event_invariant entity_keys_inv "\<lambda>_ _. True"
proof
  show "entity_keys_inv state_new" by (simp add: entity_keys_inv_def state_new_def)
qed (rule apply_event_entity_keys)

interpretation job_owner: event_invariant owner_inv fresh_job
proof
  show "owner_inv state_new" by (simp add: owner_inv_def state_new_def)
qed (rule apply_event_owner)

section \<open>All invariants together\<close>

text \<open>An event is admissible when it creates jobs and instances under new keys and moves an instance's
  lifecycle only along the transitions the commands allow.\<close>

definition event_guard :: "event \<Rightarrow> state \<Rightarrow> bool" where
  "event_guard e s \<longleftrightarrow> fresh_job e s \<and> instance_guard e s \<and> suspension_guard e s"

definition state_inv :: "state \<Rightarrow> bool" where
  "state_inv s \<longleftrightarrow> job_index_inv s \<and> owner_inv s \<and> job_keys_inv s \<and> entity_keys_inv s
     \<and> inflight_inv s \<and> suspension_inv s \<and> wf_state s"

interpretation all_invariants: event_invariant state_inv event_guard
proof
  show "state_inv state_new"
    by (simp add: state_inv_def job_index.initial job_owner.initial job_keys.initial entity_keys.initial
        inflight_count.initial suspension.initial well_formed.initial)
  fix s e
  assume "state_inv s" "event_guard e s"
  then show "state_inv (apply_event e s)"
    by (simp add: state_inv_def event_guard_def job_index.kept job_owner.kept job_keys.kept entity_keys.kept
        inflight_count.kept suspension.kept well_formed.kept)
qed

section \<open>A concrete history\<close>

definition demo_log :: "event list" where
  "demo_log = [EVariable (ProcessInstanceCreated 1 ''order'' fmempty 0 [] None 0 0 None None),
     EJob (JobCreated 4 1 3 ''task'' ''pay'' 0 50 3), EJob (JobCreated 5 1 3 ''task'' ''pay'' 0 70 3),
     EJob (JobActivated 4 1 False ''w'' 100 (Some 0) [] None), EJob (JobLockExpired 4 1),
     ELifecycle (ProcessInstanceSuspended 1 7), ELifecycle (ProcessInstanceResumed 1)]"

lemmas demo_defs = demo_log_def event_guard_def fresh_job_def instance_guard_def suspension_guard_def
  created_job_key_def live_instance_def pi_terminal_def state_new_def apply_ProcessInstanceCreated_def Let_def
  job_arm_defs insert_job_def update_job_def apply_ProcessInstanceSuspended_def apply_ProcessInstanceResumed_def
  on_instance_def

lemma demo_admissible: "admissible event_guard demo_log state_new"
  by (simp add: demo_defs)

section \<open>Properties of every replayed history\<close>

text \<open>C5: replaying an admissible log never fails and yields a state whose activatable index holds
  exactly the created jobs of each type, in activation order, and whose activated index holds exactly
  the locked ones.\<close>

theorem replayed_job_index:
  assumes "pid \<le> MAX_PARTITION_ID" "admissible fresh_job log state_new"
  shows "\<exists>e. replay_partition pid log = Some e \<and> job_index_inv (est e)"
  using assms job_index.replayed [of pid log]
  by (cases "foldl (replay_step pid) (state_new, 0) log") (simp add: replay_partition_def)

theorem replayed_job_index_witness: "\<exists>e. replay_partition 0 demo_log = Some e \<and> job_index_inv (est e)"
  by (rule replayed_job_index)
    (simp, rule admissible_mono [OF _ demo_admissible], simp add: event_guard_def)

text \<open>After any admissible history, \<open>live_job_count\<close> is the number of jobs that are created or
  activated.\<close>

theorem replayed_live_job_count:
  assumes "pid \<le> MAX_PARTITION_ID" "admissible fresh_job log state_new"
  shows "map_option (\<lambda>e. live_job_count (est e)) (replay_partition pid log)
     = Some (fmcount job_live (jobs (fold apply_event log state_new)))"
proof -
  have "job_index_inv (fold apply_event log state_new)"
    using job_index.run [OF job_index.initial assms(2)] .
  from live_job_count_live [OF this] show ?thesis
    using assms(1) replay_fold [of pid state_new 0 log]
    by (cases "foldl (replay_step pid) (state_new, 0) log") (simp add: replay_partition_def engine_of_def)
qed

theorem replayed_live_job_count_witness:
  "map_option (\<lambda>e. live_job_count (est e)) (replay_partition 0 demo_log)
     = Some (fmcount job_live (jobs (fold apply_event demo_log state_new)))"
  by (rule replayed_live_job_count)
    (simp, rule admissible_mono [OF _ demo_admissible], simp add: event_guard_def)

text \<open>C31: the in-flight counter of every process definition is the number of its instances that are
  not completed or terminated, after every history in which instances are created under new keys and
  only live instances are suspended, resumed, marked terminating or migrated.\<close>

theorem replayed_inflight_count:
  assumes "pid \<le> MAX_PARTITION_ID" "admissible instance_guard log state_new"
  shows "\<exists>e. replay_partition pid log = Some e
     \<and> inflight (est e) process = fmcount (live_instance_of process) (instances (est e))"
proof -
  obtain e where e: "replay_partition pid log = Some e"
    using assms(1) by (cases "foldl (replay_step pid) (state_new, 0) log") (simp add: replay_partition_def)
  from inflight_count.replayed [OF e assms(2)] e show ?thesis by (auto simp: inflight_inv_def)
qed

theorem replayed_inflight_count_witness:
  "\<exists>e. replay_partition 0 demo_log = Some e
     \<and> inflight (est e) ''order'' = fmcount (live_instance_of ''order'') (instances (est e))"
  by (rule replayed_inflight_count)
    (simp, rule admissible_mono [OF _ demo_admissible], simp add: event_guard_def)

text \<open>C32: whatever the log holds, every waiting join of every instance keeps its tokens in a sorted
  vector without zero counts and is never empty, every agent's turn log is sorted, and every entity
  is stored under its own key.\<close>

theorem replayed_well_formed:
  assumes "replay_partition pid log = Some e"
  shows "wf_state (est e) \<and> entity_keys_inv (est e) \<and> job_keys_inv (est e)"
  using well_formed.replayed [OF assms] entity_keys.replayed [OF assms] job_keys.replayed [OF assms] by simp

theorem replayed_well_formed_witness:
  "wf_state (est (the (replay_partition 0 demo_log))) \<and> entity_keys_inv (est (the (replay_partition 0 demo_log)))
   \<and> job_keys_inv (est (the (replay_partition 0 demo_log)))"
proof (rule replayed_well_formed)
  show "replay_partition 0 demo_log = Some (the (replay_partition 0 demo_log))"
    by (cases "foldl (replay_step 0) (state_new, 0) demo_log") (simp add: replay_partition_def)
qed

text \<open>C4: all invariants hold together after every admissible history: the job indices, the reverse
  index from instances to their jobs, the keys of entities, the in-flight counts, the record of
  suspension (an instance has a suspension time exactly while it is suspended) and the well-formed
  joins.\<close>

theorem replayed_invariants:
  assumes "replay_partition pid log = Some e" "admissible event_guard log state_new"
  shows "state_inv (est e)"
  using all_invariants.replayed [OF assms] .

theorem replayed_invariants_witness: "state_inv (est (the (replay_partition 0 demo_log)))"
proof (rule replayed_invariants [OF _ demo_admissible])
  show "replay_partition 0 demo_log = Some (the (replay_partition 0 demo_log))"
    by (cases "foldl (replay_step 0) (state_new, 0) demo_log") (simp add: replay_partition_def)
qed

end
