(* ===== verification/Fresh_Keys.thy ===== *)
theory Fresh_Keys
  imports Histories
begin

text \<open>
  The key generator after a recovery, seen from the state: which keys the state uses, that an event makes the state use no
  key but those that \<open>max_key\<close> looks at, and that the generator is past all of them.
\<close>

section \<open>The keys a state uses\<close>

definition entity_keys_of :: "state \<Rightarrow> key set" where
  "entity_keys_of s = fset (fmdom (process_versions s)) \<union> fset (fmdom (decision_requirements_versions s))
     \<union> fset (fmdom (decision_versions s)) \<union> fset (fmdom (form_versions s)) \<union> fset (fmdom (resource_versions s))
     \<union> fset (fmdom (instances s)) \<union> fset (fmdom (jobs s)) \<union> fset (fmdom (user_tasks s)) \<union> fset (fmdom (incidents s))
     \<union> fset (fmdom (timers s)) \<union> fset (fmdom (start_timers s)) \<union> fset (fmdom (message_subscriptions s))
     \<union> fset (fmdom (signal_subscriptions s)) \<union> fset (fmdom (conditional_subscriptions s))"

definition inner_keys_of :: "process_instance \<Rightarrow> key set" where
  "inner_keys_of i = fset (fmdom (pi_active i)) \<union> fset (fmdom (pi_agent_instances i))"

definition used_keys :: "state \<Rightarrow> key set" where
  "used_keys s = entity_keys_of s \<union> (\<Union>i \<in> {i. \<exists>ik. fmlookup (instances s) ik = Some i}. inner_keys_of i)"

section \<open>What an event adds to them\<close>

lemma fmdom_foldl_get_mut: "fmdom (foldl (\<lambda>m k. get_mut k f m) m ks) = fmdom m"
  by (induction ks arbitrary: m) auto

lemma used_keys_frame: "entity_keys_of s' = entity_keys_of s \<Longrightarrow> instances s' = instances s \<Longrightarrow> used_keys s' = used_keys s"
  by (simp add: used_keys_def)

lemma used_keys_entities:
  "instances s' = instances s \<Longrightarrow> entity_keys_of s' \<subseteq> entity_keys_of s \<union> K \<Longrightarrow> used_keys s' \<subseteq> used_keys s \<union> K"
  by (auto simp: used_keys_def)

lemma used_keys_on_instance:
  assumes "\<And>i. inner_keys_of (f i) \<subseteq> inner_keys_of i \<union> K"
  shows "used_keys (on_instance ik f s) \<subseteq> used_keys s \<union> K"
proof -
  have "entity_keys_of (on_instance ik f s) = entity_keys_of s" by (simp add: entity_keys_of_def on_instance_def)
  moreover have "\<exists>i. (\<exists>ik. fmlookup (instances s) ik = Some i) \<and> inner_keys_of i' \<subseteq> inner_keys_of i \<union> K"
    if "fmlookup (instances (on_instance ik f s)) ik' = Some i'" for ik' i'
    using that assms by (auto simp: on_instance_def split: if_splits)
  ultimately show ?thesis by (fastforce simp: used_keys_def)
qed

lemma used_keys_on_instanceI:
  "(\<And>i. inner_keys_of (f i) \<subseteq> inner_keys_of i \<union> K) \<Longrightarrow> used_keys s \<subseteq> K \<Longrightarrow> used_keys (on_instance ik f s) \<subseteq> K"
  using used_keys_on_instance [of f K ik s] by blast

lemma used_keys_decrement [simp]: "used_keys (decrement_inflight_by_process p s) = used_keys s"
  by (rule used_keys_frame) (simp_all add: decrement_inflight_by_process_def entity_keys_of_def split: option.split)

lemma entity_keys_of_resync [simp]: "entity_keys_of (resync_job_index k s) = entity_keys_of s"
  by (simp add: resync_job_index_def Let_def entity_keys_of_def split: option.split)

lemma used_keys_resync [simp]: "used_keys (resync_job_index k s) = used_keys s"
  by (rule used_keys_frame [OF entity_keys_of_resync]) (simp add: resync_job_index_def Let_def split: option.split)

lemma used_keys_jobs [simp]: "used_keys (s\<lparr> jobs := get_mut k f (jobs s) \<rparr>) = used_keys s"
  by (rule used_keys_frame) (simp_all add: entity_keys_of_def)

lemma used_keys_update_job [simp]: "used_keys (update_job k f s) = used_keys s"
  by (rule used_keys_frame) (simp_all add: update_job_def, simp add: entity_keys_of_def)

lemma used_keys_job: "used_keys (apply_job e s) \<subseteq> used_keys s \<union> set (job_max_keys e)"
proof -
  have "used_keys (insert_job j s) \<subseteq> used_keys s \<union> {jb_key j}" for j
  proof (rule used_keys_entities)
    have "entity_keys_of (t\<lparr> jobs_by_instance := m \<rparr>) = entity_keys_of t" for t m by (simp add: entity_keys_of_def)
    moreover have "entity_keys_of (s\<lparr> jobs := fmupd (jb_key j) j (jobs s) \<rparr>) \<subseteq> entity_keys_of s \<union> {jb_key j}"
      by (auto simp: entity_keys_of_def)
    ultimately show "entity_keys_of (insert_job j s) \<subseteq> entity_keys_of s \<union> {jb_key j}" by (simp add: insert_job_def Let_def)
  qed (simp add: insert_job_def Let_def)
  note ins = order_trans [OF this]
  show ?thesis by (cases e) (auto simp: job_arm_defs job_max_keys_def intro!: ins)
qed

lemma used_keys_incident: "used_keys (apply_incident e s) \<subseteq> used_keys s \<union> set (incident_max_keys e)"
proof (cases e)
  case (IncidentRaised ick ik eik eid kind redrive reason jk created)
  then show ?thesis
    by (auto simp: incident_arm_defs incident_max_keys_def used_keys_def entity_keys_of_def inner_keys_of_def split: if_splits)
next
  case (IncidentResolved ick ik jk resolved_at opref)
  have "used_keys (s\<lparr> incidents := get_mut ick f (incidents s), instances := get_mut ik g (instances s) \<rparr>) \<subseteq> used_keys s"
    if "\<And>i. inner_keys_of (g i) = inner_keys_of i" for f g
    using that by (auto simp: used_keys_def entity_keys_of_def split: if_splits)
  note keep = this
  show ?thesis unfolding IncidentResolved
    by (rule le_supI1) (simp add: incident_arm_defs Let_def keep inner_keys_of_def split: option.split)
qed

lemma used_keys_waiting:
  "used_keys (apply_timer t s) \<subseteq> used_keys s \<union> set (timer_max_keys t)"
  "used_keys (apply_user_task u s) \<subseteq> used_keys s \<union> set (user_task_max_keys u)"
  "used_keys (apply_message m s) \<subseteq> used_keys s \<union> set (message_max_keys m)"
  "used_keys (apply_signal g s) \<subseteq> used_keys s \<union> set (signal_max_keys g)"
  subgoal by (rule used_keys_entities; cases t) (auto simp: waiting_arm_defs timer_max_keys_def entity_keys_of_def)
  subgoal by (rule used_keys_entities; cases u) (auto simp: waiting_arm_defs user_task_max_keys_def entity_keys_of_def)
  subgoal by (rule used_keys_entities; cases m) (auto simp: waiting_arm_defs message_max_keys_def entity_keys_of_def)
  subgoal by (rule used_keys_entities; cases g) (auto simp: waiting_arm_defs signal_max_keys_def entity_keys_of_def)
  done

lemma used_keys_deploy:
  "used_keys (apply_process p s) \<subseteq> used_keys s \<union> set (process_max_keys p)"
  "used_keys (apply_resource r s) \<subseteq> used_keys s \<union> set (resource_max_keys r)"
  subgoal by (rule used_keys_entities; cases p) (auto simp: deploy_arm_defs process_max_keys_def entity_keys_of_def)
  subgoal by (rule used_keys_entities; cases r)
      (auto simp: deploy_arm_defs resource_max_keys_def entity_keys_of_def split: option.split)
  done

lemma used_keys_inner:
  "used_keys (apply_element e s) \<subseteq> used_keys s \<union> set (element_max_keys e)"
  "used_keys (apply_compensation c s) \<subseteq> used_keys s \<union> set (compensation_max_keys c)"
  "used_keys (apply_multi_instance m s) \<subseteq> used_keys s \<union> set (multi_instance_max_keys m)"
  "used_keys (apply_adhoc h s) \<subseteq> used_keys s \<union> set (adhoc_max_keys h)"
  "used_keys (apply_agent a s) \<subseteq> used_keys s \<union> set (agent_max_keys a)"
  subgoal by (cases e; simp add: element_arm_defs element_max_keys_def subset_insertI split: option.split;
      (intro conjI impI allI used_keys_on_instanceI)?; auto simp: inner_keys_of_def split: option.splits)
  subgoal by (cases c; simp add: element_arm_defs subset_insertI;
      (intro conjI impI allI used_keys_on_instanceI)?; auto simp: inner_keys_of_def)
  subgoal by (cases m; simp add: element_arm_defs subset_insertI;
      (intro conjI impI allI used_keys_on_instanceI)?; auto simp: inner_keys_of_def)
  subgoal by (cases h; simp add: element_arm_defs Let_def subset_insertI;
      (intro conjI impI allI used_keys_on_instanceI)?; auto simp: inner_keys_of_def)
  subgoal by (cases a; simp add: instance_arm_defs agent_max_keys_def subset_insertI;
      (intro conjI impI allI used_keys_on_instanceI)?; auto simp: inner_keys_of_def)
  done

lemma used_keys_lifecycle: "used_keys (apply_lifecycle e s) \<subseteq> used_keys s"
proof -
  have on: "used_keys (on_instance ik f t) \<subseteq> used_keys t" if "\<And>i. inner_keys_of (f i) \<subseteq> inner_keys_of i" for ik f t
    using used_keys_on_instance [of f "{}" ik t] that by simp
  have resolved: "used_keys (resolve_incidents ik t) = used_keys t" for ik t
    by (rule used_keys_frame) (simp_all add: resolve_incidents_def entity_keys_of_def fmdom_foldl_get_mut split: option.split)
  have attached: "used_keys (migrate_attached ik r t) = used_keys t" for ik r t
    by (rule used_keys_frame) (simp_all add: migrate_attached_def entity_keys_of_def)
  have "used_keys (t\<lparr> inflight_by_process := m \<rparr>) = used_keys t" for t m
    by (rule used_keys_frame) (simp_all add: entity_keys_of_def)
  then have inflight: "used_keys (migrate_inflight p q t) = used_keys t" for p q t by (simp add: migrate_inflight_def Let_def)
  show ?thesis
    by (cases e) (simp_all add: apply_ProcessInstanceCompleted_def apply_ProcessInstanceTerminated_def
        apply_ProcessInstanceTerminating_def apply_ProcessInstanceSuspended_def apply_ProcessInstanceResumed_def
        apply_ProcessInstanceMigrated_def Let_def resolved attached inflight on inner_keys_of_def
        clear_completed_def clear_terminated_def migrate_instance_def order_trans [OF on])
qed

lemma used_keys_variable: "used_keys (apply_variable e s) \<subseteq> used_keys s \<union> {k. event_instance_key (EVariable e) = Some k}"
proof (cases e)
  case (ProcessInstanceCreated ik pid vs created tags business pdk parent parent_eik)
  then show ?thesis
    by (auto simp: apply_ProcessInstanceCreated_def Let_def used_keys_def entity_keys_of_def inner_keys_of_def event_instance_key_def
        split: if_splits)
qed (simp add: instance_arm_defs; rule used_keys_on_instanceI; auto simp: inner_keys_of_def)+

lemma used_keys_event: "used_keys (apply_event ev s) \<subseteq> used_keys s \<union> {k. event_key k ev}"
proof -
  have widen: "A \<subseteq> used_keys s \<union> set (max_keys ev) \<Longrightarrow> A \<subseteq> used_keys s \<union> {k. event_key k ev}" for A
    by (auto simp: event_key_def)
  show ?thesis
  proof (cases ev)
    case (EVariable e)
    then show ?thesis using used_keys_variable [of e s] by (auto simp: event_key_def)
  next
    case (ELifecycle e)
    then show ?thesis using used_keys_lifecycle [of e s] by auto
  qed (rule widen; simp add: used_keys_job used_keys_incident used_keys_waiting used_keys_deploy used_keys_inner)+
qed

lemma used_keys_run: "k \<in> used_keys (fold apply_event evs s) \<Longrightarrow> k \<in> used_keys s \<or> (\<exists>ev \<in> set evs. event_key k ev)"
proof (induction evs arbitrary: s)
  case (Cons ev evs)
  then show ?case using used_keys_event [of ev s] by fastforce
qed simp

section \<open>The generator is past them\<close>

text \<open>A log in which an event with a key of the partition never has a larger key of another partition.\<close>

definition partition_pure :: "u64 \<Rightarrow> event list \<Rightarrow> bool" where
  "partition_pure pid log \<longleftrightarrow> (\<forall>ev \<in> set log. \<forall>k. event_key k ev \<and> partition_of k = pid \<longrightarrow> partition_of (max_key ev) = pid)"

text \<open>C23: after a recovery no key is minted twice. Every key of the partition under which the state holds something, now or
  after any prefix of the replayed log, so also the keys of what has ended since, is smaller than the next key the engine mints:
  keys of deployed definitions and resources, instances, element instances, jobs, user tasks, incidents, timers, subscriptions
  and agent instances. The log must be one in which an event that carries a key of the partition carries no larger key of
  another partition.\<close>

theorem replay_mints_fresh:
  assumes "replay_partition pid (log1 @ log2) = Some e" "replay_partition pid log1 = Some e1"
    and "partition_pure pid (log1 @ log2)" "next_local e < LOCAL_MASK"
  shows "(\<forall>k \<in> used_keys (est e1). partition_of k = pid \<longrightarrow> k < fst (mint_key e))
    \<and> fst (mint_key e) \<notin> used_keys (est e1) \<and> fst (mint_key e) \<notin> used_keys (est e)"
proof -
  note r = replay_partitionE [OF assms(1)] and r1 = replay_partitionE [OF assms(2)]
  have below: "k < fst (mint_key e)" if k: "k \<in> used_keys (fold apply_event log state_new)" "partition_of k = pid"
    "set log \<subseteq> set (log1 @ log2)" for k log
  proof -
    have "used_keys state_new = {}" by (simp add: used_keys_def entity_keys_of_def state_new_def)
    with used_keys_run [OF k(1)] obtain ev where ev: "ev \<in> set (log1 @ log2)" "event_key k ev" using k(3) by auto
    with assms(3) k(2) have own: "partition_of (max_key ev) = pid" by (auto simp: partition_pure_def)
    have "max_key ev < fst (mint_key e)"
    proof (rule mint_above)
      show "local_of (max_key ev) \<le> next_local e"
        using replay_local_own [OF ev(1) own, of state_new 0] r(3) by simp
    qed (use r own assms(4) in simp_all)
    with event_key_le [OF ev(2)] show ?thesis by (rule le_less_trans)
  qed
  have "partition_of (fst (mint_key e)) = pid" using r(1,2) by (simp add: mint_key_def Let_def partition_of_compose)
  with below [of "fst (mint_key e)"] have fresh: "fst (mint_key e) \<notin> used_keys (fold apply_event log state_new)"
    if "set log \<subseteq> set (log1 @ log2)" for log using that by blast
  show ?thesis using below [of _ log1] fresh [of log1] fresh [of "log1 @ log2"] unfolding r(4) r1(4) by simp
qed

theorem replay_mints_fresh_witness:
  "\<exists>e e1. replay_partition 0 [ETimer (TimerCreated 7 1 3 ''t'' 0 TimerIntermediateCatch), ETimer (TimerTriggered 7 1 3 ''t'')] = Some e
     \<and> replay_partition 0 [ETimer (TimerCreated 7 1 3 ''t'' 0 TimerIntermediateCatch)] = Some e1
     \<and> 7 \<in> used_keys (est e1) \<and> 7 < fst (mint_key e)"
proof -
  let ?c = "ETimer (TimerCreated 7 1 3 ''t'' 0 TimerIntermediateCatch)" and ?t = "ETimer (TimerTriggered 7 1 3 ''t'')"
  have mk: "max_key ?c = 7" "max_key ?t = 7" by (simp_all add: max_key_def event_instance_key_def timer_max_keys_def)
  have small: "partition_of 7 = 0" "local_of 7 = 7"
    using partition_of_compose [of 0 7] local_of_compose [of 7 0]
    by (simp_all add: compose_key_def LOCAL_MASK_eq mask_eq_exp_minus_1)
  obtain e e1 where run: "replay_partition 0 ([?c] @ [?t]) = Some e" "replay_partition 0 [?c] = Some e1"
    by (simp add: replay_partition_def)
  have "7 \<in> used_keys (est e1)" using replay_partitionE(4) [OF run(2)] by (simp add: used_keys_def entity_keys_of_def waiting_arm_defs)
  moreover have "partition_pure 0 ([?c] @ [?t])" by (simp add: partition_pure_def mk small)
  moreover have "next_local e < LOCAL_MASK"
    using replay_partitionE(3) [OF run(1)] by (simp add: advance_local_def mk small LOCAL_MASK_eq mask_eq_exp_minus_1)
  ultimately show ?thesis using replay_mints_fresh [OF run] run small by auto
qed

end
