(* ===== verification/Jobs.thy ===== *)
theory Jobs
  imports Engine
begin

text \<open>
  The job commands of the engine (\<open>engine/mod.rs\<close>, \<open>engine/api.rs\<close>): selecting and activating jobs,
  expiring their locks, lease validation, failing and updating jobs, and the recovery of leases from
  a digest. A command returns \<open>Inl\<close> with the error, or \<open>Inr\<close> with the engine and the log.
\<close>

section \<open>Errors and queries\<close>

definition process_of_instance :: "engine \<Rightarrow> key \<Rightarrow> process_definition option" where
  "process_of_instance e ik =
     map_option dp_definition (Option.bind (fmlookup (instances (est e)) ik) (definition_for (est e)))"

definition element_kind_of :: "engine \<Rightarrow> key \<Rightarrow> elementid \<Rightarrow> element_kind option" where
  "element_kind_of e ik eid =
     map_option e_kind (Option.bind (process_of_instance e ik) (\<lambda>p. pd_element p eid))"

definition instance_is_suspended :: "engine \<Rightarrow> key \<Rightarrow> bool" where
  "instance_is_suspended e ik \<longleftrightarrow> map_option pi_state (fmlookup (instances (est e)) ik) = Some PISuspended"

definition agent_type_for_element :: "engine \<Rightarrow> key \<Rightarrow> elementid \<Rightarrow> key \<Rightarrow> engine_error + agent_type" where
  "agent_type_for_element e ik eid eik = (case element_kind_of e ik eid of
     Some (EK_ServiceTask _ _ (Some agent) _ _) \<Rightarrow> Inr agent
   | Some (EK_ServiceTask _ _ None _ _) \<Rightarrow> Inl (AgentInstanceMissingAgentDefinition eik)
   | _ \<Rightarrow> Inl (AgentInstanceElementNotEligible eik))"

definition is_ok :: "'e + 'a \<Rightarrow> bool" where
  "is_ok r = (case r of Inl _ \<Rightarrow> False | Inr _ \<Rightarrow> True)"

definition job_supports_agent_instance :: "engine \<Rightarrow> key \<Rightarrow> bool" where
  "job_supports_agent_instance e jk = (case fmlookup (jobs (est e)) jk of
     None \<Rightarrow> False
   | Some j \<Rightarrow> is_ok (agent_type_for_element e (jb_instance_key j) (jb_element_id j) (jb_element_instance_key j)))"

definition job_requires_durable_activation :: "engine \<Rightarrow> key \<Rightarrow> bool" where
  "job_requires_durable_activation e jk = (case fmlookup (jobs (est e)) jk of
     None \<Rightarrow> False
   | Some j \<Rightarrow> jb_durable_activation j \<or> jb_lease_token j \<noteq> None \<or> job_supports_agent_instance e jk)"

definition job_activatable :: "job \<Rightarrow> u64 \<Rightarrow> bool" where
  "job_activatable j t = (case jb_state j of
     JCompleted \<Rightarrow> False | JFailed \<Rightarrow> False | JErrored \<Rightarrow> False | JCanceled \<Rightarrow> False
   | JCreated \<Rightarrow> True
   | JActivated \<Rightarrow> (case jb_deadline j of None \<Rightarrow> False | Some d \<Rightarrow> d \<le> t))"

definition pending_jobs :: "engine \<Rightarrow> job list" where
  "pending_jobs e = filter (\<lambda>j. jb_state j = JCreated) (map snd (sorted_list_of_fmap (jobs (est e))))"

definition active_incidents :: "engine \<Rightarrow> incident list" where
  "active_incidents e = filter (\<lambda>i. inc_state i = IncActive) (map snd (sorted_list_of_fmap (incidents (est e))))"

definition activated_leases :: "engine \<Rightarrow> (key \<times> u64) list" where
  "activated_leases e =
     List.map_filter (\<lambda>j. map_option (\<lambda>d. (jb_key j, d)) (jb_deadline j))
       (filter (\<lambda>j. jb_state j = JActivated \<and> \<not> job_requires_durable_activation e (jb_key j))
          (map snd (sorted_list_of_fmap (jobs (est e)))))"

section \<open>Selection and activation\<close>

definition eligible :: "engine \<Rightarrow> u64 \<Rightarrow> bool \<Rightarrow> key \<Rightarrow> bool" where
  "eligible e t with_lease k = (case fmlookup (jobs (est e)) k of
     None \<Rightarrow> False
   | Some j \<Rightarrow> job_activatable j t \<and> (with_lease \<or> jb_lease_token j = None)
               \<and> \<not> instance_is_suspended e (jb_instance_key j))"

definition select_activatable_job_keys :: "engine \<Rightarrow> string \<Rightarrow> nat \<Rightarrow> u64 \<Rightarrow> bool \<Rightarrow> key list" where
  "select_activatable_job_keys e job_type max_jobs t with_lease =
     take max_jobs (filter (eligible e t with_lease)
       (map snd (case fmlookup (activatable_jobs (est e)) job_type of
          None \<Rightarrow> [] | Some ks \<Rightarrow> sorted_list_of_fset ks)))"

record activation_plan =
  ap_job_keys :: "key list"
  ap_worker :: string
  ap_timeout :: u64
  ap_now :: u64
  ap_fetch_variables :: "string list"
  ap_with_lease :: bool
  ap_durable :: bool

definition plan_accepts :: "activation_plan \<Rightarrow> engine \<Rightarrow> key \<Rightarrow> bool" where
  "plan_accepts plan e jk = (case fmlookup (jobs (est e)) jk of
     None \<Rightarrow> False
   | Some j \<Rightarrow>
       (jb_state j = JCreated \<or> jb_state j = JActivated \<and> \<not> job_requires_durable_activation e jk)
     \<and> (ap_with_lease plan \<or> jb_lease_token j = None)
     \<and> \<not> instance_is_suspended e (jb_instance_key j))"

definition activate_one :: "activation_plan \<Rightarrow> key \<Rightarrow> logged \<Rightarrow> logged" where
  "activate_one plan jk el =
     (let e = fst el;
          ik = (case fmlookup (jobs (est e)) jk of None \<Rightarrow> 0 | Some j \<Rightarrow> jb_instance_key j);
          (lease_token, e1) = (if ap_with_lease plan then (let (k, e') = mint_key e in (Some (issue k), e')) else (None, e))
      in emit (EJob (JobActivated jk ik (ap_durable plan) (ap_worker plan)
           (saturating_add (ap_now plan) (ap_timeout plan)) (Some (ap_now plan)) (ap_fetch_variables plan) lease_token))
           (e1, snd el))"

fun apply_plan_keys :: "activation_plan \<Rightarrow> key fset \<Rightarrow> key list \<Rightarrow> logged \<Rightarrow> logged" where
  "apply_plan_keys plan seen [] el = el"
| "apply_plan_keys plan seen (jk # jks) el =
     (if jk |\<in>| seen then apply_plan_keys plan seen jks el
      else if plan_accepts plan (fst el) jk
        then apply_plan_keys plan (finsert jk seen) jks (activate_one plan jk el)
        else apply_plan_keys plan (finsert jk seen) jks el)"

definition apply_activation_plan :: "activation_plan \<Rightarrow> logged \<Rightarrow> logged" where
  "apply_activation_plan plan el = apply_plan_keys plan {||} (ap_job_keys plan) el"

definition begin_command :: "u64 \<Rightarrow> engine \<Rightarrow> engine" where
  "begin_command t e = e\<lparr> now := t, torn_down_scopes := {||} \<rparr>"

definition activate_jobs_command ::
  "string \<Rightarrow> string \<Rightarrow> nat \<Rightarrow> u64 \<Rightarrow> u64 \<Rightarrow> string list \<Rightarrow> bool \<Rightarrow> engine \<Rightarrow> logged" where
  "activate_jobs_command job_type worker max_jobs timeout t fetch with_lease e =
     apply_activation_plan \<lparr> ap_job_keys = select_activatable_job_keys e job_type max_jobs t with_lease,
       ap_worker = worker, ap_timeout = timeout, ap_now = t, ap_fetch_variables = fetch,
       ap_with_lease = with_lease, ap_durable = False \<rparr> (e, [])"

definition activate_jobs_by_key_command ::
  "key list \<Rightarrow> string \<Rightarrow> u64 \<Rightarrow> u64 \<Rightarrow> string list \<Rightarrow> bool \<Rightarrow> engine \<Rightarrow> logged" where
  "activate_jobs_by_key_command job_keys worker timeout t fetch with_lease e =
     apply_activation_plan \<lparr> ap_job_keys = job_keys, ap_worker = worker, ap_timeout = timeout, ap_now = t,
       ap_fetch_variables = fetch, ap_with_lease = with_lease, ap_durable = True \<rparr> (e, [])"

section \<open>Lock expiry and lease recovery\<close>

definition lock_expired :: "engine \<Rightarrow> u64 \<Rightarrow> bool option \<Rightarrow> key \<Rightarrow> bool" where
  "lock_expired e t durable k = (case fmlookup (jobs (est e)) k of
     None \<Rightarrow> False
   | Some j \<Rightarrow> jb_state j = JActivated
             \<and> (case jb_deadline j of None \<Rightarrow> False | Some d \<Rightarrow> d \<le> t)
             \<and> (case durable of None \<Rightarrow> True | Some d \<Rightarrow> d = job_requires_durable_activation e k))"

definition expired_locks :: "engine \<Rightarrow> u64 \<Rightarrow> bool option \<Rightarrow> (key \<times> key) list" where
  "expired_locks e t durable =
     sort (List.map_filter (\<lambda>k. if lock_expired e t durable k
         then map_option (\<lambda>j. (jb_key j, jb_instance_key j)) (fmlookup (jobs (est e)) k) else None)
       (sorted_list_of_fset (activated_jobs (est e))))"

definition expire_job_locks :: "u64 \<Rightarrow> bool option \<Rightarrow> logged \<Rightarrow> logged" where
  "expire_job_locks t durable el =
     fold (\<lambda>(jk, ik). emit (EJob (JobLockExpired jk ik))) (expired_locks (fst el) t durable) el"

definition LEASE_DIGEST_WORKER :: string where
  "LEASE_DIGEST_WORKER = ''__lease_digest__''"

definition recover_lease :: "key \<Rightarrow> u64 \<Rightarrow> u64 \<Rightarrow> engine \<Rightarrow> bool \<times> engine" where
  "recover_lease jk deadline t e =
     (if job_requires_durable_activation e jk then (False, e)
      else case fmlookup (jobs (est e)) jk of
        None \<Rightarrow> (False, e)
      | Some j \<Rightarrow>
          (if jb_state j = JCreated \<and> jb_lease_token j = None \<and> t < deadline
           then (True, e\<lparr> est := (est e)\<lparr>
                   jobs := fmupd jk (j\<lparr> jb_state := JActivated, jb_worker := Some LEASE_DIGEST_WORKER,
                     jb_deadline := Some deadline, jb_activated := True \<rparr>) (jobs (est e)),
                   activated_jobs := finsert jk (activated_jobs (est e)) \<rparr> \<rparr>)
           else (False, e)))"

section \<open>Lease validation, failure and updates\<close>

definition nonempty :: "string option \<Rightarrow> string option" where
  "nonempty t = (case t of None \<Rightarrow> None | Some s \<Rightarrow> if s = [] then None else Some s)"

definition validate_job_lease :: "job \<Rightarrow> string option \<Rightarrow> bool \<Rightarrow> engine_error option" where
  "validate_job_lease j supplied required = (case nonempty (jb_lease_token j) of
     None \<Rightarrow> None
   | Some stored \<Rightarrow>
       (if nonempty supplied = None \<and> \<not> required then None
        else if nonempty supplied \<noteq> Some stored then Some (JobLeaseMismatch (jb_key j))
        else None))"

text \<open>The guards shared by completing and failing a job, in the order of the source.\<close>

definition worker_command_guard :: "engine \<Rightarrow> key \<Rightarrow> string option \<Rightarrow> engine_error + job" where
  "worker_command_guard e jk lease_token = (case fmlookup (jobs (est e)) jk of
     None \<Rightarrow> Inl (JobNotFound jk)
   | Some j \<Rightarrow>
       (if jb_state j \<in> {JCompleted, JFailed, JErrored, JCanceled} then Inl (JobNotActive jk)
        else case validate_job_lease j lease_token True of
          Some err \<Rightarrow> Inl err
        | None \<Rightarrow> if \<not> lenient_completion e \<and> \<not> jb_activated j then Inl (JobNotActivated jk) else Inr j))"

definition fail_job :: "key \<Rightarrow> string option \<Rightarrow> int \<Rightarrow> string \<Rightarrow> engine \<Rightarrow> engine_error + logged" where
  "fail_job jk lease_token retries error_message e = (case worker_command_guard e jk lease_token of
     Inl err \<Rightarrow> Inl err
   | Inr j \<Rightarrow>
       (let retries = max 0 retries;
            (e1, log1) = emit (EJob (JobFailed jk (jb_instance_key j) retries (attribution_worker j))) (e, [])
        in if retries = 0
           then (let (incident_key, e2) = mint_key e1
                 in Inr (emit (EIncident (IncidentRaised incident_key (jb_instance_key j) (jb_element_instance_key j)
                      (jb_element_id j) JobNoRetries None error_message (Some jk) (now e2))) (e2, log1)))
           else Inr (e1, log1)))"

definition saturating_add_signed :: "u64 \<Rightarrow> int \<Rightarrow> u64" where
  "saturating_add_signed a d = word_of_int (max 0 (min (2 ^ 64 - 1) (uint a + d)))"

definition update_job_properties ::
  "key \<Rightarrow> int option \<Rightarrow> int option \<Rightarrow> int option \<Rightarrow> string option \<Rightarrow> logged \<Rightarrow> engine_error + logged" where
  "update_job_properties jk retries timeout opref lease_token el =
     (case fmlookup (jobs (est (fst el))) jk of
        None \<Rightarrow> Inl (JobNotFound jk)
      | Some j \<Rightarrow>
          (if jb_state j \<in> {JCompleted, JCanceled} then Inl (JobNotActive jk)
           else case validate_job_lease j lease_token False of
             Some err \<Rightarrow> Inl err
           | None \<Rightarrow>
               (if (case retries of None \<Rightarrow> False | Some v \<Rightarrow> v < 1)
                  then Inl (JobUpdateInvalid jk ''retries must be at least 1'')
                else if timeout \<noteq> None \<and> (jb_state j \<noteq> JActivated \<or> jb_deadline j = None)
                  then Inl (JobUpdateInvalid jk ''timeout requires an active job deadline'')
                else
                  (let el1 = (case retries of None \<Rightarrow> el
                          | Some r \<Rightarrow> emit (EJob (JobRetriesUpdated jk (jb_instance_key j) r opref)) el)
                   in Inr (case timeout of None \<Rightarrow> el1
                          | Some t \<Rightarrow> emit (EJob (JobTimeoutUpdated jk (jb_instance_key j)
                                       (saturating_add_signed (now (fst el1)) t) opref)) el1)))))"

section \<open>Suspending and resuming an instance\<close>

definition suspend_instance :: "key \<Rightarrow> u64 \<Rightarrow> engine \<Rightarrow> engine_error + logged" where
  "suspend_instance ik t e = (case fmlookup (instances (est e)) ik of
     None \<Rightarrow> Inl (InstanceNotFound ik)
   | Some i \<Rightarrow> (case pi_state i of
       PIActive \<Rightarrow> Inr (emit (ELifecycle (ProcessInstanceSuspended ik t)) (e, []))
     | PISuspended \<Rightarrow> Inr (e, [])
     | other \<Rightarrow> Inl (InstanceTransitionInvalid ik (pi_state_as_str other) ''SUSPENDED'')))"

definition resume_instance :: "key \<Rightarrow> engine \<Rightarrow> engine_error + logged" where
  "resume_instance ik e = (case fmlookup (instances (est e)) ik of
     None \<Rightarrow> Inl (InstanceNotFound ik)
   | Some i \<Rightarrow> (case pi_state i of
       PISuspended \<Rightarrow> Inr (emit (ELifecycle (ProcessInstanceResumed ik)) (e, []))
     | PIActive \<Rightarrow> Inr (e, [])
     | other \<Rightarrow> Inl (InstanceTransitionInvalid ik (pi_state_as_str other) ''ACTIVE'')))"

section \<open>Emitting a job event\<close>

lemma emit_simple:
  "emit_resolution ev (fst el) = None \<Longrightarrow> terminal_instance_key ev = None \<Longrightarrow> emit ev el = emit_plain ev el"
  by (simp add: emit_def)

definition settles :: "job_event \<Rightarrow> bool" where
  "settles je \<longleftrightarrow> (case je of JobCompleted _ _ _ _ _ \<Rightarrow> True | JobCanceled _ _ \<Rightarrow> True | JobErrorThrown _ _ _ _ \<Rightarrow> True | _ \<Rightarrow> False)"

lemma emit_job: "\<not> settles je \<Longrightarrow> emit (EJob je) (e, log) = (e\<lparr> est := apply_job je (est e) \<rparr>, log @ [EJob je])"
  by (cases je) (simp_all add: settles_def emit_simple emit_resolution_def terminal_instance_key_def emit_plain_def
      track_dirty_def Let_def)

lemma emit_incident: "emit (EIncident ie) (e, log) = (e\<lparr> est := apply_incident ie (est e) \<rparr>, log @ [EIncident ie])"
  by (simp add: emit_simple emit_resolution_def terminal_instance_key_def emit_plain_def track_dirty_def Let_def)

lemma jobs_update_job [simp]: "jobs (update_job k f s) = get_mut k f (jobs s)"
  by (simp add: update_job_def)

lemma instances_update_job [simp]: "instances (update_job k f s) = instances s"
  by (simp add: update_job_def)

section \<open>Selection\<close>

definition job_order :: "engine \<Rightarrow> key \<Rightarrow> int \<times> key" where
  "job_order e k = activation_order (case fmlookup (jobs (est e)) k of None \<Rightarrow> 0 | Some j \<Rightarrow> jb_priority j) k"

text \<open>A candidate for activation: a created job of the type whose instance is not suspended and that
  the lease mode may take.\<close>

definition candidate :: "engine \<Rightarrow> string \<Rightarrow> bool \<Rightarrow> key \<Rightarrow> bool" where
  "candidate e ty with_lease k \<longleftrightarrow> (\<exists>j. fmlookup (jobs (est e)) k = Some j \<and> jb_state j = JCreated
     \<and> jb_job_type j = ty \<and> (with_lease \<or> jb_lease_token j = None) \<and> \<not> instance_is_suspended e (jb_instance_key j))"

definition selection :: "engine \<Rightarrow> string \<Rightarrow> u64 \<Rightarrow> bool \<Rightarrow> key list" where
  "selection e ty t wl = filter (eligible e t wl) (map snd (sorted_list_of_fset (activatable_set (est e) ty)))"

lemma sorted_list_of_fempty [simp]: "sorted_list_of_fset {||} = []"
  by (simp add: sorted_list_of_fset.rep_eq)

lemma set_sorted_list_of_fset [simp]: "set (sorted_list_of_fset S) = fset S"
  by (simp add: sorted_list_of_fset.rep_eq)

lemma select_take: "select_activatable_job_keys e ty n t wl = take n (selection e ty t wl)"
  by (auto simp: select_activatable_job_keys_def selection_def activatable_set_def split: option.split)

lemma sorted_wrt_filter: "sorted_wrt P xs \<Longrightarrow> sorted_wrt P (filter Q xs)"
  by (induction xs) auto

lemma selection_sorted:
  assumes "job_index_inv (est e)"
  shows "sorted_wrt (\<lambda>a b. job_order e a < job_order e b) (selection e ty t wl)"
proof -
  let ?xs = "sorted_list_of_fset (activatable_set (est e) ty)"
  have "job_order e (snd x) = x" if "x \<in> set ?xs" for x
  proof -
    obtain p k where x: "x = (p, k)" by (cases x)
    with that have "(p, k) |\<in>| activatable_set (est e) ty" by simp
    with index_entryD [OF assms] obtain j where "fmlookup (jobs (est e)) k = Some j" "p = i32_neg (jb_priority j)"
      by blast
    with x show ?thesis by (simp add: job_order_def activation_order_def)
  qed
  then have "map (job_order e) (map snd ?xs) = ?xs" unfolding map_map by (intro map_idI) simp
  moreover have "sorted_wrt (<) ?xs" by (simp add: sorted_list_of_fset.rep_eq)
  ultimately have "sorted_wrt (\<lambda>a b. job_order e a < job_order e b) (map snd ?xs)"
    by (metis sorted_wrt_map)
  then show ?thesis unfolding selection_def by (rule sorted_wrt_filter)
qed

lemma set_selection:
  assumes "job_index_inv (est e)"
  shows "set (selection e ty t wl) = {k. candidate e ty wl k}"
proof (intro equalityI subsetI)
  fix k
  assume "k \<in> set (selection e ty t wl)"
  then obtain p where "(p, k) |\<in>| activatable_set (est e) ty" "eligible e t wl k"
    by (auto simp: selection_def sorted_list_of_fset.rep_eq)
  then show "k \<in> {k. candidate e ty wl k}"
    by (auto simp: index_entryD [OF assms] eligible_def candidate_def)
next
  fix k
  assume "k \<in> {k. candidate e ty wl k}"
  then obtain j where j: "fmlookup (jobs (est e)) k = Some j" "jb_state j = JCreated" "jb_job_type j = ty"
      "wl \<or> jb_lease_token j = None" "\<not> instance_is_suspended e (jb_instance_key j)"
    by (auto simp: candidate_def)
  then have "(i32_neg (jb_priority j), k) |\<in>| activatable_set (est e) ty" "eligible e t wl k"
    by (auto simp: index_entryD [OF assms] eligible_def job_activatable_def)
  then show "k \<in> set (selection e ty t wl)"
    by (force simp: selection_def sorted_list_of_fset.rep_eq)
qed

lemma take_best:
  assumes "sorted_wrt P xs" "x \<in> set xs" "x \<notin> set (take n xs)" "a \<in> set (take n xs)"
  shows "P a x"
proof -
  have "xs = take n xs @ drop n xs" by simp
  then have "x \<in> set (drop n xs)" using assms(2,3) by (metis UnE set_append)
  with assms(1,4) show ?thesis by (metis append_take_drop_id sorted_wrt_append)
qed

section \<open>Activation\<close>

text \<open>What a plan may log: one activation per accepted key, never for a suspended instance.\<close>

definition activation_of :: "activation_plan \<Rightarrow> engine \<Rightarrow> event \<Rightarrow> bool" where
  "activation_of plan e ev \<longleftrightarrow> (\<exists>jk j lease. ev = EJob (JobActivated jk (jb_instance_key j) (ap_durable plan) (ap_worker plan)
       (saturating_add (ap_now plan) (ap_timeout plan)) (Some (ap_now plan)) (ap_fetch_variables plan) lease)
     \<and> jk \<in> set (ap_job_keys plan) \<and> fmlookup (jobs (est e)) jk = Some j
     \<and> \<not> instance_is_suspended e (jb_instance_key j) \<and> (lease \<noteq> None) = ap_with_lease plan)"

definition activated_key :: "event \<Rightarrow> key option" where
  "activated_key ev = (case ev of EJob (JobActivated jk _ _ _ _ _ _ _) \<Rightarrow> Some jk | _ \<Rightarrow> None)"

lemma activate_one_eq:
  assumes "fmlookup (jobs (est e)) jk = Some j"
  shows "\<exists>nl lease. activate_one plan jk (e, log) =
     (e\<lparr> next_local := nl, est := apply_JobActivated jk (ap_durable plan) (ap_worker plan)
          (saturating_add (ap_now plan) (ap_timeout plan)) (Some (ap_now plan)) lease (est e) \<rparr>,
      log @ [EJob (JobActivated jk (jb_instance_key j) (ap_durable plan) (ap_worker plan)
          (saturating_add (ap_now plan) (ap_timeout plan)) (Some (ap_now plan)) (ap_fetch_variables plan) lease)])
     \<and> (lease \<noteq> None) = ap_with_lease plan
     \<and> (ap_with_lease plan \<longrightarrow> lease = Some (issue (fst (mint_key e))) \<and> nl = next_local e + 1)"
proof (cases "ap_with_lease plan")
  case True
  then show ?thesis
    by (intro exI [of _ "next_local e + 1"] exI [of _ "Some (issue (fst (mint_key e)))"])
      (simp add: activate_one_def assms mint_key_def Let_def emit_job settles_def)
next
  case False
  then show ?thesis
    by (intro exI [of _ "next_local e"] exI [of _ None])
      (simp add: activate_one_def assms Let_def emit_job settles_def)
qed

text \<open>Activation keeps what the guards read of every other job.\<close>

lemma apply_plan_keys_log:
  assumes "set jks \<subseteq> set (ap_job_keys plan)"
    and "instances (est e) = instances (est e0)"
    and "\<And>k. k |\<notin>| seen \<Longrightarrow> fmlookup (jobs (est e)) k = fmlookup (jobs (est e0)) k"
  shows "\<exists>evs. snd (apply_plan_keys plan seen jks (e, log)) = log @ evs
     \<and> (\<forall>ev \<in> set evs. activation_of plan e0 ev)
     \<and> distinct (map activated_key evs) \<and> (\<forall>k. Some k \<in> set (map activated_key evs) \<longrightarrow> k |\<notin>| seen)"
  using assms
proof (induction jks arbitrary: seen e log)
  case (Cons jk jks)
  show ?case
  proof (cases "jk |\<in>| seen")
    case True
    then show ?thesis using Cons by simp
  next
    case unseen: False
    show ?thesis
    proof (cases "plan_accepts plan e jk")
      case False
      from Cons.IH [of e "finsert jk seen" log] Cons.prems obtain evs where
        "snd (apply_plan_keys plan (finsert jk seen) jks (e, log)) = log @ evs"
        "\<forall>ev \<in> set evs. activation_of plan e0 ev" "distinct (map activated_key evs)"
        "\<forall>k. Some k \<in> set (map activated_key evs) \<longrightarrow> k |\<notin>| finsert jk seen" by auto
      with False unseen show ?thesis by (intro exI [of _ evs]) auto
    next
      case True
      then obtain j where j: "fmlookup (jobs (est e)) jk = Some j" "\<not> instance_is_suspended e (jb_instance_key j)"
        by (auto simp: plan_accepts_def split: option.splits)
      obtain nl lease where a: "activate_one plan jk (e, log) =
         (e\<lparr> next_local := nl, est := apply_JobActivated jk (ap_durable plan) (ap_worker plan)
              (saturating_add (ap_now plan) (ap_timeout plan)) (Some (ap_now plan)) lease (est e) \<rparr>,
          log @ [EJob (JobActivated jk (jb_instance_key j) (ap_durable plan) (ap_worker plan)
              (saturating_add (ap_now plan) (ap_timeout plan)) (Some (ap_now plan)) (ap_fetch_variables plan) lease)])"
         (is "_ = (?e1, log @ [?ev])") and l: "(lease \<noteq> None) = ap_with_lease plan"
        using activate_one_eq [OF j(1), of plan log] by blast
      have "instances (est ?e1) = instances (est e0)" using Cons.prems(2) by (simp add: apply_JobActivated_def)
      moreover have "fmlookup (jobs (est ?e1)) k = fmlookup (jobs (est e0)) k" if "k |\<notin>| finsert jk seen" for k
        using Cons.prems(3) that by (simp add: apply_JobActivated_def)
      ultimately obtain evs where evs:
        "snd (apply_plan_keys plan (finsert jk seen) jks (?e1, log @ [?ev])) = (log @ [?ev]) @ evs"
        "\<forall>ev \<in> set evs. activation_of plan e0 ev" "distinct (map activated_key evs)"
        "\<forall>k. Some k \<in> set (map activated_key evs) \<longrightarrow> k |\<notin>| finsert jk seen"
        using Cons.IH [of ?e1 "finsert jk seen" "log @ [?ev]"] Cons.prems(1) by auto
      have "activation_of plan e0 ?ev"
        using Cons.prems j l unseen by (auto simp: activation_of_def instance_is_suspended_def)
      moreover have "activated_key ?ev = Some jk" by (simp add: activated_key_def)
      moreover have "Some jk \<notin> set (map activated_key evs)" using evs(4) by blast
      ultimately show ?thesis using evs True unseen a
        by (intro exI [of _ "?ev # evs"]) auto
    qed
  qed
qed simp

section \<open>Properties of selection\<close>

lemma distinct_from_sorted: "sorted_wrt P xs \<Longrightarrow> (\<And>x. \<not> P x x) \<Longrightarrow> distinct xs"
  by (induction xs) auto

text \<open>C6: job selection is a priority queue: at most the requested number of jobs, only created jobs of
  the type whose instance is not suspended (and, without lease mode, that hold no lease), by
  descending priority and ascending key; a candidate that is left out comes after every selected one,
  and none is left out while there is room.\<close>

theorem selection_best_first:
  assumes "job_index_inv (est e)"
  shows "length (select_activatable_job_keys e ty n t wl) = min n (card {k. candidate e ty wl k})
     \<and> set (select_activatable_job_keys e ty n t wl) \<subseteq> {k. candidate e ty wl k}
     \<and> sorted_wrt (\<lambda>a b. job_order e a < job_order e b) (select_activatable_job_keys e ty n t wl)
     \<and> (\<forall>k a. candidate e ty wl k \<and> k \<notin> set (select_activatable_job_keys e ty n t wl)
          \<and> a \<in> set (select_activatable_job_keys e ty n t wl) \<longrightarrow> job_order e a < job_order e k)"
proof -
  let ?all = "selection e ty t wl" and ?sel = "select_activatable_job_keys e ty n t wl"
  note srt = selection_sorted [OF assms, of ty t wl] and ks = set_selection [OF assms, of ty t wl]
  have sel: "?sel = take n ?all" by (rule select_take)
  have "distinct ?all" by (rule distinct_from_sorted [OF srt]) simp
  then have "length ?all = card {k. candidate e ty wl k}" using ks by (metis distinct_card)
  then have "length ?sel = min n (card {k. candidate e ty wl k})" by (simp add: sel min.commute)
  moreover have "set ?sel \<subseteq> {k. candidate e ty wl k}" using ks set_take_subset [of n ?all] by (auto simp: sel)
  moreover have "sorted_wrt (\<lambda>a b. job_order e a < job_order e b) ?sel" using srt by (simp add: sel sorted_wrt_take)
  moreover have "\<forall>k a. candidate e ty wl k \<and> k \<notin> set ?sel \<and> a \<in> set ?sel \<longrightarrow> job_order e a < job_order e k"
    using take_best [OF srt] ks by (auto simp: sel)
  ultimately show ?thesis by blast
qed

section \<open>A concrete engine\<close>

definition demo_job :: "key \<Rightarrow> int \<Rightarrow> job" where
  "demo_job k prio = \<lparr> jb_key = k, jb_instance_key = 1, jb_element_instance_key = 3, jb_element_id = ''task'', jb_job_type = ''pay'',
     jb_state = JCreated, jb_worker = None, jb_deadline = None, jb_activated_at = None, jb_activation_timeout = None,
     jb_lease_token = None, jb_durable_activation = False, jb_activated = False, jb_retries = 3, jb_priority = prio,
     jb_created_at = 0, jb_kind = BpmnElement \<rparr>"

definition demo_engine :: engine where
  "demo_engine = engine_of (insert_job (demo_job 5 70) (insert_job (demo_job 4 50) state_new)) 0 10"

lemma demo_jobs: "jobs (est demo_engine) = fmupd 5 (demo_job 5 70) (fmupd 4 (demo_job 4 50) fmempty)"
  by (simp add: demo_engine_def engine_of_def insert_job_def Let_def demo_job_def state_new_def)

lemma demo_instances: "instances (est demo_engine) = fmempty"
  by (simp add: demo_engine_def engine_of_def insert_job_def Let_def state_new_def)

lemma demo_index: "job_index_inv (est demo_engine)"
proof -
  have "job_index_inv state_new" by (simp add: job_index_inv_def state_new_def activatable_set_def)
  then have one: "job_index_inv (insert_job (demo_job 4 50) state_new)"
    by (rule insert_job_inv) (simp add: state_new_def)
  have "fmlookup (jobs (insert_job (demo_job 4 50) state_new)) (jb_key (demo_job 5 70)) = None"
    by (simp add: insert_job_def Let_def demo_job_def state_new_def)
  from insert_job_inv [OF one this] show ?thesis by (simp add: demo_engine_def engine_of_def)
qed

lemma demo_suspended [simp]: "\<not> instance_is_suspended demo_engine ik"
  by (simp add: instance_is_suspended_def demo_instances)

lemma demo_candidates: "{k. candidate demo_engine ''pay'' wl k} = {4, 5}"
  by (auto simp: candidate_def demo_jobs demo_job_def)

lemma demo_orders: "job_order demo_engine 5 < job_order demo_engine 4"
  by (simp add: job_order_def demo_jobs demo_job_def activation_order_def i32_neg_def i32_min_def)

theorem selection_best_first_witness:
  "select_activatable_job_keys demo_engine ''pay'' 1 0 False = [5]"
proof -
  note w = selection_best_first [OF demo_index, of "''pay''" 1 0 False, unfolded demo_candidates]
  from w obtain k where k: "select_activatable_job_keys demo_engine ''pay'' 1 0 False = [k]"
    by (auto simp: length_Suc_conv)
  with w have "k = 4 \<or> k = 5" by auto
  moreover have False if "k = 4"
  proof -
    have "candidate demo_engine ''pay'' False 5" using demo_candidates [of False] by blast
    with w k that have "job_order demo_engine 4 < job_order demo_engine 5" by auto
    with demo_orders show False by simp
  qed
  ultimately show ?thesis using k by auto
qed

lemma demo_selects: "select_activatable_job_keys demo_engine ''pay'' 1 t wl = [5]"
proof -
  have j: "eligible demo_engine t wl k \<longleftrightarrow> k = 4 \<or> k = 5" for k
    by (auto simp: eligible_def demo_jobs job_activatable_def demo_job_def)
  have a: "fmlookup (activatable_jobs (est demo_engine)) ''pay'' = Some {|(-70, 5), (-50, 4)|}"
    by (simp add: demo_engine_def engine_of_def insert_job_def Let_def demo_job_def state_new_def resync_job_index_def
        activation_order_def i32_neg_def i32_min_def)
  have l: "sorted_list_of_fset {|(-70 :: int, 5 :: key), (-50, 4)|} = [(-70, 5), (-50, 4)]"
    by (simp add: sorted_list_of_fset.rep_eq)
  show ?thesis by (simp add: select_activatable_job_keys_def a l j)
qed

section \<open>Properties of activation\<close>

text \<open>A run over distinct keys that are all acceptable activates every one of them, in order.\<close>

definition ready :: "activation_plan \<Rightarrow> engine \<Rightarrow> key \<Rightarrow> bool" where
  "ready plan e k \<longleftrightarrow> (\<exists>j. fmlookup (jobs (est e)) k = Some j \<and> jb_state j = JCreated
     \<and> (ap_with_lease plan \<or> jb_lease_token j = None) \<and> \<not> instance_is_suspended e (jb_instance_key j))"

lemma ready_accepts: "ready plan e k \<Longrightarrow> plan_accepts plan e k"
  by (auto simp: ready_def plan_accepts_def)

lemma ready_cong:
  "fmlookup (jobs (est e')) k = fmlookup (jobs (est e)) k \<Longrightarrow> instances (est e') = instances (est e) \<Longrightarrow>
   ready plan e' k = ready plan e k"
  by (simp add: ready_def instance_is_suspended_def)

definition activated_as :: "activation_plan \<Rightarrow> job \<Rightarrow> job \<Rightarrow> bool" where
  "activated_as plan j j' \<longleftrightarrow> (\<exists>lease. (lease \<noteq> None) = ap_with_lease plan
     \<and> j' = j\<lparr> jb_state := JActivated, jb_worker := (if ap_worker plan = [] then None else Some (ap_worker plan)),
          jb_deadline := Some (saturating_add (ap_now plan) (ap_timeout plan)), jb_activated_at := Some (ap_now plan),
          jb_activation_timeout := Some (saturating_sub (saturating_add (ap_now plan) (ap_timeout plan)) (ap_now plan)),
          jb_lease_token := lease, jb_durable_activation := jb_durable_activation j \<or> ap_durable plan, jb_activated := True \<rparr>)"

lemma activate_one_ready:
  assumes "ready plan e jk"
  obtains e1 ev where "activate_one plan jk (e, log) = (e1, log @ [ev])" "activated_key ev = Some jk"
    "\<And>k. k \<noteq> jk \<Longrightarrow> fmlookup (jobs (est e1)) k = fmlookup (jobs (est e)) k"
    "rel_option (activated_as plan) (fmlookup (jobs (est e)) jk) (fmlookup (jobs (est e1)) jk)"
    "instances (est e1) = instances (est e)"
proof -
  from assms obtain j where j: "fmlookup (jobs (est e)) jk = Some j" by (auto simp: ready_def)
  from activate_one_eq [OF this, of plan log] obtain nl lease where
    a: "activate_one plan jk (e, log) =
       (e\<lparr> next_local := nl, est := apply_JobActivated jk (ap_durable plan) (ap_worker plan)
            (saturating_add (ap_now plan) (ap_timeout plan)) (Some (ap_now plan)) lease (est e) \<rparr>,
        log @ [EJob (JobActivated jk (jb_instance_key j) (ap_durable plan) (ap_worker plan)
            (saturating_add (ap_now plan) (ap_timeout plan)) (Some (ap_now plan)) (ap_fetch_variables plan) lease)])"
    and l: "(lease \<noteq> None) = ap_with_lease plan" by blast
  show thesis
    by (rule that [OF a]) (use j l in \<open>auto simp: apply_JobActivated_def activated_as_def activated_key_def\<close>)
qed

lemma apply_plan_ready:
  assumes "distinct jks" "\<forall>k \<in> set jks. k |\<notin>| seen \<and> ready plan e k"
  shows "\<exists>evs. snd (apply_plan_keys plan seen jks (e, log)) = log @ evs \<and> map activated_key evs = map Some jks
     \<and> (\<forall>k. k \<notin> set jks \<longrightarrow> fmlookup (jobs (est (fst (apply_plan_keys plan seen jks (e, log))))) k = fmlookup (jobs (est e)) k)
     \<and> (\<forall>k \<in> set jks. rel_option (activated_as plan) (fmlookup (jobs (est e)) k)
          (fmlookup (jobs (est (fst (apply_plan_keys plan seen jks (e, log))))) k))"
  using assms
proof (induction jks arbitrary: seen e log)
  case (Cons jk jks)
  from Cons.prems(2) have rd: "ready plan e jk" by simp
  from activate_one_ready [OF rd, of log] obtain e1 ev where a: "activate_one plan jk (e, log) = (e1, log @ [ev])"
    "activated_key ev = Some jk" and keep: "\<And>k. k \<noteq> jk \<Longrightarrow> fmlookup (jobs (est e1)) k = fmlookup (jobs (est e)) k"
    and self: "rel_option (activated_as plan) (fmlookup (jobs (est e)) jk) (fmlookup (jobs (est e1)) jk)"
    and inst: "instances (est e1) = instances (est e)" by blast
  have rest: "\<forall>k \<in> set jks. k |\<notin>| finsert jk seen \<and> ready plan e1 k"
  proof
    fix k
    assume k: "k \<in> set jks"
    with Cons.prems have "k \<noteq> jk" "k |\<notin>| seen" "ready plan e k" by auto
    with ready_cong [OF keep inst, of k plan] show "k |\<notin>| finsert jk seen \<and> ready plan e1 k" by simp
  qed
  define el where "el = apply_plan_keys plan (finsert jk seen) jks (e1, log @ [ev])"
  have run: "apply_plan_keys plan seen (jk # jks) (e, log) = el"
    using Cons.prems(2) ready_accepts [OF rd] by (simp add: a el_def)
  have "distinct jks" using Cons.prems(1) by simp
  from Cons.IH [OF this rest, of "log @ [ev]", folded el_def] obtain evs where evs:
    "snd el = (log @ [ev]) @ evs" "map activated_key evs = map Some jks"
    "\<forall>k. k \<notin> set jks \<longrightarrow> fmlookup (jobs (est (fst el))) k = fmlookup (jobs (est e1)) k"
    "\<forall>k \<in> set jks. rel_option (activated_as plan) (fmlookup (jobs (est e1)) k) (fmlookup (jobs (est (fst el))) k)" by blast
  have "rel_option (activated_as plan) (fmlookup (jobs (est e)) k) (fmlookup (jobs (est (fst el))) k)" if "k \<in> set (jk # jks)" for k
    using that evs(3,4) keep [of k] self Cons.prems(1) by (cases "k = jk") auto
  moreover have "fmlookup (jobs (est (fst el))) k = fmlookup (jobs (est e)) k" if "k \<notin> set (jk # jks)" for k
    using that evs(3) keep [of k] by simp
  ultimately show ?case unfolding run using a(2) evs(1,2) by (intro exI [of _ "ev # evs"]) simp
qed simp

text \<open>C7: activating jobs of a type locks exactly the selected jobs: the log holds one activation per
  selected key in selection order, each of those jobs is activated with the worker, the deadline and,
  in lease mode, a lease, and no other job changes.\<close>

theorem activation_locks_selection:
  assumes "job_index_inv (est e)" "activate_jobs_command ty worker n timeout t fetch wl e = (e', log)"
  shows "map activated_key log = map Some (select_activatable_job_keys e ty n t wl)
     \<and> (\<forall>k. k \<notin> set (select_activatable_job_keys e ty n t wl) \<longrightarrow> fmlookup (jobs (est e')) k = fmlookup (jobs (est e)) k)
     \<and> (\<forall>k \<in> set (select_activatable_job_keys e ty n t wl). \<exists>j'. fmlookup (jobs (est e')) k = Some j'
          \<and> jb_state j' = JActivated \<and> jb_deadline j' = Some (saturating_add t timeout)
          \<and> jb_worker j' = (if worker = [] then None else Some worker) \<and> (jb_lease_token j' \<noteq> None) = wl)"
proof -
  let ?sel = "select_activatable_job_keys e ty n t wl"
  let ?plan = "\<lparr> ap_job_keys = ?sel, ap_worker = worker, ap_timeout = timeout, ap_now = t, ap_fetch_variables = fetch,
       ap_with_lease = wl, ap_durable = False \<rparr>"
  have "distinct (selection e ty t wl)" by (rule distinct_from_sorted [OF selection_sorted [OF assms(1)]]) simp
  then have d: "distinct ?sel" by (simp add: select_take)
  have "set ?sel \<subseteq> {k. candidate e ty wl k}"
    using set_selection [OF assms(1), of ty t wl] set_take_subset [of n "selection e ty t wl"] by (auto simp: select_take)
  then have r: "\<forall>k \<in> set ?sel. k |\<notin>| {||} \<and> ready ?plan e k" by (auto simp: ready_def candidate_def)
  have run: "apply_plan_keys ?plan {||} ?sel (e, []) = (e', log)"
    using assms(2) by (simp add: activate_jobs_command_def apply_activation_plan_def)
  note a = apply_plan_ready [OF d r, of "[]", unfolded run fst_conv snd_conv append_Nil]
  have "\<exists>j'. fmlookup (jobs (est e')) k = Some j' \<and> jb_state j' = JActivated \<and> jb_deadline j' = Some (saturating_add t timeout)
      \<and> jb_worker j' = (if worker = [] then None else Some worker) \<and> (jb_lease_token j' \<noteq> None) = wl" if "k \<in> set ?sel" for k
  proof -
    from r that obtain j where "fmlookup (jobs (est e)) k = Some j" by (auto simp: ready_def)
    with a that have "\<exists>j'. fmlookup (jobs (est e')) k = Some j' \<and> activated_as ?plan j j'" by (auto simp: option_rel_Some1)
    then show ?thesis by (auto simp: activated_as_def)
  qed
  with a show ?thesis by auto
qed

theorem activation_locks_selection_witness:
  "map activated_key (snd (activate_jobs_command ''pay'' ''w'' 1 100 7 [] True demo_engine)) = [Some 5]
   \<and> fmlookup (jobs (est (fst (activate_jobs_command ''pay'' ''w'' 1 100 7 [] True demo_engine)))) 4 = Some (demo_job 4 50)
   \<and> (\<exists>j'. fmlookup (jobs (est (fst (activate_jobs_command ''pay'' ''w'' 1 100 7 [] True demo_engine)))) 5 = Some j'
          \<and> jb_state j' = JActivated \<and> jb_deadline j' = Some (saturating_add 7 100) \<and> jb_worker j' = Some ''w''
          \<and> jb_lease_token j' \<noteq> None)"
  using activation_locks_selection [OF demo_index prod.collapse [symmetric], of "''pay''" "''w''" 1 100 7 "[]" True]
  unfolding demo_selects by (auto simp: demo_jobs)

text \<open>C8: leases fence stale workers: after a leased activation the job accepts the token issued for the
  freshly minted key and rejects every other token, absent ones included, with a lease mismatch.\<close>

theorem lease_fences_stale_workers:
  assumes "fmlookup (jobs (est e)) jk = Some j" "jb_key j = jk" "ap_with_lease plan"
  shows "is_ok (worker_command_guard (fst (activate_one plan jk (e, log))) jk (Some (issue (fst (mint_key e)))))
     \<and> (\<forall>tok. tok \<noteq> Some (issue (fst (mint_key e))) \<longrightarrow>
          worker_command_guard (fst (activate_one plan jk (e, log))) jk tok = Inl (JobLeaseMismatch jk))"
proof -
  from activate_one_eq [OF assms(1), of plan log] assms(3) obtain nl where
    "fst (activate_one plan jk (e, log)) = e\<lparr> next_local := nl, est := apply_JobActivated jk (ap_durable plan) (ap_worker plan)
          (saturating_add (ap_now plan) (ap_timeout plan)) (Some (ap_now plan)) (Some (issue (fst (mint_key e)))) (est e) \<rparr>"
    by fastforce
  then show ?thesis using assms(1,2)
    by (auto simp: worker_command_guard_def apply_JobActivated_def validate_job_lease_def nonempty_def is_ok_def
        split: option.split)
qed

definition leased_plan :: activation_plan where
  "leased_plan = \<lparr> ap_job_keys = [4], ap_worker = ''w'', ap_timeout = 100, ap_now = 7, ap_fetch_variables = [],
     ap_with_lease = True, ap_durable = False \<rparr>"

theorem lease_fences_stale_workers_witness:
  "is_ok (worker_command_guard (fst (activate_one leased_plan 4 (demo_engine, []))) 4 (Some (issue (fst (mint_key demo_engine)))))
   \<and> worker_command_guard (fst (activate_one leased_plan 4 (demo_engine, []))) 4 None = Inl (JobLeaseMismatch 4)"
proof -
  have "jb_key (demo_job 4 50) = 4" "ap_with_lease leased_plan" by (simp_all add: demo_job_def leased_plan_def)
  from lease_fences_stale_workers [OF _ this, of demo_engine "[]"] show ?thesis by (simp add: demo_jobs)
qed

section \<open>Properties of failing, expiring and updating jobs\<close>

text \<open>C34: failing a job succeeds exactly when the job exists and is not settled, the lease token matches
  the one it holds, and it was activated (or lenient completion is on).\<close>

theorem fail_job_accepted:
  "is_ok (fail_job jk tok r msg e) \<longleftrightarrow> (\<exists>j. fmlookup (jobs (est e)) jk = Some j \<and> job_live j
     \<and> (nonempty (jb_lease_token j) = None \<or> nonempty tok = nonempty (jb_lease_token j))
     \<and> (lenient_completion e \<or> jb_activated j))"
proof -
  have "is_ok (fail_job jk tok r msg e) = is_ok (worker_command_guard e jk tok)"
    by (auto simp: fail_job_def is_ok_def Let_def case_prod_beta split: sum.split)
  moreover have "st \<in> {JCompleted, JFailed, JErrored, JCanceled} \<longleftrightarrow> \<not> (st = JCreated \<or> st = JActivated)" for st
    by (cases st) simp_all
  ultimately show ?thesis
    by (auto simp: worker_command_guard_def validate_job_lease_def is_ok_def job_live_def split: option.splits)
qed

text \<open>C33: a failed job with retries left returns to the pool unlocked; with none left it is parked as
  failed and an active incident for it is raised under a fresh key.\<close>

theorem fail_job_outcome:
  assumes "worker_command_guard e jk tok = Inr j"
  shows "\<exists>e' log j'. fail_job jk tok r msg e = Inr (e', log) \<and> fmlookup (jobs (est e')) jk = Some j'
     \<and> jb_state j' = (if 0 < r then JCreated else JFailed) \<and> jb_retries j' = max 0 r \<and> jb_deadline j' = None
     \<and> (if 0 < r then incidents (est e') = incidents (est e) \<and> length log = 1
        else \<exists>i. fmlookup (incidents (est e')) (fst (mint_key e)) = Some i
               \<and> fmdrop (fst (mint_key e)) (incidents (est e')) = fmdrop (fst (mint_key e)) (incidents (est e)) \<and> inc_state i = IncActive
               \<and> inc_job_key i = Some jk \<and> inc_kind i = JobNoRetries \<and> length log = 2)"
proof -
  have "fmlookup (jobs (est e)) jk = Some j"
    using assms by (auto simp: worker_command_guard_def split: option.splits if_splits)
  then show ?thesis
    by (cases "0 < r") (simp_all add: assms fail_job_def emit_job emit_incident settles_def mint_key_def Let_def
        apply_JobFailed_def apply_IncidentRaised_def update_job_def)
qed

definition locked_engine :: engine where
  "locked_engine = engine_of (insert_job ((demo_job 4 50)\<lparr> jb_state := JActivated, jb_deadline := Some 20, jb_activated := True \<rparr>) state_new) 0 10"

lemma locked_jobs:
  "jobs (est locked_engine) = fmupd 4 ((demo_job 4 50)\<lparr> jb_state := JActivated, jb_deadline := Some 20, jb_activated := True \<rparr>) fmempty"
  by (simp add: locked_engine_def engine_of_def insert_job_def Let_def demo_job_def state_new_def)

theorem fail_job_outcome_witness:
  "\<exists>e' log j'. fail_job 4 None 0 ''boom'' locked_engine = Inr (e', log) \<and> fmlookup (jobs (est e')) 4 = Some j'
     \<and> jb_state j' = (if 0 < (0 :: int) then JCreated else JFailed) \<and> jb_retries j' = max 0 0 \<and> jb_deadline j' = None
     \<and> (if 0 < (0 :: int) then incidents (est e') = incidents (est locked_engine) \<and> length log = 1
        else \<exists>i. fmlookup (incidents (est e')) (fst (mint_key locked_engine)) = Some i
               \<and> fmdrop (fst (mint_key locked_engine)) (incidents (est e')) = fmdrop (fst (mint_key locked_engine)) (incidents (est locked_engine)) \<and> inc_state i = IncActive
               \<and> inc_job_key i = Some 4 \<and> inc_kind i = JobNoRetries \<and> length log = 2)"
  by (rule fail_job_outcome [of locked_engine 4 None "(demo_job 4 50)\<lparr> jb_state := JActivated, jb_deadline := Some 20, jb_activated := True \<rparr>"])
    (simp add: worker_command_guard_def locked_jobs validate_job_lease_def nonempty_def, simp add: demo_job_def)

definition unlock :: "job \<Rightarrow> job" where
  "unlock j = (if jb_state j = JActivated
     then j\<lparr> jb_state := JCreated, jb_worker := None, jb_deadline := None, jb_activated_at := None, jb_activation_timeout := None \<rparr>
     else j)"

lemma fold_expire:
  "fold (\<lambda>(jk, ik). emit (EJob (JobLockExpired jk ik))) xs (e, log) =
     (e\<lparr> est := fold (\<lambda>(jk, ik). apply_JobLockExpired jk) xs (est e) \<rparr>, log @ map (\<lambda>(jk, ik). EJob (JobLockExpired jk ik)) xs)"
  by (induction xs arbitrary: e log) (auto simp: emit_job settles_def)

lemma fold_expire_jobs:
  "fmlookup (jobs (fold (\<lambda>(jk, ik). apply_JobLockExpired jk) xs s)) k =
     (if k \<in> fst ` set xs then map_option unlock (fmlookup (jobs s) k) else fmlookup (jobs s) k)"
proof (induction xs arbitrary: s)
  case (Cons x xs)
  obtain jk ik where x: "x = (jk, ik)" by fastforce
  have one: "fmlookup (jobs (apply_JobLockExpired jk s)) k =
      (if k = jk then map_option unlock (fmlookup (jobs s) k) else fmlookup (jobs s) k)"
    by (simp add: apply_JobLockExpired_def unlock_def [abs_def])
  have "unlock (unlock j) = unlock j" for j by (simp add: unlock_def)
  with Cons.IH [of "apply_JobLockExpired jk s"] one show ?case by (auto simp: x option.map_comp comp_def)
qed simp

lemma set_expired_locks:
  assumes "job_index_inv (est e)" "job_keys_inv (est e)"
  shows "fst ` set (expired_locks e t d) = {k. lock_expired e t d k}"
proof (intro equalityI subsetI)
  fix k
  assume "k \<in> fst ` set (expired_locks e t d)"
  then obtain k' j where k': "lock_expired e t d k'" "fmlookup (jobs (est e)) k' = Some j" "k = jb_key j"
    by (auto simp: expired_locks_def List.map_filter_def split: if_splits)
  with assms(2) show "k \<in> {k. lock_expired e t d k}" by (auto simp: job_keys_inv_def fmpred_iff)
next
  fix k
  assume "k \<in> {k. lock_expired e t d k}"
  then have le: "lock_expired e t d k" by simp
  then obtain j where j: "fmlookup (jobs (est e)) k = Some j" "jb_state j = JActivated"
    by (auto simp: lock_expired_def split: option.splits)
  then have "k |\<in>| activated_jobs (est e)" "jb_key j = k"
    using assms by (auto simp: index_activatedD job_keys_inv_def fmpred_iff)
  with le j have "(jb_key j, jb_instance_key j) \<in> set (expired_locks e t d)"
    by (auto simp: expired_locks_def List.map_filter_def image_iff intro!: bexI [of _ k])
  with \<open>jb_key j = k\<close> show "k \<in> fst ` set (expired_locks e t d)" by (metis fst_conv image_eqI)
qed

lemma expired_pairs:
  assumes "job_index_inv (est e)" "job_keys_inv (est e)"
  shows "set (expired_locks e t d) = {(k, jb_instance_key j) | k j. lock_expired e t d k \<and> fmlookup (jobs (est e)) k = Some j}"
proof -
  have "set (expired_locks e t d) \<subseteq> {(k, jb_instance_key j) | k j. lock_expired e t d k \<and> fmlookup (jobs (est e)) k = Some j}"
    using assms(2) by (auto simp: expired_locks_def List.map_filter_def job_keys_inv_def fmpred_iff split: if_splits)
  moreover have "(k, jb_instance_key j) \<in> set (expired_locks e t d)"
    if "lock_expired e t d k" "fmlookup (jobs (est e)) k = Some j" for k j
  proof -
    from that(1) set_expired_locks [OF assms, of t d] obtain ik where "(k, ik) \<in> set (expired_locks e t d)" by fastforce
    with calculation that(2) show ?thesis by auto
  qed
  ultimately show ?thesis by blast
qed

lemma expired_keys_distinct:
  assumes "job_keys_inv (est e)"
  shows "distinct (map fst (expired_locks e t d))"
proof -
  have "distinct (map fst (List.map_filter (\<lambda>k. if lock_expired e t d k
      then map_option (\<lambda>j. (jb_key j, jb_instance_key j)) (fmlookup (jobs (est e)) k) else None) ks)) \<and>
    set (map fst (List.map_filter (\<lambda>k. if lock_expired e t d k
      then map_option (\<lambda>j. (jb_key j, jb_instance_key j)) (fmlookup (jobs (est e)) k) else None) ks)) \<subseteq> set ks"
    if "distinct ks" for ks
    using that assms by (induction ks) (auto simp: List.map_filter_simps job_keys_inv_def fmpred_iff split: option.split)
  moreover have "distinct (map fst (sort xs)) = distinct (map fst xs)" for xs :: "(key \<times> key) list"
    by (rule mset_eq_imp_distinct_iff) simp
  ultimately show ?thesis by (simp add: expired_locks_def sorted_list_of_fset.rep_eq)
qed

text \<open>C35: expiring locks at a time releases exactly the activated jobs whose deadline is at or before that time and whose
  durability (a durable activation, a lease, or an agent task) is the requested one, if one is requested: they are created
  again and hold no worker and no deadline. No other job changes, one event is logged for each released job, and when no
  durability is requested no lock with such a deadline is left.\<close>

theorem expiry_releases_due_locks:
  assumes "job_index_inv (est e)" "job_keys_inv (est e)" and "expire_job_locks t durable (e, []) = (e', log)"
  shows "(\<forall>k. fmlookup (jobs (est e')) k = (case fmlookup (jobs (est e)) k of None \<Rightarrow> None | Some j \<Rightarrow>
          Some (if jb_state j = JActivated \<and> (\<exists>deadline \<le> t. jb_deadline j = Some deadline)
              \<and> durable \<in> {None, Some (jb_durable_activation j \<or> jb_lease_token j \<noteq> None \<or> job_supports_agent_instance e k)}
            then j\<lparr> jb_state := JCreated, jb_worker := None, jb_deadline := None, jb_activated_at := None, jb_activation_timeout := None \<rparr>
            else j)))
     \<and> distinct log \<and> set log = {EJob (JobLockExpired k (jb_instance_key j)) | k j. fmlookup (jobs (est e)) k = Some j
          \<and> fmlookup (jobs (est e')) k \<noteq> Some j}
     \<and> (durable = None \<longrightarrow> (\<forall>k j deadline. fmlookup (jobs (est e')) k = Some j \<and> jb_state j = JActivated
          \<and> jb_deadline j = Some deadline \<longrightarrow> t < deadline))"
proof -
  let ?due = "\<lambda>k j. jb_state j = JActivated \<and> (\<exists>deadline \<le> t. jb_deadline j = Some deadline)
    \<and> durable \<in> {None, Some (jb_durable_activation j \<or> jb_lease_token j \<noteq> None \<or> job_supports_agent_instance e k)}"
  have due: "lock_expired e t durable k \<longleftrightarrow> (\<exists>j. fmlookup (jobs (est e)) k = Some j \<and> ?due k j)" for k
    by (auto simp: lock_expired_def job_requires_durable_activation_def split: option.splits)
  have jobs: "fmlookup (jobs (est e')) k =
      (if lock_expired e t durable k then map_option unlock (fmlookup (jobs (est e)) k) else fmlookup (jobs (est e)) k)" for k
    using set_expired_locks [OF assms(1,2), of t durable] assms(3) by (auto simp: expire_job_locks_def fold_expire fold_expire_jobs)
  then have after: "fmlookup (jobs (est e')) k = (case fmlookup (jobs (est e)) k of None \<Rightarrow> None | Some j \<Rightarrow>
      Some (if ?due k j then j\<lparr> jb_state := JCreated, jb_worker := None, jb_deadline := None, jb_activated_at := None,
        jb_activation_timeout := None \<rparr> else j))" for k
    by (auto simp: due unlock_def split: option.split)
  have changed: "j\<lparr> jb_state := JCreated, jb_worker := None, jb_deadline := None, jb_activated_at := None,
      jb_activation_timeout := None \<rparr> \<noteq> j" if "jb_state j = JActivated" for j :: job
    using that by (auto dest!: arg_cong [of _ _ jb_state])
  have released: "lock_expired e t durable k \<longleftrightarrow> (\<exists>j. fmlookup (jobs (est e)) k = Some j \<and> fmlookup (jobs (est e')) k \<noteq> Some j)" for k
    unfolding due after by (auto simp: changed split: if_splits)
  have log: "log = map (\<lambda>(jk, ik). EJob (JobLockExpired jk ik)) (expired_locks e t durable)"
    using assms(3) by (auto simp: expire_job_locks_def fold_expire)
  have "distinct log" unfolding log using expired_keys_distinct [OF assms(2), of t durable]
    by (auto simp: distinct_map inj_on_def)
  moreover have "set log = {EJob (JobLockExpired k (jb_instance_key j)) | k j. fmlookup (jobs (est e)) k = Some j
      \<and> fmlookup (jobs (est e')) k \<noteq> Some j}"
    unfolding log using expired_pairs [OF assms(1,2), of t durable] released by fastforce
  moreover have "t < deadline" if "durable = None" "fmlookup (jobs (est e')) k = Some j" "jb_state j = JActivated"
    "jb_deadline j = Some deadline" for k j deadline
    using that by (auto simp: after not_le [symmetric] split: option.splits if_splits)
  ultimately show ?thesis using after by blast
qed

lemma locked_inv: "job_index_inv (est locked_engine)" "job_keys_inv (est locked_engine)"
proof -
  have "job_index_inv state_new" by (simp add: job_index_inv_def state_new_def activatable_set_def)
  then show "job_index_inv (est locked_engine)"
    by (simp add: locked_engine_def engine_of_def insert_job_inv state_new_def)
  show "job_keys_inv (est locked_engine)" by (auto simp: job_keys_inv_def fmpred_iff locked_jobs demo_job_def)
qed

theorem expiry_releases_due_locks_witness:
  "\<exists>j e' log. expire_job_locks 20 None (locked_engine, []) = (e', log) \<and> fmlookup (jobs (est e')) 4 = Some j
     \<and> jb_state j = JCreated \<and> jb_deadline j = None \<and> set log = {EJob (JobLockExpired 4 1)}"
proof -
  obtain e' log where run: "expire_job_locks 20 None (locked_engine, []) = (e', log)" by fastforce
  note w = expiry_releases_due_locks [OF locked_inv run]
  have four: "fmlookup (jobs (est e')) 4 = Some (demo_job 4 50\<lparr> jb_activated := True \<rparr>)"
    using conjunct1 [OF w, rule_format, of 4] by (simp add: locked_jobs) (simp add: demo_job_def)
  then have "set log = {EJob (JobLockExpired 4 1)}"
    using conjunct1 [OF conjunct2 [OF conjunct2 [OF w]]] by (auto simp: locked_jobs demo_job_def split: if_splits)
  with run four show ?thesis by (auto simp: demo_job_def)
qed

text \<open>Recovering a lease from the digest locks the job but leaves it in the activatable index: the
  index invariant breaks and the job is counted twice.\<close>

theorem recover_lease_double_counts:
  assumes "job_index_inv (est e)" "recover_lease jk deadline t e = (True, e')"
  shows "\<not> job_index_inv (est e') \<and> live_job_count (est e') = live_job_count (est e) + 1
     \<and> (\<exists>ty p. (p, jk) |\<in>| activatable_set (est e') ty) \<and> jk |\<in>| activated_jobs (est e')"
proof -
  from assms(2) obtain j where j: "fmlookup (jobs (est e)) jk = Some j" "jb_state j = JCreated"
    and e': "e' = e\<lparr> est := (est e)\<lparr> jobs := fmupd jk (j\<lparr> jb_state := JActivated, jb_worker := Some LEASE_DIGEST_WORKER,
        jb_deadline := Some deadline, jb_activated := True \<rparr>) (jobs (est e)), activated_jobs := finsert jk (activated_jobs (est e)) \<rparr> \<rparr>"
    by (auto simp: recover_lease_def split: if_splits option.splits)
  have entry: "(i32_neg (jb_priority j), jk) |\<in>| activatable_set (est e) (jb_job_type j)"
    using j by (simp add: index_entryD [OF assms(1)])
  have idx: "activatable_set (est e') = activatable_set (est e)" by (simp add: e' activatable_set_def fun_eq_iff)
  have "jk |\<notin>| activated_jobs (est e)" using j by (simp add: index_activatedD [OF assms(1)])
  then have "live_job_count (est e') = live_job_count (est e) + 1"
    by (simp add: live_job_count_def e' fcard_finsert_disjoint)
  moreover have "\<not> job_index_inv (est e')"
  proof
    assume "job_index_inv (est e')"
    from index_entryD [OF this, of "i32_neg (jb_priority j)" jk "jb_job_type j"] entry obtain j' where
      "fmlookup (jobs (est e')) jk = Some j'" "jb_state j' = JCreated" by (auto simp: idx)
    then show False by (auto simp: e')
  qed
  moreover have "jk |\<in>| activated_jobs (est e')" by (simp add: e')
  ultimately show ?thesis using entry idx by auto
qed

lemma demo_recover: "recover_lease 4 100 7 demo_engine = (True, snd (recover_lease 4 100 7 demo_engine))"
proof -
  have "\<not> job_requires_durable_activation demo_engine 4"
    by (simp add: job_requires_durable_activation_def job_supports_agent_instance_def agent_type_for_element_def
        element_kind_of_def process_of_instance_def demo_jobs demo_instances is_ok_def) (simp add: demo_job_def)
  then show ?thesis by (simp add: recover_lease_def demo_jobs) (simp add: demo_job_def)
qed

theorem recover_lease_double_counts_witness:
  "\<not> job_index_inv (est (snd (recover_lease 4 100 7 demo_engine)))
   \<and> live_job_count (est (snd (recover_lease 4 100 7 demo_engine))) = live_job_count (est demo_engine) + 1
   \<and> (\<exists>ty p. (p, 4) |\<in>| activatable_set (est (snd (recover_lease 4 100 7 demo_engine))) ty)
   \<and> 4 |\<in>| activated_jobs (est (snd (recover_lease 4 100 7 demo_engine)))"
  by (rule recover_lease_double_counts [OF demo_index demo_recover])

section \<open>Properties of suspension and updates\<close>

lemma emit_lifecycle_plain:
  "terminal_instance_key (ELifecycle le) = None \<Longrightarrow> est (fst (emit (ELifecycle le) (e, log))) = apply_lifecycle le (est e)"
  by (simp add: emit_simple emit_resolution_def emit_plain_def Let_def)

lemma suspended_jobs_untouched:
  assumes "fmlookup (jobs (est (fst el))) k = Some j" "instance_is_suspended (fst el) (jb_instance_key j)"
  shows "fmlookup (jobs (est (fst (apply_plan_keys plan seen ks el)))) k = Some j"
  using assms
proof (induction plan seen ks el rule: apply_plan_keys.induct)
  case (2 plan seen jk ks el)
  have "fmlookup (jobs (est (fst (activate_one plan jk el)))) k = Some j
    \<and> instance_is_suspended (fst (activate_one plan jk el)) (jb_instance_key j)" if "plan_accepts plan (fst el) jk"
  proof -
    have "k \<noteq> jk" using that 2(4,5) by (auto simp: plan_accepts_def)
    then show ?thesis using 2(4,5)
      by (cases el) (auto simp: activate_one_def Let_def case_prod_beta emit_job settles_def mint_key_def apply_JobActivated_def
          update_job_def instance_is_suspended_def)
  qed
  with 2 show ?case by simp
qed simp

text \<open>C36: suspending an active instance puts all its jobs out of reach of the workers: no selection returns one of them,
  whatever the type, the limit, the time and the lease mode, and activating jobs by key leaves them as they are. Resuming the
  instance gives the state back unchanged.\<close>

theorem suspend_resume_round_trip:
  assumes "fmlookup (instances (est e)) ik = Some i" "pi_state i = PIActive" "pi_suspended_at i = None"
  shows "\<exists>e1 e2 log1 log2. suspend_instance ik t e = Inr (e1, log1) \<and> resume_instance ik e1 = Inr (e2, log2)
     \<and> est e2 = est e \<and> length log1 = 1 \<and> length log2 = 1
     \<and> (\<forall>k j. fmlookup (jobs (est e)) k = Some j \<and> jb_instance_key j = ik \<longrightarrow>
          (\<forall>ty n now wl. k \<notin> set (select_activatable_job_keys e1 ty n now wl))
          \<and> (\<forall>ks w timeout now fetch wl.
               fmlookup (jobs (est (fst (activate_jobs_by_key_command ks w timeout now fetch wl e1)))) k = Some j))"
proof -
  let ?s1 = "apply_ProcessInstanceSuspended ik t (est e)"
  obtain e1 log1 where s: "emit (ELifecycle (ProcessInstanceSuspended ik t)) (e, []) = (e1, log1)" by fastforce
  have e1: "est e1 = ?s1" using emit_lifecycle_plain [of "ProcessInstanceSuspended ik t" e "[]"] s
    by (simp add: terminal_instance_key_def)
  have l1: "length log1 = 1" using s
    by (auto simp: emit_simple emit_resolution_def terminal_instance_key_def emit_plain_def Let_def)
  have i1: "fmlookup (instances (est e1)) ik = Some (i\<lparr> pi_state := PISuspended, pi_suspended_at := Some t \<rparr>)"
    using assms(1) by (simp add: e1 apply_ProcessInstanceSuspended_def on_instance_def)
  obtain e2 log2 where r: "emit (ELifecycle (ProcessInstanceResumed ik)) (e1, []) = (e2, log2)" by fastforce
  have e2: "est e2 = apply_ProcessInstanceResumed ik ?s1" using emit_lifecycle_plain [of "ProcessInstanceResumed ik" e1 "[]"] r
    by (simp add: terminal_instance_key_def e1)
  have l2: "length log2 = 1" using r
    by (auto simp: emit_simple emit_resolution_def terminal_instance_key_def emit_plain_def Let_def)
  have "instances (est e2) = instances (est e)"
    by (rule fmap_ext) (use assms in \<open>auto simp: e2 apply_ProcessInstanceResumed_def apply_ProcessInstanceSuspended_def on_instance_def\<close>)
  moreover have "est e2 = (est e)\<lparr> instances := instances (est e2) \<rparr>"
    by (simp add: e2 apply_ProcessInstanceResumed_def apply_ProcessInstanceSuspended_def on_instance_def)
  ultimately have undone: "est e2 = est e" by simp
  have susp: "instance_is_suspended e1 ik" using i1 by (simp add: instance_is_suspended_def)
  have jobs: "jobs (est e1) = jobs (est e)" by (simp add: e1 apply_ProcessInstanceSuspended_def on_instance_def)
  have "k \<notin> set (select_activatable_job_keys e1 ty n now wl)
      \<and> fmlookup (jobs (est (fst (activate_jobs_by_key_command ks w timeout now fetch wl e1)))) k = Some j"
    if "fmlookup (jobs (est e)) k = Some j" "jb_instance_key j = ik" for k j ty n now wl ks w timeout fetch
    using that susp suspended_jobs_untouched [of "(e1, [])" k j]
    by (auto simp: jobs select_activatable_job_keys_def eligible_def activate_jobs_by_key_command_def apply_activation_plan_def
        dest!: in_set_takeD)
  moreover have "suspend_instance ik t e = Inr (e1, log1)" "resume_instance ik e1 = Inr (e2, log2)"
    using assms i1 s r by (simp_all add: suspend_instance_def resume_instance_def)
  ultimately show ?thesis using undone l1 l2 by blast
qed

definition running_instance :: process_instance where
  "running_instance = \<lparr> pi_key = 1, pi_process_id = ''order'', pi_process_definition_key = 0, pi_state = PIActive,
     pi_suspended_at = None, pi_created_at = 0, pi_tags = [], pi_business_id = None, pi_parent_process_instance_key = None,
     pi_parent_element_instance_key = None, pi_active = fmempty, pi_scopes = fmempty, pi_variables = fmempty,
     pi_join_counts = fmempty, pi_join_flow_arrivals = fmempty, pi_join_instances = fmempty, pi_incidents = [],
     pi_variables_spilled = False, pi_multi_instances = fmempty, pi_adhoc_instances = fmempty, pi_scope_parents = fmempty,
     pi_scope_variables = fmempty, pi_compensable = [], pi_compensation_waits = fmempty, pi_agent_instances = fmempty,
     pi_agent_history = fmempty \<rparr>"

definition held_engine :: engine where
  "held_engine = demo_engine\<lparr> est := (est demo_engine)\<lparr> instances := fmupd 1 running_instance fmempty \<rparr> \<rparr>"

lemma held_selects: "select_activatable_job_keys held_engine ''pay'' 1 t wl = [5]"
proof -
  have "\<not> instance_is_suspended held_engine ik" for ik
    by (simp add: instance_is_suspended_def held_engine_def running_instance_def)
  moreover have "jobs (est held_engine) = jobs (est demo_engine)" by (simp add: held_engine_def)
  ultimately have "eligible held_engine t wl = eligible demo_engine t wl"
    by (simp add: fun_eq_iff eligible_def split: option.split)
  with demo_selects [of t wl] show ?thesis by (simp add: select_activatable_job_keys_def) (simp add: held_engine_def)
qed

theorem suspend_resume_round_trip_witness:
  "\<exists>e1 e2 log1 log2. suspend_instance 1 7 held_engine = Inr (e1, log1) \<and> resume_instance 1 e1 = Inr (e2, log2)
     \<and> 5 \<in> set (select_activatable_job_keys held_engine ''pay'' 1 0 False)
     \<and> 5 \<notin> set (select_activatable_job_keys e1 ''pay'' 1 0 False)
     \<and> 5 \<in> set (select_activatable_job_keys e2 ''pay'' 1 0 False)"
proof -
  have i: "fmlookup (instances (est held_engine)) 1 = Some running_instance" "pi_state running_instance = PIActive"
    "pi_suspended_at running_instance = None"
    by (simp_all add: held_engine_def running_instance_def)
  have j: "fmlookup (jobs (est held_engine)) 5 = Some (demo_job 5 70)" "jb_instance_key (demo_job 5 70) = 1"
    by (simp_all add: held_engine_def demo_jobs) (simp add: demo_job_def)
  from suspend_resume_round_trip [OF i, of 7] obtain e1 e2 log1 log2 where run: "suspend_instance 1 7 held_engine = Inr (e1, log1)"
      "resume_instance 1 e1 = Inr (e2, log2)" and same: "est e2 = est held_engine"
    and out: "5 \<notin> set (select_activatable_job_keys e1 ''pay'' 1 0 False)"
    using j by blast
  have "eligible e2 0 False = eligible held_engine 0 False"
    by (simp add: fun_eq_iff eligible_def instance_is_suspended_def same split: option.split)
  then have "select_activatable_job_keys e2 ''pay'' 1 0 False = [5]"
    using held_selects [of 0 False] by (simp add: select_activatable_job_keys_def same)
  with run out held_selects [of 0 False] show ?thesis by auto
qed

text \<open>A successful job update sets the retries (at least one) and the deadline of that job and
  nothing else: no other job, and none of the job indices, changes.\<close>

theorem update_job_effect:
  assumes "update_job_properties jk retries timeout opref tok (e, log) = Inr (e', log')" "fmlookup (jobs (est e)) jk = Some j"
  shows "jobs (est e') = fmupd jk (j\<lparr> jb_retries := (case retries of None \<Rightarrow> jb_retries j | Some r \<Rightarrow> r),
            jb_deadline := (case timeout of None \<Rightarrow> jb_deadline j | Some d \<Rightarrow> Some (saturating_add_signed (now e) d)) \<rparr>) (jobs (est e))
     \<and> activatable_jobs (est e') = activatable_jobs (est e) \<and> activated_jobs (est e') = activated_jobs (est e)
     \<and> jb_state j \<notin> {JCompleted, JCanceled} \<and> (\<forall>r. retries = Some r \<longrightarrow> 1 \<le> r)
     \<and> (timeout \<noteq> None \<longrightarrow> jb_state j = JActivated \<and> jb_deadline j \<noteq> None)"
proof -
  have g: "jb_state j \<notin> {JCompleted, JCanceled}" "\<forall>r. retries = Some r \<longrightarrow> 1 \<le> r"
    "timeout \<noteq> None \<longrightarrow> jb_state j = JActivated \<and> jb_deadline j \<noteq> None"
    using assms by (auto simp: update_job_properties_def split: if_splits option.splits)
  have upd: "fmupd jk y (fmupd jk x m) = fmupd jk y m" for x y and m :: "(key, job) fmap" by (rule fmap_ext) simp
  have same: "fmupd jk j (jobs (est e)) = jobs (est e)" using assms(2) by (intro fmap_ext) auto
  show ?thesis using assms g
    by (cases retries; cases timeout)
      (auto simp: update_job_properties_def emit_job settles_def Let_def apply_JobRetriesUpdated_def apply_JobTimeoutUpdated_def
        get_mut_def upd same split: if_splits option.splits)
qed

theorem update_job_effect_witness:
  "jobs (est (fst (projr (update_job_properties 4 (Some 9) None None None (locked_engine, []))))) =
     fmupd 4 ((demo_job 4 50)\<lparr> jb_state := JActivated, jb_activated := True, jb_retries := 9, jb_deadline := Some 20 \<rparr>)
       (jobs (est locked_engine))"
proof -
  let ?j = "(demo_job 4 50)\<lparr> jb_state := JActivated, jb_deadline := Some 20, jb_activated := True \<rparr>"
  have lk: "fmlookup (jobs (est locked_engine)) 4 = Some ?j" by (simp add: locked_jobs)
  have "\<exists>e' log'. update_job_properties 4 (Some 9) None None None (locked_engine, []) = Inr (e', log')"
    by (simp add: update_job_properties_def lk validate_job_lease_def nonempty_def emit_job settles_def Let_def)
      (simp add: demo_job_def)
  then obtain e' log' where u: "update_job_properties 4 (Some 9) None None None (locked_engine, []) = Inr (e', log')" by blast
  from update_job_effect [OF u lk] show ?thesis by (simp add: u)
qed

end
