(* ===== verification/Memory.thy ===== *)
theory Memory
  imports Jobs Entity_Keys
begin

text \<open>
  Bounding hot state, \<open>engine-core/src/engine/memory.rs\<close>: snapshots and recovery, dirty-variable
  tracking, eviction and retirement of instances, variable spill and cold spill. Iteration over a
  hash set is modelled in ascending key order; where the result depends on the order
  (\<open>retire_below\<close> keeps a prefix of the iteration) the order is an argument.
\<close>

section \<open>Snapshots and recovery\<close>

record engine_snapshot =
  es_state :: state
  es_partition_id :: u64
  es_next_local :: u64
  es_num_partitions :: u64
  es_now :: u64
  es_start_dispatch_rr :: u64

definition snapshot :: "engine \<Rightarrow> engine_snapshot" where
  "snapshot e = \<lparr> es_state = est e, es_partition_id = partition_id e, es_next_local = next_local e,
     es_num_partitions = num_partitions e, es_now = now e, es_start_dispatch_rr = start_dispatch_rr e \<rparr>"

definition normalize_deployed :: "deployed_process \<Rightarrow> deployed_process" where
  "normalize_deployed d = d\<lparr> dp_definition := normalize_legacy_agent_tasks (dp_definition d) \<rparr>"

definition normalize_state :: "state \<Rightarrow> state" where
  "normalize_state s = s\<lparr> processes := fmmap normalize_deployed (processes s),
     process_versions := fmmap normalize_deployed (process_versions s) \<rparr>"

definition from_snapshot :: "engine_snapshot \<Rightarrow> engine option" where
  "from_snapshot sn =
     (if es_partition_id sn \<le> MAX_PARTITION_ID
      then Some \<lparr> est = normalize_state (es_state sn), partition_id = es_partition_id sn,
        next_local = es_next_local sn, num_partitions = max (es_num_partitions sn) 1, now = es_now sn,
        start_dispatch_rr = es_start_dispatch_rr sn, lenient_completion = False, track_dirty_vars = False,
        dirty_vars = {||}, forgotten_vars = {||}, retired_tombstones = {||}, torn_down_scopes = {||}, cluster_variables = no_cluster_variables \<rparr>
      else None)"

definition apply_replayed_events :: "event list \<Rightarrow> engine \<Rightarrow> engine" where
  "apply_replayed_events events e = fold (\<lambda>ev g.
     g\<lparr> next_local := advance_local (partition_id g) ev (next_local g), est := apply_event ev (est g) \<rparr>) events e"

section \<open>Dirty variables and lean snapshots\<close>

definition set_track_dirty_vars :: "bool \<Rightarrow> engine \<Rightarrow> engine" where
  "set_track_dirty_vars on e = e\<lparr> track_dirty_vars := on \<rparr>"

definition mark_all_dirty :: "engine \<Rightarrow> engine" where
  "mark_all_dirty e = e\<lparr> dirty_vars := fmdom (instances (est e)), forgotten_vars := {||} \<rparr>"

definition drain_dirty_vars :: "engine \<Rightarrow> ((key \<times> vars) list \<times> key list) \<times> engine" where
  "drain_dirty_vars e =
     (let upserts = List.map_filter (\<lambda>k. case fmlookup (instances (est e)) k of
              None \<Rightarrow> None
            | Some i \<Rightarrow> if pi_variables_spilled i then None else Some (k, pi_variables i))
            (sorted_list_of_fset (dirty_vars e));
          forgets = sorted_list_of_fset (forgotten_vars e)
      in ((upserts, forgets), e\<lparr> dirty_vars := {||}, forgotten_vars := {||} \<rparr>))"

definition snapshot_control_only :: "engine \<Rightarrow> engine_snapshot" where
  "snapshot_control_only e = (snapshot e)\<lparr> es_state := (est e)\<lparr> instances :=
     fmmap (\<lambda>i. if pi_variables i \<noteq> fmempty then i\<lparr> pi_variables := fmempty \<rparr> else i) (instances (est e)) \<rparr> \<rparr>"

definition install_variables :: "key \<Rightarrow> vars \<Rightarrow> engine \<Rightarrow> engine" where
  "install_variables k vs e = e\<lparr> est := (est e)\<lparr> instances :=
     get_mut k (\<lambda>i. i\<lparr> pi_variables := vs, pi_variables_spilled := False \<rparr>) (instances (est e)) \<rparr> \<rparr>"

section \<open>Eviction and retirement\<close>

definition drop_job :: "key \<Rightarrow> state \<Rightarrow> state" where
  "drop_job jk s = (case fmlookup (jobs s) jk of
     None \<Rightarrow> s
   | Some j \<Rightarrow> deindex_job (jb_job_type j) jk (jb_priority j) (s\<lparr> jobs := fmdrop jk (jobs s) \<rparr>))"

definition drop_jobs_of :: "key \<Rightarrow> state \<Rightarrow> state" where
  "drop_jobs_of k s = (case fmlookup (jobs_by_instance s) k of
     None \<Rightarrow> s
   | Some job_keys \<Rightarrow>
       fold drop_job (sorted_list_of_fset job_keys) (s\<lparr> jobs_by_instance := fmdrop k (jobs_by_instance s) \<rparr>))"

definition terminal_resident :: "engine \<Rightarrow> key \<Rightarrow> bool" where
  "terminal_resident e k = (case fmlookup (instances (est e)) k of None \<Rightarrow> False | Some i \<Rightarrow> pi_terminal (pi_state i))"

definition evict_instance :: "key \<Rightarrow> engine \<Rightarrow> bool \<times> engine" where
  "evict_instance k e =
     (if \<not> terminal_resident e k then (False, e)
      else let s1 = drop_jobs_of k ((est e)\<lparr> instances := fmdrop k (instances (est e)) \<rparr>)
           in (True, e\<lparr> est := s1\<lparr>
                timers := fmretain (\<lambda>t. tm_instance_key t \<noteq> k) (timers s1),
                message_subscriptions := fmretain (\<lambda>m. ms_instance_key m \<noteq> k) (message_subscriptions s1),
                incidents := fmretain (\<lambda>i. inc_instance_key i \<noteq> k) (incidents s1) \<rparr> \<rparr>))"

definition remove_one :: "key \<Rightarrow> state \<Rightarrow> state" where
  "remove_one k s = drop_jobs_of k (s\<lparr> instances := fmdrop k (instances s) \<rparr>)"

definition remove_instance_set :: "key fset \<Rightarrow> engine \<Rightarrow> nat \<times> engine" where
  "remove_instance_set victims e =
     (if victims = {||} then (0, e)
      else let e1 = (if track_dirty_vars e
                     then e\<lparr> dirty_vars := dirty_vars e |-| victims, forgotten_vars := forgotten_vars e |\<union>| victims \<rparr>
                     else e);
               s1 = fold remove_one (sorted_list_of_fset victims) (est e1)
           in (fcard victims, e1\<lparr> est := s1\<lparr>
                timers := fmretain (\<lambda>t. tm_instance_key t |\<notin>| victims) (timers s1),
                message_subscriptions := fmretain (\<lambda>m. ms_instance_key m |\<notin>| victims) (message_subscriptions s1),
                incidents := fmretain (\<lambda>i. inc_instance_key i |\<notin>| victims) (incidents s1) \<rparr> \<rparr>))"

definition evict_instances :: "key list \<Rightarrow> engine \<Rightarrow> nat \<times> engine" where
  "evict_instances ks e = remove_instance_set (fset_of_list (filter (terminal_resident e) ks)) e"

definition MAX_TOMBSTONES :: nat where
  "MAX_TOMBSTONES = 2 ^ 20"

definition retire_instances :: "key list \<Rightarrow> engine \<Rightarrow> nat \<times> engine" where
  "retire_instances ks e =
     (let (victims, e1) = fold (\<lambda>k (victims, g).
            if k |\<in>| fmdom (instances (est g)) then (finsert k victims, g)
            else if fcard (retired_tombstones g) < MAX_TOMBSTONES
              then (victims, g\<lparr> retired_tombstones := finsert k (retired_tombstones g) \<rparr>)
            else (victims, g)) ks ({||}, e)
      in remove_instance_set victims e1)"

definition reap_tombstoned :: "key list \<Rightarrow> engine \<Rightarrow> nat \<times> engine" where
  "reap_tombstoned created e =
     (if retired_tombstones e = {||} then (0, e)
      else let hit = fset_of_list created |\<inter>| retired_tombstones e
           in remove_instance_set hit (e\<lparr> retired_tombstones := retired_tombstones e |-| hit \<rparr>))"

definition created_instance :: "event \<Rightarrow> key option" where
  "created_instance ev = (case ev of EVariable (ProcessInstanceCreated ik _ _ _ _ _ _ _ _ _) \<Rightarrow> Some ik | _ \<Rightarrow> None)"

definition finish_command :: "event list \<Rightarrow> engine \<Rightarrow> engine" where
  "finish_command log e =
     (if retired_tombstones e = {||} then e
      else let created = List.map_filter created_instance log
           in if created = [] then e else snd (reap_tombstoned created e))"

definition active_keys :: "engine \<Rightarrow> key list" where
  "active_keys e = map pi_key (filter (\<lambda>i. pi_state i = PIActive) (map snd (sorted_list_of_fmap (instances (est e)))))"

definition retirement_low_water :: "engine \<Rightarrow> key" where
  "retirement_low_water e = (case active_keys e of
     [] \<Rightarrow> compose_key (partition_id e) (saturating_add (next_local e) 1)
   | k # ks \<Rightarrow> fold min ks k)"

definition retire_below :: "key list \<Rightarrow> key \<Rightarrow> nat \<Rightarrow> engine \<Rightarrow> key list \<times> engine" where
  "retire_below iteration low_water max_remove e =
     (if instances (est e) = fmempty \<or> max_remove = 0 then ([], e)
      else let victims = take max_remove (filter (\<lambda>k. k < low_water) iteration)
           in if victims = [] then (victims, e)
              else let e1 = (if retired_tombstones e \<noteq> {||}
                             then e\<lparr> retired_tombstones := ffilter (\<lambda>k. low_water \<le> k) (retired_tombstones e) \<rparr>
                             else e)
                   in (victims, snd (remove_instance_set (fset_of_list victims) e1)))"

definition evict_completed :: "engine \<Rightarrow> nat \<times> engine" where
  "evict_completed e =
     (let fin = filter (terminal_resident e) (sorted_list_of_fset (fmdom (instances (est e))))
      in (length fin, fold (\<lambda>k g. snd (evict_instance k g)) fin e))"

section \<open>Variable spill\<close>

definition is_variables_spilled :: "engine \<Rightarrow> key \<Rightarrow> bool" where
  "is_variables_spilled e k = (case fmlookup (instances (est e)) k of None \<Rightarrow> False | Some i \<Rightarrow> pi_variables_spilled i)"

definition spill_variables :: "key \<Rightarrow> engine \<Rightarrow> (vars \<times> engine) option" where
  "spill_variables k e = (case fmlookup (instances (est e)) k of
     None \<Rightarrow> None
   | Some i \<Rightarrow>
       (if pi_variables_spilled i \<or> pi_variables i = fmempty then None
        else Some (pi_variables i, e\<lparr> est := (est e)\<lparr> instances :=
               fmupd k (i\<lparr> pi_variables_spilled := True, pi_variables := fmempty \<rparr>) (instances (est e)) \<rparr> \<rparr>)))"

definition rehydrate_variables :: "key \<Rightarrow> vars \<Rightarrow> engine \<Rightarrow> engine" where
  "rehydrate_variables k vs e = e\<lparr> est := (est e)\<lparr> instances :=
     get_mut k (\<lambda>i. i\<lparr> pi_variables := vs, pi_variables_spilled := False \<rparr>) (instances (est e)) \<rparr> \<rparr>"

definition instances_with_async_token :: "engine \<Rightarrow> key fset" where
  "instances_with_async_token e =
     (let s = est e in
      if timers s = fmempty \<and> message_subscriptions s = fmempty \<and> conditional_subscriptions s = fmempty then {||}
      else tm_instance_key |`| ffilter (\<lambda>t. tm_state t = TMCreated) (fmran (timers s))
         |\<union>| ms_instance_key |`| ffilter (\<lambda>m. ms_state m \<in> {SubOpen, SubOpening}) (fmran (message_subscriptions s))
         |\<union>| cd_instance_key |`| ffilter (\<lambda>c. cd_state c = SubOpen) (fmran (conditional_subscriptions s)))"

definition is_spillable :: "engine \<Rightarrow> key \<Rightarrow> process_instance \<Rightarrow> key fset \<Rightarrow> bool" where
  "is_spillable e k i guarded \<longleftrightarrow> pi_state i = PIActive \<and> \<not> pi_variables_spilled i \<and> pi_variables i \<noteq> fmempty
     \<and> k |\<notin>| guarded
     \<and> (case fmlookup (jobs_by_instance (est e)) k of None \<Rightarrow> False | Some ks \<Rightarrow> ks \<noteq> {||})"

definition spillable_instances :: "nat \<Rightarrow> engine \<Rightarrow> key list" where
  "spillable_instances limit e =
     (if limit = 0 then []
      else let guarded = instances_with_async_token e
           in take limit (sort (map fst (filter (\<lambda>(k, i). is_spillable e k i guarded)
                (sorted_list_of_fmap (instances (est e)))))))"

definition resident_spillable_count :: "engine \<Rightarrow> nat" where
  "resident_spillable_count e =
     (let guarded = instances_with_async_token e
      in length (filter (\<lambda>(k, i). is_spillable e k i guarded) (sorted_list_of_fmap (instances (est e)))))"

definition resident_instance_count :: "engine \<Rightarrow> nat" where
  "resident_instance_count e = fcard (fmdom (instances (est e)))"

definition backlog_by_process :: "engine \<Rightarrow> (string \<times> nat \<times> nat) list" where
  "backlog_by_process e =
     map (\<lambda>(pid, created). (pid, (case fmlookup (inflight_by_process (est e)) pid of None \<Rightarrow> 0 | Some n \<Rightarrow> n), created))
       (sorted_list_of_fmap (created_by_process (est e)))"

definition vars_bytes :: "vars \<Rightarrow> u64" where
  "vars_bytes vs = sum_list (map (\<lambda>(_, v). approx_bytes v) (sorted_list_of_fmap vs))"

definition resident_variable_bytes :: "engine \<Rightarrow> u64" where
  "resident_variable_bytes e =
     sum_list (map (\<lambda>(_, i). vars_bytes (pi_variables i)
         + sum_list (map (\<lambda>(_, m). vars_bytes m) (sorted_list_of_fmap (pi_scope_variables i))))
       (sorted_list_of_fmap (instances (est e))))"

section \<open>Cold spill\<close>

definition is_cold_spillable :: "engine \<Rightarrow> key \<Rightarrow> process_instance \<Rightarrow> bool" where
  "is_cold_spillable e k i =
     (if pi_state i \<noteq> PIActive \<or> pi_active i = fmempty \<or> pi_variables_spilled i then False
      else case fmlookup (jobs_by_instance (est e)) k of
        Some ks \<Rightarrow> \<not> fBex ks (\<lambda>j. j |\<in>| activated_jobs (est e))
      | None \<Rightarrow> True)"

definition cold_spillable_instances :: "nat \<Rightarrow> engine \<Rightarrow> key list" where
  "cold_spillable_instances limit e =
     (if limit = 0 then []
      else take limit (sort (map fst (filter (\<lambda>(k, i). is_cold_spillable e k i)
             (sorted_list_of_fmap (instances (est e)))))))"

definition cold_spillable_count :: "engine \<Rightarrow> nat" where
  "cold_spillable_count e =
     length (filter (\<lambda>(k, i). is_cold_spillable e k i) (sorted_list_of_fmap (instances (est e))))"

definition drain_owned :: "('v \<Rightarrow> key) \<Rightarrow> (key, 'v) fmap \<Rightarrow> key \<Rightarrow> 'v list \<times> (key, 'v) fmap" where
  "drain_owned owner m ik =
     (map snd (filter (\<lambda>(k, v). owner v = ik) (sorted_list_of_fmap m)), fmretain (\<lambda>v. owner v \<noteq> ik) m)"

definition drain_job :: "key \<Rightarrow> job list \<times> state \<Rightarrow> job list \<times> state" where
  "drain_job jk acc = (case fmlookup (jobs (snd acc)) jk of
     None \<Rightarrow> acc
   | Some j \<Rightarrow> (fst acc @ [j], drop_job jk (snd acc)))"

definition drain_jobs_of :: "key \<Rightarrow> state \<Rightarrow> job list \<times> state" where
  "drain_jobs_of k s = (case fmlookup (jobs_by_instance s) k of
     None \<Rightarrow> ([], s)
   | Some job_keys \<Rightarrow>
       fold drain_job (sorted_list_of_fset job_keys) ([], s\<lparr> jobs_by_instance := fmdrop k (jobs_by_instance s) \<rparr>))"

definition snapshot_instance :: "key \<Rightarrow> engine \<Rightarrow> (instance_snapshot \<times> engine) option" where
  "snapshot_instance k e = (case fmlookup (instances (est e)) k of
     None \<Rightarrow> None
   | Some i \<Rightarrow>
       (if pi_state i \<noteq> PIActive \<or> pi_variables_spilled i then None
        else
          (let (js, s) = drain_jobs_of k (est e);
               (tms, timers') = drain_owned tm_instance_key (timers s) k;
               (mss, message_subscriptions') = drain_owned ms_instance_key (message_subscriptions s) k;
               (sss, signal_subscriptions') = drain_owned ss_instance_key (signal_subscriptions s) k;
               (cds, conditional_subscriptions') = drain_owned cd_instance_key (conditional_subscriptions s) k;
               (uts, user_tasks') = drain_owned ut_instance_key (user_tasks s) k;
               (incs, incidents') = drain_owned inc_instance_key (incidents s) k
           in Some (\<lparr> is_instance = i, is_jobs = js, is_timers = tms, is_message_subscriptions = mss,
                      is_signal_subscriptions = sss, is_conditional_subscriptions = cds, is_user_tasks = uts,
                      is_incidents = incs \<rparr>,
                    e\<lparr> est := s\<lparr> timers := timers', message_subscriptions := message_subscriptions',
                      signal_subscriptions := signal_subscriptions',
                      conditional_subscriptions := conditional_subscriptions', user_tasks := user_tasks',
                      incidents := incidents', instances := fmdrop k (instances s) \<rparr> \<rparr>))))"

definition restore_job :: "key \<Rightarrow> job \<Rightarrow> state \<Rightarrow> state" where
  "restore_job k j s = resync_job_index (jb_key j) (s\<lparr>
     jobs_by_instance := entry_or k {||} (finsert (jb_key j)) (jobs_by_instance s),
     jobs := fmupd (jb_key j) j (jobs s) \<rparr>)"

definition insert_all :: "('v \<Rightarrow> key) \<Rightarrow> 'v list \<Rightarrow> (key, 'v) fmap \<Rightarrow> (key, 'v) fmap" where
  "insert_all own vs m = fold (\<lambda>v. fmupd (own v) v) vs m"

definition rehydrate_instance :: "instance_snapshot \<Rightarrow> engine \<Rightarrow> engine" where
  "rehydrate_instance sn e =
     (let k = pi_key (is_instance sn);
          s1 = (est e)\<lparr> instances := fmupd k (is_instance sn) (instances (est e)) \<rparr>;
          s2 = fold (restore_job k) (is_jobs sn) s1
      in e\<lparr> est := s2\<lparr> timers := insert_all tm_key (is_timers sn) (timers s2),
           message_subscriptions := insert_all ms_key (is_message_subscriptions sn) (message_subscriptions s2),
           signal_subscriptions := insert_all ss_key (is_signal_subscriptions sn) (signal_subscriptions s2),
           conditional_subscriptions :=
             insert_all cd_key (is_conditional_subscriptions sn) (conditional_subscriptions s2),
           user_tasks := insert_all ut_key (is_user_tasks sn) (user_tasks s2),
           incidents := insert_all inc_key (is_incidents sn) (incidents s2) \<rparr> \<rparr>)"

section \<open>Recovery\<close>

lemma replayed_fold:
  "apply_replayed_events events e = e\<lparr>
     est := fst (foldl (replay_step (partition_id e)) (est e, next_local e) events),
     next_local := snd (foldl (replay_step (partition_id e)) (est e, next_local e) events) \<rparr>"
proof (induction events arbitrary: e)
  case (Cons ev events)
  show ?case using Cons.IH [of "e\<lparr> next_local := advance_local (partition_id e) ev (next_local e), est := apply_event ev (est e) \<rparr>"]
    by (simp add: apply_replayed_events_def)
qed (simp add: apply_replayed_events_def)

lemma replay_then_tail:
  assumes "replay_partition pid log = Some e1"
  shows "replay_partition pid (log @ tail) = Some (apply_replayed_events tail e1)"
  using assms by (auto simp: replay_partition_def replayed_fold engine_of_def split: if_splits prod.splits)

lemma from_snapshot_replayed:
  "replay_partition pid log = Some e1 \<Longrightarrow> normalize_state (est e1) = est e1 \<Longrightarrow> from_snapshot (snapshot e1) = Some e1"
  by (auto simp: replay_partition_def from_snapshot_def snapshot_def engine_of_def split: if_splits prod.splits)

lemma normalize_element_idem: "normalize_element (normalize_element x) = normalize_element x"
  by (simp add: normalize_element_def split: element_kind.split option.split)

section \<open>Dropping the jobs of an instance\<close>

lemma drop_job_frame [simp]:
  "jobs (drop_job k s) = fmdrop k (jobs s)" "jobs_by_instance (drop_job k s) = jobs_by_instance s"
  "instances (drop_job k s) = instances s" "timers (drop_job k s) = timers s"
  "message_subscriptions (drop_job k s) = message_subscriptions s"
  "signal_subscriptions (drop_job k s) = signal_subscriptions s"
  "conditional_subscriptions (drop_job k s) = conditional_subscriptions s"
  "user_tasks (drop_job k s) = user_tasks s" "incidents (drop_job k s) = incidents s"
  "inflight_by_process (drop_job k s) = inflight_by_process s"
  by (auto simp: drop_job_def deindex_job_def fmdrop_fmupd split: option.split intro: fmap_ext)

lemma drop_job_index:
  assumes "job_index_inv s"
  shows "job_index_inv (drop_job k s)"
proof (cases "fmlookup (jobs s) k")
  case None
  then show ?thesis using assms by (simp add: drop_job_def)
next
  case (Some j)
  let ?s = "drop_job k s"
  have idx: "activatable_set ?s ty = (if ty = jb_job_type j then activatable_set s ty |-| {|activation_order (jb_priority j) k|}
      else activatable_set s ty)" for ty
    using Some by (simp add: drop_job_def deindex_job_def activatable_set_lookup)
  have "(p, k') |\<in>| activatable_set ?s ty \<longleftrightarrow>
      (\<exists>j. fmlookup (jobs ?s) k' = Some j \<and> jb_state j = JCreated \<and> jb_job_type j = ty \<and> p = i32_neg (jb_priority j))" for ty p k'
    using Some by (cases "k' = k") (auto simp: idx index_entryD [OF assms] activation_order_def)
  moreover have "k' |\<in>| activated_jobs ?s \<longleftrightarrow> (\<exists>j. fmlookup (jobs ?s) k' = Some j \<and> jb_state j = JActivated)" for k'
    using Some by (cases "k' = k") (auto simp: drop_job_def deindex_job_def index_activatedD [OF assms])
  moreover have "fmlookup (activatable_jobs ?s) ty \<noteq> Some {||}" for ty
    using Some set_remove_nonempty [OF index_nonempty [OF assms]] by (simp add: drop_job_def deindex_job_def)
  ultimately show ?thesis unfolding job_index_inv_def activation_order_snd by simp
qed

lemma fold_drop_job_frame [simp]:
  "jobs (fold drop_job ks s) = fmfilter (\<lambda>k. k \<notin> set ks) (jobs s)"
  "jobs_by_instance (fold drop_job ks s) = jobs_by_instance s" "instances (fold drop_job ks s) = instances s"
  "timers (fold drop_job ks s) = timers s" "message_subscriptions (fold drop_job ks s) = message_subscriptions s"
  "signal_subscriptions (fold drop_job ks s) = signal_subscriptions s"
  "conditional_subscriptions (fold drop_job ks s) = conditional_subscriptions s"
  "user_tasks (fold drop_job ks s) = user_tasks s" "incidents (fold drop_job ks s) = incidents s"
  "inflight_by_process (fold drop_job ks s) = inflight_by_process s"
proof -
  show "jobs (fold drop_job ks s) = fmfilter (\<lambda>k. k \<notin> set ks) (jobs s)"
    by (induction ks arbitrary: s) (auto intro: fmap_ext)
qed (induction ks arbitrary: s; simp)+

lemma fold_drop_job_index: "job_index_inv s \<Longrightarrow> job_index_inv (fold drop_job ks s)"
  by (induction ks arbitrary: s) (simp_all add: drop_job_index)

lemma drop_jobs_of_frame [simp]:
  "instances (drop_jobs_of k s) = instances s" "timers (drop_jobs_of k s) = timers s"
  "message_subscriptions (drop_jobs_of k s) = message_subscriptions s"
  "signal_subscriptions (drop_jobs_of k s) = signal_subscriptions s"
  "conditional_subscriptions (drop_jobs_of k s) = conditional_subscriptions s"
  "user_tasks (drop_jobs_of k s) = user_tasks s" "incidents (drop_jobs_of k s) = incidents s"
  "inflight_by_process (drop_jobs_of k s) = inflight_by_process s"
  "jobs_by_instance (drop_jobs_of k s) = fmdrop k (jobs_by_instance s)"
  by (auto simp: drop_jobs_of_def split: option.split intro: fmap_ext)

lemma drop_jobs_of_index: "job_index_inv s \<Longrightarrow> job_index_inv (drop_jobs_of k s)"
  by (auto simp: drop_jobs_of_def intro!: fold_drop_job_index elim: job_index_inv_frame split: option.split)

text \<open>Under the owner invariant, the jobs dropped are exactly those of the instance.\<close>

lemma jobs_drop_jobs_of:
  assumes "owner_inv s"
  shows "jobs (drop_jobs_of k s) = fmretain (\<lambda>j. jb_instance_key j \<noteq> k) (jobs s)"
proof (rule fmap_ext)
  fix jk
  have "(\<exists>ks. fmlookup (jobs_by_instance s) k = Some ks \<and> jk |\<in>| ks) \<longleftrightarrow>
      (\<exists>j. fmlookup (jobs s) jk = Some j \<and> jb_instance_key j = k)"
    using assms by (simp add: owner_inv_def)
  then show "fmlookup (jobs (drop_jobs_of k s)) jk = fmlookup (fmretain (\<lambda>j. jb_instance_key j \<noteq> k) (jobs s)) jk"
    by (auto simp: drop_jobs_of_def split: option.splits)
qed

lemma drop_jobs_of_owner:
  assumes "owner_inv s"
  shows "owner_inv (drop_jobs_of k s)"
  using assms unfolding owner_inv_def jobs_drop_jobs_of [OF assms]
  by (auto split: option.splits)

section \<open>Removing instances\<close>

text \<open>What a state looks like once a set of instances has been removed: the instances, their jobs,
  timers, message subscriptions and incidents are gone, everything else is as before.\<close>

definition removed :: "key fset \<Rightarrow> state \<Rightarrow> state \<Rightarrow> bool" where
  "removed V s s' \<longleftrightarrow> instances s' = fmdrop_fset V (instances s)
     \<and> jobs s' = fmretain (\<lambda>j. jb_instance_key j |\<notin>| V) (jobs s)
     \<and> timers s' = fmretain (\<lambda>t. tm_instance_key t |\<notin>| V) (timers s)
     \<and> message_subscriptions s' = fmretain (\<lambda>m. ms_instance_key m |\<notin>| V) (message_subscriptions s)
     \<and> incidents s' = fmretain (\<lambda>i. inc_instance_key i |\<notin>| V) (incidents s)
     \<and> user_tasks s' = user_tasks s \<and> signal_subscriptions s' = signal_subscriptions s
     \<and> conditional_subscriptions s' = conditional_subscriptions s
     \<and> inflight_by_process s' = inflight_by_process s"

lemma fmretain_True [simp]: "fmretain (\<lambda>_. True) m = m"
  by (rule fmap_ext) (simp split: option.split)

lemma fmdrop_fset_filter: "fmdrop_fset V m = fmfilter (\<lambda>k. k |\<notin>| V) m"
  by (rule fmap_ext) simp

lemma owner_inv_frame: "owner_inv s \<Longrightarrow> jobs s' = jobs s \<Longrightarrow> jobs_by_instance s' = jobs_by_instance s \<Longrightarrow> owner_inv s'"
  by (simp add: owner_inv_def)

lemma remove_one_inv:
  assumes "job_index_inv s" "owner_inv s"
  shows "job_index_inv (remove_one k s)" "owner_inv (remove_one k s)"
proof -
  let ?s = "s\<lparr> instances := fmdrop k (instances s) \<rparr>"
  have "job_index_inv ?s" "owner_inv ?s" using assms by (auto intro: job_index_inv_frame owner_inv_frame)
  then show "job_index_inv (remove_one k s)" "owner_inv (remove_one k s)"
    by (simp_all add: remove_one_def drop_jobs_of_index drop_jobs_of_owner)
qed

lemma jobs_remove_one:
  assumes "owner_inv s"
  shows "jobs (remove_one k s) = fmretain (\<lambda>j. jb_instance_key j \<noteq> k) (jobs s)"
proof -
  have "owner_inv (s\<lparr> instances := fmdrop k (instances s) \<rparr>)" using assms by (auto intro: owner_inv_frame)
  from jobs_drop_jobs_of [OF this] show ?thesis by (simp add: remove_one_def)
qed

lemma fold_remove_one_all:
  assumes "job_index_inv s" "owner_inv s"
  shows "job_index_inv (fold remove_one ks s) \<and> owner_inv (fold remove_one ks s)
    \<and> jobs (fold remove_one ks s) = fmretain (\<lambda>j. jb_instance_key j \<notin> set ks) (jobs s)"
  using assms
proof (induction ks arbitrary: s)
  case (Cons k ks)
  note IH = Cons.IH [OF remove_one_inv [OF Cons.prems, of k]]
  have "jobs (fold remove_one (k # ks) s) = fmretain (\<lambda>j. jb_instance_key j \<notin> set (k # ks)) (jobs s)"
    by (rule fmap_ext) (simp add: IH jobs_remove_one [OF Cons.prems(2)] split: option.split)
  with IH show ?case by simp
qed simp

lemmas fold_remove_one = fold_remove_one_all [THEN conjunct1] fold_remove_one_all [THEN conjunct2, THEN conjunct1]
  fold_remove_one_all [THEN conjunct2, THEN conjunct2]

lemma fold_remove_one_frame [simp]:
  "instances (fold remove_one ks s) = fmfilter (\<lambda>k. k \<notin> set ks) (instances s)"
  "timers (fold remove_one ks s) = timers s" "message_subscriptions (fold remove_one ks s) = message_subscriptions s"
  "signal_subscriptions (fold remove_one ks s) = signal_subscriptions s"
  "conditional_subscriptions (fold remove_one ks s) = conditional_subscriptions s"
  "user_tasks (fold remove_one ks s) = user_tasks s" "incidents (fold remove_one ks s) = incidents s"
  "inflight_by_process (fold remove_one ks s) = inflight_by_process s"
proof -
  show "instances (fold remove_one ks s) = fmfilter (\<lambda>k. k \<notin> set ks) (instances s)"
    by (induction ks arbitrary: s) (auto simp: remove_one_def intro: fmap_ext)
qed (induction ks arbitrary: s; simp add: remove_one_def)+

lemma removed_empty [simp]: "removed {||} s s"
  by (simp add: removed_def)

lemma remove_instance_set_removed:
  assumes "job_index_inv (est e)" "owner_inv (est e)"
  shows "removed V (est e) (est (snd (remove_instance_set V e)))"
    and "job_index_inv (est (snd (remove_instance_set V e)))"
    and "owner_inv (est (snd (remove_instance_set V e)))"
    and "fst (remove_instance_set V e) = fcard V"
proof -
  let ?s = "fold remove_one (sorted_list_of_fset V) (est e)"
  note f = fold_remove_one [OF assms, of "sorted_list_of_fset V"]
  have eq: "est (snd (remove_instance_set V e)) = (if V = {||} then est e else ?s\<lparr>
      timers := fmretain (\<lambda>t. tm_instance_key t |\<notin>| V) (timers ?s),
      message_subscriptions := fmretain (\<lambda>m. ms_instance_key m |\<notin>| V) (message_subscriptions ?s),
      incidents := fmretain (\<lambda>i. inc_instance_key i |\<notin>| V) (incidents ?s) \<rparr>)"
    by (simp add: remove_instance_set_def Let_def)
  show "removed V (est e) (est (snd (remove_instance_set V e)))"
    by (simp add: eq removed_def [of V] f(3) fmdrop_fset_filter)
  show "job_index_inv (est (snd (remove_instance_set V e)))"
    using f(1) assms by (auto simp: eq intro: job_index_inv_frame)
  show "owner_inv (est (snd (remove_instance_set V e)))"
    using f(2) assms by (auto simp: eq intro: owner_inv_frame)
  show "fst (remove_instance_set V e) = fcard V" by (simp add: remove_instance_set_def Let_def)
qed

lemma remove_instance_set_tombstones [simp]:
  "retired_tombstones (snd (remove_instance_set V e)) = retired_tombstones e"
  by (simp add: remove_instance_set_def Let_def)

lemma instances_remove_instance_set [simp]:
  "instances (est (snd (remove_instance_set V e))) = fmdrop_fset V (instances (est e))"
  by (simp add: remove_instance_set_def Let_def fmdrop_fset_filter cong del: fmfilter_cong)

section \<open>Eviction\<close>

lemma evict_instance_removed:
  assumes "job_index_inv (est e)" "owner_inv (est e)" "terminal_resident e k"
  shows "removed {|k|} (est e) (est (snd (evict_instance k e)))"
    and "job_index_inv (est (snd (evict_instance k e)))" and "owner_inv (est (snd (evict_instance k e)))"
proof -
  let ?s = "remove_one k (est e)"
  have eq: "est (snd (evict_instance k e)) = ?s\<lparr>
      timers := fmretain (\<lambda>t. tm_instance_key t \<noteq> k) (timers ?s),
      message_subscriptions := fmretain (\<lambda>m. ms_instance_key m \<noteq> k) (message_subscriptions ?s),
      incidents := fmretain (\<lambda>i. inc_instance_key i \<noteq> k) (incidents ?s) \<rparr>"
    using assms(3) by (simp add: evict_instance_def Let_def remove_one_def)
  note f = fold_remove_one_frame [of "[k]" "est e", simplified]
  have "fmfilter (\<lambda>x. x \<noteq> k) (instances (est e)) = fmdrop_fset {|k|} (instances (est e))"
    by (simp add: fmdrop_fset_filter)
  then show "removed {|k|} (est e) (est (snd (evict_instance k e)))"
    by (simp add: eq removed_def f jobs_remove_one [OF assms(2)])
  show "job_index_inv (est (snd (evict_instance k e)))"
    using remove_one_inv(1) [OF assms(1,2), of k] by (auto simp: eq intro: job_index_inv_frame)
  show "owner_inv (est (snd (evict_instance k e)))"
    using remove_one_inv(2) [OF assms(1,2), of k] by (auto simp: eq intro: owner_inv_frame)
qed

text \<open>Evicting the terminal instances one by one.\<close>

lemma instances_evict [simp]:
  "instances (est (snd (evict_instance k e))) = (if terminal_resident e k then fmdrop k (instances (est e)) else instances (est e))"
  by (simp add: evict_instance_def Let_def)

lemma evict_all:
  assumes "job_index_inv (est e)" "owner_inv (est e)" "\<forall>k \<in> set ks. terminal_resident e k" "distinct ks"
  shows "instances (est (fold (\<lambda>k g. snd (evict_instance k g)) ks e)) = fmfilter (\<lambda>k. k \<notin> set ks) (instances (est e))
    \<and> job_index_inv (est (fold (\<lambda>k g. snd (evict_instance k g)) ks e))
    \<and> owner_inv (est (fold (\<lambda>k g. snd (evict_instance k g)) ks e))"
  using assms
proof (induction ks arbitrary: e)
  case (Cons k ks)
  let ?e = "snd (evict_instance k e)"
  have k: "terminal_resident e k" using Cons.prems(3) by simp
  note inv = evict_instance_removed(2,3) [OF Cons.prems(1,2) k]
  have "terminal_resident ?e k'" if "k' \<in> set ks" for k'
  proof -
    have "k' \<noteq> k" "terminal_resident e k'" using that Cons.prems by auto
    then show ?thesis using k by (simp add: terminal_resident_def [of ?e] terminal_resident_def [of e])
  qed
  with Cons.IH [of ?e] inv Cons.prems(4)
  have "instances (est (fold (\<lambda>k g. snd (evict_instance k g)) ks ?e)) = fmfilter (\<lambda>k. k \<notin> set ks) (instances (est ?e))
    \<and> job_index_inv (est (fold (\<lambda>k g. snd (evict_instance k g)) ks ?e))
    \<and> owner_inv (est (fold (\<lambda>k g. snd (evict_instance k g)) ks ?e))" by simp
  moreover have "fmfilter (\<lambda>k'. k' \<notin> set ks) (fmdrop k m) = fmfilter (\<lambda>k'. k' \<notin> set (k # ks)) m" for m :: "(key, process_instance) fmap"
    by (rule fmap_ext) simp
  ultimately show ?case using k by (simp cong del: fmfilter_cong)
qed simp

section \<open>Retirement\<close>

lemma retire_fold_frame:
  "\<exists>V T. fold (\<lambda>k (victims, g).
      if k |\<in>| fmdom (instances (est g)) then (finsert k victims, g)
      else if fcard (retired_tombstones g) < MAX_TOMBSTONES
        then (victims, g\<lparr> retired_tombstones := finsert k (retired_tombstones g) \<rparr>)
      else (victims, g)) ks (W, e) = (V, e\<lparr> retired_tombstones := T \<rparr>)
    \<and> fset V = fset W \<union> {k \<in> set ks. k |\<in>| fmdom (instances (est e))}
    \<and> retired_tombstones e |\<subseteq>| T \<and> fset T \<subseteq> fset (retired_tombstones e) \<union> {k \<in> set ks. k |\<notin>| fmdom (instances (est e))}
    \<and> (fcard (retired_tombstones e) + length ks \<le> MAX_TOMBSTONES \<longrightarrow>
         (\<forall>k \<in> set ks. k |\<notin>| fmdom (instances (est e)) \<longrightarrow> k |\<in>| T))"
proof (induction ks arbitrary: W e)
  case Nil
  show ?case by (rule exI [of _ W], rule exI [of _ "retired_tombstones e"]) simp
next
  case (Cons k ks)
  consider (resident) "k |\<in>| fmdom (instances (est e))"
    | (tomb) "k |\<notin>| fmdom (instances (est e))" "fcard (retired_tombstones e) < MAX_TOMBSTONES"
    | (full) "k |\<notin>| fmdom (instances (est e))" "\<not> fcard (retired_tombstones e) < MAX_TOMBSTONES" by blast
  then show ?case
  proof cases
    case resident
    with Cons.IH [of "finsert k W" e] show ?thesis by (elim exE) (intro exI, auto)
  next
    case tomb
    let ?e = "e\<lparr> retired_tombstones := finsert k (retired_tombstones e) \<rparr>"
    have "fcard (finsert k (retired_tombstones e)) \<le> Suc (fcard (retired_tombstones e))"
      by (simp add: fcard_finsert_if)
    with tomb Cons.IH [of W ?e] show ?thesis by (elim exE) (intro exI, auto)
  next
    case full
    with Cons.IH [of W e] show ?thesis by (elim exE) (intro exI, auto)
  qed
qed

lemma retire_tombstones:
  assumes "k \<in> set ks" "k |\<notin>| fmdom (instances (est e))" "fcard (retired_tombstones e) + length ks \<le> MAX_TOMBSTONES"
  shows "k |\<in>| retired_tombstones (snd (retire_instances ks e))"
  using retire_fold_frame [of ks "{||}" e] assms
  by (auto simp: retire_instances_def Let_def)

lemma retire_instances_removed:
  assumes "job_index_inv (est e)" "owner_inv (est e)"
  shows "\<exists>V. fset V = {k \<in> set ks. k |\<in>| fmdom (instances (est e))} \<and> fst (retire_instances ks e) = fcard V
    \<and> removed V (est e) (est (snd (retire_instances ks e)))
    \<and> job_index_inv (est (snd (retire_instances ks e))) \<and> owner_inv (est (snd (retire_instances ks e)))"
proof -
  from retire_fold_frame [of ks "{||}" e] obtain V T where
    f: "retire_instances ks e = remove_instance_set V (e\<lparr> retired_tombstones := T \<rparr>)"
    and V: "fset V = {k \<in> set ks. k |\<in>| fmdom (instances (est e))}"
    by (auto simp: retire_instances_def Let_def)
  from remove_instance_set_removed [of "e\<lparr> retired_tombstones := T \<rparr>" V] assms V
  show ?thesis by (auto simp: f intro!: exI [of _ V])
qed

lemma finish_command_reaps:
  assumes "k |\<in>| retired_tombstones e" "ev \<in> set log" "created_instance ev = Some k"
  shows "k |\<notin>| fmdom (instances (est (finish_command log e)))"
    and "k |\<notin>| retired_tombstones (finish_command log e)"
proof -
  have "k \<in> set (List.map_filter created_instance log)" using assms(2,3) by (force simp: List.map_filter_def)
  moreover from this have "List.map_filter created_instance log \<noteq> []" by auto
  ultimately show "k |\<notin>| fmdom (instances (est (finish_command log e)))"
      "k |\<notin>| retired_tombstones (finish_command log e)"
    using assms(1) by (auto simp: finish_command_def reap_tombstoned_def Let_def fset_of_list.rep_eq)
qed

lemma fold_min_le:
  "fold min ks (k :: key) \<le> k \<and> (\<forall>x \<in> set ks. fold min ks k \<le> x)"
proof (induction ks arbitrary: k)
  case (Cons a ks)
  from Cons.IH [of "min a k"] show ?case by (auto intro: order_trans)
qed simp

lemma set_sorted_list_of_fmap: "(k, v) \<in> set (sorted_list_of_fmap m) \<longleftrightarrow> fmlookup m k = Some v"
  by (auto simp: sorted_list_of_fmap_def fmlookup_dom_iff)

lemma low_water_active:
  assumes "fmlookup (instances (est e)) k = Some i" "pi_state i = PIActive" "pi_key i = k"
  shows "retirement_low_water e \<le> k"
proof -
  have "(k, i) \<in> set (sorted_list_of_fmap (instances (est e)))" using assms(1) by (simp add: set_sorted_list_of_fmap)
  then have "k \<in> set (active_keys e)" using assms(2,3) by (force simp: active_keys_def)
  then show ?thesis using fold_min_le [of "tl (active_keys e)" "hd (active_keys e)"]
    by (cases "active_keys e") (auto simp: retirement_low_water_def)
qed

lemma retire_below_instances:
  assumes "retire_below it lw n e = (vs, e')"
  shows "set vs \<subseteq> {k \<in> set it. k < lw}" "length vs \<le> n"
    "instances (est e') = fmfilter (\<lambda>k. k \<notin> set vs) (instances (est e))"
proof -
  have "vs = [] \<and> e' = e \<or> vs = take n (filter (\<lambda>k. k < lw) it)
      \<and> instances (est e') = fmdrop_fset (fset_of_list vs) (instances (est e))"
    using assms by (auto simp: retire_below_def Let_def split: if_splits)
  then show "set vs \<subseteq> {k \<in> set it. k < lw}" "length vs \<le> n"
      "instances (est e') = fmfilter (\<lambda>k. k \<notin> set vs) (instances (est e))"
    by (auto simp: fmdrop_fset_filter fset_of_list.rep_eq dest: in_set_takeD)
qed

section \<open>Cold spill round trip\<close>

lemma insert_all_agree:
  "(\<forall>v \<in> set vs. fmlookup m0 (own v) = Some v) \<Longrightarrow>
   fmlookup (insert_all own vs m) x = (if x \<in> own ` set vs then fmlookup m0 x else fmlookup m x)"
proof (induction vs arbitrary: m)
  case (Cons v vs)
  have "fmlookup (insert_all own (v # vs) m) x = fmlookup (insert_all own vs (fmupd (own v) v m)) x"
    by (simp add: insert_all_def)
  also have "\<dots> = (if x \<in> own ` set (v # vs) then fmlookup m0 x else fmlookup m x)"
    using Cons by (cases "x \<in> own ` set vs") auto
  finally show ?case .
qed (simp add: insert_all_def)

lemma drain_insert:
  assumes "stored_under own m"
  shows "insert_all own (fst (drain_owned owner m ik)) (snd (drain_owned owner m ik)) = m"
proof (rule fmap_ext)
  fix x
  have drained: "v \<in> set (fst (drain_owned owner m ik)) \<longleftrightarrow> fmlookup m (own v) = Some v \<and> owner v = ik" for v
    using stored_underD [OF assms] by (force simp: drain_owned_def set_sorted_list_of_fmap)
  have "fmlookup (insert_all own (fst (drain_owned owner m ik)) (snd (drain_owned owner m ik))) x =
      (if x \<in> own ` set (fst (drain_owned owner m ik)) then fmlookup m x else fmlookup (snd (drain_owned owner m ik)) x)"
    by (rule insert_all_agree) (simp add: drained)
  moreover have "fmlookup (snd (drain_owned owner m ik)) x = fmlookup m x"
    if "x \<notin> own ` set (fst (drain_owned owner m ik))"
    using that stored_underD [OF assms, of x]
    by (auto simp: drain_owned_def set_sorted_list_of_fmap image_iff split: option.split)
  ultimately show "fmlookup (insert_all own (fst (drain_owned owner m ik)) (snd (drain_owned owner m ik))) x = fmlookup m x"
    by simp
qed

text \<open>\<open>job_frame s s'\<close>: the two states differ at most in the job maps.\<close>

definition job_frame :: "state \<Rightarrow> state \<Rightarrow> bool" where
  "job_frame s s' \<longleftrightarrow> s'\<lparr> jobs := jobs s, jobs_by_instance := jobs_by_instance s,
     activatable_jobs := activatable_jobs s, activated_jobs := activated_jobs s \<rparr> = s"

lemma job_frame_refl [simp]: "job_frame s s"
  by (simp add: job_frame_def)

lemma job_frame_trans: assumes "job_frame s s'" "job_frame s' s''" shows "job_frame s s''"
proof -
  have "s''\<lparr> jobs := jobs s, jobs_by_instance := jobs_by_instance s, activatable_jobs := activatable_jobs s,
      activated_jobs := activated_jobs s \<rparr> = (s''\<lparr> jobs := jobs s', jobs_by_instance := jobs_by_instance s',
      activatable_jobs := activatable_jobs s', activated_jobs := activated_jobs s' \<rparr>)\<lparr> jobs := jobs s,
      jobs_by_instance := jobs_by_instance s, activatable_jobs := activatable_jobs s, activated_jobs := activated_jobs s \<rparr>"
    by simp
  also have "\<dots> = s" using assms by (simp add: job_frame_def)
  finally show ?thesis by (simp add: job_frame_def)
qed

lemma job_frame_fold: "(\<And>x s. job_frame s (f x s)) \<Longrightarrow> job_frame s (fold f xs s)"
proof (induction xs arbitrary: s)
  case (Cons x xs)
  have "job_frame s (f x s)" "job_frame (f x s) (fold f xs (f x s))" using Cons by blast+
  then show ?case by (simp add: job_frame_trans [of s "f x s"])
qed simp

lemma job_frame_drop_job: "job_frame s (drop_job k s)"
  by (simp add: job_frame_def drop_job_def deindex_job_def split: option.split)

lemma job_frame_restore_job: "job_frame s (restore_job k j s)"
  by (simp add: job_frame_def restore_job_def resync_job_index_def Let_def)

lemma job_frame_jobs_by_instance: "job_frame s (s\<lparr> jobs_by_instance := x \<rparr>)"
  by (simp add: job_frame_def)

lemma job_keysD: "job_keys_inv s \<Longrightarrow> fmlookup (jobs s) k = Some j \<Longrightarrow> jb_key j = k"
  by (auto simp: job_keys_inv_def fmpred_iff)

lemma fold_drain_job:
  "distinct ks \<Longrightarrow> fold drain_job ks (acc, s) = (acc @ List.map_filter (fmlookup (jobs s)) ks, fold drop_job ks s)"
proof (induction ks arbitrary: acc s)
  case (Cons k ks)
  have tail: "List.map_filter (fmlookup (fmdrop k (jobs s))) ks = List.map_filter (fmlookup (jobs s)) ks"
    using Cons.prems by (auto simp: List.map_filter_def intro!: map_cong filter_cong)
  show ?case
  proof (cases "fmlookup (jobs s) k")
    case None
    then show ?thesis using Cons by (simp add: drain_job_def drop_job_def List.map_filter_simps)
  next
    case (Some j)
    then show ?thesis using Cons tail by (simp add: drain_job_def List.map_filter_simps)
  qed
qed (simp add: List.map_filter_simps)

text \<open>The jobs a snapshot takes, and the state it leaves.\<close>

lemma drain_jobs_of_state: "snd (drain_jobs_of k s) = drop_jobs_of k s"
  by (simp add: drain_jobs_of_def drop_jobs_of_def fold_drain_job sorted_list_of_fset.rep_eq split: option.split)

lemma set_drain_jobs_of:
  assumes "owner_inv s" "job_keys_inv s"
  shows "set (fst (drain_jobs_of k s)) = {j. fmlookup (jobs s) (jb_key j) = Some j \<and> jb_instance_key j = k}"
proof -
  have own: "(\<exists>ks. fmlookup (jobs_by_instance s) k = Some ks \<and> jk |\<in>| ks) \<longleftrightarrow>
      (\<exists>j. fmlookup (jobs s) jk = Some j \<and> jb_instance_key j = k)" for jk
    using assms(1) by (simp add: owner_inv_def)
  have key: "fmlookup (jobs s) jk = Some j \<Longrightarrow> jb_key j = jk" for jk j
    using assms(2) by (auto simp: job_keys_inv_def fmpred_iff)
  show ?thesis
  proof (cases "fmlookup (jobs_by_instance s) k")
    case None
    then show ?thesis using own by (auto simp: drain_jobs_of_def)
  next
    case (Some ks)
    have "fst (drain_jobs_of k s) = List.map_filter (fmlookup (jobs s)) (sorted_list_of_fset ks)"
      using Some by (simp add: drain_jobs_of_def fold_drain_job sorted_list_of_fset.rep_eq)
    then have drained: "set (fst (drain_jobs_of k s)) = {j. \<exists>jk. jk |\<in>| ks \<and> fmlookup (jobs s) jk = Some j}"
      by (force simp: List.map_filter_def)
    have own': "jk |\<in>| ks \<longleftrightarrow> (\<exists>j. fmlookup (jobs s) jk = Some j \<and> jb_instance_key j = k)" for jk
      using own [of jk] Some by simp
    show ?thesis unfolding drained own' using key by fastforce
  qed
qed

lemma distinct_drain_jobs_of:
  assumes "job_keys_inv s"
  shows "distinct (map jb_key (fst (drain_jobs_of k s)))"
proof (cases "fmlookup (jobs_by_instance s) k")
  case (Some ks)
  have key: "fmlookup (jobs s) jk = Some j \<Longrightarrow> jb_key j = jk" for jk j
    using assms by (auto simp: job_keys_inv_def fmpred_iff)
  have "map jb_key (List.map_filter (fmlookup (jobs s)) xs) = filter (\<lambda>jk. fmlookup (jobs s) jk \<noteq> None) xs" for xs
    by (auto simp: List.map_filter_def key intro: map_idI)
  then show ?thesis using Some by (simp add: drain_jobs_of_def fold_drain_job sorted_list_of_fset.rep_eq)
qed (simp add: drain_jobs_of_def)

lemma restore_fold:
  assumes "job_index_inv s" "distinct (map jb_key js)" "\<forall>j \<in> set js. fmlookup (jobs s) (jb_key j) = None"
  shows "jobs (fold (restore_job k) js s) = insert_all jb_key js (jobs s)
    \<and> job_index_inv (fold (restore_job k) js s)
    \<and> (\<forall>ik. fmlookup (jobs_by_instance (fold (restore_job k) js s)) ik =
         (if ik = k \<and> js \<noteq> []
          then Some ((case fmlookup (jobs_by_instance s) k of None \<Rightarrow> {||} | Some ks \<Rightarrow> ks) |\<union>| fset_of_list (map jb_key js))
          else fmlookup (jobs_by_instance s) ik))"
  using assms
proof (induction js arbitrary: s)
  case (Cons j js)
  let ?s = "restore_job k j s"
  let ?t = "s\<lparr> jobs_by_instance := entry_or k {||} (finsert (jb_key j)) (jobs_by_instance s) \<rparr>"
  have jobs: "jobs ?s = fmupd (jb_key j) j (jobs s)" by (simp add: restore_job_def)
  have idx: "jobs_by_instance ?s = entry_or k {||} (finsert (jb_key j)) (jobs_by_instance s)" by (simp add: restore_job_def)
  have "job_index_inv ?t" using Cons.prems(1) by (auto intro: job_index_inv_frame)
  from job_index_inv_insert [OF this, of "jb_key j" j] Cons.prems(3)
  have inv: "job_index_inv ?s" by (simp add: restore_job_def)
  have fresh: "\<forall>j' \<in> set js. fmlookup (jobs ?s) (jb_key j') = None" using Cons.prems by (force simp: jobs)
  from Cons.IH [OF inv _ fresh] Cons.prems(2) show ?case
    by (auto simp: jobs idx insert_all_def split: option.split)
qed (simp add: insert_all_def)

text \<open>The job indices are a function of the jobs.\<close>

lemma index_canonical:
  assumes "job_index_inv s" "job_index_inv s'" "jobs s' = jobs s"
  shows "activatable_jobs s' = activatable_jobs s" "activated_jobs s' = activated_jobs s"
proof -
  have sets: "activatable_set s' ty = activatable_set s ty" for ty
    by (rule fset_eqI) (simp add: split_paired_all index_entryD [OF assms(1)] index_entryD [OF assms(2)] assms(3))
  show "activatable_jobs s' = activatable_jobs s"
  proof (rule fmap_ext)
    fix ty
    from sets [of ty] index_nonempty [OF assms(1)] index_nonempty [OF assms(2)]
    show "fmlookup (activatable_jobs s') ty = fmlookup (activatable_jobs s) ty"
      by (cases "fmlookup (activatable_jobs s') ty"; cases "fmlookup (activatable_jobs s) ty")
        (auto simp: activatable_set_def)
  qed
  show "activated_jobs s' = activated_jobs s"
    by (rule fset_eqI) (simp add: index_activatedD [OF assms(1)] index_activatedD [OF assms(2)] assms(3))
qed

lemma job_frame_drop_jobs_of: "job_frame s (drop_jobs_of k s)"
proof -
  have "job_frame s (fold drop_job ks (s\<lparr> jobs_by_instance := x \<rparr>))" for ks x
    by (rule job_frame_trans [OF job_frame_jobs_by_instance]) (rule job_frame_fold, rule job_frame_drop_job)
  then show ?thesis by (simp add: drop_jobs_of_def split: option.split)
qed

text \<open>Draining the jobs of an instance and restoring them gives the state back.\<close>

lemma drain_restore_jobs:
  assumes inv: "job_index_inv s" "owner_inv s" "job_keys_inv s"
  shows "fold (restore_job k) (fst (drain_jobs_of k s)) (snd (drain_jobs_of k s)) = s"
proof -
  let ?js = "fst (drain_jobs_of k s)" and ?t = "drop_jobs_of k s"
  let ?s = "fold (restore_job k) ?js ?t"
  have gone: "\<forall>j \<in> set ?js. fmlookup (jobs ?t) (jb_key j) = None"
    by (simp add: set_drain_jobs_of [OF inv(2,3)] jobs_drop_jobs_of [OF inv(2)])
  note r = restore_fold [OF drop_jobs_of_index [OF inv(1), of k] distinct_drain_jobs_of [OF inv(3), of k] gone, of k]
  have jobs: "jobs ?s = jobs s"
  proof (rule fmap_ext)
    fix x
    have "fmlookup (jobs ?s) x = (if x \<in> jb_key ` set ?js then fmlookup (jobs s) x else fmlookup (jobs ?t) x)"
      unfolding r [THEN conjunct1] by (rule insert_all_agree) (simp add: set_drain_jobs_of [OF inv(2,3)])
    moreover have "jb_key j = x" if "fmlookup (jobs s) x = Some j" for j
      using inv(3) that by (auto simp: job_keys_inv_def fmpred_iff)
    ultimately show "fmlookup (jobs ?s) x = fmlookup (jobs s) x"
      by (auto simp: set_drain_jobs_of [OF inv(2,3)] jobs_drop_jobs_of [OF inv(2)] image_iff split: option.split)
  qed
  have owned: "jobs_by_instance ?s = jobs_by_instance s"
  proof (rule fmap_ext)
    fix ik
    have own: "(\<exists>ks. fmlookup (jobs_by_instance s) k = Some ks \<and> jk |\<in>| ks) \<longleftrightarrow> jk \<in> jb_key ` set ?js" for jk
    proof -
      have "(\<exists>ks. fmlookup (jobs_by_instance s) k = Some ks \<and> jk |\<in>| ks) \<longleftrightarrow>
          (\<exists>j. fmlookup (jobs s) jk = Some j \<and> jb_instance_key j = k)" using inv(2) by (simp add: owner_inv_def)
      also have "\<dots> \<longleftrightarrow> jk \<in> jb_key ` {j. fmlookup (jobs s) (jb_key j) = Some j \<and> jb_instance_key j = k}"
        using job_keysD [OF inv(3), of jk] by (auto intro!: rev_image_eqI)
      also have "\<dots> \<longleftrightarrow> jk \<in> jb_key ` set ?js" by (simp only: set_drain_jobs_of [OF inv(2,3)])
      finally show ?thesis .
    qed
    have "(case fmlookup (jobs_by_instance s) k of None \<Rightarrow> {||} | Some ks \<Rightarrow> ks) = fset_of_list (map jb_key ?js)"
    proof (rule fset_eqI)
      fix jk
      from own [of jk] show "jk |\<in>| (case fmlookup (jobs_by_instance s) k of None \<Rightarrow> {||} | Some ks \<Rightarrow> ks)
          \<longleftrightarrow> jk |\<in>| fset_of_list (map jb_key ?js)"
        by (cases "fmlookup (jobs_by_instance s) k") (simp_all add: fset_of_list.rep_eq)
    qed
    moreover have "fmlookup (jobs_by_instance s) k \<noteq> Some {||}" using inv(2) by (simp add: owner_inv_def)
    ultimately have "fmlookup (jobs_by_instance s) k = (if ?js = [] then None else Some (fset_of_list (map jb_key ?js)))"
      by (cases "fmlookup (jobs_by_instance s) k"; cases ?js) auto
    then show "fmlookup (jobs_by_instance ?s) ik = fmlookup (jobs_by_instance s) ik"
      using r [THEN conjunct2, THEN conjunct2, rule_format, of ik] by simp
  qed
  have "job_frame s ?s" using job_frame_drop_jobs_of [of s k] by (rule job_frame_trans) (rule job_frame_fold, rule job_frame_restore_job)
  moreover have "?s\<lparr> jobs := jobs ?s, jobs_by_instance := jobs_by_instance ?s,
      activatable_jobs := activatable_jobs ?s, activated_jobs := activated_jobs ?s \<rparr> = ?s" by simp
  ultimately show ?thesis
    unfolding job_frame_def drain_jobs_of_state jobs owned
      index_canonical [OF inv(1) r [THEN conjunct2, THEN conjunct1] jobs] by simp
qed

lemma restore_job_commutes:
  "restore_job k j (s\<lparr> timers := a, message_subscriptions := b, signal_subscriptions := c,
     conditional_subscriptions := d, user_tasks := u, incidents := f, instances := g \<rparr>) =
   (restore_job k j s)\<lparr> timers := a, message_subscriptions := b, signal_subscriptions := c,
     conditional_subscriptions := d, user_tasks := u, incidents := f, instances := g \<rparr>"
  by (simp add: restore_job_def resync_job_index_def Let_def)

lemma fold_restore_commutes:
  "fold (restore_job k) js (s\<lparr> timers := a, message_subscriptions := b, signal_subscriptions := c,
     conditional_subscriptions := d, user_tasks := u, incidents := f, instances := g \<rparr>) =
   (fold (restore_job k) js s)\<lparr> timers := a, message_subscriptions := b, signal_subscriptions := c,
     conditional_subscriptions := d, user_tasks := u, incidents := f, instances := g \<rparr>"
  by (induction js arbitrary: s) (simp_all add: restore_job_commutes)

lemma cold_round_trip:
  assumes "snapshot_instance k e = Some (sn, e')"
    and inv: "job_index_inv (est e)" "owner_inv (est e)" "job_keys_inv (est e)" "entity_keys_inv (est e)"
  shows "rehydrate_instance sn e' = e"
proof -
  obtain i where i: "fmlookup (instances (est e)) k = Some i" and
    sn: "Some (sn, e') = snapshot_instance k e" "pi_state i = PIActive" "\<not> pi_variables_spilled i"
    using assms(1) by (auto simp: snapshot_instance_def split: option.splits if_splits)
  have ek: "stored_under pi_key (instances (est e))" "stored_under tm_key (timers (est e))"
    "stored_under ms_key (message_subscriptions (est e))" "stored_under ss_key (signal_subscriptions (est e))"
    "stored_under cd_key (conditional_subscriptions (est e))" "stored_under ut_key (user_tasks (est e))"
    "stored_under inc_key (incidents (est e))" using inv(4) by (simp_all add: entity_keys_inv_def)
  have key: "pi_key i = k" using stored_underD [OF ek(1) i] .
  let ?js = "fst (drain_jobs_of k (est e))" and ?t = "drop_jobs_of k (est e)"
  have restore: "fold (restore_job k) ?js ?t = est e"
    using drain_restore_jobs [OF inv(1-3), of k] by (simp add: drain_jobs_of_state)
  have inst: "fmupd k i (fmdrop k (instances (est e))) = instances (est e)"
    by (rule fmap_ext) (use i in auto)
  show ?thesis
    using sn i key
    by (simp add: snapshot_instance_def rehydrate_instance_def Let_def case_prod_beta drain_jobs_of_state
        fold_restore_commutes restore inst drain_insert ek)
qed

lemma spill_round_trip:
  assumes "spill_variables k e = Some (vs, e')"
  shows "rehydrate_variables k vs e' = e"
proof -
  obtain i where i: "fmlookup (instances (est e)) k = Some i" "\<not> pi_variables_spilled i" "vs = pi_variables i"
    "e' = e\<lparr> est := (est e)\<lparr> instances := fmupd k (i\<lparr> pi_variables_spilled := True, pi_variables := fmempty \<rparr>) (instances (est e)) \<rparr> \<rparr>"
    using assms by (auto simp: spill_variables_def split: option.splits if_splits)
  have "get_mut k (\<lambda>i. i\<lparr> pi_variables := vs, pi_variables_spilled := False \<rparr>) (instances (est e')) = instances (est e)"
    using i by (auto intro!: fmap_ext)
  then show ?thesis using i(4) by (simp add: rehydrate_variables_def)
qed

section \<open>What is safe to spill\<close>

lemma async_token_iff:
  "k |\<in>| instances_with_async_token e \<longleftrightarrow>
     (\<exists>tk t. fmlookup (timers (est e)) tk = Some t \<and> tm_state t = TMCreated \<and> tm_instance_key t = k)
   \<or> (\<exists>mk m. fmlookup (message_subscriptions (est e)) mk = Some m \<and> ms_state m \<in> {SubOpen, SubOpening} \<and> ms_instance_key m = k)
   \<or> (\<exists>ck c. fmlookup (conditional_subscriptions (est e)) ck = Some c \<and> cd_state c = SubOpen \<and> cd_instance_key c = k)"
proof -
  have owners: "k |\<in>| f |`| ffilter P (fmran m) \<longleftrightarrow> (\<exists>j v. fmlookup m j = Some v \<and> P v \<and> f v = k)"
    for f :: "'v \<Rightarrow> key" and P and m :: "(key, 'v) fmap"
    using fmlookup_ran_iff [of _ m] by (fastforce simp: image_iff)
  show ?thesis
  proof (cases "timers (est e) = fmempty \<and> message_subscriptions (est e) = fmempty \<and> conditional_subscriptions (est e) = fmempty")
    case False
    then have "instances_with_async_token e = tm_instance_key |`| ffilter (\<lambda>t. tm_state t = TMCreated) (fmran (timers (est e)))
         |\<union>| ms_instance_key |`| ffilter (\<lambda>m. ms_state m \<in> {SubOpen, SubOpening}) (fmran (message_subscriptions (est e)))
         |\<union>| cd_instance_key |`| ffilter (\<lambda>c. cd_state c = SubOpen) (fmran (conditional_subscriptions (est e)))"
      by (simp only: instances_with_async_token_def Let_def if_False)
    then show ?thesis by (simp only: funion_iff owners disj_assoc)
  qed (simp add: instances_with_async_token_def Let_def)
qed

definition spill_ready :: "engine \<Rightarrow> key \<Rightarrow> bool" where
  "spill_ready e k = (case fmlookup (instances (est e)) k of None \<Rightarrow> False
     | Some i \<Rightarrow> is_spillable e k i (instances_with_async_token e))"

definition spill_backlog :: "engine \<Rightarrow> key list" where
  "spill_backlog e = filter (spill_ready e) (sorted_list_of_fset (fmdom (instances (est e))))"

lemma filter_sorted_fmap:
  "map fst (filter (\<lambda>(k, v). P k v) (sorted_list_of_fmap m)) =
   filter (\<lambda>k. case fmlookup m k of None \<Rightarrow> False | Some v \<Rightarrow> P k v) (sorted_list_of_fset (fmdom m))"
proof -
  have "map fst (filter (\<lambda>(k, v). P k v) (map (\<lambda>k. (k, the (fmlookup m k))) ks)) =
      filter (\<lambda>k. case fmlookup m k of None \<Rightarrow> False | Some v \<Rightarrow> P k v) ks" if "set ks \<subseteq> fset (fmdom m)" for ks
    using that by (induction ks) (auto simp: fmlookup_dom_iff)
  then show ?thesis by (simp add: sorted_list_of_fmap_def)
qed

lemma spillable_prefix: "spillable_instances n e = take n (spill_backlog e)"
proof -
  have "sorted (spill_backlog e)" by (simp add: spill_backlog_def sorted_wrt_filter sorted_list_of_fset.rep_eq)
  then show ?thesis
    by (simp add: spillable_instances_def Let_def filter_sorted_fmap spill_backlog_def spill_ready_def [abs_def] sorted_sort_id)
qed

lemma spill_backlog_distinct: "distinct (spill_backlog e)"
  by (simp add: spill_backlog_def sorted_list_of_fset.rep_eq)

lemma spill_backlog_sorted: "sorted_wrt (<) (spill_backlog e)"
  by (simp add: spill_backlog_def sorted_list_of_fset.rep_eq sorted_wrt_filter strict_sorted_iff)

lemma spill_backlog_set: "set (spill_backlog e) = {k. spill_ready e k}"
  by (auto simp: spill_backlog_def spill_ready_def fmlookup_dom_iff sorted_list_of_fset.rep_eq split: option.splits)

lemma spill_backlog_length: "length (spill_backlog e) \<le> resident_instance_count e"
  unfolding spill_backlog_def resident_instance_count_def
  by (rule order_trans [OF length_filter_le]) (simp add: sorted_list_of_fset.rep_eq fcard.rep_eq)

lemma spill_ready_iff:
  "spill_ready e k \<longleftrightarrow> (\<exists>i. fmlookup (instances (est e)) k = Some i
       \<and> pi_state i = PIActive \<and> \<not> pi_variables_spilled i \<and> pi_variables i \<noteq> fmempty)
     \<and> (\<exists>jks. fmlookup (jobs_by_instance (est e)) k = Some jks \<and> jks \<noteq> {||})
     \<and> \<not> (\<exists>tk t. fmlookup (timers (est e)) tk = Some t \<and> tm_state t = TMCreated \<and> tm_instance_key t = k)
     \<and> \<not> (\<exists>mk m. fmlookup (message_subscriptions (est e)) mk = Some m \<and> ms_state m \<in> {SubOpen, SubOpening} \<and> ms_instance_key m = k)
     \<and> \<not> (\<exists>ck c. fmlookup (conditional_subscriptions (est e)) ck = Some c \<and> cd_state c = SubOpen \<and> cd_instance_key c = k)"
  unfolding spill_ready_def is_spillable_def async_token_iff by (auto split: option.splits)

definition blanked :: "key set \<Rightarrow> engine \<Rightarrow> engine" where
  "blanked ks e = e\<lparr> est := (est e)\<lparr> instances :=
     fmmap_keys (\<lambda>k i. if k \<in> ks then i\<lparr> pi_variables_spilled := True, pi_variables := fmempty \<rparr> else i) (instances (est e)) \<rparr> \<rparr>"

definition spill_step :: "key \<Rightarrow> (key \<times> vars) list \<times> engine \<Rightarrow> (key \<times> vars) list \<times> engine" where
  "spill_step k acc = (case spill_variables k (snd acc) of None \<Rightarrow> acc | Some (vs, e) \<Rightarrow> (fst acc @ [(k, vs)], e))"

definition payload :: "engine \<Rightarrow> key \<Rightarrow> vars" where
  "payload e k = (case fmlookup (instances (est e)) k of None \<Rightarrow> fmempty | Some i \<Rightarrow> pi_variables i)"

lemma blanked_none: "blanked {} e = e"
proof -
  have "fmmap_keys (\<lambda>k i. if k \<in> {} then f i else i) m = m" for f and m :: "(key, process_instance) fmap"
    by (rule fmap_ext) (simp add: option.map_ident)
  then show ?thesis by (simp add: blanked_def)
qed

lemma spill_one_more:
  assumes "spill_ready e k" "k \<notin> ks"
  shows "spill_variables k (blanked ks e) = Some (payload e k, blanked (insert k ks) e)"
proof -
  obtain i where i: "fmlookup (instances (est e)) k = Some i" "\<not> pi_variables_spilled i" "pi_variables i \<noteq> fmempty"
    using assms(1) by (auto simp: spill_ready_def is_spillable_def split: option.splits)
  have "fmupd k (i\<lparr> pi_variables_spilled := True, pi_variables := fmempty \<rparr>) (instances (est (blanked ks e))) =
      instances (est (blanked (insert k ks) e))"
    by (rule fmap_ext) (use i in \<open>auto simp: blanked_def split: option.split\<close>)
  then show ?thesis using i assms(2) by (simp add: spill_variables_def payload_def) (simp add: blanked_def)
qed

lemma spill_steps:
  assumes "distinct ks" "\<forall>k \<in> set ks. spill_ready e k \<and> k \<notin> done"
  shows "fold spill_step ks (out, blanked done e) = (out @ map (\<lambda>k. (k, payload e k)) ks, blanked (done \<union> set ks) e)"
  using assms
proof (induction ks arbitrary: "done" out)
  case (Cons k ks)
  then have "spill_step k (out, blanked done e) = (out @ [(k, payload e k)], blanked (insert k done) e)"
    by (simp add: spill_step_def spill_one_more)
  moreover have "\<forall>k' \<in> set ks. spill_ready e k' \<and> k' \<notin> insert k done" using Cons.prems by auto
  ultimately show ?case using Cons.IH [of "insert k done" "out @ [(k, payload e k)]"] Cons.prems by simp
qed simp

lemma blanked_ready: "spill_ready (blanked ks e) k \<longleftrightarrow> spill_ready e k \<and> k \<notin> ks"
proof -
  have "instances_with_async_token (blanked ks e) = instances_with_async_token e"
    by (simp add: instances_with_async_token_def blanked_def Let_def)
  moreover have "jobs_by_instance (est (blanked ks e)) = jobs_by_instance (est e)"
    "fmlookup (instances (est (blanked ks e))) k = map_option (\<lambda>i. if k \<in> ks
       then i\<lparr> pi_variables_spilled := True, pi_variables := fmempty \<rparr> else i) (fmlookup (instances (est e)) k)"
    by (simp_all add: blanked_def)
  ultimately show ?thesis by (auto simp: spill_ready_def is_spillable_def split: option.splits)
qed

lemma blanked_backlog: "spill_backlog (blanked ks e) = filter (\<lambda>k. k \<notin> ks) (spill_backlog e)"
  by (simp add: spill_backlog_def blanked_ready [abs_def] conj_commute) (simp add: blanked_def)

lemma filter_drop: "distinct xs \<Longrightarrow> filter (\<lambda>x. x \<notin> set (take n xs)) xs = drop n xs"
proof (induction xs arbitrary: n)
  case (Cons x xs)
  then show ?case
  proof (cases n)
    case (Suc m)
    have "filter (\<lambda>y. y \<noteq> x \<and> y \<notin> set (take m xs)) xs = filter (\<lambda>y. y \<notin> set (take m xs)) xs"
      using Cons.prems by (intro filter_cong) auto
    with Cons Suc show ?thesis by simp
  qed (simp add: filter_id_conv)
qed simp

lemma rehydrate_steps:
  assumes "distinct (map fst out)" "\<forall>(k, vs) \<in> set out. vs = payload e k \<and> spill_ready e k"
  shows "fold (\<lambda>(k, vs). rehydrate_variables k vs) out (blanked ks e) = blanked (ks - fst ` set out) e"
  using assms
proof (induction out arbitrary: ks)
  case (Cons x out)
  obtain k where x: "x = (k, payload e k)" "spill_ready e k" using Cons.prems by auto
  then obtain i where i: "fmlookup (instances (est e)) k = Some i" "\<not> pi_variables_spilled i"
    by (auto simp: spill_ready_def is_spillable_def split: option.splits)
  have "get_mut k (\<lambda>i. i\<lparr> pi_variables := payload e k, pi_variables_spilled := False \<rparr>) (instances (est (blanked ks e))) =
      instances (est (blanked (ks - {k}) e))"
    by (rule fmap_ext) (use i in \<open>auto simp: blanked_def payload_def option.map_comp comp_def split: option.split\<close>)
  then have "rehydrate_variables k (payload e k) (blanked ks e) = blanked (ks - {k}) e"
    by (simp add: rehydrate_variables_def) (simp add: blanked_def)
  moreover have "ks - {k} - fst ` set out = ks - fst ` set (x # out)" by (auto simp: x)
  ultimately show ?case using Cons.IH [of "ks - {k}"] Cons.prems by (simp add: x(1))
qed simp

section \<open>Properties of recovery\<close>

text \<open>C25: recovering from a snapshot and the tail of the log equals replaying the whole log, provided the
  stored definitions hold no legacy agent task (those are rewritten when a snapshot is loaded, which
  is what \<open>normalize_state\<close> does).\<close>

theorem snapshot_plus_tail:
  assumes "replay_partition pid log = Some e1" "normalize_state (est e1) = est e1"
  shows "map_option (apply_replayed_events tail) (from_snapshot (snapshot e1)) = replay_partition pid (log @ tail)"
  using from_snapshot_replayed [OF assms] replay_then_tail [OF assms(1)] by simp

theorem snapshot_plus_tail_witness:
  "map_option (apply_replayed_events [EJob (JobCanceled 7 1)]) (from_snapshot (snapshot (engine_of state_new 0 0)))
     = replay_partition 0 ([] @ [EJob (JobCanceled 7 1)])"
  by (rule snapshot_plus_tail) (simp_all add: replay_partition_def normalize_state_def engine_of_def state_new_def)

section \<open>Properties of spilling\<close>

text \<open>Spilling the variables of an instance and rehydrating them gives the engine back unchanged.\<close>

theorem spill_variables_round_trip:
  assumes "spill_variables k e = Some (vs, e')"
  shows "rehydrate_variables k vs e' = e \<and> is_variables_spilled e' k \<and> vs \<noteq> fmempty"
proof -
  have "is_variables_spilled e' k \<and> vs \<noteq> fmempty"
    using assms by (auto simp: spill_variables_def is_variables_spilled_def split: option.splits if_splits)
  with spill_round_trip [OF assms] show ?thesis by blast
qed

definition busy_engine :: engine where
  "busy_engine = engine_of (state_new\<lparr> instances := fmupd 1 (running_instance\<lparr> pi_variables := fmupd ''x'' (VInt 3) fmempty \<rparr>) fmempty \<rparr>) 0 10"

theorem spill_variables_round_trip_witness:
  "rehydrate_variables 1 (fst (the (spill_variables 1 busy_engine))) (snd (the (spill_variables 1 busy_engine))) = busy_engine
   \<and> is_variables_spilled (snd (the (spill_variables 1 busy_engine))) 1 \<and> fst (the (spill_variables 1 busy_engine)) \<noteq> fmempty"
proof (rule spill_variables_round_trip)
  have "spill_variables 1 busy_engine \<noteq> None"
    by (simp add: spill_variables_def busy_engine_def engine_of_def running_instance_def)
  then show "spill_variables 1 busy_engine = Some (fst (the (spill_variables 1 busy_engine)), snd (the (spill_variables 1 busy_engine)))"
    by auto
qed

text \<open>C24: lifting an instance out of hot state for cold spill, with its jobs, timers, subscriptions, user
  tasks and incidents, and rehydrating it gives the engine back unchanged, indices included.\<close>

theorem cold_spill_round_trip:
  assumes "snapshot_instance k e = Some (sn, e')"
    and "job_index_inv (est e)" "owner_inv (est e)" "job_keys_inv (est e)" "entity_keys_inv (est e)"
  shows "rehydrate_instance sn e' = e \<and> k |\<notin>| fmdom (instances (est e'))"
proof -
  have "k |\<notin>| fmdom (instances (est e'))" using assms(1)
    by (auto simp: snapshot_instance_def Let_def case_prod_beta split: option.splits if_splits)
  with cold_round_trip [OF assms] show ?thesis by blast
qed

lemma busy_inv:
  "job_index_inv (est busy_engine)" "owner_inv (est busy_engine)" "job_keys_inv (est busy_engine)" "entity_keys_inv (est busy_engine)"
  by (auto simp: busy_engine_def engine_of_def state_new_def job_index_inv_def activatable_set_def owner_inv_def job_keys_inv_def
      entity_keys_inv_def stored_under_def fmpred_iff running_instance_def)

theorem cold_spill_round_trip_witness:
  "rehydrate_instance (fst (the (snapshot_instance 1 busy_engine))) (snd (the (snapshot_instance 1 busy_engine))) = busy_engine
   \<and> 1 |\<notin>| fmdom (instances (est (snd (the (snapshot_instance 1 busy_engine)))))"
proof (rule cold_spill_round_trip [OF _ busy_inv])
  have "snapshot_instance 1 busy_engine \<noteq> None"
    by (simp add: snapshot_instance_def busy_engine_def engine_of_def running_instance_def Let_def case_prod_beta)
  then show "snapshot_instance 1 busy_engine = Some (fst (the (snapshot_instance 1 busy_engine)), snd (the (snapshot_instance 1 busy_engine)))"
    by auto
qed

text \<open>C37: shedding the variables of the instances chosen for spill. The choice takes the oldest keys among the active
  instances that hold a job and variables not yet spilled and that have no armed timer, no open or opening message
  subscription and no open conditional subscription. Spilling the chosen ones hands out one payload for each, in that order, and
  the next choice continues where this one ended; rehydrating the payloads in any order gives the engine back unchanged.\<close>

theorem variable_spill_cycle:
  assumes "fold spill_step (spillable_instances n e) ([], e) = (out, e')"
  shows "map fst out = spillable_instances n e \<and> (\<forall>m. spillable_instances m e' = drop n (spillable_instances (n + m) e))
    \<and> (\<forall>out'. mset out' = mset out \<longrightarrow> fold (\<lambda>(k, vs). rehydrate_variables k vs) out' e' = e)
    \<and> sorted_wrt (<) (spillable_instances n e) \<and> spillable_instances n e = take n (spillable_instances (resident_instance_count e) e)
    \<and> set (spillable_instances (resident_instance_count e) e) = {k. (\<exists>i. fmlookup (instances (est e)) k = Some i
          \<and> pi_state i = PIActive \<and> \<not> pi_variables_spilled i \<and> pi_variables i \<noteq> fmempty)
        \<and> (\<exists>jks. fmlookup (jobs_by_instance (est e)) k = Some jks \<and> jks \<noteq> {||})
        \<and> \<not> (\<exists>tk t. fmlookup (timers (est e)) tk = Some t \<and> tm_state t = TMCreated \<and> tm_instance_key t = k)
        \<and> \<not> (\<exists>mk m. fmlookup (message_subscriptions (est e)) mk = Some m \<and> ms_state m \<in> {SubOpen, SubOpening} \<and> ms_instance_key m = k)
        \<and> \<not> (\<exists>ck c. fmlookup (conditional_subscriptions (est e)) ck = Some c \<and> cd_state c = SubOpen \<and> cd_instance_key c = k)}"
proof -
  let ?ks = "take n (spill_backlog e)"
  have ks: "distinct ?ks" "\<forall>k \<in> set ?ks. spill_ready e k"
    using spill_backlog_distinct [of e] spill_backlog_set [of e] by (auto dest: in_set_takeD)
  from spill_steps [OF ks(1), of e "{}" "[]"] ks(2) assms have out: "out = map (\<lambda>k. (k, payload e k)) ?ks"
    and e': "e' = blanked (set ?ks) e" by (simp_all add: blanked_none spillable_prefix)
  have "spillable_instances m e' = drop n (spillable_instances (n + m) e)" for m
    by (simp add: spillable_prefix e' blanked_backlog filter_drop spill_backlog_distinct take_drop add.commute)
  moreover have "fold (\<lambda>(k, vs). rehydrate_variables k vs) out' e' = e" if "mset out' = mset out" for out'
  proof -
    have "mset (map fst out') = mset (map fst out)" using that by simp
    then have "distinct (map fst out')" using ks(1) mset_eq_imp_distinct_iff by (fastforce simp: out comp_def)
    moreover have same: "set out' = set out" using that by (metis set_mset_mset)
    then have "\<forall>(k, vs) \<in> set out'. vs = payload e k \<and> spill_ready e k" using ks(2) by (auto simp: out)
    moreover have gone: "set ?ks - fst ` set out' = {}" by (auto simp: same out image_iff)
    ultimately show ?thesis using rehydrate_steps [of out' e "set ?ks"] unfolding gone blanked_none e' by blast
  qed
  moreover have "sorted_wrt (<) (spillable_instances n e)"
    using spill_backlog_sorted [of e] by (simp add: spillable_prefix sorted_wrt_take)
  moreover have "spillable_instances (resident_instance_count e) e = spill_backlog e"
    using spill_backlog_length [of e] by (simp add: spillable_prefix)
  moreover have "map fst out = spillable_instances n e" by (simp add: out comp_def spillable_prefix)
  ultimately show ?thesis by (simp only: spill_backlog_set spill_ready_iff spillable_prefix) blast
qed

definition parked_engine :: engine where
  "parked_engine = busy_engine\<lparr> est := (est busy_engine)\<lparr> jobs_by_instance := fmupd 1 {|4|} fmempty \<rparr> \<rparr>"

lemma parked_spillable: "spillable_instances 1 parked_engine = [1]"
  by (simp add: spillable_instances_def Let_def parked_engine_def busy_engine_def engine_of_def state_new_def sorted_list_of_fmap_def
      is_spillable_def instances_with_async_token_def running_instance_def sorted_list_of_fset.rep_eq)

theorem variable_spill_cycle_witness:
  "\<exists>vs e'. fold spill_step (spillable_instances 1 parked_engine) ([], parked_engine) = ([(1, vs)], e')
     \<and> fmlookup vs ''x'' = Some (VInt 3) \<and> spillable_instances 1 e' = [] \<and> rehydrate_variables 1 vs e' = parked_engine"
proof -
  obtain e' where run: "fold spill_step (spillable_instances 1 parked_engine) ([], parked_engine) = ([(1, fmupd ''x'' (VInt 3) fmempty)], e')"
    unfolding parked_spillable
    by (simp add: spill_step_def spill_variables_def parked_engine_def busy_engine_def engine_of_def running_instance_def)
  note w = variable_spill_cycle [OF run]
  have "resident_instance_count parked_engine = 1"
    by (simp add: resident_instance_count_def parked_engine_def busy_engine_def engine_of_def fcard.rep_eq)
  then have "length (spillable_instances (1 + 1) parked_engine) \<le> 1"
    using spill_backlog_length [of parked_engine] by (simp add: spillable_prefix)
  then have "spillable_instances 1 e' = []" using conjunct2 [OF w, THEN conjunct1, rule_format, of 1] by simp
  moreover have "rehydrate_variables 1 (fmupd ''x'' (VInt 3) fmempty) e' = parked_engine"
    using conjunct2 [OF w, THEN conjunct2, THEN conjunct1, rule_format, OF refl] by simp
  ultimately show ?thesis using run by (intro exI [of _ "fmupd ''x'' (VInt 3) fmempty"] exI [of _ e']) simp
qed

section \<open>Properties of eviction and retirement\<close>

text \<open>evicting a terminal instance removes it with its jobs, timers, message subscriptions and
  incidents, keeps everything of every other instance and the job indices intact; an instance that is
  unknown or still live is left alone.\<close>

theorem evict_instance_effect:
  assumes "job_index_inv (est e)" "owner_inv (est e)"
  shows "if terminal_resident e k
     then fst (evict_instance k e) \<and> removed {|k|} (est e) (est (snd (evict_instance k e)))
       \<and> job_index_inv (est (snd (evict_instance k e))) \<and> owner_inv (est (snd (evict_instance k e)))
     else evict_instance k e = (False, e)"
  using evict_instance_removed [OF assms, of k] by (auto simp: evict_instance_def Let_def)

theorem evict_instance_effect_witness:
  "if terminal_resident busy_engine 1
   then fst (evict_instance 1 busy_engine) \<and> removed {|1|} (est busy_engine) (est (snd (evict_instance 1 busy_engine)))
     \<and> job_index_inv (est (snd (evict_instance 1 busy_engine))) \<and> owner_inv (est (snd (evict_instance 1 busy_engine)))
   else evict_instance 1 busy_engine = (False, busy_engine)"
  by (rule evict_instance_effect [OF busy_inv(1,2)])

text \<open>Evicting all completed instances leaves exactly the live ones, and the count returned is the
  number of instances removed.\<close>

theorem evict_completed_effect:
  assumes "job_index_inv (est e)" "owner_inv (est e)"
  shows "instances (est (snd (evict_completed e))) = fmretain (\<lambda>i. \<not> pi_terminal (pi_state i)) (instances (est e))
     \<and> job_index_inv (est (snd (evict_completed e)))
     \<and> fst (evict_completed e) = fmcount (\<lambda>i. pi_terminal (pi_state i)) (instances (est e))"
proof -
  let ?ks = "filter (terminal_resident e) (sorted_list_of_fset (fmdom (instances (est e))))"
  have d: "distinct ?ks" by (simp add: sorted_list_of_fset.rep_eq)
  have ks: "set ?ks = {k. \<exists>i. fmlookup (instances (est e)) k = Some i \<and> pi_terminal (pi_state i)}"
    by (auto simp: terminal_resident_def fmlookup_dom_iff split: option.splits)
  have "length ?ks = fmcount (\<lambda>i. pi_terminal (pi_state i)) (instances (est e))"
    using distinct_card [OF d] by (simp only: ks fmcount_def)
  moreover have "fmfilter (\<lambda>k. k \<notin> set ?ks) (instances (est e)) = fmretain (\<lambda>i. \<not> pi_terminal (pi_state i)) (instances (est e))"
    by (rule fmap_ext) (simp only: ks, auto split: option.split)
  moreover note evict_all [OF assms _ d]
  ultimately show ?thesis by (simp add: evict_completed_def Let_def cong del: fmfilter_cong)
qed

theorem evict_completed_effect_witness:
  "instances (est (snd (evict_completed busy_engine))) = fmretain (\<lambda>i. \<not> pi_terminal (pi_state i)) (instances (est busy_engine))
   \<and> job_index_inv (est (snd (evict_completed busy_engine)))
   \<and> fst (evict_completed busy_engine) = fmcount (\<lambda>i. pi_terminal (pi_state i)) (instances (est busy_engine))"
  by (rule evict_completed_effect [OF busy_inv(1,2)])

lemma emit_tombstones: "retired_tombstones (fst (emit ev el)) = retired_tombstones (fst el)"
proof -
  have plain: "retired_tombstones (fst (emit_plain ev el)) = retired_tombstones (fst el)" for ev el
    by (cases el) (simp add: emit_plain_def Let_def track_dirty_def split: event.split variable_event.split lifecycle_event.split)
  have fold: "retired_tombstones (fst (fold f xs el)) = retired_tombstones (fst el)"
    if "\<And>x el. retired_tombstones (fst (f x el)) = retired_tombstones (fst el)" for f :: "'x \<Rightarrow> logged \<Rightarrow> logged" and xs el
    using that by (induction xs arbitrary: el) simp_all
  have trans: "retired_tombstones (fst (transition_pending_agent_history aik c e)) = retired_tombstones e" for aik c e
    using plain [of _ "(e, [])"] by (simp add: transition_pending_agent_history_def Let_def split: option.split)
  have settle: "retired_tombstones (fst (settle_job_history ik jk l c el)) = retired_tombstones (fst el)" for ik jk l c el
    unfolding settle_job_history_def Let_def
    by (rule fold) (simp add: settle_record_def Let_def plain split: option.split)
  have cleanup: "retired_tombstones (fst (cleanup_agent_instances ik el)) = retired_tombstones (fst el)" for ik el
    unfolding cleanup_agent_instances_def Let_def
    by (rule fold) (simp add: cleanup_agent_def Let_def case_prod_beta plain trans)
  show ?thesis by (simp add: emit_def Let_def plain settle cleanup split: option.split)
qed

text \<open>a retirement that overtakes the creation it retires is not lost: as long as the tombstone set
  has room, an instance that is absent when it is retired and created by a later command is gone when
  that command finishes.\<close>

theorem retire_before_create:
  assumes "k \<in> set ks" "k |\<notin>| fmdom (instances (est e))" "fcard (retired_tombstones e) + length ks \<le> MAX_TOMBSTONES"
    and "ev \<in> set evs" "created_instance ev = Some k"
  shows "k |\<notin>| fmdom (instances (est (finish_command (snd (fold emit evs (snd (retire_instances ks e), [])))
        (fst (fold emit evs (snd (retire_instances ks e), []))))))"
proof (rule finish_command_reaps)
  have keep: "retired_tombstones (fst (fold emit evs el)) = retired_tombstones (fst el)" for el
    by (induction evs arbitrary: el) (simp_all add: emit_tombstones)
  show "k |\<in>| retired_tombstones (fst (fold emit evs (snd (retire_instances ks e), [])))"
    using retire_tombstones [OF assms(1-3)] by (simp add: keep)
  have "set (snd el) \<union> set evs \<subseteq> set (snd (fold emit evs el))" for el
  proof (induction evs arbitrary: el)
    case (Cons ev evs)
    from Cons.IH [of "emit ev el"] emit_logs_event [of el ev] show ?case by auto
  qed simp
  with assms(4) show "ev \<in> set (snd (fold emit evs (snd (retire_instances ks e), [])))" by blast
qed (rule assms(5))

theorem retire_before_create_witness:
  "5 |\<notin>| fmdom (instances (est (finish_command
       (snd (fold emit [EVariable (ProcessInstanceCreated 5 ''order'' fmempty 0 [] None 0 0 None None)] (snd (retire_instances [5] busy_engine), [])))
       (fst (fold emit [EVariable (ProcessInstanceCreated 5 ''order'' fmempty 0 [] None 0 0 None None)] (snd (retire_instances [5] busy_engine), []))))))"
  by (rule retire_before_create [of 5 "[5]" busy_engine
        "EVariable (ProcessInstanceCreated 5 ''order'' fmempty 0 [] None 0 0 None None)"])
    (simp_all add: created_instance_def busy_engine_def engine_of_def MAX_TOMBSTONES_def fcard_fempty)

text \<open>reconciling a follower against its owner's low-water mark removes at most the allowed number of
  instances, only ones below the mark, and never one that is active on the owner.\<close>

theorem low_water_spares_active:
  assumes "retire_below iteration (retirement_low_water owner) n follower = (vs, follower')"
    and "stored_under pi_key (instances (est owner))"
    and "fmlookup (instances (est owner)) k = Some i" "pi_state i = PIActive"
  shows "k \<notin> set vs \<and> fmlookup (instances (est follower')) k = fmlookup (instances (est follower)) k
     \<and> length vs \<le> n \<and> set vs \<subseteq> set iteration"
proof -
  have "retirement_low_water owner \<le> k"
    using low_water_active [OF assms(3,4) stored_underD [OF assms(2,3)]] .
  with retire_below_instances [OF assms(1)] show ?thesis by (auto simp: leD)
qed

theorem low_water_spares_active_witness:
  "1 \<notin> set (fst (retire_below [1] (retirement_low_water busy_engine) 9 busy_engine))
   \<and> fmlookup (instances (est (snd (retire_below [1] (retirement_low_water busy_engine) 9 busy_engine)))) 1
       = fmlookup (instances (est busy_engine)) 1
   \<and> length (fst (retire_below [1] (retirement_low_water busy_engine) 9 busy_engine)) \<le> 9
   \<and> set (fst (retire_below [1] (retirement_low_water busy_engine) 9 busy_engine)) \<subseteq> set [1]"
  by (rule low_water_spares_active [of "[1]" busy_engine 9 busy_engine _ _ 1 "running_instance\<lparr> pi_variables := fmupd ''x'' (VInt 3) fmempty \<rparr>"])
    (use busy_inv(4) in \<open>simp_all add: entity_keys_inv_def, simp_all add: busy_engine_def engine_of_def running_instance_def\<close>)

section \<open>Where the code departs from its intent\<close>

definition suspended_engine :: engine where
  "suspended_engine = engine_of (state_new\<lparr> instances :=
     fmupd 2 (running_instance\<lparr> pi_key := 2 \<rparr>) (fmupd 1 (running_instance\<lparr> pi_state := PISuspended, pi_suspended_at := Some 7 \<rparr>) fmempty) \<rparr>) 0 10"

text \<open>The low-water mark looks at active instances only: a suspended instance older than every active one
  lies below the mark, and a follower that reconciles against it drops the live instance.\<close>

theorem low_water_drops_suspended:
  "1 |\<in>| fmdom (instances (est suspended_engine)) \<and> \<not> terminal_resident suspended_engine 1
   \<and> 1 |\<notin>| fmdom (instances (est (snd (retire_below [1, 2] (retirement_low_water suspended_engine) 9 suspended_engine))))"
proof -
  have inst: "instances (est suspended_engine) = fmupd 2 (running_instance\<lparr> pi_key := 2 \<rparr>)
      (fmupd 1 (running_instance\<lparr> pi_state := PISuspended, pi_suspended_at := Some 7 \<rparr>) fmempty)"
    by (simp add: suspended_engine_def engine_of_def)
  have "sorted_list_of_fset {|2, 1 :: key|} = [1, 2]" by (simp add: sorted_list_of_fset.rep_eq word_le_nat_alt)
  then have "active_keys suspended_engine = [2]"
    by (simp add: active_keys_def sorted_list_of_fmap_def inst) (simp add: running_instance_def)
  then have "retirement_low_water suspended_engine = 2" by (simp add: retirement_low_water_def)
  moreover have "instances (est suspended_engine) \<noteq> fmempty"
    unfolding inst by (metis fmempty_lookup fmupd_lookup option.distinct(1))
  ultimately show ?thesis
    by (simp add: retire_below_def Let_def inst terminal_resident_def pi_terminal_def)
qed

text \<open>Eviction and retirement never drop user tasks or signal and conditional subscriptions, and they do
  not touch the in-flight counters.\<close>

theorem removal_leaves_waiting_entities:
  "user_tasks (est (snd (evict_instance k e))) = user_tasks (est e)
   \<and> signal_subscriptions (est (snd (evict_instance k e))) = signal_subscriptions (est e)
   \<and> conditional_subscriptions (est (snd (evict_instance k e))) = conditional_subscriptions (est e)
   \<and> user_tasks (est (snd (remove_instance_set V e))) = user_tasks (est e)
   \<and> signal_subscriptions (est (snd (remove_instance_set V e))) = signal_subscriptions (est e)
   \<and> conditional_subscriptions (est (snd (remove_instance_set V e))) = conditional_subscriptions (est e)
   \<and> inflight_by_process (est (snd (remove_instance_set V e))) = inflight_by_process (est e)"
  by (simp add: evict_instance_def remove_instance_set_def Let_def)

text \<open>Retiring a live instance on a follower leaves it counted in flight.\<close>

theorem retirement_leaks_inflight:
  assumes "inflight_inv (est e)" "fmlookup (instances (est e)) k = Some i" "\<not> pi_terminal (pi_state i)"
  shows "\<not> inflight_inv (est (snd (remove_instance_set {|k|} e)))"
proof
  let ?s = "est (snd (remove_instance_set {|k|} e))" and ?p = "pi_process_id i"
  assume "inflight_inv ?s"
  then have "inflight ?s ?p = fmcount (live_instance_of ?p) (instances ?s)" by (simp add: inflight_inv_def)
  moreover have "instances ?s = fmdrop k (instances (est e))"
    by (simp add: fmdrop_fset_filter fmfilter_alt_defs(1))
  moreover have "inflight ?s ?p = inflight (est e) ?p"
    by (simp add: inflight_def remove_instance_set_def Let_def)
  moreover have "fmcount (live_instance_of ?p) (instances (est e)) = fmcount (live_instance_of ?p) (fmdrop k (instances (est e))) + 1"
    using assms(2,3) by (subst fmcount_drop [of _ _ k]) (simp add: live_instance_of_def)
  ultimately show False using assms(1) by (simp add: inflight_inv_def)
qed

text \<open>An instance that waits on a signal is chosen for variable spill, although a broadcast resumes it
  without any job activation.\<close>

theorem spill_ignores_signals:
  assumes "k \<in> set (spillable_instances n e)"
  shows "k \<in> set (spillable_instances n (e\<lparr> est := (est e)\<lparr> signal_subscriptions :=
     fmupd sk \<lparr> ss_key = sk, ss_instance_key = k, ss_element_instance_key = eik, ss_element_id = eid, ss_signal_name = name,
       ss_state = SubOpen, ss_kind = kind \<rparr> (signal_subscriptions (est e)) \<rparr> \<rparr>))"
proof -
  have "instances_with_async_token (e\<lparr> est := (est e)\<lparr> signal_subscriptions := x \<rparr> \<rparr>) = instances_with_async_token e"
    "is_spillable (e\<lparr> est := (est e)\<lparr> signal_subscriptions := x \<rparr> \<rparr>) = is_spillable e" for x
    by (auto simp: instances_with_async_token_def is_spillable_def Let_def fun_eq_iff)
  then show ?thesis using assms by (auto simp: spillable_instances_def Let_def split: if_splits)
qed

end
