(* ===== verification/Text.thy ===== *)
theory Text
  imports State_Types
begin

text \<open>
  What the engine uses of Rust's strings and numeric conversions. A string is its UTF-8 encoding, one
  \<open>char\<close> per byte.
\<close>

section \<open>White space\<close>

definition bytes :: "nat list \<Rightarrow> string" where
  "bytes ns = map char_of ns"

text \<open>The UTF-8 encodings of the characters with the Unicode property White_Space.\<close>

definition white_space :: "string list" where
  "white_space = map bytes ([[9], [10], [11], [12], [13], [32], [194, 133], [194, 160], [225, 154, 128]]
     @ map (\<lambda>n. [226, 128, n]) ([128 ..< 139] @ [168, 169, 175]) @ [[226, 129, 159], [227, 128, 128]])"

definition starts_with :: "string \<Rightarrow> string \<Rightarrow> bool" where
  "starts_with p s = (take (length p) s = p)"

definition leading_space :: "string list \<Rightarrow> string \<Rightarrow> nat" where
  "leading_space spaces s = (case List.find (\<lambda>w. starts_with w s) spaces of None \<Rightarrow> 0 | Some w \<Rightarrow> length w)"

function trim_with :: "string list \<Rightarrow> string \<Rightarrow> string" where
  "trim_with spaces s =
     (if s = [] \<or> leading_space spaces s = 0 then s else trim_with spaces (drop (leading_space spaces s) s))"
  by pat_completeness auto

termination trim_with
  by (relation "measure (length \<circ> snd)") auto

definition trim_start :: "string \<Rightarrow> string" where
  "trim_start s = trim_with white_space s"

definition trim :: "string \<Rightarrow> string" where
  "trim s = rev (trim_with (map rev white_space) (rev (trim_start s)))"

definition is_expression :: "string \<Rightarrow> bool" where
  "is_expression s = starts_with ''='' s"

fun split_on :: "char \<Rightarrow> string \<Rightarrow> string list" where
  "split_on sep [] = [[]]"
| "split_on sep (c # cs) =
     (if c = sep then [] # split_on sep cs else (c # hd (split_on sep cs)) # tl (split_on sep cs))"

section \<open>Numbers\<close>

text \<open>\<open>str::parse\<close> for a signed integer type: an optional sign, at least one decimal digit, and a value in range.\<close>

definition digit_value :: "char \<Rightarrow> int option" where
  "digit_value c = (if CHR ''0'' \<le> c \<and> c \<le> CHR ''9'' then Some (int (of_char c - of_char CHR ''0'')) else None)"

fun decimal :: "int \<Rightarrow> string \<Rightarrow> int option" where
  "decimal acc [] = Some acc"
| "decimal acc (c # cs) = (case digit_value c of None \<Rightarrow> None | Some d \<Rightarrow> decimal (acc * 10 + d) cs)"

definition parse_int :: "int \<Rightarrow> int \<Rightarrow> string \<Rightarrow> int option" where
  "parse_int lo hi s =
     (let (neg, digits) = (case s of
            c # cs \<Rightarrow> if c = CHR ''-'' then (True, cs) else if c = CHR ''+'' then (False, cs) else (False, s)
          | [] \<Rightarrow> (False, []))
      in if digits = [] then None
         else case decimal 0 digits of
           None \<Rightarrow> None
         | Some n \<Rightarrow> (let v = (if neg then - n else n) in if lo \<le> v \<and> v \<le> hi then Some v else None))"

definition parse_i32 :: "string \<Rightarrow> int option" where
  "parse_i32 = parse_int i32_min i32_max"

definition parse_i128 :: "string \<Rightarrow> int option" where
  "parse_i128 = parse_int (- (2 ^ 127)) (2 ^ 127 - 1)"

text \<open>\<open>i as i32\<close> keeps the low 32 bits; \<open>d as i32\<close> truncates towards zero and saturates, and is 0 on NaN.\<close>

definition i64_as_i32 :: "int \<Rightarrow> int" where
  "i64_as_i32 i = (i + 2 ^ 31) mod 2 ^ 32 - 2 ^ 31"

definition f64_trunc :: "u64 \<Rightarrow> int option" where
  "f64_trunc bits =
     (let n = uint bits; neg = (2 ^ 63 \<le> n); ex = n div 2 ^ 52 mod 2 ^ 11; mant = n mod 2 ^ 52
      in if ex = 2047 \<and> mant \<noteq> 0 then None
         else
           (let m = (if ex = 0 then mant else mant + 2 ^ 52); e = nat (max 1 ex);
                magnitude = (if ex = 2047 then 2 ^ 1024
                             else if 1075 \<le> e then m * 2 ^ (e - 1075) else m div 2 ^ (1075 - e))
            in Some (if neg then - magnitude else magnitude)))"

definition clamp_i32 :: "int \<Rightarrow> int" where
  "clamp_i32 v = max i32_min (min i32_max v)"

definition f64_as_i32 :: "u64 \<Rightarrow> int" where
  "f64_as_i32 bits = (case f64_trunc bits of None \<Rightarrow> 0 | Some v \<Rightarrow> clamp_i32 v)"

fun nat_string :: "nat \<Rightarrow> string" where
  "nat_string n = (if n < 10 then [char_of (48 + n)] else nat_string (n div 10) @ [char_of (48 + n mod 10)])"

declare nat_string.simps [simp del]

definition int_string :: "int \<Rightarrow> string" where
  "int_string i = (if i < 0 then CHR ''-'' # nat_string (nat (- i)) else nat_string (nat i))"

section \<open>Printing and parsing numbers\<close>

lemma digit_code: "k < 10 \<Longrightarrow> (of_char (char_of (48 + k :: nat)) :: nat) = 48 + k"
  by simp

lemma digit_value_of: "k < 10 \<Longrightarrow> digit_value (char_of (48 + k)) = Some (int k)"
  by (simp add: digit_value_def less_eq_char_def)

lemma digit_not_sign: "k < 10 \<Longrightarrow> char_of (48 + k :: nat) \<notin> {CHR ''-'', CHR ''+'', CHR '':'', CHR ''.''}"
proof
  assume "k < 10" "char_of (48 + k :: nat) \<in> {CHR ''-'', CHR ''+'', CHR '':'', CHR ''.''}"
  then have "48 + k \<in> (of_char :: char \<Rightarrow> nat) ` {CHR ''-'', CHR ''+'', CHR '':'', CHR ''.''}"
    using digit_code [of k] by (metis image_eqI)
  with \<open>k < 10\<close> show False by simp
qed

lemma decimal_append: "decimal acc (xs @ ys) = Option.bind (decimal acc xs) (\<lambda>a. decimal a ys)"
  by (induction xs arbitrary: acc) (auto split: option.splits)

lemma decimal_zeros [simp]: "decimal 0 (replicate k CHR ''0'' @ s) = decimal 0 s"
  by (induction k) (simp_all add: digit_value_def)

lemma decimal_nat_string [simp]: "decimal 0 (nat_string n) = Some (int n)"
proof (induction n rule: nat_string.induct)
  case (1 n)
  show ?case
  proof (cases "n < 10")
    case True
    then show ?thesis by (simp add: nat_string.simps [of n] digit_value_of)
  next
    case False
    have "int (n div 10) * 10 + int (n mod 10) = int n" by (metis div_mult_mod_eq of_nat_add of_nat_mult of_nat_numeral)
    with False 1 show ?thesis by (simp add: nat_string.simps [of n] decimal_append digit_value_of)
  qed
qed

lemma nat_string_not_Nil [simp]: "nat_string n \<noteq> []"
  by (simp add: nat_string.simps [of n])

lemma nat_string_no_sign: "set (nat_string n) \<inter> {CHR ''-'', CHR ''+'', CHR '':'', CHR ''.''} = {}"
proof (induction n rule: nat_string.induct)
  case (1 n)
  then show ?case using digit_not_sign [of n] digit_not_sign [of "n mod 10"] by (auto simp: nat_string.simps [of n])
qed

lemma split_on_none: "sep \<notin> set xs \<Longrightarrow> split_on sep xs = [xs]"
  by (induction xs) auto

lemma split_on_append: "sep \<notin> set xs \<Longrightarrow> split_on sep (xs @ sep # ys) = xs # split_on sep ys"
  by (induction xs) auto

end
