(* ===== verification/Temporal.thy ===== *)
theory Temporal
  imports Text
begin

text \<open>
  ISO-8601 durations (\<open>engine-core/src/temporal.rs\<close>). One scanner serves the timers of a process and the
  day-time durations of FEEL; a form says whether a sign, weeks and a fraction of seconds are allowed.
  Arithmetic is on \<open>i128\<close> and every overflow is an error.
\<close>

section \<open>The scanner\<close>

definition NANOS_PER_SEC :: int where "NANOS_PER_SEC = 1000000000"
definition NANOS_PER_MILLI :: int where "NANOS_PER_MILLI = 1000000"
definition SECS_PER_DAY :: int where "SECS_PER_DAY = 86400"
definition SECS_PER_HOUR :: int where "SECS_PER_HOUR = 3600"
definition SECS_PER_MINUTE :: int where "SECS_PER_MINUTE = 60"
definition DAYS_PER_WEEK :: int where "DAYS_PER_WEEK = 7"

record duration_form =
  allow_sign :: bool
  allow_weeks :: bool
  allow_fraction :: bool

definition BPMN_TIMER :: duration_form where
  "BPMN_TIMER = \<lparr> allow_sign = False, allow_weeks = True, allow_fraction = False \<rparr>"

definition FEEL_DAYTIME :: duration_form where
  "FEEL_DAYTIME = \<lparr> allow_sign = True, allow_weeks = False, allow_fraction = True \<rparr>"

definition i128 :: "int \<Rightarrow> int option" where
  "i128 v = (if - (2 ^ 127) \<le> v \<and> v \<le> 2 ^ 127 - 1 then Some v else None)"

definition checked_add :: "int \<Rightarrow> int \<Rightarrow> int option" where
  "checked_add a b = i128 (a + b)"

definition checked_mul :: "int \<Rightarrow> int \<Rightarrow> int option" where
  "checked_mul a b = i128 (a * b)"

definition is_digit :: "char \<Rightarrow> bool" where
  "is_digit c \<longleftrightarrow> digit_value c \<noteq> None"

definition strip_sign :: "string \<Rightarrow> bool \<times> string" where
  "strip_sign s = (case s of
     c # rest \<Rightarrow> if c = CHR ''-'' then (True, rest) else if c = CHR ''+'' then (False, rest) else (False, s)
   | [] \<Rightarrow> (False, s))"

definition split_once :: "char \<Rightarrow> string \<Rightarrow> (string \<times> string) option" where
  "split_once sep s = (if sep \<in> set s then Some (takeWhile (\<lambda>c. c \<noteq> sep) s, drop 1 (dropWhile (\<lambda>c. c \<noteq> sep) s)) else None)"

definition add_unit :: "int \<Rightarrow> string \<Rightarrow> int \<Rightarrow> int option" where
  "add_unit nanos num factor =
     (if num = [] then None
      else Option.bind (parse_i128 num) (\<lambda>v. Option.bind (checked_mul v factor) (checked_add nanos)))"

text \<open>The first nine digits of a fraction, padded with zeros, and the tenth for rounding.\<close>

definition digit_of :: "char \<Rightarrow> int" where
  "digit_of c = (case digit_value c of None \<Rightarrow> 0 | Some d \<Rightarrow> d)"

definition nanos_of_fraction :: "string \<Rightarrow> int" where
  "nanos_of_fraction ds =
     foldl (\<lambda>acc k. acc * 10 + (if k < length ds then digit_of (ds ! k) else 0)) 0 [0 ..< 9]
     + (if 9 < length ds \<and> 5 \<le> digit_of (ds ! 9) then 1 else 0)"

definition parse_decimal_seconds_nanos :: "string \<Rightarrow> int option" where
  "parse_decimal_seconds_nanos num =
     (let (int_str, frac_str) = (case split_once CHR ''.'' num of Some p \<Rightarrow> p | None \<Rightarrow> (num, []))
      in if CHR ''.'' \<in> set frac_str \<or> \<not> list_all is_digit int_str \<or> \<not> list_all is_digit frac_str
            \<or> (int_str = [] \<and> frac_str = []) then None
         else Option.bind (if int_str = [] then Some 0 else parse_i128 int_str) (\<lambda>int_secs.
           Option.bind (checked_mul int_secs NANOS_PER_SEC) (\<lambda>total.
             if frac_str = [] then Some total else checked_add total (nanos_of_fraction frac_str))))"

definition add_seconds :: "int \<Rightarrow> string \<Rightarrow> bool \<Rightarrow> int option" where
  "add_seconds nanos num fraction =
     (if num = [] then None
      else if fraction then Option.bind (parse_decimal_seconds_nanos num) (checked_add nanos)
      else Option.bind (parse_i128 num) (\<lambda>v. Option.bind (checked_mul v NANOS_PER_SEC) (checked_add nanos)))"

text \<open>The accumulators of the two loops: the total, whether a unit was seen, the pending number.\<close>

type_synonym scan = "int \<times> bool \<times> string"

fun date_loop :: "duration_form \<Rightarrow> string \<Rightarrow> scan \<Rightarrow> scan option" where
  "date_loop form [] st = Some st"
| "date_loop form (c # cs) (nanos, saw_unit, num) =
     (if is_digit c then date_loop form cs (nanos, saw_unit, num @ [c])
      else if c = CHR ''W'' \<and> allow_weeks form
      then Option.bind (add_unit nanos num (DAYS_PER_WEEK * SECS_PER_DAY * NANOS_PER_SEC)) (\<lambda>n. date_loop form cs (n, True, []))
      else if c = CHR ''D''
      then Option.bind (add_unit nanos num (SECS_PER_DAY * NANOS_PER_SEC)) (\<lambda>n. date_loop form cs (n, True, []))
      else None)"

fun time_loop :: "duration_form \<Rightarrow> string \<Rightarrow> scan \<Rightarrow> scan option" where
  "time_loop form [] st = Some st"
| "time_loop form (c # cs) (nanos, saw_unit, num) =
     (if is_digit c then time_loop form cs (nanos, saw_unit, num @ [c])
      else if c = CHR ''.'' \<and> allow_fraction form then time_loop form cs (nanos, saw_unit, num @ [c])
      else if c = CHR ''H''
      then Option.bind (add_unit nanos num (SECS_PER_HOUR * NANOS_PER_SEC)) (\<lambda>n. time_loop form cs (n, True, []))
      else if c = CHR ''M''
      then Option.bind (add_unit nanos num (SECS_PER_MINUTE * NANOS_PER_SEC)) (\<lambda>n. time_loop form cs (n, True, []))
      else if c = CHR ''S''
      then Option.bind (add_seconds nanos num (allow_fraction form)) (\<lambda>n. time_loop form cs (n, True, []))
      else None)"

definition parse_duration_nanos :: "string \<Rightarrow> duration_form \<Rightarrow> int option" where
  "parse_duration_nanos raw form =
     (let (neg, body) = (if allow_sign form then strip_sign raw else (False, raw))
      in case body of
           [] \<Rightarrow> None
         | c # body \<Rightarrow>
             (if c \<noteq> CHR ''P'' \<or> body = [] then None
              else
                (let (date_part, time_part) = (case split_once CHR ''T'' body of Some p \<Rightarrow> p | None \<Rightarrow> (body, []))
                 in Option.bind (date_loop form date_part (0, False, [])) (\<lambda>(nanos, saw_unit, num).
                      if num \<noteq> [] then None
                      else Option.bind (time_loop form time_part (nanos, saw_unit, num)) (\<lambda>(nanos, saw_unit, num).
                        if num \<noteq> [] \<or> \<not> saw_unit then None
                        else Some (if neg then - nanos else nanos))))))"

definition parse_duration_millis :: "string \<Rightarrow> u64 option" where
  "parse_duration_millis raw = Option.bind (parse_duration_nanos (trim raw) BPMN_TIMER) (\<lambda>nanos.
     let millis = nanos div NANOS_PER_MILLI in if 0 \<le> millis \<and> millis < 2 ^ 64 then Some (word_of_int millis) else None)"

definition parse_cycle_millis :: "string \<Rightarrow> u64 option" where
  "parse_cycle_millis raw =
     (let s = trim raw
      in case split_once CHR ''/'' s of
           Some (repeat, interval) \<Rightarrow> if starts_with ''R'' repeat then parse_duration_millis interval else None
         | None \<Rightarrow> parse_duration_millis s)"

section \<open>The grammar of a duration\<close>

text \<open>A field is a number in decimal digits and the letter of its unit.\<close>

type_synonym field = "string \<times> char"

definition number_of :: "string \<Rightarrow> int" where
  "number_of ds = foldl (\<lambda>acc c. acc * 10 + digit_of c) 0 ds"

definition field_ok :: "(char \<Rightarrow> int option) \<Rightarrow> field \<Rightarrow> bool" where
  "field_ok unit f \<longleftrightarrow> fst f \<noteq> [] \<and> list_all is_digit (fst f) \<and> unit (snd f) \<noteq> None"

definition field_nanos :: "(char \<Rightarrow> int option) \<Rightarrow> field \<Rightarrow> int" where
  "field_nanos unit f = number_of (fst f) * the (unit (snd f))"

definition print_field :: "field \<Rightarrow> string" where
  "print_field f = fst f @ [snd f]"

definition date_unit :: "char \<Rightarrow> int option" where
  "date_unit c = (if c = CHR ''W'' then Some (7 * 86400 * 10 ^ 9) else if c = CHR ''D'' then Some (86400 * 10 ^ 9) else None)"

definition time_unit :: "char \<Rightarrow> int option" where
  "time_unit c = (if c = CHR ''H'' then Some (3600 * 10 ^ 9) else if c = CHR ''M'' then Some (60 * 10 ^ 9)
     else if c = CHR ''S'' then Some (10 ^ 9) else None)"

text \<open>A scanner over integer fields only, with a table of units: what both loops are on the timer form.\<close>

fun scan_fields :: "(char \<Rightarrow> int option) \<Rightarrow> string \<Rightarrow> scan \<Rightarrow> scan option" where
  "scan_fields unit [] st = Some st"
| "scan_fields unit (c # cs) (nanos, saw, num) =
     (if is_digit c then scan_fields unit cs (nanos, saw, num @ [c])
      else case unit c of
        None \<Rightarrow> None
      | Some factor \<Rightarrow> Option.bind (add_unit nanos num factor) (\<lambda>n. scan_fields unit cs (n, True, [])))"

lemma is_digit_not [simp]: "\<not> is_digit CHR ''W''" "\<not> is_digit CHR ''D''" "\<not> is_digit CHR ''H''" "\<not> is_digit CHR ''M''"
  "\<not> is_digit CHR ''S''" "\<not> is_digit CHR ''T''" "\<not> is_digit CHR ''-''" "\<not> is_digit CHR ''+''" "\<not> is_digit CHR ''.''"
  by (simp_all add: is_digit_def digit_value_def less_eq_char_def)

lemma date_loop_scan: "date_loop BPMN_TIMER cs st = scan_fields date_unit cs st"
  by (induction date_unit cs st rule: scan_fields.induct)
    (auto simp: date_unit_def BPMN_TIMER_def DAYS_PER_WEEK_def SECS_PER_DAY_def NANOS_PER_SEC_def split: bind_split)

lemma time_loop_scan: "time_loop BPMN_TIMER cs st = scan_fields time_unit cs st"
  by (induction time_unit cs st rule: scan_fields.induct)
    (auto simp: time_unit_def BPMN_TIMER_def add_seconds_def add_unit_def SECS_PER_HOUR_def SECS_PER_MINUTE_def NANOS_PER_SEC_def
      split: bind_split)

lemma digit_range: "digit_value c = Some d \<Longrightarrow> 0 \<le> d \<and> d \<le> 9"
proof -
  assume "digit_value c = Some d"
  then have "(of_char CHR ''0'' :: nat) \<le> of_char c" "(of_char c :: nat) \<le> of_char CHR ''9''" "d = int (of_char c - of_char CHR ''0'')"
    by (auto simp: digit_value_def less_eq_char_def split: if_splits)
  then show ?thesis by simp
qed

lemma digit_of_range: "0 \<le> digit_of c \<and> digit_of c \<le> 9"
  using digit_range [of c] by (auto simp: digit_of_def split: option.split)

lemma foldl_digits_mono: "0 \<le> a \<Longrightarrow> a \<le> foldl (\<lambda>acc c. acc * 10 + digit_of c) a ds"
proof (induction ds arbitrary: a)
  case (Cons c ds)
  have "a \<le> a * 10 + digit_of c" using Cons.prems digit_of_range [of c] by linarith
  moreover have "0 \<le> a * 10 + digit_of c" using Cons.prems digit_of_range [of c] by linarith
  ultimately show ?case using Cons.IH [of "a * 10 + digit_of c"] by simp
qed simp

lemma number_of_nonneg: "0 \<le> number_of ds"
  using foldl_digits_mono [of 0 ds] by (simp add: number_of_def)

lemma decimal_digits: "list_all is_digit ds \<Longrightarrow> decimal a ds = Some (foldl (\<lambda>acc c. acc * 10 + digit_of c) a ds)"
  by (induction ds arbitrary: a) (auto simp: is_digit_def digit_of_def)

abbreviation i128_max :: int where "i128_max \<equiv> 2 ^ 127 - 1"

lemma i128_nonneg: "0 \<le> v \<Longrightarrow> i128 v = (if v \<le> i128_max then Some v else None)"
  by (simp add: i128_def)

lemma parse_digits: "ds \<noteq> [] \<Longrightarrow> list_all is_digit ds \<Longrightarrow> parse_i128 ds = i128 (number_of ds)"
proof -
  assume ds: "ds \<noteq> []" "list_all is_digit ds"
  then obtain c cs where c: "ds = c # cs" "is_digit c" by (cases ds) auto
  then have "c \<noteq> CHR ''-''" "c \<noteq> CHR ''+''" using is_digit_not(7,8) by metis+
  moreover
  have "decimal 0 ds = Some (number_of ds)" using ds(2) by (simp add: decimal_digits number_of_def)
  ultimately show ?thesis using c(1) by (simp add: parse_i128_def parse_int_def i128_def Let_def del: decimal.simps)
qed

lemma add_unit_iff:
  assumes "ds \<noteq> []" "list_all is_digit ds" "0 \<le> n" "1 \<le> factor"
  shows "add_unit n ds factor = (if n + number_of ds * factor \<le> i128_max then Some (n + number_of ds * factor) else None)"
proof -
  have le: "number_of ds \<le> number_of ds * factor" "0 \<le> number_of ds * factor"
    using assms(4) number_of_nonneg [of ds] by (simp_all add: mult_le_cancel_left1)
  show ?thesis
  proof (cases "n + number_of ds * factor \<le> i128_max")
    case True
    with le assms number_of_nonneg [of ds] show ?thesis
      by (simp add: add_unit_def parse_digits checked_mul_def checked_add_def i128_nonneg)
  next
    case False
    with le assms number_of_nonneg [of ds] show ?thesis
      by (auto simp: add_unit_def parse_digits checked_mul_def checked_add_def i128_nonneg)
  qed
qed

lemma field_nanos_nonneg: "field_ok unit f \<Longrightarrow> (\<And>c k. unit c = Some k \<Longrightarrow> 1 \<le> k) \<Longrightarrow> 0 \<le> field_nanos unit f"
  by (fastforce simp: field_ok_def field_nanos_def intro!: mult_nonneg_nonneg number_of_nonneg)

lemma total_nonneg:
  "list_all (field_ok unit) fs \<Longrightarrow> (\<And>c k. unit c = Some k \<Longrightarrow> 1 \<le> k) \<Longrightarrow> 0 \<le> sum_list (map (field_nanos unit) fs)"
  by (auto simp: list_all_iff intro!: sum_list_nonneg field_nanos_nonneg)

text \<open>Where a run of digits followed by another character can stand in a list of fields.\<close>

lemma fields_start:
  assumes "list_all (field_ok unit) fs" "list_all is_digit ds" "\<not> is_digit c" "ds @ c # cs = concat (map print_field fs)"
    and "\<And>c k. unit c = Some k \<Longrightarrow> \<not> is_digit c"
  shows "\<exists>rest. fs = (ds, c) # rest \<and> cs = concat (map print_field rest)"
proof (cases fs)
  case Nil
  with assms(4) show ?thesis by simp
next
  case (Cons f rest)
  obtain ns u where f: "f = (ns, u)" by (cases f)
  have ok: "list_all is_digit ns" "\<not> is_digit u" using assms(1,5) Cons f by (auto simp: field_ok_def)
  have eq: "ds @ c # cs = ns @ u # concat (map print_field rest)" using assms(4) Cons f by (simp add: print_field_def)
  have "takeWhile is_digit (xs @ x # ys) = xs" if "list_all is_digit xs" "\<not> is_digit x" for xs x ys
    using that by (simp add: takeWhile_tail list_all_iff)
  from this [OF assms(2,3)] this [OF ok] eq have "ds = ns" by metis
  with eq Cons f show ?thesis by simp
qed

lemma scan_grammar:
  assumes units: "\<And>c k. unit c = Some k \<Longrightarrow> 1 \<le> k \<and> \<not> is_digit c"
  shows "list_all is_digit num \<Longrightarrow> 0 \<le> n \<Longrightarrow> n \<le> i128_max \<Longrightarrow>
    scan_fields unit cs (n, saw, num) = Some (n', saw', []) \<longleftrightarrow>
    (\<exists>fs. num @ cs = concat (map print_field fs) \<and> list_all (field_ok unit) fs
       \<and> n' = n + sum_list (map (field_nanos unit) fs) \<and> n' \<le> i128_max \<and> saw' = (saw \<or> fs \<noteq> []))"
proof (induction cs arbitrary: n saw num)
  case Nil
  have none: "fs = []" if "num = concat (map print_field fs)" "list_all (field_ok unit) fs" for fs
  proof (cases fs)
    case (Cons f rest)
    with that have "snd f \<in> set num" "unit (snd f) \<noteq> None" by (auto simp: print_field_def field_ok_def)
    with Nil.prems(1) units show ?thesis by (auto simp: list_all_iff)
  qed simp
  show ?case
  proof
    assume "scan_fields unit [] (n, saw, num) = Some (n', saw', [])"
    with Nil.prems show "\<exists>fs. num @ [] = concat (map print_field fs) \<and> list_all (field_ok unit) fs
       \<and> n' = n + sum_list (map (field_nanos unit) fs) \<and> n' \<le> i128_max \<and> saw' = (saw \<or> fs \<noteq> [])"
      by (intro exI [of _ "[]"]) simp
  next
    assume "\<exists>fs. num @ [] = concat (map print_field fs) \<and> list_all (field_ok unit) fs
       \<and> n' = n + sum_list (map (field_nanos unit) fs) \<and> n' \<le> i128_max \<and> saw' = (saw \<or> fs \<noteq> [])"
    then obtain fs where "num = concat (map print_field fs)" "list_all (field_ok unit) fs"
      "n' = n + sum_list (map (field_nanos unit) fs)" "saw' = (saw \<or> fs \<noteq> [])" by auto
    with none [of fs] show "scan_fields unit [] (n, saw, num) = Some (n', saw', [])" by simp
  qed
next
  case (Cons c cs)
  show ?case
  proof (cases "is_digit c")
    case True
    with Cons.prems Cons.IH [of "num @ [c]" n saw] show ?thesis by simp
  next
    case False
    have start: "\<exists>rest. fs = (num, c) # rest \<and> cs = concat (map print_field rest)"
      if "list_all (field_ok unit) fs" "num @ c # cs = concat (map print_field fs)" for fs
      using fields_start [OF that(1) Cons.prems(1) False that(2)] units by blast
    show ?thesis
    proof (cases "unit c = None \<or> num = []")
      case True
      then have "\<not> (list_all (field_ok unit) fs \<and> num @ c # cs = concat (map print_field fs))" for fs
        using start [of fs] by (auto simp: field_ok_def)
      then have no: "\<not> (\<exists>fs. num @ c # cs = concat (map print_field fs) \<and> list_all (field_ok unit) fs
          \<and> n' = n + sum_list (map (field_nanos unit) fs) \<and> n' \<le> i128_max \<and> saw' = (saw \<or> fs \<noteq> []))" by blast
      have none: "scan_fields unit (c # cs) (n, saw, num) = None"
        using True False by (auto simp: add_unit_def split: option.split)
      show ?thesis unfolding none using no by blast
    next
      case ok: False
      then obtain k where k: "unit c = Some k" "1 \<le> k" using units by auto
      let ?v = "number_of num * k"
      have "0 \<le> ?v" using k number_of_nonneg [of num] by simp
      have "(\<exists>fs. num @ c # cs = concat (map print_field fs) \<and> list_all (field_ok unit) fs
          \<and> n' = n + sum_list (map (field_nanos unit) fs) \<and> n' \<le> i128_max \<and> saw' = (saw \<or> fs \<noteq> [])) \<longleftrightarrow>
        (\<exists>rest. cs = concat (map print_field rest) \<and> list_all (field_ok unit) rest
          \<and> n' = n + ?v + sum_list (map (field_nanos unit) rest) \<and> n' \<le> i128_max \<and> saw')" (is "?L \<longleftrightarrow> ?R")
      proof
        assume ?L
        then show ?R using start k by (fastforce simp: field_nanos_def)
      next
        assume ?R
        then obtain rest where "cs = concat (map print_field rest)" "list_all (field_ok unit) rest"
          "n' = n + ?v + sum_list (map (field_nanos unit) rest)" "n' \<le> i128_max" saw' by blast
        then show ?L using ok k Cons.prems(1)
          by (intro exI [of _ "(num, c) # rest"]) (simp add: print_field_def field_ok_def field_nanos_def)
      qed
      moreover have "n + ?v \<le> i128_max" if "list_all (field_ok unit) rest" "n' = n + ?v + sum_list (map (field_nanos unit) rest)"
        "n' \<le> i128_max" for rest
        using total_nonneg [OF that(1)] units that(2,3) by auto
      ultimately show ?thesis
        using False ok k Cons.prems Cons.IH [of "[]" "n + ?v" True] \<open>0 \<le> ?v\<close>
        by (auto simp: add_unit_iff)
    qed
  qed
qed

lemma date_units: "date_unit c = Some k \<Longrightarrow> 1 \<le> k \<and> \<not> is_digit c"
  by (auto simp: date_unit_def split: if_splits)

lemma time_units: "time_unit c = Some k \<Longrightarrow> 1 \<le> k \<and> \<not> is_digit c"
  by (auto simp: time_unit_def split: if_splits)

abbreviation print_fields :: "field list \<Rightarrow> string" where "print_fields fs \<equiv> concat (map print_field fs)"

abbreviation total_nanos :: "(char \<Rightarrow> int option) \<Rightarrow> field list \<Rightarrow> int" where
  "total_nanos unit fs \<equiv> sum_list (map (field_nanos unit) fs)"

definition time_mark :: "string option \<Rightarrow> string" where
  "time_mark t = (case t of None \<Rightarrow> [] | Some s \<Rightarrow> CHR ''T'' # s)"

lemma no_mark_in_dates: "list_all (field_ok date_unit) ds \<Longrightarrow> CHR ''T'' \<notin> set (print_fields ds)"
proof (induction ds)
  case (Cons f ds)
  have "CHR ''T'' \<notin> set (fst f)" using Cons.prems is_digit_not(6) by (auto simp: field_ok_def list_all_iff)
  moreover have "snd f \<noteq> CHR ''T''" using Cons.prems by (auto simp: field_ok_def date_unit_def)
  ultimately show ?case using Cons by (simp add: print_field_def)
qed simp

lemma split_once_first: "sep \<notin> set ys \<Longrightarrow> split_once sep (ys @ sep # zs) = Some (ys, zs)"
proof -
  assume "sep \<notin> set ys"
  then have "takeWhile (\<lambda>c. c \<noteq> sep) ys = ys" "dropWhile (\<lambda>c. c \<noteq> sep) ys = []"
    by (auto simp: takeWhile_eq_all_conv dropWhile_eq_Nil_conv)
  then show ?thesis by (simp add: split_once_def takeWhile_tail dropWhile_append3)
qed

lemma split_once_none: "sep \<notin> set ys \<Longrightarrow> split_once sep ys = None"
  by (simp add: split_once_def)

lemma split_mark:
  "(case split_once CHR ''T'' body of Some p \<Rightarrow> p | None \<Rightarrow> (body, [])) = (dp, tp) \<longleftrightarrow>
   CHR ''T'' \<notin> set dp \<and> (body = dp @ CHR ''T'' # tp \<or> body = dp \<and> tp = [])"
proof (cases "CHR ''T'' \<in> set body")
  case True
  then obtain ys zs where b: "body = ys @ CHR ''T'' # zs" and ys: "CHR ''T'' \<notin> set ys" by (meson split_list_first)
  have "(case split_once CHR ''T'' body of Some p \<Rightarrow> p | None \<Rightarrow> (body, [])) = (ys, zs)"
    unfolding b split_once_first [OF ys] by simp
  moreover have "CHR ''T'' \<notin> set dp \<and> (body = dp @ CHR ''T'' # tp \<or> body = dp \<and> tp = []) \<longleftrightarrow> ys = dp \<and> zs = tp"
  proof
    assume *: "CHR ''T'' \<notin> set dp \<and> (body = dp @ CHR ''T'' # tp \<or> body = dp \<and> tp = [])"
    with True have "ys @ CHR ''T'' # zs = dp @ CHR ''T'' # tp" "CHR ''T'' \<notin> set dp" by (auto simp: b)
    then have "Some (ys, zs) = Some (dp, tp)" by (metis split_once_first ys)
    then show "ys = dp \<and> zs = tp" by simp
  qed (use b ys in simp)
  ultimately show ?thesis by simp
next
  case False
  then show ?thesis by (auto simp: split_once_none)
qed

lemma parts_grammar:
  "(\<exists>n1 s1 s2. date_loop BPMN_TIMER dp (0, False, []) = Some (n1, s1, []) \<and> time_loop BPMN_TIMER tp (n1, s1, []) = Some (v, s2, []) \<and> s2)
   \<longleftrightarrow> (\<exists>ds ts. dp = print_fields ds \<and> tp = print_fields ts \<and> list_all (field_ok date_unit) ds \<and> list_all (field_ok time_unit) ts
        \<and> ds @ ts \<noteq> [] \<and> v = total_nanos date_unit ds + total_nanos time_unit ts \<and> v \<le> i128_max)"
  (is "?L \<longleftrightarrow> ?R")
proof -
  have date: "date_loop BPMN_TIMER dp (0, False, []) = Some (n1, s1, []) \<longleftrightarrow> (\<exists>ds. dp = print_fields ds \<and> list_all (field_ok date_unit) ds
      \<and> n1 = total_nanos date_unit ds \<and> n1 \<le> i128_max \<and> s1 = (ds \<noteq> []))" for n1 s1
    using scan_grammar [of date_unit, OF date_units, of "[]" 0 dp False n1 s1] by (simp add: date_loop_scan)
  have time: "time_loop BPMN_TIMER tp (n1, s1, []) = Some (v, s2, []) \<longleftrightarrow> (\<exists>ts. tp = print_fields ts \<and> list_all (field_ok time_unit) ts
      \<and> v = n1 + total_nanos time_unit ts \<and> v \<le> i128_max \<and> s2 = (s1 \<or> ts \<noteq> []))" if "0 \<le> n1" "n1 \<le> i128_max" for n1 s1 s2
    using scan_grammar [of time_unit, OF time_units, of "[]" n1 tp s1 v s2] that by (simp add: time_loop_scan)
  have nonneg: "0 \<le> total_nanos date_unit ds" if "list_all (field_ok date_unit) ds" for ds
    using total_nonneg [OF that] date_units by blast
  have nonneg_time: "0 \<le> total_nanos time_unit ts" if "list_all (field_ok time_unit) ts" for ts
    using total_nonneg [OF that] time_units by blast
  show ?thesis
  proof
    assume ?L
    then obtain n1 s1 s2 where l: "date_loop BPMN_TIMER dp (0, False, []) = Some (n1, s1, [])"
      "time_loop BPMN_TIMER tp (n1, s1, []) = Some (v, s2, [])" s2 by blast
    from l(1) [unfolded date] obtain ds where ds: "dp = print_fields ds" "list_all (field_ok date_unit) ds"
      "n1 = total_nanos date_unit ds" "n1 \<le> i128_max" "s1 = (ds \<noteq> [])" by blast
    with l(2) nonneg [of ds] have "\<exists>ts. tp = print_fields ts \<and> list_all (field_ok time_unit) ts
      \<and> v = n1 + total_nanos time_unit ts \<and> v \<le> i128_max \<and> s2 = (s1 \<or> ts \<noteq> [])" by (subst (asm) time) auto
    with ds l(3) show ?R by auto
  next
    assume ?R
    then obtain ds ts where r: "dp = print_fields ds" "tp = print_fields ts" "list_all (field_ok date_unit) ds"
      "list_all (field_ok time_unit) ts" "ds @ ts \<noteq> []" "v = total_nanos date_unit ds + total_nanos time_unit ts" "v \<le> i128_max"
      by blast
    then have le: "total_nanos date_unit ds \<le> i128_max" using nonneg_time [of ts] by simp
    with r have "date_loop BPMN_TIMER dp (0, False, []) = Some (total_nanos date_unit ds, ds \<noteq> [], [])" unfolding date by blast
    moreover have "time_loop BPMN_TIMER tp (total_nanos date_unit ds, ds \<noteq> [], []) = Some (v, ds \<noteq> [] \<or> ts \<noteq> [], [])"
      unfolding time [OF nonneg [OF r(3)] le] using r by blast
    ultimately show ?L using r(5) by blast
  qed
qed

section \<open>Properties of durations\<close>

text \<open>C20: a timer duration is accepted exactly when it is \<open>P\<close>, date fields (weeks and days), and optionally
  \<open>T\<close> and time fields (hours, minutes, seconds), with at least one field; its value is the exact
  sum of the fields, and it is rejected when that sum does not fit in 128 bits. In particular years,
  months, signs, fractions and numbers without a unit are rejected.\<close>

theorem duration_grammar:
  "parse_duration_nanos raw BPMN_TIMER = Some v \<longleftrightarrow>
   (\<exists>ds ts t. raw = ''P'' @ print_fields ds @ time_mark t \<and> (t = Some (print_fields ts) \<or> t = None \<and> ts = [])
      \<and> list_all (field_ok date_unit) ds \<and> list_all (field_ok time_unit) ts \<and> ds @ ts \<noteq> []
      \<and> v = total_nanos date_unit ds + total_nanos time_unit ts \<and> v \<le> i128_max)"
  (is "?P = Some v \<longleftrightarrow> ?R")
proof (cases "\<exists>body. raw = CHR ''P'' # body \<and> body \<noteq> []")
  case False
  then have "?P = None" by (cases raw) (auto simp: parse_duration_nanos_def BPMN_TIMER_def)
  moreover have "\<not> ?R"
  proof
    assume ?R
    then obtain ds ts t where r: "raw = ''P'' @ print_fields ds @ time_mark t" "t = Some (print_fields ts) \<or> t = None \<and> ts = []"
      "ds @ ts \<noteq> []" by blast
    then have "print_fields ds @ time_mark t \<noteq> []" by (cases ds) (auto simp: print_field_def time_mark_def)
    with r(1) False show False by simp
  qed
  ultimately show ?thesis by (metis option.distinct(1))
next
  case True
  then obtain body where body: "raw = CHR ''P'' # body" "body \<noteq> []" by blast
  obtain dp tp where parts: "(case split_once CHR ''T'' body of Some p \<Rightarrow> p | None \<Rightarrow> (body, [])) = (dp, tp)" by fastforce
  have "?P = Some v \<longleftrightarrow> (\<exists>n1 s1 s2. date_loop BPMN_TIMER dp (0, False, []) = Some (n1, s1, [])
      \<and> time_loop BPMN_TIMER tp (n1, s1, []) = Some (v, s2, []) \<and> s2)"
  proof -
    have "allow_sign BPMN_TIMER = False" by (simp add: BPMN_TIMER_def)
    then have eq: "?P = Option.bind (date_loop BPMN_TIMER dp (0, False, [])) (\<lambda>(nanos, saw, num).
        if num \<noteq> [] then None else Option.bind (time_loop BPMN_TIMER tp (nanos, saw, num)) (\<lambda>(nanos, saw, num).
          if num \<noteq> [] \<or> \<not> saw then None else Some (if False then - nanos else nanos)))"
      using body by (simp add: parse_duration_nanos_def parts)
    show ?thesis
    proof (cases "date_loop BPMN_TIMER dp (0, False, [])")
      case (Some st)
      then show ?thesis unfolding eq
        by (cases st; cases "time_loop BPMN_TIMER tp st") (auto split: if_splits prod.splits)
    qed (simp add: eq)
  qed
  also have "\<dots> \<longleftrightarrow> (\<exists>ds ts. dp = print_fields ds \<and> tp = print_fields ts \<and> list_all (field_ok date_unit) ds \<and> list_all (field_ok time_unit) ts
        \<and> ds @ ts \<noteq> [] \<and> v = total_nanos date_unit ds + total_nanos time_unit ts \<and> v \<le> i128_max)"
    by (rule parts_grammar)
  also have "\<dots> \<longleftrightarrow> ?R"
  proof
    assume ?R
    then obtain ds ts t where r: "raw = ''P'' @ print_fields ds @ time_mark t" "t = Some (print_fields ts) \<or> t = None \<and> ts = []"
      and ok: "list_all (field_ok date_unit) ds" "list_all (field_ok time_unit) ts" "ds @ ts \<noteq> []"
        "v = total_nanos date_unit ds + total_nanos time_unit ts" "v \<le> i128_max" by blast
    have "(case split_once CHR ''T'' body of Some p \<Rightarrow> p | None \<Rightarrow> (body, [])) = (print_fields ds, print_fields ts)"
      unfolding split_mark using r body(1) no_mark_in_dates [OF ok(1)] by (auto simp: time_mark_def)
    with parts have "dp = print_fields ds" "tp = print_fields ts" by simp_all
    with ok show "\<exists>ds ts. dp = print_fields ds \<and> tp = print_fields ts \<and> list_all (field_ok date_unit) ds \<and> list_all (field_ok time_unit) ts
        \<and> ds @ ts \<noteq> [] \<and> v = total_nanos date_unit ds + total_nanos time_unit ts \<and> v \<le> i128_max" by blast
  next
    assume "\<exists>ds ts. dp = print_fields ds \<and> tp = print_fields ts \<and> list_all (field_ok date_unit) ds \<and> list_all (field_ok time_unit) ts
        \<and> ds @ ts \<noteq> [] \<and> v = total_nanos date_unit ds + total_nanos time_unit ts \<and> v \<le> i128_max"
    then obtain ds ts where r: "dp = print_fields ds" "tp = print_fields ts" and ok: "list_all (field_ok date_unit) ds"
      "list_all (field_ok time_unit) ts" "ds @ ts \<noteq> []" "v = total_nanos date_unit ds + total_nanos time_unit ts" "v \<le> i128_max" by blast
    have "ts = []" if "tp = []" using that r(2) by (cases ts) (auto simp: print_field_def)
    moreover from parts have "body = dp @ CHR ''T'' # tp \<or> body = dp \<and> tp = []" by (simp add: split_mark)
    ultimately have "raw = ''P'' @ print_fields ds @ time_mark (Some (print_fields ts))
        \<or> raw = ''P'' @ print_fields ds @ time_mark None \<and> ts = []"
      using r body(1) by (auto simp: time_mark_def)
    with ok show ?R by blast
  qed
  finally show ?thesis .
qed

lemma number_of_append: "number_of (a @ b) = number_of a * 10 ^ length b + number_of b"
proof -
  have "foldl (\<lambda>acc c. acc * 10 + digit_of c) n b = n * 10 ^ length b + number_of b" for n
  proof (induction b arbitrary: n)
    case (Cons c b)
    from Cons [of "n * 10 + digit_of c"] Cons [of "digit_of c"] show ?case by (simp add: number_of_def algebra_simps)
  qed (simp add: number_of_def)
  from this [of "number_of a"] show ?thesis by (simp add: number_of_def)
qed

lemma number_of_less: "number_of ds < 10 ^ length ds"
proof (induction ds rule: rev_induct)
  case (snoc c ds)
  have "number_of [c] \<le> 9" using digit_of_range [of c] by (simp add: number_of_def)
  with snoc show ?case by (simp add: number_of_append)
qed (simp add: number_of_def)

lemma number_of_zeros: "number_of (replicate n CHR ''0'') = 0"
  by (induction n) (simp_all add: number_of_def digit_of_def digit_value_def)

lemma nanos_of_fraction_number:
  "nanos_of_fraction ds = number_of (take 9 ds) * 10 ^ (9 - length ds) + (if 9 < length ds \<and> 5 \<le> digit_of (ds ! 9) then 1 else 0)"
proof -
  let ?pad = "take 9 ds @ replicate (9 - length ds) CHR ''0''"
  have "map (\<lambda>k. if k < length ds then ds ! k else CHR ''0'') [0 ..< 9] = ?pad"
    by (rule nth_equalityI) (auto simp: nth_append)
  moreover have "foldl (\<lambda>acc k. acc * 10 + (if k < length ds then digit_of (ds ! k) else 0)) n ks
      = foldl (\<lambda>acc c. acc * 10 + digit_of c) n (map (\<lambda>k. if k < length ds then ds ! k else CHR ''0'') ks)" for n ks
    by (induction ks arbitrary: n) (simp_all add: digit_of_def digit_value_def)
  ultimately have "foldl (\<lambda>acc k. acc * 10 + (if k < length ds then digit_of (ds ! k) else 0)) 0 [0 ..< 9] = number_of ?pad"
    by (simp only: number_of_def)
  then show ?thesis by (simp add: nanos_of_fraction_def number_of_append number_of_zeros)
qed

lemma half_up: "0 \<le> R \<Longrightarrow> R < (T :: int) \<Longrightarrow> (2 * R + T) div (2 * T) = (if T \<le> 2 * R then 1 else 0)"
  by (auto simp: div_pos_geq div_pos_pos_trivial)

text \<open>A fraction of \<open>n\<close> digits is its numerator over \<open>10 ^ n\<close>, in nanoseconds and rounded half up.\<close>

lemma nanos_of_fraction_half_up:
  "nanos_of_fraction ds = (2 * number_of ds * 10 ^ 9 + 10 ^ length ds) div (2 * 10 ^ length ds)"
proof (cases "length ds \<le> 9")
  case True
  have "2 * number_of ds * 10 ^ 9 + 10 ^ length ds = 10 ^ length ds * (2 * (number_of ds * 10 ^ (9 - length ds)) + 1)"
    using True power_add [of "10 :: int" "length ds" "9 - length ds"] by (simp add: algebra_simps)
  then have "(2 * number_of ds * 10 ^ 9 + 10 ^ length ds) div (2 * 10 ^ length ds)
      = (10 ^ length ds * (2 * (number_of ds * 10 ^ (9 - length ds)) + 1)) div (10 ^ length ds * 2)" by (simp only: mult.commute)
  also have "\<dots> = (2 * (number_of ds * 10 ^ (9 - length ds)) + 1) div 2" by (subst div_mult_mult1) simp_all
  also have "\<dots> = number_of ds * 10 ^ (9 - length ds)" by presburger
  finally show ?thesis using True by (simp add: nanos_of_fraction_number)
next
  case False
  define A c rest where "A = number_of (take 9 ds)" and "c = ds ! 9" and "rest = drop 10 ds"
  define k where "k = length rest"
  have len: "length ds = 10 + k" using False by (simp add: k_def rest_def)
  have "drop 9 ds = c # rest" using Cons_nth_drop_Suc [of 9 ds] False by (simp add: c_def rest_def)
  then have ds: "ds = take 9 ds @ [c] @ rest" using append_take_drop_id [of 9 ds] by simp
  have N: "number_of ds = (A * 10 + digit_of c) * 10 ^ k + number_of rest"
    using arg_cong [OF ds, of number_of] number_of_append [of "[c]" rest]
    by (simp add: number_of_append A_def k_def number_of_def [of "[c]"] algebra_simps)
  define R where "R = digit_of c * 10 ^ k + number_of rest"
  have R: "0 \<le> R" "R < 10 ^ Suc k" "5 \<le> digit_of c \<longleftrightarrow> 10 ^ Suc k \<le> 2 * R"
  proof -
    have r: "0 \<le> number_of rest" "number_of rest < 10 ^ k" using number_of_nonneg number_of_less k_def by simp_all
    have d: "0 \<le> digit_of c" "digit_of c \<le> 9" using digit_of_range by simp_all
    define T P :: int where "T = 10 ^ k" and "P = digit_of c * 10 ^ k"
    have P: "0 \<le> P" "P \<le> 9 * T" "5 \<le> digit_of c \<Longrightarrow> 5 * T \<le> P" "\<not> 5 \<le> digit_of c \<Longrightarrow> P \<le> 4 * T"
      using d by (auto simp: T_def P_def)
    have eq: "R = P + number_of rest" "10 ^ Suc k = 10 * T" by (simp_all add: R_def P_def T_def)
    show "0 \<le> R" "R < 10 ^ Suc k" unfolding eq using r P(1,2) by (simp_all add: T_def)
    show "5 \<le> digit_of c \<longleftrightarrow> 10 ^ Suc k \<le> 2 * R"
      unfolding eq using r P(3,4) by (cases "5 \<le> digit_of c") (simp_all add: T_def)
  qed
  have "2 * number_of ds * 10 ^ 9 + 10 ^ length ds = 10 ^ 9 * ((2 * A) * 10 ^ Suc k + (2 * R + 10 ^ Suc k))"
    by (simp add: N len R_def power_add algebra_simps)
  moreover have "2 * 10 ^ length ds = (10 :: int) ^ 9 * (2 * 10 ^ Suc k)" by (simp add: len power_add)
  ultimately have "(2 * number_of ds * 10 ^ 9 + 10 ^ length ds) div (2 * 10 ^ length ds)
      = (A * (2 * 10 ^ Suc k) + (2 * R + 10 ^ Suc k)) div (2 * 10 ^ Suc k)"
    by (simp only: div_mult_mult1_if) (simp add: algebra_simps)
  also have "\<dots> = A + (2 * R + 10 ^ Suc k) div (2 * 10 ^ Suc k)" by simp
  also have "(2 * R + 10 ^ Suc k) div (2 * 10 ^ Suc k) = (if 5 \<le> digit_of c then 1 else 0)"
    using half_up [OF R(1,2)] R(3) by simp
  finally show ?thesis using False by (simp add: nanos_of_fraction_number A_def c_def)
qed

text \<open>a decimal number of seconds is read exactly: the result is the number in nanoseconds, rounded half up
  beyond the ninth fractional digit, without passing through floating point.\<close>

theorem seconds_rounded_half_up:
  assumes "list_all is_digit i" "list_all is_digit f" "f \<noteq> []" "(number_of i + 1) * 10 ^ 9 \<le> i128_max"
  shows "parse_decimal_seconds_nanos (i @ ''.'' @ f) =
    Some ((2 * number_of (i @ f) * 10 ^ 9 + 10 ^ length f) div (2 * 10 ^ length f))"
proof -
  have dot: "CHR ''.'' \<notin> set i" "CHR ''.'' \<notin> set f" using assms(1,2) is_digit_not(9) by (auto simp: list_all_iff)
  note split = split_once_first [OF dot(1), of f]
  have secs: "(if i = [] then Some 0 else parse_i128 i) = Some (number_of i)"
    using assms(1,4) number_of_nonneg [of i] by (auto simp: parse_digits i128_nonneg number_of_def)
  have "nanos_of_fraction f \<le> (10 ^ 9 * (2 * 10 ^ length f) + 10 ^ length f) div (2 * 10 ^ length f)"
    unfolding nanos_of_fraction_half_up using number_of_less [of f] by (intro zdiv_mono1) simp_all
  then have "nanos_of_fraction f \<le> 10 ^ 9" by simp
  moreover have "0 \<le> nanos_of_fraction f"
    unfolding nanos_of_fraction_half_up using number_of_nonneg [of f] by (simp add: pos_imp_zdiv_nonneg_iff)
  ultimately have "parse_decimal_seconds_nanos (i @ ''.'' @ f) = Some (number_of i * 10 ^ 9 + nanos_of_fraction f)"
    using assms number_of_nonneg [of i]
    by (simp add: parse_decimal_seconds_nanos_def split secs dot checked_mul_def checked_add_def i128_nonneg NANOS_PER_SEC_def)
  also have "number_of i * 10 ^ 9 + nanos_of_fraction f = (2 * number_of (i @ f) * 10 ^ 9 + 10 ^ length f) div (2 * 10 ^ length f)"
  proof -
    have "2 * number_of (i @ f) * 10 ^ 9 + 10 ^ length f
        = (2 * number_of f * 10 ^ 9 + 10 ^ length f) + number_of i * 10 ^ 9 * (2 * 10 ^ length f)"
      by (simp add: number_of_append algebra_simps)
    moreover have "2 * (10 :: int) ^ length f \<noteq> 0" by simp
    ultimately show ?thesis unfolding nanos_of_fraction_half_up by (metis div_mult_self1)
  qed
  finally show ?thesis .
qed

theorem seconds_rounded_half_up_witness:
  "parse_decimal_seconds_nanos ''1.0000000005'' = Some 1000000001"
proof -
  have "parse_decimal_seconds_nanos (''1'' @ ''.'' @ ''0000000005'') =
      Some ((2 * number_of (''1'' @ ''0000000005'') * 10 ^ 9 + 10 ^ length ''0000000005'') div (2 * 10 ^ length ''0000000005''))"
    by (rule seconds_rounded_half_up) (simp_all add: is_digit_def digit_value_def number_of_def digit_of_def)
  then show ?thesis by (simp add: number_of_def digit_of_def digit_value_def)
qed

end
