(* ===== verification/Calendar.thy ===== *)
theory Calendar
  imports Temporal
begin

text \<open>
  Dates, times and durations of FEEL (\<open>engine-core/src/feel/temporal.rs\<close>). Fields are integers within their
  Rust types; where a Rust operation can leave its type it wraps, as release builds do. Division and
  remainder truncate towards zero.
\<close>

section \<open>Rust arithmetic\<close>

definition tdiv :: "int \<Rightarrow> int \<Rightarrow> int" where
  "tdiv a b = (if 0 \<le> a then a div b else - ((- a) div b))"

definition trem :: "int \<Rightarrow> int \<Rightarrow> int" where
  "trem a b = a - tdiv a b * b"

definition wrap_i64 :: "int \<Rightarrow> int" where
  "wrap_i64 v = (v + 2 ^ 63) mod 2 ^ 64 - 2 ^ 63"

definition as_u32 :: "int \<Rightarrow> int" where
  "as_u32 v = v mod 2 ^ 32"

text \<open>\<open>str::parse\<close> for an unsigned type takes a plus sign but no minus sign.\<close>

definition parse_u32 :: "string \<Rightarrow> int option" where
  "parse_u32 s =
     (let digits = (case s of c # cs \<Rightarrow> if c = CHR ''+'' then cs else s | [] \<Rightarrow> [])
      in if digits = [] then None
         else case decimal 0 digits of None \<Rightarrow> None | Some n \<Rightarrow> if n < 2 ^ 32 then Some n else None)"

definition parse_i64 :: "string \<Rightarrow> int option" where
  "parse_i64 = parse_int (- (2 ^ 63)) (2 ^ 63 - 1)"

text \<open>\<open>{:0w}\<close>: a number in decimal, padded with zeros after its sign.\<close>

definition pad :: "nat \<Rightarrow> string \<Rightarrow> string" where
  "pad w s = replicate (w - length s) CHR ''0'' @ s"

definition padded :: "nat \<Rightarrow> int \<Rightarrow> string" where
  "padded w n = (if n < 0 then CHR ''-'' # pad (w - 1) (nat_string (nat (- n))) else pad w (nat_string (nat n)))"

section \<open>Days\<close>

definition days_from_civil :: "int \<Rightarrow> int \<Rightarrow> int \<Rightarrow> int" where
  "days_from_civil y m d =
     (let y = (if m \<le> 2 then i64_as_i32 (y - 1) else y);
          era = tdiv (if 0 \<le> y then y else y - 399) 400;
          yoe = y - era * 400;
          doy = tdiv (153 * (if m > 2 then m - 3 else m + 9) + 2) 5 + d - 1;
          doe = yoe * 365 + tdiv yoe 4 - tdiv yoe 100 + doy
      in era * 146097 + doe - 719468)"

definition civil_from_days :: "int \<Rightarrow> int \<times> int \<times> int" where
  "civil_from_days z =
     (let z = wrap_i64 (z + 719468);
          era = tdiv (if 0 \<le> z then z else wrap_i64 (z - 146096)) 146097;
          doe = z - era * 146097;
          yoe = tdiv (doe - tdiv doe 1460 + tdiv doe 36524 - tdiv doe 146096) 365;
          y = yoe + era * 400;
          doy = doe - (365 * yoe + tdiv yoe 4 - tdiv yoe 100);
          mp = tdiv (5 * doy + 2) 153;
          d = doy - tdiv (153 * mp + 2) 5 + 1;
          m = (if mp < 10 then mp + 3 else mp - 9);
          year = (if m \<le> 2 then y + 1 else y)
      in (i64_as_i32 year, as_u32 m, as_u32 d))"

definition is_leap :: "int \<Rightarrow> bool" where
  "is_leap y \<longleftrightarrow> (trem y 4 = 0 \<and> trem y 100 \<noteq> 0) \<or> trem y 400 = 0"

definition days_in_month :: "int \<Rightarrow> int \<Rightarrow> int" where
  "days_in_month y m =
     (if m \<in> {1, 3, 5, 7, 8, 10, 12} then 31
      else if m \<in> {4, 6, 9, 11} then 30
      else if m = 2 then (if is_leap y then 29 else 28)
      else 30)"

section \<open>Dates\<close>

record date =
  dt_year :: int
  dt_month :: int
  dt_day :: int

definition date_new :: "int \<Rightarrow> int \<Rightarrow> int \<Rightarrow> date option" where
  "date_new y m d =
     (if \<not> (1 \<le> m \<and> m \<le> 12) \<or> d < 1 \<or> days_in_month y m < d then None
      else Some \<lparr> dt_year = y, dt_month = m, dt_day = d \<rparr>)"

definition epoch_day :: "date \<Rightarrow> int" where
  "epoch_day d = days_from_civil (dt_year d) (dt_month d) (dt_day d)"

definition from_epoch_day :: "int \<Rightarrow> date" where
  "from_epoch_day z = (case civil_from_days z of (y, m, d) \<Rightarrow> \<lparr> dt_year = y, dt_month = m, dt_day = d \<rparr>)"

definition date_parse :: "string \<Rightarrow> date option" where
  "date_parse s =
     (let (neg, rest) = (case s of c # cs \<Rightarrow> if c = CHR ''-'' then (True, cs) else (False, s) | [] \<Rightarrow> (False, s))
      in case split_on CHR ''-'' rest of
           [a, b, c] \<Rightarrow> Option.bind (parse_i32 a) (\<lambda>y. Option.bind (parse_u32 b) (\<lambda>m. Option.bind (parse_u32 c) (\<lambda>d.
             date_new (if neg then i32_neg y else y) m d)))
         | _ \<Rightarrow> None)"

definition add_months :: "int \<Rightarrow> date \<Rightarrow> date" where
  "add_months months d =
     (let total = wrap_i64 (dt_year d * 12 + (dt_month d - 1) + months);
          year = i64_as_i32 (total div 12);
          month = total mod 12 + 1
      in \<lparr> dt_year = year, dt_month = month, dt_day = min (dt_day d) (days_in_month year month) \<rparr>)"

definition weekday :: "date \<Rightarrow> int" where
  "weekday d = (trem (epoch_day d) 7 + 3) mod 7 + 1"

definition day_of_year :: "date \<Rightarrow> int" where
  "day_of_year d = as_u32 (epoch_day d - days_from_civil (dt_year d) 1 1 + 1)"

definition week_of_year :: "date \<Rightarrow> int" where
  "week_of_year d =
     (let thursday = epoch_day d - (weekday d - 1) + 3;
          ty = fst (civil_from_days thursday);
          jan1 = days_from_civil ty 1 1
      in as_u32 (tdiv (thursday - jan1) 7 + 1))"

definition date_format :: "date \<Rightarrow> string" where
  "date_format d =
     (if dt_year d < 0 then ''-'' @ padded 4 (i32_neg (dt_year d)) else padded 4 (dt_year d))
     @ ''-'' @ padded 2 (dt_month d) @ ''-'' @ padded 2 (dt_day d)"

section \<open>Times\<close>

record time =
  tt_hour :: int
  tt_minute :: int
  tt_second :: int
  tt_nano :: int
  tt_offset_seconds :: "int option"
  tt_zone :: "string option"

definition time_new :: "int \<Rightarrow> int \<Rightarrow> int \<Rightarrow> int \<Rightarrow> time" where
  "time_new h m s n = \<lparr> tt_hour = h, tt_minute = m, tt_second = s, tt_nano = n, tt_offset_seconds = None, tt_zone = None \<rparr>"

definition nano_of_day :: "time \<Rightarrow> int" where
  "nano_of_day t = ((tt_hour t * 60 + tt_minute t) * 60 + tt_second t) * NANOS_PER_SEC + tt_nano t"

definition from_nano_of_day :: "int \<Rightarrow> int option \<Rightarrow> string option \<Rightarrow> time" where
  "from_nano_of_day n off zone =
     (let nanos = n mod (SECS_PER_DAY * NANOS_PER_SEC); secs = nanos div NANOS_PER_SEC
      in \<lparr> tt_hour = secs div 3600 mod 24, tt_minute = secs div 60 mod 60, tt_second = secs mod 60,
           tt_nano = nanos mod NANOS_PER_SEC, tt_offset_seconds = off, tt_zone = zone \<rparr>)"

definition parse_offset :: "string \<Rightarrow> int option" where
  "parse_offset s = Option.bind
     (case s of c # cs \<Rightarrow> if c = CHR ''-'' then Some (True, cs) else if c = CHR ''+'' then Some (False, cs) else None | [] \<Rightarrow> None)
     (\<lambda>(neg, rest).
       let parts = split_on CHR '':'' rest
       in Option.bind (parse_i32 (hd parts)) (\<lambda>h. Option.bind (parse_i32 (case tl parts of [] \<Rightarrow> ''0'' | p # _ \<Rightarrow> p)) (\<lambda>m.
            let secs = i64_as_i32 (h * 3600 + m * 60) in Some (if neg then i32_neg secs else secs))))"

definition is_sign :: "char \<Rightarrow> bool" where
  "is_sign c \<longleftrightarrow> c = CHR ''+'' \<or> c = CHR ''-''"

definition split_offset :: "string \<Rightarrow> string \<times> int option" where
  "split_offset clock =
     (if clock \<noteq> [] \<and> last clock \<in> {CHR ''Z'', CHR ''z''} then (butlast clock, Some 0)
      else case List.find (\<lambda>i. is_sign (clock ! i) \<and> parse_offset (drop i clock) \<noteq> None) [1 ..< length clock] of
        Some i \<Rightarrow> (take i clock, parse_offset (drop i clock))
      | None \<Rightarrow> (clock, None))"

text \<open>\<open>String::truncate\<close> panics inside a character; a panic is an outer \<open>None\<close>.\<close>

definition is_char_boundary :: "nat \<Rightarrow> string \<Rightarrow> bool" where
  "is_char_boundary n s \<longleftrightarrow> length s \<le> n \<or> \<not> (128 \<le> (of_char (s ! n) :: nat) \<and> (of_char (s ! n) :: nat) < 192)"

definition parse_seconds :: "string \<Rightarrow> (int \<times> int) option option" where
  "parse_seconds s = (case split_once CHR ''.'' s of
     Some (sec, fraction) \<Rightarrow> (case parse_u32 sec of
         None \<Rightarrow> Some None
       | Some second \<Rightarrow>
           (let f = fraction @ replicate (9 - length fraction) CHR ''0''
            in if is_char_boundary 9 f then Some (map_option (Pair second) (parse_u32 (take 9 f))) else None))
   | None \<Rightarrow> Some (map_option (\<lambda>second. (second, 0)) (parse_u32 s)))"

definition time_fields :: "int option \<Rightarrow> string option \<Rightarrow> string \<Rightarrow> string \<Rightarrow> string \<Rightarrow> time option option" where
  "time_fields off zone h m sec = (case (parse_u32 h, parse_u32 m) of
     (Some hour, Some minute) \<Rightarrow> map_option (\<lambda>r. Option.bind r (\<lambda>(second, nano).
         if 24 < hour \<or> 59 < minute \<or> 60 < second then None
         else Some \<lparr> tt_hour = hour, tt_minute = minute, tt_second = second, tt_nano = nano,
           tt_offset_seconds = off, tt_zone = zone \<rparr>)) (parse_seconds sec)
   | _ \<Rightarrow> Some None)"

definition time_parse :: "string \<Rightarrow> time option option" where
  "time_parse s =
     (let (body, zone) = (case split_once CHR ''@'' s of Some (b, z) \<Rightarrow> (b, Some z) | None \<Rightarrow> (s, None));
          (clock, off) = split_offset body
      in case split_on CHR '':'' clock of
           [h, m] \<Rightarrow> time_fields off zone h m ''0''
         | [h, m, sec] \<Rightarrow> time_fields off zone h m sec
         | _ \<Rightarrow> Some None)"

definition trim_zeros :: "string \<Rightarrow> string" where
  "trim_zeros s = rev (dropWhile (\<lambda>c. c = CHR ''0'') (rev s))"

definition format_offset :: "int \<Rightarrow> string" where
  "format_offset off =
     (if off = 0 then ''Z''
      else (let a = abs off in (if off < 0 then ''-'' else ''+'') @ padded 2 (a div 3600) @ '':'' @ padded 2 (a mod 3600 div 60)))"

definition time_format :: "time \<Rightarrow> string" where
  "time_format t =
     padded 2 (tt_hour t) @ '':'' @ padded 2 (tt_minute t) @ '':'' @ padded 2 (tt_second t)
     @ (if tt_nano t > 0 then ''.'' @ trim_zeros (padded 9 (tt_nano t)) else [])
     @ (case tt_offset_seconds t of None \<Rightarrow> [] | Some off \<Rightarrow> format_offset off)
     @ (case tt_zone t of None \<Rightarrow> [] | Some z \<Rightarrow> ''@'' @ z)"

section \<open>Dates with times\<close>

record datetime =
  dtm_date :: date
  dtm_time :: time

definition epoch_nanos :: "datetime \<Rightarrow> int" where
  "epoch_nanos dt =
     (let day_secs = epoch_day (dtm_date dt) * SECS_PER_DAY;
          locl = day_secs * NANOS_PER_SEC + nano_of_day (dtm_time dt);
          off = (case tt_offset_seconds (dtm_time dt) of None \<Rightarrow> 0 | Some o' \<Rightarrow> o') * NANOS_PER_SEC
      in locl - off)"

definition datetime_parse :: "string \<Rightarrow> datetime option option" where
  "datetime_parse s = (case (case split_once CHR ''T'' s of Some p \<Rightarrow> Some p | None \<Rightarrow> split_once CHR ''t'' s) of
     None \<Rightarrow> Some None
   | Some (d, t) \<Rightarrow> (case date_parse d of
         None \<Rightarrow> Some None
       | Some date \<Rightarrow> map_option (map_option (\<lambda>tm. \<lparr> dtm_date = date, dtm_time = tm \<rparr>)) (time_parse t)))"

definition datetime_format :: "datetime \<Rightarrow> string" where
  "datetime_format dt = date_format (dtm_date dt) @ ''T'' @ time_format (dtm_time dt)"

definition add_dt :: "int \<Rightarrow> datetime \<Rightarrow> datetime" where
  "add_dt nanos dt =
     (let day = SECS_PER_DAY * NANOS_PER_SEC;
          total = epoch_day (dtm_date dt) * day + nano_of_day (dtm_time dt) + nanos;
          epoch = wrap_i64 (total div day)
      in \<lparr> dtm_date = from_epoch_day epoch,
           dtm_time = from_nano_of_day (total mod day) (tt_offset_seconds (dtm_time dt)) (tt_zone (dtm_time dt)) \<rparr>)"

section \<open>Durations\<close>

fun ym_loop :: "string \<Rightarrow> int \<times> bool \<times> string \<Rightarrow> (int \<times> bool \<times> string) option" where
  "ym_loop [] st = Some st"
| "ym_loop (c # cs) (months, saw, num) =
     (if is_digit c then ym_loop cs (months, saw, num @ [c])
      else if c = CHR ''Y''
      then Option.bind (parse_i64 num) (\<lambda>n. ym_loop cs (wrap_i64 (months + wrap_i64 (n * 12)), True, []))
      else if c = CHR ''M'' then Option.bind (parse_i64 num) (\<lambda>n. ym_loop cs (wrap_i64 (months + n), True, []))
      else None)"

definition ym_parse :: "string \<Rightarrow> int option" where
  "ym_parse s =
     (let (neg, body) = strip_sign s
      in case body of
           [] \<Rightarrow> None
         | c # body \<Rightarrow>
             (if c \<noteq> CHR ''P'' \<or> CHR ''T'' \<in> set body \<or> body = [] then None
              else Option.bind (ym_loop body (0, False, [])) (\<lambda>(months, saw, num).
                if num \<noteq> [] \<or> \<not> saw then None else Some (if neg then wrap_i64 (- months) else months))))"

definition ym_format :: "int \<Rightarrow> string" where
  "ym_format months =
     (let total = abs months; years = total div 12; rest = total mod 12
      in (if months < 0 then ''-'' else []) @ ''P''
         @ (if years > 0 then nat_string (nat years) @ ''Y'' else [])
         @ (if rest > 0 \<or> years = 0 then nat_string (nat rest) @ ''M'' else []))"

definition dt_parse :: "string \<Rightarrow> int option" where
  "dt_parse s = parse_duration_nanos s FEEL_DAYTIME"

definition dt_format :: "int \<Rightarrow> string" where
  "dt_format n =
     (let total = abs n; nanos = total mod NANOS_PER_SEC; rem = total div NANOS_PER_SEC;
          secs = rem mod 60; mins = rem div 60 mod 60; hours = rem div 3600 mod 24; days = rem div 86400;
          has_time = hours > 0 \<or> mins > 0 \<or> secs > 0 \<or> nanos > 0
      in (if n < 0 then ''-'' else []) @ ''P''
         @ (if days > 0 then nat_string (nat days) @ ''D'' else [])
         @ (if has_time \<or> days = 0
            then ''T'' @ (if hours > 0 then nat_string (nat hours) @ ''H'' else [])
                 @ (if mins > 0 then nat_string (nat mins) @ ''M'' else [])
                 @ (if secs > 0 \<or> nanos > 0 \<or> (hours = 0 \<and> mins = 0)
                    then nat_string (nat secs) @ (if nanos > 0 then ''.'' @ trim_zeros (padded 9 nanos) else []) @ ''S'' else [])
            else []))"

section \<open>Comparison\<close>

text \<open>The sign of \<open>Ordering\<close>: less, equal, greater.\<close>

definition ordering :: "int \<Rightarrow> int \<Rightarrow> int" where
  "ordering a b = (if a < b then - 1 else if a = b then 0 else 1)"

definition date_cmp :: "date \<Rightarrow> date \<Rightarrow> int" where
  "date_cmp a b = ordering (epoch_day a) (epoch_day b)"

definition time_cmp :: "time \<Rightarrow> time \<Rightarrow> int" where
  "time_cmp a b =
     (let utc = (\<lambda>t. nano_of_day t - (case tt_offset_seconds t of None \<Rightarrow> 0 | Some o' \<Rightarrow> o') * NANOS_PER_SEC)
      in ordering (utc a) (utc b))"

definition datetime_cmp :: "datetime \<Rightarrow> datetime \<Rightarrow> int" where
  "datetime_cmp a b = ordering (epoch_nanos a) (epoch_nanos b)"

definition ym_cmp :: "int \<Rightarrow> int \<Rightarrow> int" where
  "ym_cmp a b = ordering a b"

definition dt_cmp :: "int \<Rightarrow> int \<Rightarrow> int" where
  "dt_cmp a b = ordering a b"

section \<open>Days and dates are inverse\<close>

text \<open>A year of the cycle of 400 years that starts in March, as centuries, four-year groups and years.\<close>

lemma year_of_day:
  assumes c: "0 \<le> c" "c \<le> 3" and q: "0 \<le> q" "q \<le> 24" and r: "0 \<le> r" "r \<le> 3" and doy: "0 \<le> doy" "doy \<le> 365"
    and leap: "doy = 365 \<Longrightarrow> r = 3 \<and> (q < 24 \<or> c = 3)"
  defines "yoe \<equiv> 100 * c + 4 * q + r" and "doe \<equiv> 36524 * c + 1461 * q + 365 * r + (doy :: int)"
  shows "(doe - doe div 1460 + doe div 36524 - doe div 146096) div 365 = yoe"
    and "yoe * 365 + yoe div 4 - yoe div 100 + doy = doe" and "0 \<le> doe" "doe < 146097"
proof -
  have four: "yoe div 4 = 25 * c + q" using r unfolding yoe_def by presburger
  have hundred: "yoe div 100 = c" using q r unfolding yoe_def by (simp add: div_pos_pos_trivial)
  show "yoe * 365 + yoe div 4 - yoe div 100 + doy = doe" unfolding four hundred by (simp add: yoe_def doe_def)
  show "0 \<le> doe" using c q r doy by (simp add: doe_def)
  have rest: "1461 * q + 365 * r + doy \<le> 36524" "c < 3 \<Longrightarrow> 1461 * q + 365 * r + doy \<le> 36523"
    using q r doy leap by (cases "doy = 365"; auto)+
  then show "doe < 146097" using c by (simp add: doe_def)
  have cent: "doe div 36524 - doe div 146096 = c"
  proof (cases "doe = 146096")
    case True
    then have "c = 3" using c rest by (auto simp: doe_def)
    with True show ?thesis by simp
  next
    case False
    then have "1461 * q + 365 * r + doy < 36524" using rest c by (cases "c = 3") (auto simp: doe_def)
    moreover have "0 \<le> 1461 * q + 365 * r + doy" using q r doy by simp
    ultimately have "doe div 36524 = c" unfolding doe_def by (simp add: div_pos_pos_trivial)
    moreover have "doe div 146096 = 0" using False \<open>doe < 146097\<close> \<open>0 \<le> doe\<close> by (simp add: div_pos_pos_trivial)
    ultimately show ?thesis by simp
  qed
  define a where "a = doe div 1460"
  have a: "1460 * a \<le> doe" "doe < 1460 * a + 1460" unfolding a_def by (simp_all add: mult.commute)
  have "a \<le> 25 * c + q + doy" using a(1) c q r doy by (simp add: doe_def)
  moreover have "25 * c + q + doy - 364 \<le> a" using a(2) c q r doy leap by (cases "doy = 365") (auto simp: doe_def)
  ultimately have "365 * yoe \<le> doe - a + c" "doe - a + c < 365 * yoe + 365" using c q r by (simp_all add: doe_def yoe_def)
  then have "(doe - a + c) div 365 = yoe" by (intro int_div_pos_eq [of _ _ _ "doe - a + c - 365 * yoe"]) simp_all
  with cent show "(doe - doe div 1460 + doe div 36524 - doe div 146096) div 365 = yoe" by (simp add: a_def algebra_simps)
qed

text \<open>Months from March: the length of each, and the month and day of a day of the year.\<close>

definition shifted_length :: "int \<Rightarrow> int" where
  "shifted_length mp = (if mp \<in> {1, 3, 6, 8} then 30 else if mp = 11 then 29 else 31)"

lemma shifted_cases: "0 \<le> mp \<Longrightarrow> mp \<le> 11 \<Longrightarrow> mp \<in> {0, 1, 2, 3, 4, 5, 6, 7, 8, 9, 10, 11 :: int}"
  by simp presburger

lemma month_of_day:
  assumes "0 \<le> mp" "mp \<le> 11" "1 \<le> d" "d \<le> shifted_length mp"
  defines "doy \<equiv> (153 * mp + 2) div 5 + d - 1"
  shows "(5 * doy + 2) div 153 = mp" "0 \<le> doy" "doy \<le> 365" "doy = 365 \<longleftrightarrow> mp = 11 \<and> d = 29"
proof -
  note cases = shifted_cases [OF assms(1,2)]
  show "(5 * doy + 2) div 153 = mp"
    using cases assms(3,4) unfolding doy_def by (elim insertE emptyE; simp add: shifted_length_def; presburger)
  show "0 \<le> doy" "doy \<le> 365" "doy = 365 \<longleftrightarrow> mp = 11 \<and> d = 29"
    using cases assms(3,4) unfolding doy_def by (elim insertE emptyE; simp add: shifted_length_def)+
qed

lemma day_of_doy:
  assumes "0 \<le> doy" "doy \<le> (365 :: int)"
  defines "mp \<equiv> (5 * doy + 2) div 153"
  shows "0 \<le> mp" "mp \<le> 11" "1 \<le> doy - (153 * mp + 2) div 5 + 1" "doy - (153 * mp + 2) div 5 + 1 \<le> shifted_length mp"
proof -
  show "0 \<le> mp" "mp \<le> 11" using assms(1,2) by (simp_all add: mp_def)
  moreover have "153 * mp \<le> 5 * doy + 2" "5 * doy + 2 < 153 * mp + 153" unfolding mp_def by (simp_all add: mult.commute)
  ultimately show "1 \<le> doy - (153 * mp + 2) div 5 + 1" "doy - (153 * mp + 2) div 5 + 1 \<le> shifted_length mp"
    using shifted_cases [of mp] assms(2) by (auto simp: shifted_length_def)
qed

lemma tdiv_nonneg: "0 \<le> a \<Longrightarrow> tdiv a b = a div b"
  by (simp add: tdiv_def)

lemma floor_era:
  "tdiv (if 0 \<le> y then y else y - 399) 400 = y div 400" "tdiv (if 0 \<le> y then y else y - 146096) 146097 = y div 146097"
  unfolding tdiv_def by (cases "0 \<le> y"; simp; presburger)+

lemma wrap_id: "- (2 ^ 63) \<le> v \<Longrightarrow> v < 2 ^ 63 \<Longrightarrow> wrap_i64 v = v"
  by (simp add: wrap_i64_def mod_pos_pos_trivial)

lemma i32_id: "i32_min \<le> v \<Longrightarrow> v \<le> i32_max \<Longrightarrow> i64_as_i32 v = v"
  by (simp add: i64_as_i32_def i32_min_def i32_max_def mod_pos_pos_trivial)

lemma u32_id: "0 \<le> v \<Longrightarrow> v < 2 ^ 32 \<Longrightarrow> as_u32 v = v"
  by (simp add: as_u32_def mod_pos_pos_trivial)

lemma trem_zero: "0 < b \<Longrightarrow> trem a b = 0 \<longleftrightarrow> a mod b = 0"
proof -
  assume "0 < b"
  then have "trem a b = (if 0 \<le> a then a mod b else - ((- a) mod b))"
    by (simp add: trem_def tdiv_def minus_div_mult_eq_mod [symmetric] algebra_simps)
  moreover have "a mod b < b" using \<open>0 < b\<close> by simp
  ultimately show ?thesis by (auto simp: zmod_zminus1_eq_if)
qed

lemma is_leap_mod: "is_leap y \<longleftrightarrow> (y mod 4 = 0 \<and> y mod 100 \<noteq> 0) \<or> y mod 400 = 0"
  by (simp add: is_leap_def trem_zero)

text \<open>The parts of a date: the era of 400 years, century, four-year group and year in it, the month from
  March and the day. A day 366 exists only in a leap year.\<close>

definition date_parts :: "int \<Rightarrow> int \<Rightarrow> int \<Rightarrow> int \<Rightarrow> int \<Rightarrow> bool" where
  "date_parts c q r mp d \<longleftrightarrow> 0 \<le> c \<and> c \<le> 3 \<and> 0 \<le> q \<and> q \<le> 24 \<and> 0 \<le> r \<and> r \<le> 3 \<and> 0 \<le> mp \<and> mp \<le> 11
     \<and> 1 \<le> d \<and> d \<le> shifted_length mp \<and> (mp = 11 \<and> d = 29 \<longrightarrow> r = 3 \<and> (q < 24 \<or> c = 3))"

definition month_of :: "int \<Rightarrow> int" where
  "month_of mp = (if mp < 10 then mp + 3 else mp - 9)"

definition year_of :: "int \<Rightarrow> int \<Rightarrow> int \<Rightarrow> int \<Rightarrow> int \<Rightarrow> int" where
  "year_of era c q r mp = era * 400 + (100 * c + 4 * q + r) + (if mp < 10 then 0 else 1)"

definition day_number :: "int \<Rightarrow> int \<Rightarrow> int \<Rightarrow> int \<Rightarrow> int \<Rightarrow> int \<Rightarrow> int" where
  "day_number era c q r mp d =
     era * 146097 + (36524 * c + 1461 * q + 365 * r + ((153 * mp + 2) div 5 + d - 1)) - 719468"

lemma parts_range:
  assumes "date_parts c q r mp d"
  defines "yoe \<equiv> 100 * c + 4 * q + r" and "doy \<equiv> (153 * mp + 2) div 5 + d - 1"
  defines "doe \<equiv> 36524 * c + 1461 * q + 365 * r + doy"
  shows "0 \<le> yoe" "yoe < 400" "0 \<le> doy" "doy \<le> 365" "(5 * doy + 2) div 153 = mp" "0 \<le> doe" "doe < 146097"
    "(doe - doe div 1460 + doe div 36524 - doe div 146096) div 365 = yoe" "yoe * 365 + yoe div 4 - yoe div 100 + doy = doe"
proof -
  note p = assms(1) [unfolded date_parts_def]
  have "0 \<le> mp" "mp \<le> 11" "1 \<le> d" "d \<le> shifted_length mp" using p by auto
  note m = month_of_day [OF this, folded doy_def]
  have "doy = 365 \<Longrightarrow> r = 3 \<and> (q < 24 \<or> c = 3)" using p m(4) by auto
  note y = year_of_day [of c q r doy, folded yoe_def doe_def, OF _ _ _ _ _ _ m(2,3) this]
  show "0 \<le> doy" "doy \<le> 365" "(5 * doy + 2) div 153 = mp" by (fact m)+
  show "0 \<le> yoe" "yoe < 400" using p by (auto simp: yoe_def)
  show "0 \<le> doe" "doe < 146097"
    "(doe - doe div 1460 + doe div 36524 - doe div 146096) div 365 = yoe" "yoe * 365 + yoe div 4 - yoe div 100 + doy = doe"
    using y p by auto
qed

lemma civil_of_parts:
  assumes p: "date_parts c q r mp d" and era: "\<bar>era\<bar> < 2 ^ 40"
  shows "civil_from_days (day_number era c q r mp d) = (i64_as_i32 (year_of era c q r mp), month_of mp, d)"
proof -
  define yoe doy where "yoe = 100 * c + 4 * q + r" and "doy = (153 * mp + 2) div 5 + d - 1"
  define doe where "doe = 36524 * c + 1461 * q + 365 * r + doy"
  note R = parts_range [OF p, folded yoe_def doy_def, folded doe_def]
  define z where "z = era * 146097 + doe"
  have num: "day_number era c q r mp d + 719468 = z" by (simp add: day_number_def z_def doe_def doy_def)
  have bound: "\<bar>z\<bar> < 2 ^ 60" using era R(6,7) by (auto simp: z_def abs_less_iff)
  have zera: "z div 146097 = era" unfolding z_def using R(6,7) by (simp add: div_pos_pos_trivial)
  have wrap: "wrap_i64 z = z" "wrap_i64 (z - 146096) = z - 146096" using bound by (auto intro!: wrap_id)
  have doe: "z - era * 146097 = doe" by (simp add: z_def)
  have nonneg: "0 \<le> doe - doe div 1460 + doe div 36524 - doe div 146096"
    using R(1,8) by (metis div_neg_pos_less0 linorder_not_less zero_less_numeral)
  have mp: "0 \<le> mp" "mp \<le> 11" "1 \<le> d" "d \<le> 31" using p by (auto simp: date_parts_def shifted_length_def split: if_splits)
  have doy': "doe - (365 * yoe + yoe div 4 - yoe div 100) = doy" using R(9) by (simp add: algebra_simps)
  have day: "doy - (153 * mp + 2) div 5 + 1 = d" by (simp add: doy_def)
  have y: "yoe + era * 400 = era * 400 + (100 * c + 4 * q + r)" by (simp add: yoe_def)
  have small: "as_u32 (month_of mp) = month_of mp" "as_u32 d = d" using mp by (auto intro!: u32_id simp: month_of_def)
  show ?thesis
    unfolding civil_from_days_def Let_def num wrap floor_era(2) zera doe
      tdiv_nonneg [OF R(6)] tdiv_nonneg [OF nonneg] R(8) tdiv_nonneg [OF R(1)] doy'
    using R(3,5) mp(1,2) small
    by (simp add: tdiv_nonneg day y month_of_def year_of_def split: if_splits)
qed

lemma days_of_parts:
  assumes p: "date_parts c q r mp d" and year: "i32_min < year_of era c q r mp"  "year_of era c q r mp \<le> i32_max"
  shows "days_from_civil (year_of era c q r mp) (month_of mp) d = day_number era c q r mp d"
proof -
  define yoe doy where "yoe = 100 * c + 4 * q + r" and "doy = (153 * mp + 2) div 5 + d - 1"
  define doe where "doe = 36524 * c + 1461 * q + 365 * r + doy"
  note R = parts_range [OF p, folded yoe_def doy_def, folded doe_def]
  have mp: "0 \<le> mp" "mp \<le> 11" using p by (auto simp: date_parts_def)
  have y: "(if month_of mp \<le> 2 then i64_as_i32 (year_of era c q r mp - 1) else year_of era c q r mp) = era * 400 + yoe"
    using year mp by (auto simp: month_of_def year_of_def yoe_def i32_id split: if_splits)
  have era: "(era * 400 + yoe) div 400 = era" using R(1,2) by (simp add: div_pos_pos_trivial)
  have m: "(if month_of mp > 2 then month_of mp - 3 else month_of mp + 9) = mp" using mp by (auto simp: month_of_def)
  have yoe: "era * 400 + yoe - era * 400 = yoe" by simp
  have "tdiv (153 * mp + 2) 5 + d - 1 = doy" using mp by (simp add: tdiv_nonneg doy_def)
  moreover have "yoe * 365 + tdiv yoe 4 - tdiv yoe 100 + doy = doe" using R(1,9) by (simp add: tdiv_nonneg)
  ultimately show ?thesis
    unfolding days_from_civil_def Let_def y floor_era(1) era m yoe by (simp add: day_number_def doe_def doy_def)
qed

lemma leap_parts:
  assumes "is_leap (era * 400 + (100 * c + 4 * q + r) + 1)" "0 \<le> c" "c \<le> 3" "0 \<le> q" "q \<le> 24" "0 \<le> r" "r \<le> 3"
  shows "r = 3 \<and> (q < 24 \<or> c = 3)"
proof -
  let ?y = "era * 400 + (100 * c + 4 * q + r) + 1"
  have "?y mod 400 mod 4 = ?y mod 4" by (rule mod_mod_cancel) simp
  then have "?y mod 4 = 0" using assms(1) unfolding is_leap_mod by auto
  then have r: "r = 3" using assms(6,7) by presburger
  have "q < 24 \<or> c = 3" if "?y mod 100 \<noteq> 0"
  proof (rule ccontr)
    assume "\<not> (q < 24 \<or> c = 3)"
    then have "?y = (era * 4 + c + 1) * 100" using r assms(5) by simp
    then show False using that by (metis mod_mult_self2_is_0)
  qed
  moreover have "q < 24 \<or> c = 3" if "?y mod 400 = 0"
  proof -
    have "?y = (100 * c + 4 * q + 4) + era * 400" using r by simp
    then have "(100 * c + 4 * q + 4) mod 400 = 0" using that by (metis mod_mult_self1)
    moreover have "(100 * c + 4 * q + 4) mod 400 = 100 * c + 4 * q + 4" if "c \<le> 2"
      using that assms(2,4,5) by (intro mod_pos_pos_trivial) linarith+
    ultimately show ?thesis using assms(2-5) by linarith
  qed
  ultimately show ?thesis using r assms(1) unfolding is_leap_mod by auto
qed

lemma valid_parts:
  assumes "1 \<le> m" "m \<le> 12" "1 \<le> d" "d \<le> days_in_month y m"
  obtains era c q r mp where "date_parts c q r mp d" "y = year_of era c q r mp" "m = month_of mp"
proof -
  define y' where "y' = (if m \<le> 2 then y - 1 else y)"
  define yoe where "yoe = y' mod 400"
  define c q r where "c = yoe div 100" and "q = yoe mod 100 div 4" and "r = yoe mod 4"
  define mp where "mp = (if m > 2 then m - 3 else m + 9)"
  have yoe: "0 \<le> yoe" "yoe < 400" by (simp_all add: yoe_def)
  have ranges: "0 \<le> c" "c \<le> 3" "0 \<le> q" "q \<le> 24" "0 \<le> r" "r \<le> 3"
    using yoe unfolding c_def q_def r_def by presburger+
  have sum: "100 * c + 4 * q + r = yoe"
  proof -
    have "yoe mod 100 mod 4 = r" unfolding r_def by (rule mod_mod_cancel) simp
    moreover have "100 * c + yoe mod 100 = yoe" "4 * q + yoe mod 100 mod 4 = yoe mod 100" by (simp_all add: c_def q_def)
    ultimately show ?thesis by linarith
  qed
  have y': "y' = y' div 400 * 400 + (100 * c + 4 * q + r)" unfolding sum yoe_def by simp
  have mp: "0 \<le> mp" "mp \<le> 11" "m = month_of mp" using assms(1,2) by (auto simp: mp_def month_of_def)
  have y: "y = year_of (y' div 400) c q r mp"
    using y' assms(1,2) by (auto simp: year_of_def y'_def mp_def split: if_splits)
  have mcases: "m \<in> {1, 2, 3, 4, 5, 6, 7, 8, 9, 10, 11, 12}" using assms(1,2) by simp presburger
  have len: "days_in_month y m \<le> shifted_length mp"
    using mcases by (elim insertE emptyE) (simp_all add: days_in_month_def shifted_length_def mp_def)
  have "r = 3 \<and> (q < 24 \<or> c = 3)" if "mp = 11" "d = 29"
  proof (rule leap_parts)
    have "m = 2" using that(1) mp(3) by (simp add: month_of_def)
    then show "is_leap (y' div 400 * 400 + (100 * c + 4 * q + r) + 1)"
      using assms(4) that(2) y' by (auto simp: days_in_month_def y'_def split: if_splits)
  qed (fact ranges)+
  then have "date_parts c q r mp d" using ranges mp len assms(3,4) by (auto simp: date_parts_def)
  then show ?thesis using y mp(3) by (rule that)
qed

text \<open>A day count split into whole periods, the last of which may be one day longer.\<close>

lemma capped_div:
  assumes "0 < n" "0 \<le> x" "x < n * (k + 1) + 1" "0 \<le> (k::int)" "1 < n"
  shows "0 \<le> min k (x div n)" "0 \<le> x - n * min k (x div n)" "x - n * min k (x div n) \<le> n"
    "x - n * min k (x div n) = n \<Longrightarrow> min k (x div n) = k \<and> x = n * (k + 1)"
proof -
  define e m where "e = x div n" and "m = x mod n"
  have x: "x = n * e + m" "0 \<le> m" "m < n" using assms(1) by (simp_all add: e_def m_def)
  have e: "0 \<le> e" using assms(1,2) by (simp add: e_def pos_imp_zdiv_nonneg_iff)
  have "n * e < n * (k + 2)" using x assms(3,5) by (simp add: algebra_simps)
  then have top: "e \<le> k + 1" using assms(1) by (simp add: mult_less_cancel_left)
  have cap: "min k e = e \<or> e = k + 1 \<and> m = 0 \<and> min k e = k"
  proof (cases "e \<le> k")
    case False
    then have "e = k + 1" using top by simp
    then show ?thesis using x assms(3) by simp
  qed simp
  show "0 \<le> min k (x div n)" using e assms(4) by (simp add: e_def)
  show "0 \<le> x - n * min k (x div n)" "x - n * min k (x div n) \<le> n"
    "x - n * min k (x div n) = n \<Longrightarrow> min k (x div n) = k \<and> x = n * (k + 1)"
    using cap x unfolding e_def [symmetric] by (auto simp: algebra_simps)
qed

lemma day_parts: obtains era c q r mp d where "date_parts c q r mp d" "z = day_number era c q r mp d"
proof -
  define doe where "doe = (z + 719468) mod 146097"
  define era where "era = (z + 719468) div 146097"
  have doe: "0 \<le> doe" "doe \<le> 146096" by (simp_all add: doe_def)
  have z: "z = era * 146097 + doe - 719468" by (simp add: era_def doe_def)
  define c where "c = (if doe div 36524 > 3 then 3 else doe div 36524)"
  define rest where "rest = doe - 36524 * c"
  have c: "0 \<le> c" "c \<le> 3" "0 \<le> rest" "rest \<le> 36524" "rest = 36524 \<Longrightarrow> c = 3"
    using capped_div [of 36524 doe 3] doe by (auto simp: c_def rest_def min_def split: if_splits)
  define q where "q = rest div 1461"
  define rest2 where "rest2 = rest - 1461 * q"
  have q: "0 \<le> q" "q \<le> 24" "0 \<le> rest2" "rest2 \<le> 1460" "q = 24 \<Longrightarrow> rest2 = 1460 \<Longrightarrow> rest = 36524"
    using capped_div [of 1461 rest 24] c(3,4) by (auto simp: q_def rest2_def min_def split: if_splits)
  define r where "r = (if rest2 div 365 > 3 then 3 else rest2 div 365)"
  define doy where "doy = rest2 - 365 * r"
  have r: "0 \<le> r" "r \<le> 3" "0 \<le> doy" "doy \<le> 365" "doy = 365 \<Longrightarrow> r = 3 \<and> rest2 = 1460"
    using capped_div [of 365 rest2 3] q(3,4) by (auto simp: r_def doy_def min_def split: if_splits)
  define mp where "mp = (5 * doy + 2) div 153"
  define d where "d = doy - (153 * mp + 2) div 5 + 1"
  note m = day_of_doy [OF r(3,4), folded mp_def, folded d_def]
  have doy: "(153 * mp + 2) div 5 + d - 1 = doy" by (simp add: d_def)
  have "r = 3 \<and> (q < 24 \<or> c = 3)" if "mp = 11" "d = 29"
  proof -
    have "doy = 365" using that doy by simp
    with r(5) q(2,5) c(5) show ?thesis by linarith
  qed
  then have "date_parts c q r mp d" using c q r m by (auto simp: date_parts_def)
  moreover have "z = day_number era c q r mp d"
    using z doy by (simp add: day_number_def rest_def rest2_def doy_def)
  ultimately show ?thesis by (rule that)
qed

lemma parts_leap:
  assumes "0 \<le> q" "q \<le> 24" "0 \<le> c" "c \<le> 3" "q < 24 \<or> c = 3"
  shows "is_leap (era * 400 + (100 * c + 4 * q + 3) + 1)"
proof (cases "q = 24")
  case True
  then have "era * 400 + (100 * c + 4 * q + 3) + 1 = (era + 1) * 400" using assms by simp
  then show ?thesis unfolding is_leap_mod by (metis mod_mult_self2_is_0)
next
  case False
  have "era * 400 + (100 * c + 4 * q + 3) + 1 = (4 * q + 4) + (era * 4 + c) * 100" by simp
  then have "(era * 400 + (100 * c + 4 * q + 3) + 1) mod 100 = (4 * q + 4) mod 100" by (metis mod_mult_self1)
  also have "\<dots> = 4 * q + 4" using False assms by (simp add: mod_pos_pos_trivial)
  finally have "(era * 400 + (100 * c + 4 * q + 3) + 1) mod 100 \<noteq> 0" using assms(1) by simp
  moreover have "era * 400 + (100 * c + 4 * q + 3) + 1 = (era * 100 + 25 * c + q + 1) * 4" by simp
  then have "(era * 400 + (100 * c + 4 * q + 3) + 1) mod 4 = 0" by (metis mod_mult_self2_is_0)
  ultimately show ?thesis unfolding is_leap_mod by auto
qed

lemma parts_valid:
  assumes "date_parts c q r mp d"
  shows "1 \<le> month_of mp" "month_of mp \<le> 12" "1 \<le> d" "d \<le> days_in_month (year_of era c q r mp) (month_of mp)"
proof -
  note p = assms [unfolded date_parts_def]
  have mp: "0 \<le> mp" "mp \<le> 11" using p by auto
  show "1 \<le> month_of mp" "month_of mp \<le> 12" "1 \<le> d" using p by (auto simp: month_of_def)
  have leap: "d \<le> 28 \<or> is_leap (year_of era c q r mp)" if "mp = 11"
  proof (cases "d = 29")
    case True
    then show ?thesis using p that parts_leap [of q c era] by (auto simp: year_of_def)
  next
    case False
    then show ?thesis using p that by (auto simp: shifted_length_def)
  qed
  show "d \<le> days_in_month (year_of era c q r mp) (month_of mp)"
    using shifted_cases [OF mp] p leap
    by (elim insertE emptyE) (auto simp: days_in_month_def month_of_def shifted_length_def)
qed

lemma parts_of_year:
  assumes p: "date_parts c q r mp d" and "\<bar>year_of era c q r mp\<bar> \<le> 2 ^ 31"
  shows "\<bar>era\<bar> < 2 ^ 40"
proof -
  define yoe where "yoe = 100 * c + 4 * q + r"
  have "\<bar>era * 400 + yoe\<bar> \<le> 2 ^ 31 + 1" using assms(2) by (auto simp: year_of_def yoe_def split: if_splits)
  then show ?thesis using parts_range(1,2) [OF p, folded yoe_def] by auto
qed

lemma day_to_date:
  assumes z: "\<bar>z\<bar> \<le> 780000000000"
  shows day_round_trip: "epoch_day (from_epoch_day z) = z"
    and day_valid: "date_new (dt_year (from_epoch_day z)) (dt_month (from_epoch_day z)) (dt_day (from_epoch_day z)) = Some (from_epoch_day z)"
proof -
  obtain era c q r mp d' where p: "date_parts c q r mp d'" and n: "z = day_number era c q r mp d'"
    by (rule day_parts)
  have e: "\<bar>era\<bar> \<le> 5340000" using z n parts_range(6,7) [OF p] by (auto simp: day_number_def)
  then have big: "\<bar>era\<bar> < 2 ^ 40" by simp
  have yr: "i32_min < year_of era c q r mp" "year_of era c q r mp \<le> i32_max"
    using e parts_range(1,2) [OF p] by (auto simp: year_of_def i32_min_def i32_max_def)
  have from_z: "from_epoch_day z = \<lparr> dt_year = year_of era c q r mp, dt_month = month_of mp, dt_day = d' \<rparr>"
    using civil_of_parts [OF p big] yr by (simp add: from_epoch_day_def n i32_id)
  show "epoch_day (from_epoch_day z) = z" using days_of_parts [OF p yr] n unfolding from_z by (simp add: epoch_day_def)
  show "date_new (dt_year (from_epoch_day z)) (dt_month (from_epoch_day z)) (dt_day (from_epoch_day z)) = Some (from_epoch_day z)"
    using parts_valid(1-3) [OF p] parts_valid(4) [OF p, of era] by (auto simp: from_z date_new_def)
qed

text \<open>C21: a valid date whose year is an \<open>i32\<close> other than the smallest survives the trip through its day number, and
  any day number within 780 thousand million days of the epoch (all of the years an \<open>i32\<close> holds but the outermost)
  is the day number of the valid date it is turned into. The two conversions are mutual inverses, leap years and
  years before the epoch included.
\<close>
theorem civil_round_trip:
  assumes valid: "date_new y m d = Some dt" and year: "i32_min < y" "y \<le> i32_max"
    and z: "\<bar>z\<bar> \<le> 780000000000"
  shows "from_epoch_day (epoch_day dt) = dt
    \<and> epoch_day (from_epoch_day z) = z
    \<and> date_new (dt_year (from_epoch_day z)) (dt_month (from_epoch_day z)) (dt_day (from_epoch_day z)) = Some (from_epoch_day z)"
proof (intro conjI)
  have md: "1 \<le> m" "m \<le> 12" "1 \<le> d" "d \<le> days_in_month y m" and dt: "dt = \<lparr> dt_year = y, dt_month = m, dt_day = d \<rparr>"
    using valid by (auto simp: date_new_def split: if_splits)
  obtain era c q r mp where p: "date_parts c q r mp d" and ym: "y = year_of era c q r mp" "m = month_of mp"
    by (rule valid_parts [OF md])
  have "\<bar>y\<bar> \<le> 2 ^ 31" using year by (auto simp: i32_min_def i32_max_def)
  then have "\<bar>era\<bar> < 2 ^ 40" unfolding ym(1) by (rule parts_of_year [OF p])
  from civil_of_parts [OF p this] days_of_parts [OF p, of era] year
  show "from_epoch_day (epoch_day dt) = dt"
    by (simp add: epoch_day_def from_epoch_day_def dt ym i32_id)
qed (fact day_round_trip [OF z] day_valid [OF z])+

theorem civil_round_trip_witness:
  "date_new 2024 2 29 = Some \<lparr> dt_year = 2024, dt_month = 2, dt_day = 29 \<rparr>
   \<and> from_epoch_day (epoch_day \<lparr> dt_year = 2024, dt_month = 2, dt_day = 29 \<rparr>) = \<lparr> dt_year = 2024, dt_month = 2, dt_day = 29 \<rparr>
   \<and> epoch_day (from_epoch_day (- 719529)) = - 719529"
proof -
  have "date_new 2024 2 29 = Some \<lparr> dt_year = 2024, dt_month = 2, dt_day = 29 \<rparr>" by code_simp
  then show ?thesis using civil_round_trip [of 2024 2 29 _ "- 719529"] by (simp add: i32_min_def i32_max_def)
qed

section \<open>Dates are printed and read back\<close>

lemma pad_number:
  "decimal 0 (pad w (nat_string n)) = Some (int n)" "pad w (nat_string n) \<noteq> []"
  "CHR ''-'' \<notin> set (pad w (nat_string n))" "CHR ''+'' \<notin> set (pad w (nat_string n))"
  using nat_string_no_sign [of n] by (auto simp: pad_def)

lemma unsigned_split:
  "CHR ''-'' \<notin> set s \<Longrightarrow> CHR ''+'' \<notin> set s \<Longrightarrow>
   (case s of [] \<Rightarrow> a | c # cs \<Rightarrow> if c = CHR ''-'' then f cs else if c = CHR ''+'' then g cs else h) = (case s of [] \<Rightarrow> a | _ \<Rightarrow> h)"
  by (cases s) auto

lemma parse_padded:
  "0 \<le> n \<Longrightarrow> n \<le> i32_max \<Longrightarrow> parse_i32 (padded w n) = Some n" "0 \<le> n \<Longrightarrow> n \<le> i32_max \<Longrightarrow> parse_u32 (padded w n) = Some n"
  using pad_number [of w "nat n"]
  by (cases "pad w (nat_string (nat n))";
      auto simp: parse_i32_def parse_int_def parse_u32_def padded_def i32_min_def i32_max_def)+

lemma padded_no_minus: "0 \<le> n \<Longrightarrow> CHR ''-'' \<notin> set (padded w n)" "0 \<le> n \<Longrightarrow> padded w n \<noteq> []"
  using pad_number [of w "nat n"] by (simp_all add: padded_def)

lemma split_date:
  assumes "0 \<le> y" "0 \<le> m" "0 \<le> d"
  shows "split_on CHR ''-'' (padded 4 y @ ''-'' @ padded 2 m @ ''-'' @ padded 2 d) = [padded 4 y, padded 2 m, padded 2 d]"
  using assms by (simp add: split_on_append split_on_none padded_no_minus)

text \<open>Every valid date whose year is an \<open>i32\<close> other than the smallest is printed to a text that parses to the same
  date, also where the year is negative or has more than four digits.
\<close>
theorem date_print_parse:
  assumes "date_new y m d = Some dt" "i32_min < y" "y \<le> i32_max"
  shows "date_parse (date_format dt) = Some dt"
proof -
  have md: "1 \<le> m" "m \<le> 12" "1 \<le> d" and dt: "dt = \<lparr> dt_year = y, dt_month = m, dt_day = d \<rparr>"
    using assms(1) by (auto simp: date_new_def split: if_splits)
  have "d \<le> 31" using assms(1) by (auto simp: date_new_def days_in_month_def split: if_splits)
  then have mdp: "parse_u32 (padded 2 m) = Some m" "parse_u32 (padded 2 d) = Some d"
    using md by (auto intro!: parse_padded simp: i32_max_def)
  show ?thesis
  proof (cases "y < 0")
    case True
    then have "i32_neg y = - y" "i32_neg (- y) = y" "- y \<le> i32_max" "0 \<le> - y"
      using assms(2) by (auto simp: i32_neg_def i32_min_def i32_max_def)
    moreover have "parse_i32 (padded 4 (- y)) = Some (- y)" using calculation by (intro parse_padded)
    ultimately show ?thesis
      using True md split_date [of "- y" m d] mdp assms(1) by (simp add: dt date_format_def date_parse_def)
  next
    case False
    then have "parse_i32 (padded 4 y) = Some y" using assms(3) by (intro parse_padded) simp_all
    moreover obtain c cs where "padded 4 y = c # cs" "c \<noteq> CHR ''-''"
      using False padded_no_minus [of y 4] by (cases "padded 4 y") auto
    ultimately show ?thesis
      using False md split_date [of y m d] mdp assms(1) by (simp add: dt date_format_def date_parse_def)
  qed
qed

theorem date_print_parse_witness:
  "date_new (- 44) 3 15 = Some \<lparr> dt_year = - 44, dt_month = 3, dt_day = 15 \<rparr>
   \<and> date_parse (date_format \<lparr> dt_year = - 44, dt_month = 3, dt_day = 15 \<rparr>) = Some \<lparr> dt_year = - 44, dt_month = 3, dt_day = 15 \<rparr>"
proof -
  have "date_new (- 44) 3 15 = Some \<lparr> dt_year = - 44, dt_month = 3, dt_day = 15 \<rparr>" by code_simp
  then show ?thesis using date_print_parse [of "- 44" 3 15] by (simp add: i32_min_def i32_max_def)
qed

section \<open>Moving along the time line\<close>

lemma nano_of_day_from: "nano_of_day (from_nano_of_day n off zone) = n mod (SECS_PER_DAY * NANOS_PER_SEC)"
proof -
  define nanos where "nanos = n mod (SECS_PER_DAY * NANOS_PER_SEC)"
  define secs where "secs = nanos div NANOS_PER_SEC"
  have "0 \<le> nanos" "nanos < 86400 * 1000000000" by (simp_all add: nanos_def SECS_PER_DAY_def NANOS_PER_SEC_def)
  then have "0 \<le> secs" "secs < 86400" by (simp_all add: secs_def NANOS_PER_SEC_def)
  then have "0 \<le> secs div 3600" "secs div 3600 < 24" by simp_all
  then have day: "secs div 3600 mod 24 = secs div 3600" by (simp add: mod_pos_pos_trivial)
  have "secs div 3600 = secs div 60 div 60" by (simp add: zdiv_zmult2_eq [symmetric])
  then have "(secs div 3600 * 60 + secs div 60 mod 60) * 60 + secs mod 60 = secs" by simp
  moreover have "secs * NANOS_PER_SEC + nanos mod NANOS_PER_SEC = nanos" by (simp add: secs_def)
  ultimately show ?thesis
    by (simp add: nano_of_day_def from_nano_of_day_def Let_def nanos_def [symmetric] secs_def [symmetric] day)
qed

text \<open>adding a days-and-time duration to a date and time moves its instant by exactly that many nanoseconds, whatever
  midnights, months and years it crosses, and keeps the offset and zone it is written in, as long as the local day it
  lands on is within 780 thousand million days of the epoch.
\<close>
theorem add_dt_moves_instant:
  assumes "\<bar>(epoch_nanos dt + (case tt_offset_seconds (dtm_time dt) of None \<Rightarrow> 0 | Some off \<Rightarrow> off) * NANOS_PER_SEC + n)
    div (SECS_PER_DAY * NANOS_PER_SEC)\<bar> \<le> 780000000000"
  shows "epoch_nanos (add_dt n dt) = epoch_nanos dt + n
    \<and> tt_offset_seconds (dtm_time (add_dt n dt)) = tt_offset_seconds (dtm_time dt)
    \<and> tt_zone (dtm_time (add_dt n dt)) = tt_zone (dtm_time dt)"
proof (intro conjI)
  define day where "day = SECS_PER_DAY * NANOS_PER_SEC"
  define total where "total = epoch_day (dtm_date dt) * day + nano_of_day (dtm_time dt) + n"
  define off where "off = (case tt_offset_seconds (dtm_time dt) of None \<Rightarrow> 0 | Some off \<Rightarrow> off) * NANOS_PER_SEC"
  have e: "epoch_nanos dt = total - n - off"
    by (simp add: epoch_nanos_def Let_def total_def day_def off_def algebra_simps)
  have small: "\<bar>total div day\<bar> \<le> 780000000000" using assms by (simp add: e off_def [symmetric] day_def [symmetric])
  then have "wrap_i64 (total div day) = total div day" by (intro wrap_id) auto
  then have added: "dtm_date (add_dt n dt) = from_epoch_day (total div day)"
    "dtm_time (add_dt n dt) = from_nano_of_day (total mod day) (tt_offset_seconds (dtm_time dt)) (tt_zone (dtm_time dt))"
    by (simp_all add: add_dt_def Let_def total_def day_def)
  show same: "tt_offset_seconds (dtm_time (add_dt n dt)) = tt_offset_seconds (dtm_time dt)"
    and "tt_zone (dtm_time (add_dt n dt)) = tt_zone (dtm_time dt)"
    unfolding added by (simp_all add: from_nano_of_day_def Let_def)
  note same
  moreover have "epoch_day (dtm_date (add_dt n dt)) = total div day" unfolding added by (rule day_round_trip [OF small])
  moreover have "nano_of_day (dtm_time (add_dt n dt)) = total mod day" unfolding added by (simp add: nano_of_day_from day_def)
  moreover have "total div day * SECS_PER_DAY * NANOS_PER_SEC + total mod day = total"
    unfolding mult.assoc day_def [symmetric] by simp
  ultimately show "epoch_nanos (add_dt n dt) = epoch_nanos dt + n"
    unfolding e by (simp add: epoch_nanos_def Let_def off_def)
qed

theorem add_dt_moves_instant_witness:
  "epoch_nanos (add_dt (2 * 3600 * 1000000000) \<lparr> dtm_date = \<lparr> dt_year = 2024, dt_month = 2, dt_day = 29 \<rparr>, dtm_time = time_new 23 0 0 0 \<rparr>)
   = epoch_nanos \<lparr> dtm_date = \<lparr> dt_year = 2024, dt_month = 2, dt_day = 29 \<rparr>, dtm_time = time_new 23 0 0 0 \<rparr> + 2 * 3600 * 1000000000"
proof (rule add_dt_moves_instant [THEN conjunct1])
  show "\<bar>(epoch_nanos \<lparr> dtm_date = \<lparr> dt_year = 2024, dt_month = 2, dt_day = 29 \<rparr>, dtm_time = time_new 23 0 0 0 \<rparr>
      + (case tt_offset_seconds (dtm_time \<lparr> dtm_date = \<lparr> dt_year = 2024, dt_month = 2, dt_day = 29 \<rparr>, dtm_time = time_new 23 0 0 0 \<rparr>) of
          None \<Rightarrow> 0 | Some off \<Rightarrow> off) * NANOS_PER_SEC + 2 * 3600 * 1000000000)
      div (SECS_PER_DAY * NANOS_PER_SEC)\<bar> \<le> 780000000000"
    by code_simp
qed

section \<open>A fraction of a second cut inside a character\<close>

text \<open>A fraction is cut to nine bytes. Where the ninth byte ends inside a character, the cut panics: the text is not
  rejected as any other malformed time is.\<close>

lemma fraction_cut_inside_character: "parse_seconds (''0.00000000'' @ bytes [195, 169]) = None"
  by code_simp

lemma fraction_cut_between_characters: "parse_seconds (''0.0000000'' @ bytes [195, 169]) = Some None"
  by code_simp

end
