(* ===== verification/Scopes.thy ===== *)
theory Scopes
  imports Histories
begin

text \<open>
  The scope trees of an instance. An instance keeps two parent maps: \<open>pi_scopes\<close> sends an active
  element instance to the sub-process, multi-instance body or ad-hoc container that encloses it, and
  \<open>pi_scope_parents\<close> sends a variable scope to its parent. The engine walks both upwards and the first
  also downwards, with loops that follow the maps and stop where they end
  (\<open>engine-core/src/engine/resolve.rs\<close>, \<open>engine-core/src/engine/boundary.rs\<close>). On a cyclic map the loops
  would not stop, so they are partial functions here, and the invariant of this theory, that a scope
  has a smaller key than everything inside it, is what makes them return.
\<close>

section \<open>Scopes are opened before what they hold\<close>

definition increasing :: "(key, key) fmap \<Rightarrow> bool" where
  "increasing m \<longleftrightarrow> fmpred (\<lambda>child parent. parent < child) m"

definition scopes_ordered :: "process_instance \<Rightarrow> bool" where
  "scopes_ordered i \<longleftrightarrow> increasing (pi_scopes i) \<and> increasing (pi_scope_parents i)
     \<and> pi_key i |\<notin>| fmdom (pi_scope_parents i) \<and> pi_key i |\<notin>| fmdom (pi_scope_variables i)
     \<and> 0 |\<notin>| fmdom (pi_scope_variables i) \<and> 0 |\<notin>| fmdom (pi_active i)"

definition scope_inv :: "state \<Rightarrow> bool" where
  "scope_inv s \<longleftrightarrow> fmpred (\<lambda>k i. pi_key i = k \<and> scopes_ordered i) (instances s)"

text \<open>Events that open a scope or put something into one name a parent with a smaller key (the parent
  was minted first) and never reuse the key of the instance.\<close>

definition scope_guard :: "event \<Rightarrow> state \<Rightarrow> bool" where
  "scope_guard e s \<longleftrightarrow> (case e of
     EElement (ElementActivated _ eik _ scope) \<Rightarrow> eik \<noteq> 0 \<and> (scope \<noteq> 0 \<longrightarrow> scope < eik)
   | EVariable (VariableScopeCreated ik sk psk) \<Rightarrow> psk < sk \<and> sk \<noteq> ik
   | EMultiInstance (MultiInstanceChildActivated ik bk ck _ _) \<Rightarrow> bk < ck \<and> ck \<noteq> ik
   | EAdHoc (AdHocToolActivated ik ck chk _) \<Rightarrow> ck < chk \<and> chk \<noteq> ik
   | _ \<Rightarrow> True)"

lemma increasing_empty [simp]: "increasing fmempty"
  by (simp add: increasing_def)

lemma increasing_upd: "increasing m \<Longrightarrow> p < c \<Longrightarrow> increasing (fmupd c p m)"
  by (auto simp: increasing_def fmpred_iff)

lemma increasing_drop: "increasing m \<Longrightarrow> increasing (fmdrop c m)"
  by (auto simp: increasing_def fmpred_iff split: if_splits)

lemma increasingD: "increasing m \<Longrightarrow> fmlookup m c = Some p \<Longrightarrow> p < c"
  by (auto simp: increasing_def fmpred_iff)

lemma fmdom_entry_or [simp]: "fmdom (entry_or k d f m) = finsert k (fmdom m)"
  by (auto simp: entry_or_def fmlookup_dom_iff split: option.splits)

lemma word_gr_zero: "(a :: u64) < b \<Longrightarrow> b \<noteq> 0"
  by auto

lemma scope_inv_get_mut:
  assumes "scope_inv s" "instances s' = get_mut ik f (instances s)"
    and "\<And>i. scopes_ordered i \<Longrightarrow> pi_key i = ik \<Longrightarrow> pi_key (f i) = ik \<and> scopes_ordered (f i)"
  shows "scope_inv s'"
  using assms by (auto simp: scope_inv_def fmpred_iff split: if_splits)

lemma scope_inv_on_instance:
  assumes "scope_inv s" "\<And>i. scopes_ordered i \<Longrightarrow> pi_key i = ik \<Longrightarrow> pi_key (f i) = ik \<and> scopes_ordered (f i)"
  shows "scope_inv (on_instance ik f s)"
  using assms(1) _ assms(2) by (rule scope_inv_get_mut) (simp_all add: on_instance_def)

lemma scope_inv_part: "count_part s' = count_part s \<Longrightarrow> scope_inv s \<Longrightarrow> scope_inv s'"
  by (simp add: scope_inv_def count_part_def)

lemma scopes_ordered_keep:
  "scopes_ordered i \<Longrightarrow> pi_key i' = pi_key i \<Longrightarrow> pi_scopes i' = pi_scopes i \<Longrightarrow> pi_scope_parents i' = pi_scope_parents i \<Longrightarrow>
   fmdom (pi_scope_variables i') |\<subseteq>| fmdom (pi_scope_variables i) \<Longrightarrow> fmdom (pi_active i') |\<subseteq>| fmdom (pi_active i) \<Longrightarrow>
   scopes_ordered i'"
  by (auto simp: scopes_ordered_def)

lemma apply_element_scopes:
  "scope_inv s \<Longrightarrow> scope_guard (EElement e) s \<Longrightarrow> scope_inv (apply_element e s)"
  by (cases e) (auto simp: element_arm_defs scope_guard_def scopes_ordered_def increasing_upd increasing_drop
      intro!: scope_inv_on_instance split: option.splits)

lemma apply_variable_scopes:
  "scope_inv s \<Longrightarrow> scope_guard (EVariable e) s \<Longrightarrow> scope_inv (apply_variable e s)"
proof (cases e)
  case ProcessInstanceCreated
  assume "scope_inv s"
  then show ?thesis unfolding ProcessInstanceCreated
    by (auto simp: apply_ProcessInstanceCreated_def Let_def scope_inv_def fmpred_iff scopes_ordered_def)
qed (auto simp: instance_arm_defs scope_guard_def scopes_ordered_def increasing_upd increasing_drop
    intro!: scope_inv_on_instance)

lemma apply_activity_scopes:
  "scope_inv s \<Longrightarrow> scope_inv (apply_compensation ce s)"
  "scope_inv s \<Longrightarrow> scope_guard (EMultiInstance me) s \<Longrightarrow> scope_inv (apply_multi_instance me s)"
  "scope_inv s \<Longrightarrow> scope_guard (EAdHoc ae) s \<Longrightarrow> scope_inv (apply_adhoc ae s)"
  by (cases ce, auto simp: element_arm_defs scopes_ordered_def intro!: scope_inv_on_instance)
    (cases me, auto simp: element_arm_defs scope_guard_def scopes_ordered_def increasing_upd intro!: scope_inv_on_instance,
     cases ae, auto simp: element_arm_defs Let_def scope_guard_def scopes_ordered_def increasing_upd
       intro!: scope_inv_on_instance split: option.splits)

lemma apply_agent_scopes: "scope_inv s \<Longrightarrow> scope_inv (apply_agent e s)"
  by (cases e) (auto simp: instance_arm_defs scopes_ordered_def intro!: scope_inv_on_instance)

lemma apply_lifecycle_scopes: "scope_inv s \<Longrightarrow> scope_inv (apply_lifecycle e s)"
proof (cases e)
  case (ProcessInstanceTerminated ik)
  assume "scope_inv s"
  moreover have "instances (apply_lifecycle e s) = get_mut ik clear_terminated (instances s)"
    by (simp add: ProcessInstanceTerminated apply_ProcessInstanceTerminated_def Let_def on_instance_def
        resolve_incidents_def split: option.split)
  ultimately show ?thesis by (rule scope_inv_get_mut) (simp add: clear_terminated_def scopes_ordered_def)
next
  case (ProcessInstanceCompleted ik)
  assume "scope_inv s"
  then show ?thesis
    by (rule scope_inv_get_mut [of _ _ ik clear_completed])
      (simp_all add: ProcessInstanceCompleted apply_ProcessInstanceCompleted_def Let_def on_instance_def
        clear_completed_def scopes_ordered_def)
next
  case (ProcessInstanceMigrated ik pid pdk mappings)
  assume "scope_inv s"
  moreover have "instances (apply_lifecycle e s) = get_mut ik (migrate_instance pid pdk (remap_id mappings)) (instances s)"
    by (simp add: ProcessInstanceMigrated apply_ProcessInstanceMigrated_def Let_def migrate_attached_def
        migrate_inflight_def on_instance_def)
  ultimately show ?thesis
    by (rule scope_inv_get_mut) (auto simp: migrate_instance_def elim: scopes_ordered_keep)
qed (auto simp: apply_ProcessInstanceTerminating_def apply_ProcessInstanceSuspended_def
    apply_ProcessInstanceResumed_def intro!: scope_inv_on_instance elim: scopes_ordered_keep)

lemma apply_incident_scopes: "scope_inv s \<Longrightarrow> scope_inv (apply_incident e s)"
proof (cases e)
  case (IncidentRaised ick ik eik eid kind redrive reason jk created)
  assume "scope_inv s"
  then show ?thesis unfolding IncidentRaised apply_incident.simps
    by (rule scope_inv_get_mut [where ik = ik])
      (simp add: apply_IncidentRaised_def, auto elim: scopes_ordered_keep)
next
  case (IncidentResolved ick ik jk resolved_at opref)
  assume "scope_inv s"
  moreover have "count_part (apply_incident e s) = (inflight_by_process s,
      get_mut ik (\<lambda>i. i\<lparr> pi_incidents := filter (\<lambda>k. k \<noteq> ick) (pi_incidents i) \<rparr>) (instances s))"
    by (simp add: IncidentResolved apply_IncidentResolved_def Let_def split: option.split) (simp add: count_part_def)
  ultimately show ?thesis
    by (auto simp: count_part_def elim!: scope_inv_get_mut elim: scopes_ordered_keep)
qed

lemma apply_event_scopes: "scope_inv s \<Longrightarrow> scope_guard e s \<Longrightarrow> scope_inv (apply_event e s)"
  by (cases e) (simp_all add: apply_element_scopes apply_agent_scopes apply_lifecycle_scopes apply_variable_scopes
      apply_incident_scopes apply_activity_scopes scope_inv_part [of _ s])

interpretation scope_order: event_invariant scope_inv scope_guard
proof
  show "scope_inv state_new" by (simp add: scope_inv_def state_new_def)
qed (rule apply_event_scopes)

section \<open>Walking upwards\<close>

text \<open>The chain of scopes from a key to the end of its parent map, nearest first.\<close>

partial_function (option) scope_chain :: "(key, key) fmap \<Rightarrow> key \<Rightarrow> key list option" where
  "scope_chain parents cur = (case fmlookup parents cur of
     Some parent \<Rightarrow> if parent \<noteq> cur then Option.bind (scope_chain parents parent) (\<lambda>rest. Some (cur # rest)) else Some [cur]
   | None \<Rightarrow> Some [cur])"

lemma scope_chain_end: "fmlookup m k = None \<Longrightarrow> scope_chain m k = Some [k]"
  by (subst scope_chain.simps) simp

lemma scope_chain_up:
  "increasing m \<Longrightarrow> fmlookup m k = Some p \<Longrightarrow> scope_chain m k = map_option ((#) k) (scope_chain m p)"
  by (subst scope_chain.simps) (auto dest: increasingD simp: map_conv_bind_option comp_def)

lemma upward_induct [consumes 1, case_names root up]:
  assumes m: "increasing m"
    and "\<And>k. fmlookup m k = None \<Longrightarrow> P k" "\<And>k p. fmlookup m k = Some p \<Longrightarrow> p < k \<Longrightarrow> P p \<Longrightarrow> P k"
  shows "P k"
proof (induction k rule: measure_induct_rule [of unat])
  case (less k)
  show ?case
  proof (cases "fmlookup m k")
    case None
    then show ?thesis by (rule assms(2))
  next
    case (Some p)
    then have "p < k" using m by (rule increasingD [rotated])
    moreover from this have "P p" using less by (simp add: word_less_nat_alt)
    ultimately show ?thesis using Some assms(3) by blast
  qed
qed

lemma scope_chain_returns:
  assumes m: "increasing m"
  shows "\<exists>chain. scope_chain m k = Some (k # chain)"
proof (induction k rule: upward_induct [OF m])
  case (1 k)
  then show ?case by (simp add: scope_chain_end)
next
  case (2 k p)
  with scope_chain_up [OF m, of k p] show ?case by auto
qed

text \<open>A chain descends, and a scope without a parent can only be its last element.\<close>

lemma scope_chain_shape:
  assumes m: "increasing m"
  shows "scope_chain m k = Some chain \<Longrightarrow>
    sorted_wrt (>) chain \<and> (\<forall>c \<in> set chain. c \<le> k) \<and> (\<forall>cs c ds. chain = cs @ c # ds \<and> fmlookup m c = None \<longrightarrow> ds = [])"
proof (induction k arbitrary: chain rule: upward_induct [OF m])
  case (1 k)
  then show ?case by (auto simp: scope_chain_end Cons_eq_append_conv)
next
  case (2 k p)
  then obtain rest where rest: "scope_chain m p = Some rest" "chain = k # rest"
    by (auto simp: scope_chain_up [OF m])
  note IH = 2(3) [OF rest(1)]
  have "c < k" if "c \<in> set rest" for c using IH that \<open>p < k\<close> by fastforce
  with IH show ?case using \<open>fmlookup m k = Some p\<close> by (auto simp: rest(2) Cons_eq_append_conv intro: less_imp_le)
qed

end
