(* ===== verification/Variables.thy ===== *)
theory Variables
  imports Scopes Jobs "HOL-Library.Sublist"
begin

text \<open>
  Scoped variables (\<open>engine-core/src/engine/resolve.rs\<close>): which variables an element sees, where a merge
  of variables lands, and the overlay of cluster variables beneath them. Loops over the scope chain
  are partial; the invariant of \<open>Scopes\<close> makes them return.
\<close>

section \<open>What an element sees\<close>

definition overlay_cluster_variables :: "engine \<Rightarrow> vars \<Rightarrow> vars" where
  "overlay_cluster_variables e base =
     (if cv_is_empty (cluster_variables e) then base
      else resolved_for (cluster_variables e) DEFAULT_TENANT ++\<^sub>f base)"

definition engine_variables :: "engine \<Rightarrow> key \<Rightarrow> vars" where
  "engine_variables e ik = overlay_cluster_variables e
     (case fmlookup (instances (est e)) ik of None \<Rightarrow> fmempty | Some i \<Rightarrow> pi_variables i)"

definition variable_scope_of :: "process_instance \<Rightarrow> key \<Rightarrow> key" where
  "variable_scope_of i k =
     (if k = 0 \<or> k = pi_key i then pi_key i
      else if k |\<in>| fmdom (pi_scope_parents i) then k
      else case fmlookup (pi_scopes i) k of
        Some enclosing \<Rightarrow> if enclosing |\<in>| fmdom (pi_scope_parents i) then enclosing else pi_key i
      | None \<Rightarrow> pi_key i)"

definition merge_scope :: "process_instance \<Rightarrow> key \<Rightarrow> vars \<Rightarrow> vars" where
  "merge_scope i scope merged = (case fmlookup (pi_scope_variables i) scope of
     None \<Rightarrow> merged | Some locals \<Rightarrow> merged ++\<^sub>f locals)"

definition visible_variables :: "engine \<Rightarrow> process_instance \<Rightarrow> key \<Rightarrow> vars option" where
  "visible_variables e i scope_key =
     (if scope_key = 0 \<or> scope_key = pi_key i \<or> pi_scope_variables i = fmempty
      then Some (overlay_cluster_variables e (pi_variables i))
      else map_option (\<lambda>chain. overlay_cluster_variables e (fold (merge_scope i) (rev chain) (pi_variables i)))
             (scope_chain (pi_scope_parents i) scope_key))"

definition variables_for_element :: "engine \<Rightarrow> key \<Rightarrow> key \<Rightarrow> vars option" where
  "variables_for_element e ik eik = (case fmlookup (instances (est e)) ik of
     None \<Rightarrow> Some fmempty
   | Some i \<Rightarrow> visible_variables e i (variable_scope_of i eik))"

definition element_variables :: "engine \<Rightarrow> key \<Rightarrow> key \<Rightarrow> vars option" where
  "element_variables e ik eik = variables_for_element e ik eik"

definition resolve_scope :: "engine \<Rightarrow> key \<Rightarrow> key option" where
  "resolve_scope e scope_key =
     (if scope_key |\<in>| fmdom (instances (est e)) then Some scope_key
      else map_option pi_key (List.find (\<lambda>i. scope_key |\<in>| fmdom (pi_active i)) (map snd (sorted_list_of_fmap (instances (est e))))))"

section \<open>Where a merge of variables lands\<close>

definition scope_holds :: "process_instance \<Rightarrow> string \<Rightarrow> key \<Rightarrow> bool" where
  "scope_holds i name cur =
     (if cur = pi_key i then name |\<in>| fmdom (pi_variables i)
      else case fmlookup (pi_scope_variables i) cur of None \<Rightarrow> False | Some m \<Rightarrow> name |\<in>| fmdom m)"

partial_function (option) scope_defining :: "process_instance \<Rightarrow> key \<Rightarrow> string \<Rightarrow> key option option" where
  "scope_defining i cur name =
     (if scope_holds i name cur then Some (Some cur)
      else if cur = pi_key i then Some None
      else case fmlookup (pi_scope_parents i) cur of
        Some parent \<Rightarrow> if parent \<noteq> cur then scope_defining i parent name else Some None
      | None \<Rightarrow> Some None)"

fun place_variables ::
  "process_instance \<Rightarrow> key \<Rightarrow> (string \<times> rval) list \<Rightarrow> (key, vars) fmap \<Rightarrow> (key, vars) fmap option" where
  "place_variables i target [] by_scope = Some by_scope"
| "place_variables i target ((name, v) # rest) by_scope =
     Option.bind (scope_defining i target name) (\<lambda>found.
       let dest = (case found of None \<Rightarrow> pi_key i | Some d \<Rightarrow> d)
       in place_variables i target rest (entry_or dest fmempty (fmupd name v) by_scope))"

definition propagate_variables :: "engine \<Rightarrow> key \<Rightarrow> key \<Rightarrow> vars \<Rightarrow> bool \<Rightarrow> (key \<times> vars) list option" where
  "propagate_variables e ik target_scope variables locl =
     (if variables = fmempty then Some []
      else case fmlookup (instances (est e)) ik of
        None \<Rightarrow> Some [(ik, variables)]
      | Some i \<Rightarrow>
          (let target = variable_scope_of i target_scope
           in if locl then Some [(target, variables)]
              else if pi_scope_variables i = fmempty \<and> pi_scope_parents i = fmempty then Some [(pi_key i, variables)]
              else map_option sorted_list_of_fmap (place_variables i target (sorted_list_of_fmap variables) fmempty)))"

definition write_event :: "key \<Rightarrow> key \<times> vars \<Rightarrow> event" where
  "write_event ik w = (let (dest, vs) = w
     in if dest = 0 \<or> dest = ik then EVariable (VariablesUpdated ik vs)
        else EVariable (ScopedVariablesUpdated ik dest vs))"

definition propagated_updates :: "engine \<Rightarrow> key \<Rightarrow> key \<Rightarrow> vars \<Rightarrow> bool \<Rightarrow> event list option" where
  "propagated_updates e ik scope variables locl =
     map_option (\<lambda>writes. map (write_event ik) (filter (\<lambda>(_, vs). vs \<noteq> fmempty) (sort_key fst writes)))
       (propagate_variables e ik scope variables locl)"

section \<open>Declared attributes of an element\<close>

definition element_of :: "engine \<Rightarrow> key \<Rightarrow> elementid \<Rightarrow> element option" where
  "element_of e ik eid = Option.bind (process_of_instance e ik) (\<lambda>p. pd_element p eid)"

definition retries_of :: "engine \<Rightarrow> key \<Rightarrow> elementid \<Rightarrow> string option" where
  "retries_of e ik eid = Option.bind (element_of e ik eid) e_retries"

definition listeners_of :: "engine \<Rightarrow> key \<Rightarrow> elementid \<Rightarrow> listener_event_type \<Rightarrow> execution_listener list" where
  "listeners_of e ik eid ty = (case element_of e ik eid of
     None \<Rightarrow> []
   | Some el \<Rightarrow> (case ty of ListenerStart \<Rightarrow> e_start_listeners el | ListenerEnd \<Rightarrow> e_end_listeners el))"

definition task_listeners_of :: "engine \<Rightarrow> key \<Rightarrow> elementid \<Rightarrow> task_listener_event_type \<Rightarrow> task_listener list" where
  "task_listeners_of e ik eid ty = (case element_of e ik eid of
     None \<Rightarrow> [] | Some el \<Rightarrow> filter (\<lambda>l. tl_event_type l = ty) (e_task_listeners el))"

definition timer_def_of :: "engine \<Rightarrow> key \<Rightarrow> elementid \<Rightarrow> timer_def option" where
  "timer_def_of e ik eid = Option.bind (element_of e ik eid) e_timer"

definition engine_io_inputs :: "engine \<Rightarrow> key \<Rightarrow> elementid \<Rightarrow> mapping list" where
  "engine_io_inputs e ik eid = (case element_of e ik eid of None \<Rightarrow> [] | Some el \<Rightarrow> io_inputs (e_io el))"

definition engine_io_outputs :: "engine \<Rightarrow> key \<Rightarrow> elementid \<Rightarrow> mapping list" where
  "engine_io_outputs e ik eid = (case element_of e ik eid of None \<Rightarrow> [] | Some el \<Rightarrow> io_outputs (e_io el))"

definition resolve_user_task_form_linkage :: "engine \<Rightarrow> user_task_props \<Rightarrow> key option \<times> string option" where
  "resolve_user_task_form_linkage e props =
     ((if up_external_form_reference props \<noteq> None then None
       else map_option df_key (Option.bind (up_form_id props) (fmlookup (forms (est e))))),
      up_external_form_reference props)"

section \<open>Targets of io mappings\<close>

text \<open>\<open>split('.')\<close> with the empty parts dropped.\<close>

fun split_dots :: "string \<Rightarrow> string \<Rightarrow> string list" where
  "split_dots part [] = (if part = [] then [] else [rev part])"
| "split_dots part (c # cs) =
     (if c = CHR ''.'' then (if part = [] then split_dots [] cs else rev part # split_dots [] cs)
      else split_dots (c # part) cs)"

definition map_of_value :: "rval \<Rightarrow> vars" where
  "map_of_value node = (case node of VMap m \<Rightarrow> m | _ \<Rightarrow> fmempty)"

fun set_io_path :: "rval \<Rightarrow> string list \<Rightarrow> rval \<Rightarrow> rval" where
  "set_io_path node [] v = v"
| "set_io_path node (head # tail) v =
     (let m = map_of_value node;
          entry = (case fmlookup m head of None \<Rightarrow> VMap fmempty | Some x \<Rightarrow> x)
      in VMap (fmupd head (set_io_path entry tail v) m))"

definition assign_io_target :: "vars \<Rightarrow> string \<Rightarrow> rval \<Rightarrow> vars \<Rightarrow> vars" where
  "assign_io_target vs target v result = (case split_dots [] target of
     [] \<Rightarrow> result
   | [single] \<Rightarrow> fmupd single v result
   | first # rest \<Rightarrow>
       (let root = (case fmlookup result first of
              Some x \<Rightarrow> x
            | None \<Rightarrow> (case fmlookup vs first of Some x \<Rightarrow> x | None \<Rightarrow> VMap fmempty))
        in fmupd first (set_io_path root rest v) result))"

section \<open>The nearest scope wins\<close>

text \<open>The reference: walk the chain from the nearest scope outwards, then the variables of the
  instance, then the tenant's and the global cluster variables.\<close>

definition local_value :: "process_instance \<Rightarrow> key \<Rightarrow> string \<Rightarrow> rval option" where
  "local_value i c x = Option.bind (fmlookup (pi_scope_variables i) c) (\<lambda>m. fmlookup m x)"

fun nearest :: "process_instance \<Rightarrow> key list \<Rightarrow> string \<Rightarrow> rval option" where
  "nearest i [] x = fmlookup (pi_variables i) x"
| "nearest i (c # cs) x = (case local_value i c x of None \<Rightarrow> nearest i cs x | Some v \<Rightarrow> Some v)"

definition cluster_value :: "engine \<Rightarrow> string \<Rightarrow> rval option" where
  "cluster_value e x = fmlookup (resolved_for (cluster_variables e) DEFAULT_TENANT) x"

lemma fmlookup_overlay:
  "fmlookup (overlay_cluster_variables e m) x = (case fmlookup m x of None \<Rightarrow> cluster_value e x | Some v \<Rightarrow> Some v)"
  by (auto simp: overlay_cluster_variables_def cluster_value_def resolved_for_empty fmlookup_dom_iff split: option.splits)

lemma fmlookup_merge_scope:
  "fmlookup (merge_scope i c m) x = (case local_value i c x of None \<Rightarrow> fmlookup m x | Some v \<Rightarrow> Some v)"
  by (auto simp: merge_scope_def local_value_def fmlookup_dom_iff split: option.splits)

lemma fmlookup_merge_chain: "fmlookup (fold (merge_scope i) (rev chain) (pi_variables i)) x = nearest i chain x"
  by (induction chain) (auto simp: fmlookup_merge_scope split: option.split)

lemma scopes_orderedD:
  assumes "scopes_ordered i"
  shows "increasing (pi_scope_parents i)" "fmlookup (pi_scope_parents i) (pi_key i) = None"
    "local_value i (pi_key i) x = None" "local_value i 0 x = None" "fmlookup (pi_scope_parents i) 0 = None"
proof -
  show inc: "increasing (pi_scope_parents i)" using assms by (simp add: scopes_ordered_def)
  show "fmlookup (pi_scope_parents i) 0 = None"
    using increasingD [OF inc, of 0] by (cases "fmlookup (pi_scope_parents i) 0") auto
qed (use assms in \<open>auto simp: scopes_ordered_def local_value_def fmdom_notD\<close>)

lemma visible_lookup:
  assumes so: "scopes_ordered i" and ch: "scope_chain (pi_scope_parents i) sk = Some chain"
  shows "\<exists>vs. visible_variables e i sk = Some vs
    \<and> (\<forall>x. fmlookup vs x = (case nearest i chain x of None \<Rightarrow> cluster_value e x | Some v \<Rightarrow> Some v))"
proof (cases "sk = 0 \<or> sk = pi_key i \<or> pi_scope_variables i = fmempty")
  case True
  have "nearest i chain x = fmlookup (pi_variables i) x" for x
  proof (cases "pi_scope_variables i = fmempty")
    case True
    then show ?thesis by (induction chain) (simp_all add: local_value_def)
  next
    case False
    with \<open>sk = 0 \<or> sk = pi_key i \<or> pi_scope_variables i = fmempty\<close> ch show ?thesis
      by (auto simp: scope_chain_end scopes_orderedD [OF so])
  qed
  with True show ?thesis by (simp add: visible_variables_def fmlookup_overlay)
next
  case False
  with ch show ?thesis by (simp add: visible_variables_def fmlookup_overlay fmlookup_merge_chain)
qed

section \<open>A merge is seen where it was made\<close>

lemma scope_defining_chain:
  assumes so: "scopes_ordered i"
  shows "scope_chain (pi_scope_parents i) k = Some chain \<Longrightarrow> scope_defining i k x = Some (List.find (scope_holds i x) chain)"
proof (induction k arbitrary: chain rule: upward_induct [OF scopes_orderedD(1) [OF so]])
  case (1 k)
  then show ?case by (subst scope_defining.simps) (auto simp: scope_chain_end)
next
  case (2 k p)
  then obtain rest where "scope_chain (pi_scope_parents i) p = Some rest" "chain = k # rest"
    by (auto simp: scope_chain_up [OF scopes_orderedD(1) [OF so]])
  with 2 scopes_orderedD(2) [OF so] show ?case by (subst scope_defining.simps) auto
qed

definition destination :: "process_instance \<Rightarrow> key list \<Rightarrow> string \<Rightarrow> key" where
  "destination i chain x = (case List.find (scope_holds i x) chain of None \<Rightarrow> pi_key i | Some d \<Rightarrow> d)"

definition written :: "(key, vars) fmap \<Rightarrow> key \<Rightarrow> string \<Rightarrow> rval option" where
  "written m d x = Option.bind (fmlookup m d) (\<lambda>vs. fmlookup vs x)"

lemma written_entry_or:
  "written (entry_or d fmempty (fmupd n v) m) d' x = (if d' = d \<and> x = n then Some v else written m d' x)"
  by (auto simp: written_def split: option.splits)

lemma place_variables_spec:
  assumes "\<And>x. scope_defining i target x = Some (List.find (scope_holds i x) chain)"
  shows "\<exists>m. place_variables i target xs acc = Some m
    \<and> (\<forall>d x. written m d x = (if destination i chain x = d
          then (case map_of (rev xs) x of None \<Rightarrow> written acc d x | Some v \<Rightarrow> Some v) else written acc d x))
    \<and> fset (fmdom m) = fset (fmdom acc) \<union> destination i chain ` fst ` set xs"
proof (induction xs arbitrary: acc)
  case Nil
  then show ?case by simp
next
  case (Cons a xs)
  obtain n v where a: "a = (n, v)" by (cases a)
  obtain m where m: "place_variables i target xs (entry_or (destination i chain n) fmempty (fmupd n v) acc) = Some m"
    "\<forall>d x. written m d x = (if destination i chain x = d
        then (case map_of (rev xs) x of None \<Rightarrow> written (entry_or (destination i chain n) fmempty (fmupd n v) acc) d x
              | Some v \<Rightarrow> Some v) else written (entry_or (destination i chain n) fmempty (fmupd n v) acc) d x)"
    "fset (fmdom m) = insert (destination i chain n) (fset (fmdom acc)) \<union> destination i chain ` fst ` set xs"
    using Cons [of "entry_or (destination i chain n) fmempty (fmupd n v) acc"] by auto
  have "place_variables i target (a # xs) acc = Some m"
    using m(1) by (simp add: a assms destination_def Let_def)
  moreover have "written m d x = (if destination i chain x = d
          then (case map_of (rev (a # xs)) x of None \<Rightarrow> written acc d x | Some v \<Rightarrow> Some v) else written acc d x)" for d x
    by (auto simp: m(2) a written_entry_or map_add_def split: option.splits)
  ultimately show ?case using m(3) by (auto simp: a)
qed

definition write_instance :: "key \<Rightarrow> key \<times> vars \<Rightarrow> process_instance \<Rightarrow> process_instance" where
  "write_instance ik w i =
     (if fst w = 0 \<or> fst w = ik then i\<lparr> pi_variables := pi_variables i ++\<^sub>f snd w \<rparr>
      else i\<lparr> pi_scope_variables := entry_or (fst w) fmempty (\<lambda>m. m ++\<^sub>f snd w) (pi_scope_variables i) \<rparr>)"

lemma apply_write_event: "apply_event (write_event ik w) s = on_instance ik (write_instance ik w) s"
  by (auto simp: write_event_def case_prod_beta write_instance_def [abs_def] apply_VariablesUpdated_def
      apply_ScopedVariablesUpdated_def on_instance_def)

lemma emit_write_event:
  "emit (write_event ik w) el = emit_plain (write_event ik w) el"
  by (rule emit_simple) (simp_all add: write_event_def case_prod_beta emit_resolution_def terminal_instance_key_def)

lemma track_dirty_cluster [simp]: "cluster_variables (track_dirty ev e) = cluster_variables e"
  by (simp add: track_dirty_def split: event.split variable_event.split lifecycle_event.split)

lemma emit_write_events:
  "est (fst (fold emit (map (write_event ik) ws) el)) = fold (\<lambda>w. on_instance ik (write_instance ik w)) ws (est (fst el))
   \<and> cluster_variables (fst (fold emit (map (write_event ik) ws) el)) = cluster_variables (fst el)"
  by (induction ws arbitrary: el) (simp_all add: emit_write_event emit_plain_def apply_write_event Let_def case_prod_beta)

lemma fold_write_instance:
  "fmlookup (instances s) ik = Some i \<Longrightarrow>
   fmlookup (instances (fold (\<lambda>w. on_instance ik (write_instance ik w)) ws s)) ik = Some (fold (write_instance ik) ws i)"
  by (induction ws arbitrary: s i) (simp_all add: on_instance_def)

lemma write_instance_frame [simp]:
  "pi_key (fold (write_instance ik) ws i) = pi_key i" "pi_scopes (fold (write_instance ik) ws i) = pi_scopes i"
  "pi_scope_parents (fold (write_instance ik) ws i) = pi_scope_parents i"
  by (induction ws arbitrary: i) (simp_all add: write_instance_def)

lemma fold_write_locals:
  assumes "distinct (map fst ws)" "c \<noteq> 0" "c \<noteq> ik"
  shows "local_value (fold (write_instance ik) ws i) c x =
     (case Option.bind (map_of ws c) (\<lambda>vs. fmlookup vs x) of None \<Rightarrow> local_value i c x | Some v \<Rightarrow> Some v)"
  using assms(1)
proof (induction ws arbitrary: i)
  case (Cons w ws)
  have "local_value (write_instance ik w i) c x =
      (if fst w = c then (case fmlookup (snd w) x of None \<Rightarrow> local_value i c x | Some v \<Rightarrow> Some v) else local_value i c x)"
    using assms(2,3) by (auto simp: write_instance_def local_value_def fmlookup_dom_iff split: option.splits)
  moreover have "map_of ws c = None" if "fst w = c"
    using Cons(2) that by (auto simp: map_of_eq_None_iff)
  ultimately show ?case using Cons by (cases w) (auto split: option.splits)
qed simp

lemma fold_write_special: "c = 0 \<or> c = ik \<Longrightarrow> local_value (fold (write_instance ik) ws i) c x = local_value i c x"
  by (induction ws arbitrary: i) (auto simp: write_instance_def local_value_def)

lemma scopes_ordered_write:
  "scopes_ordered i \<Longrightarrow> pi_key i = ik \<Longrightarrow> scopes_ordered (fold (write_instance ik) ws i)"
proof (induction ws arbitrary: i)
  case (Cons w ws)
  have "scopes_ordered (write_instance ik w i)" "pi_key (write_instance ik w i) = ik"
    using Cons(2,3) by (auto simp: scopes_ordered_def write_instance_def)
  then show ?case using Cons(1) by simp
qed simp

lemma fold_write_root:
  assumes "distinct (map fst ws)" "ik = 0 \<or> 0 \<notin> fst ` set ws"
  shows "fmlookup (pi_variables (fold (write_instance ik) ws i)) x =
     (case Option.bind (map_of ws ik) (\<lambda>vs. fmlookup vs x) of None \<Rightarrow> fmlookup (pi_variables i) x | Some v \<Rightarrow> Some v)"
  using assms
proof (induction ws arbitrary: i)
  case (Cons w ws)
  have "fmlookup (pi_variables (write_instance ik w i)) x =
      (if fst w = ik then (case fmlookup (snd w) x of None \<Rightarrow> fmlookup (pi_variables i) x | Some v \<Rightarrow> Some v)
       else fmlookup (pi_variables i) x)"
    using Cons(3) by (auto simp: write_instance_def fmlookup_dom_iff split: option.splits)
  moreover have "map_of ws ik = None" if "fst w = ik"
    using Cons(2) that by (auto simp: map_of_eq_None_iff)
  ultimately show ?case using Cons by (cases w) (auto split: option.splits)
qed simp

lemma local_holds: "c \<noteq> pi_key i \<Longrightarrow> scope_holds i x c \<longleftrightarrow> local_value i c x \<noteq> None"
  by (auto simp: scope_holds_def local_value_def fmlookup_dom_iff split: option.splits)

lemma nearest_written:
  assumes new: "\<And>c. c \<noteq> 0 \<Longrightarrow> c \<noteq> pi_key i \<Longrightarrow> local_value i' c x = (if c = d then Some v else local_value i c x)"
    and root: "fmlookup (pi_variables i') x = (if d = pi_key i then Some v else fmlookup (pi_variables i) x)"
    and none: "\<And>j. j \<in> {i, i'} \<Longrightarrow> local_value j 0 x = None \<and> local_value j (pi_key i) x = None"
  shows "distinct chain \<Longrightarrow> (\<And>cs ds. chain = cs @ pi_key i # ds \<Longrightarrow> ds = []) \<Longrightarrow> d = destination i chain x \<Longrightarrow>
    nearest i' chain x = Some v"
proof (induction chain)
  case Nil
  then show ?case using root by (simp add: destination_def)
next
  case (Cons c cs)
  show ?case
  proof (cases "c = pi_key i")
    case True
    with Cons(3) [of "[]" cs] Cons(4) show ?thesis using root none by (auto simp: destination_def)
  next
    case False
    show ?thesis
    proof (cases "scope_holds i x c")
      case True
      with False have "c \<noteq> 0" using none by (auto simp: local_holds)
      with True False Cons(4) show ?thesis using new by (simp add: destination_def)
    next
      case nh: False
      then have d: "d = destination i cs x" using Cons(4) by (simp add: destination_def)
      have "d \<noteq> c"
        using d False Cons(2) by (auto simp: destination_def dest: find_Some_iff [THEN iffD1] split: option.splits)
      then have "local_value i' c x = None"
        using new [of c] none nh False by (cases "c = 0") (auto simp: local_holds)
      moreover have "nearest i' cs x = Some v"
        using Cons(1) Cons(2) Cons(3) [of "c # _"] d by (metis append_Cons distinct.simps(2))
      ultimately show ?thesis by simp
    qed
  qed
qed

lemma nearest_unwritten:
  assumes "\<And>c. local_value i' c x = local_value i c x" "fmlookup (pi_variables i') x = fmlookup (pi_variables i) x"
  shows "nearest i' chain x = nearest i chain x"
  by (induction chain) (simp_all add: assms split: option.split)

lemma keys_sorted_list_of_fmap: "map fst (sorted_list_of_fmap m) = sorted_list_of_fset (fmdom m)"
  by (simp add: sorted_list_of_fmap_def comp_def)

lemma distinct_sorted_list_of_fmap: "distinct (map fst (sorted_list_of_fmap m))"
  by (simp add: keys_sorted_list_of_fmap sorted_list_of_fset.rep_eq)

lemma dom_sorted_list_of_fmap: "fst ` set (sorted_list_of_fmap m) = fset (fmdom m)"
  by (simp add: keys_sorted_list_of_fmap sorted_list_of_fset.rep_eq flip: set_map)

lemma map_of_rev_sorted: "map_of (rev (sorted_list_of_fmap m)) = fmlookup m"
proof
  fix k
  have "map_of (rev (sorted_list_of_fmap m)) k = Some v \<longleftrightarrow> map_of (sorted_list_of_fmap m) k = Some v" for v
    using distinct_sorted_list_of_fmap [of m] by (subst (1 2) map_of_eq_Some_iff) (auto simp: rev_map [symmetric])
  then have "map_of (rev (sorted_list_of_fmap m)) k = map_of (sorted_list_of_fmap m) k"
    by (metis not_Some_eq)
  then show "map_of (rev (sorted_list_of_fmap m)) k = fmlookup m k" by simp
qed

text \<open>Where the variables of a merge go, as a map from scopes to what is written there.\<close>

lemma propagate_variables_spec:
  assumes i: "fmlookup (instances (est e)) ik = Some i" "pi_key i = ik" "scopes_ordered i"
    and ch: "scope_chain (pi_scope_parents i) (variable_scope_of i target) = Some chain"
  obtains m where "propagate_variables e ik target vs False = Some (sorted_list_of_fmap m)"
    "\<And>d x. written m d x = (if destination i chain x = d then fmlookup vs x else None)"
    "\<And>d. d |\<in>| fmdom m \<Longrightarrow> \<exists>x. x |\<in>| fmdom vs \<and> destination i chain x = d"
proof -
  consider (empty) "vs = fmempty" | (flat) "vs \<noteq> fmempty" "pi_scope_variables i = fmempty" "pi_scope_parents i = fmempty"
    | (tree) "vs \<noteq> fmempty" "\<not> (pi_scope_variables i = fmempty \<and> pi_scope_parents i = fmempty)" by blast
  then show thesis
  proof cases
    case empty
    show ?thesis
    proof (rule that [of fmempty])
      show "propagate_variables e ik target vs False = Some (sorted_list_of_fmap fmempty)"
        using empty by (simp add: propagate_variables_def sorted_list_of_fmap_def)
    qed (use empty in \<open>simp_all add: written_def\<close>)
  next
    case flat
    have "chain = [ik]" using ch flat i(2) by (auto simp: variable_scope_of_def scope_chain_end split: option.splits)
    then have d: "destination i chain x = ik" for x using i(2) by (simp add: destination_def)
    show ?thesis
    proof (rule that [of "fmupd ik vs fmempty"])
      show "propagate_variables e ik target vs False = Some (sorted_list_of_fmap (fmupd ik vs fmempty))"
        using flat i by (simp add: propagate_variables_def sorted_list_of_fmap_def Let_def sorted_list_of_fset.rep_eq)
      show "\<exists>x. x |\<in>| fmdom vs \<and> destination i chain x = d'" if "d' |\<in>| fmdom (fmupd ik vs fmempty)" for d'
        using that flat(1) d by (metis fempty_iff finsertE fmdom_empty fmdom_fmupd fmrestrict_fset_dom fmrestrict_fset_null ex_fin_conv)
    qed (simp add: written_def d)
  next
    case tree
    from place_variables_spec [of i "variable_scope_of i target" chain "sorted_list_of_fmap vs" fmempty,
        OF scope_defining_chain [OF i(3) ch]]
    obtain m where m: "place_variables i (variable_scope_of i target) (sorted_list_of_fmap vs) fmempty = Some m"
      "\<forall>d x. written m d x = (if destination i chain x = d
          then (case map_of (rev (sorted_list_of_fmap vs)) x of None \<Rightarrow> written fmempty d x | Some v \<Rightarrow> Some v)
          else written fmempty d x)"
      "fset (fmdom m) = destination i chain ` fst ` set (sorted_list_of_fmap vs)" by auto
    show ?thesis
    proof (rule that [of m])
      show "propagate_variables e ik target vs False = Some (sorted_list_of_fmap m)"
        using tree i m(1) by (auto simp: propagate_variables_def Let_def)
      show "written m d x = (if destination i chain x = d then fmlookup vs x else None)" for d x
        by (simp add: m(2) map_of_rev_sorted) (simp add: written_def split: option.split)
      show "\<exists>x. x |\<in>| fmdom vs \<and> destination i chain x = d" if "d |\<in>| fmdom m" for d
        using that m(3) by (auto simp: dom_sorted_list_of_fmap)
    qed
  qed
qed

lemma variable_scope_of_cong:
  "pi_key i' = pi_key i \<Longrightarrow> pi_scopes i' = pi_scopes i \<Longrightarrow> pi_scope_parents i' = pi_scope_parents i \<Longrightarrow>
   variable_scope_of i' k = variable_scope_of i k"
  by (simp add: variable_scope_of_def split: option.split)

lemma propagated_writes:
  assumes "propagate_variables e ik target vs False = Some (sorted_list_of_fmap m)"
    and "\<And>d. d |\<in>| fmdom m \<Longrightarrow> the (fmlookup m d) \<noteq> fmempty"
  shows "propagated_updates e ik target vs False = Some (map (write_event ik) (sorted_list_of_fmap m))"
proof -
  have "sort_key fst (sorted_list_of_fmap m) = sorted_list_of_fmap m"
    by (rule sort_key_id_if_sorted) (simp add: sorted_list_of_fmap_def comp_def sorted_list_of_fset.rep_eq)
  moreover have "filter (\<lambda>(_, vs). vs \<noteq> fmempty) (sorted_list_of_fmap m) = sorted_list_of_fmap m"
    using assms(2) by (auto simp: filter_id_conv sorted_list_of_fmap_def)
  ultimately show ?thesis using assms(1) by (simp add: propagated_updates_def)
qed

section \<open>Properties of scoped variables\<close>

text \<open>C14: in every instance whose scopes were opened before what they hold, the variables of a scope are
  defined, and a name has the value of the nearest enclosing scope that binds it, then that of the
  instance, then that of the default tenant's cluster variables, then the global one.\<close>

theorem visible_is_nearest:
  assumes "scopes_ordered i"
  shows "\<exists>chain vs. scope_chain (pi_scope_parents i) sk = Some (sk # chain) \<and> visible_variables e i sk = Some vs
     \<and> (\<forall>x. fmlookup vs x = (case nearest i (sk # chain) x of Some v \<Rightarrow> Some v | None \<Rightarrow>
          (case Option.bind (fmlookup (cv_tenants (cluster_variables e)) DEFAULT_TENANT) (\<lambda>m. fmlookup m x) of
             Some v \<Rightarrow> Some v | None \<Rightarrow> fmlookup (cv_global (cluster_variables e)) x)))"
proof -
  obtain chain where ch: "scope_chain (pi_scope_parents i) sk = Some (sk # chain)"
    using scope_chain_returns [OF scopes_orderedD(1) [OF assms]] by blast
  have "cluster_value e x =
      (case Option.bind (fmlookup (cv_tenants (cluster_variables e)) DEFAULT_TENANT) (\<lambda>m. fmlookup m x) of
         Some v \<Rightarrow> Some v | None \<Rightarrow> fmlookup (cv_global (cluster_variables e)) x)" for x
    by (auto simp: cluster_value_def resolved_for_def fmlookup_dom_iff split: option.splits)
  with visible_lookup [OF assms ch, of e] ch show ?thesis
    by (intro exI [of _ chain]) (auto split: option.split)
qed

definition nested_instance :: process_instance where
  "nested_instance = running_instance\<lparr> pi_scope_parents := fmupd 5 0 (fmupd 8 5 fmempty),
     pi_scope_variables := fmupd 5 (fmupd ''amount'' (VInt 7) fmempty) (fmupd 8 fmempty fmempty),
     pi_variables := fmupd ''amount'' (VInt 1) (fmupd ''customer'' (VStr ''ada'') fmempty) \<rparr>"

lemma nested_ordered: "scopes_ordered nested_instance" "pi_key nested_instance = 1"
  by (simp_all add: scopes_ordered_def nested_instance_def running_instance_def increasing_upd)

lemma nested_chain: "scope_chain (pi_scope_parents nested_instance) 8 = Some [8, 5, 0]"
proof -
  have inc: "increasing (pi_scope_parents nested_instance)" using nested_ordered by (simp add: scopes_ordered_def)
  have "fmlookup (pi_scope_parents nested_instance) 8 = Some 5" "fmlookup (pi_scope_parents nested_instance) 5 = Some 0"
    "fmlookup (pi_scope_parents nested_instance) 0 = None" by (simp_all add: nested_instance_def)
  then show ?thesis by (simp add: scope_chain_up [OF inc] scope_chain_end)
qed

lemma nested_nearest:
  "nearest nested_instance [8, 5, 0] x =
     (if x = ''amount'' then Some (VInt 7) else if x = ''customer'' then Some (VStr ''ada'') else None)"
  by (auto simp: local_value_def nested_instance_def running_instance_def)

theorem visible_is_nearest_witness:
  "\<exists>vs. visible_variables (engine_of state_new 0 10) nested_instance 8 = Some vs
     \<and> fmlookup vs ''amount'' = Some (VInt 7) \<and> fmlookup vs ''customer'' = Some (VStr ''ada'') \<and> fmlookup vs ''other'' = None"
proof -
  obtain chain vs where "scope_chain (pi_scope_parents nested_instance) 8 = Some (8 # chain)"
    "visible_variables (engine_of state_new 0 10) nested_instance 8 = Some vs"
    "\<forall>x. fmlookup vs x = (case nearest nested_instance (8 # chain) x of Some v \<Rightarrow> Some v | None \<Rightarrow>
       (case Option.bind (fmlookup (cv_tenants (cluster_variables (engine_of state_new 0 10))) DEFAULT_TENANT) (\<lambda>m. fmlookup m x) of
          Some v \<Rightarrow> Some v | None \<Rightarrow> fmlookup (cv_global (cluster_variables (engine_of state_new 0 10))) x))"
    using visible_is_nearest [OF nested_ordered(1), of 8 "engine_of state_new 0 10"] by blast
  moreover from this(1) have "chain = [5, 0]" by (simp add: nested_chain)
  moreover have "cluster_variables (engine_of state_new 0 10) = no_cluster_variables" by (simp add: engine_of_def)
  ultimately have "visible_variables (engine_of state_new 0 10) nested_instance 8 = Some vs"
    "fmlookup vs x = (case nearest nested_instance [8, 5, 0] x of Some v \<Rightarrow> Some v | None \<Rightarrow> None)" for x
    by (simp_all add: no_cluster_variables_def del: nearest.simps split: option.split)
  then show ?thesis by (intro exI [of _ vs]) (simp add: nested_nearest del: nearest.simps)
qed

text \<open>C15: merging variables into a scope always succeeds, and afterwards an element of the scope sees
  exactly what it saw before, overwritten by the merged variables. No name is created in an inner
  scope: a merge changes a value where it is bound or creates it in the instance.\<close>

theorem propagation_visible:
  assumes i: "fmlookup (instances (est e)) ik = Some i" "pi_key i = ik" "scopes_ordered i"
  shows "\<exists>evs old i'. propagated_updates e ik target vs False = Some evs
     \<and> variables_for_element e ik target = Some old
     \<and> variables_for_element (fst (fold emit evs (e, log))) ik target = Some (old ++\<^sub>f vs)
     \<and> fmlookup (instances (est (fst (fold emit evs (e, log))))) ik = Some i'
     \<and> (\<forall>c x. c \<noteq> ik \<longrightarrow> (local_value i' c x = None) = (local_value i c x = None))"
proof -
  let ?sk = "variable_scope_of i target"
  obtain chain where ch: "scope_chain (pi_scope_parents i) ?sk = Some chain"
    using scope_chain_returns [OF scopes_orderedD(1) [OF i(3)]] by blast
  obtain m where m: "propagate_variables e ik target vs False = Some (sorted_list_of_fmap m)"
    "\<And>d x. written m d x = (if destination i chain x = d then fmlookup vs x else None)"
    "\<And>d. d |\<in>| fmdom m \<Longrightarrow> \<exists>x. x |\<in>| fmdom vs \<and> destination i chain x = d"
    by (rule propagate_variables_spec [OF i ch, of vs]) (rule that)
  let ?ws = "sorted_list_of_fmap m"
  define i' where "i' = fold (write_instance ik) ?ws i"
  let ?e = "fst (fold emit (map (write_event ik) ?ws) (e, log))"
  have "the (fmlookup m d) \<noteq> fmempty" if "d |\<in>| fmdom m" for d
  proof -
    from m(3) [OF that] obtain x v where "destination i chain x = d" "fmlookup vs x = Some v"
      by (auto simp: fmlookup_dom_iff)
    with m(2) [of d x] have "written m d x = Some v" by simp
    then show ?thesis by (auto simp: written_def bind_eq_Some_conv)
  qed
  note evs = propagated_writes [OF m(1) this]
  note shape = scope_chain_shape [OF scopes_orderedD(1) [OF i(3)] ch]
  have distinct: "distinct chain" using shape by (auto simp: strict_sorted_iff intro: distinct_from_sorted)
  have dest0: "ik = 0 \<or> 0 \<notin> fst ` set ?ws"
  proof -
    have "destination i chain x \<noteq> 0" if "ik \<noteq> 0" for x
      using that i(2) scopes_orderedD(4) [OF i(3), of x]
      by (auto simp: destination_def local_holds dest: find_Some_iff [THEN iffD1] split: option.splits)
    then show ?thesis using m(3) by (auto simp: dom_sorted_list_of_fmap)
  qed
  have loc: "local_value i' c x = (case written m c x of None \<Rightarrow> local_value i c x | Some v \<Rightarrow> Some v)" if "c \<noteq> 0" "c \<noteq> ik" for c x
    unfolding i'_def using fold_write_locals [OF distinct_sorted_list_of_fmap that, of m i x] by (simp add: written_def)
  have root: "fmlookup (pi_variables i') x = (case written m ik x of None \<Rightarrow> fmlookup (pi_variables i) x | Some v \<Rightarrow> Some v)" for x
    unfolding i'_def using fold_write_root [OF distinct_sorted_list_of_fmap dest0, of i x] by (simp add: written_def)
  have near: "nearest i' chain x = (case fmlookup vs x of None \<Rightarrow> nearest i chain x | Some v \<Rightarrow> Some v)" for x
  proof (cases "fmlookup vs x")
    case None
    have same: "local_value i' c x = local_value i c x" for c
      using loc [of c x] fold_write_special [of c ik ?ws i x] m(2) None by (cases "c = 0 \<or> c = ik") (auto simp: i'_def)
    have "fmlookup (pi_variables i') x = fmlookup (pi_variables i) x" using root [of x] m(2) None by simp
    from nearest_unwritten [OF same this, of chain] None show ?thesis by simp
  next
    case (Some v)
    have "nearest i' chain x = Some v"
    proof (rule nearest_written [of i i' x "destination i chain x"])
      show "local_value i' c x = (if c = destination i chain x then Some v else local_value i c x)"
        if "c \<noteq> 0" "c \<noteq> pi_key i" for c using loc [of c x] that i(2) m(2) Some by auto
      show "fmlookup (pi_variables i') x = (if destination i chain x = pi_key i then Some v else fmlookup (pi_variables i) x)"
        using root [of x] i(2) m(2) Some by auto
      show "local_value j 0 x = None \<and> local_value j (pi_key i) x = None" if "j \<in> {i, i'}" for j
        using that scopes_orderedD(3,4) [OF i(3), of x] i(2) fold_write_special [of _ ik ?ws i x] by (auto simp: i'_def)
    qed (use distinct shape scopes_orderedD(2) [OF i(3)] in auto)
    with Some show ?thesis by simp
  qed
  have look: "fmlookup (instances (est ?e)) ik = Some i'" "cluster_variables ?e = cluster_variables e"
    using emit_write_events [of ik ?ws "(e, log)"] fold_write_instance [OF i(1), of ?ws] by (simp_all add: i'_def)
  have so': "scopes_ordered i'" unfolding i'_def by (rule scopes_ordered_write [OF i(3,2)])
  have ch': "scope_chain (pi_scope_parents i') ?sk = Some chain" "variable_scope_of i' target = ?sk"
    using ch by (simp_all add: i'_def cong: variable_scope_of_cong)
  obtain old new where old: "visible_variables e i ?sk = Some old"
      "\<forall>x. fmlookup old x = (case nearest i chain x of None \<Rightarrow> cluster_value e x | Some v \<Rightarrow> Some v)"
    and new: "visible_variables ?e i' ?sk = Some new"
      "\<forall>x. fmlookup new x = (case nearest i' chain x of None \<Rightarrow> cluster_value ?e x | Some v \<Rightarrow> Some v)"
    using visible_lookup [OF i(3) ch, of e] visible_lookup [OF so' ch'(1), of ?e] by blast
  have "new = old ++\<^sub>f vs"
  proof (rule fmap_ext)
    show "fmlookup new x = fmlookup (old ++\<^sub>f vs) x" for x
      using old(2) new(2) near [of x] look(2) by (auto simp: cluster_value_def fmlookup_dom_iff split: option.splits)
  qed
  moreover have "(local_value i' c x = None) = (local_value i c x = None)" if "c \<noteq> ik" for c x
  proof (cases "c = 0")
    case True
    then show ?thesis using fold_write_special [of 0 ik ?ws i x] by (simp add: i'_def)
  next
    case False
    have "local_value i c x \<noteq> None" if "destination i chain x = c"
      using that \<open>c \<noteq> ik\<close> i(2) by (auto simp: destination_def local_holds dest: find_Some_iff [THEN iffD1] split: option.splits)
    then show ?thesis using loc [OF False that, of x] m(2) by (auto split: option.splits if_splits)
  qed
  ultimately show ?thesis using evs old(1) new(1) look(1) i(1) ch'(2) by (simp add: variables_for_element_def)
qed

definition nested_engine :: engine where
  "nested_engine = engine_of (state_new\<lparr> instances := fmupd 1 nested_instance fmempty \<rparr>) 0 10"

theorem propagation_visible_witness:
  "\<exists>evs old i'. propagated_updates nested_engine 1 8 (fmupd ''amount'' (VInt 9) fmempty) False = Some evs
     \<and> variables_for_element nested_engine 1 8 = Some old
     \<and> variables_for_element (fst (fold emit evs (nested_engine, []))) 1 8 = Some (old ++\<^sub>f fmupd ''amount'' (VInt 9) fmempty)
     \<and> fmlookup (instances (est (fst (fold emit evs (nested_engine, []))))) 1 = Some i'
     \<and> (\<forall>c x. c \<noteq> 1 \<longrightarrow> (local_value i' c x = None) = (local_value nested_instance c x = None))"
  by (rule propagation_visible) (simp_all add: nested_engine_def engine_of_def nested_ordered)

section \<open>Properties of io mapping targets\<close>

fun get_io_path :: "rval \<Rightarrow> string list \<Rightarrow> rval option" where
  "get_io_path node [] = Some node"
| "get_io_path node (head # tail) =
     (case node of VMap m \<Rightarrow> Option.bind (fmlookup m head) (\<lambda>x. get_io_path x tail) | _ \<Rightarrow> None)"

lemma get_io_path_empty: "q \<noteq> [] \<Longrightarrow> get_io_path (VMap fmempty) q = None"
  by (cases q) simp_all

lemma get_io_path_map_of_value: "q \<noteq> [] \<Longrightarrow> get_io_path (VMap (map_of_value node)) q = get_io_path node q"
  by (cases q; cases node) (simp_all add: map_of_value_def)

text \<open>a mapping to a dotted target sets exactly that path: reading it back gives the value, and every
  path that neither leads to it nor runs through it reads as before.\<close>

theorem io_path_round_trip:
  "get_io_path (set_io_path node p v) p = Some v
   \<and> (\<not> prefix p q \<and> \<not> prefix q p \<longrightarrow> get_io_path (set_io_path node p v) q = get_io_path node q)"
proof (induction node p v arbitrary: q rule: set_io_path.induct)
  case (1 node v)
  then show ?case by simp
next
  case (2 node head tail v)
  let ?entry = "case fmlookup (map_of_value node) head of None \<Rightarrow> VMap fmempty | Some x \<Rightarrow> x"
  note IH = 2 [OF refl refl]
  have "get_io_path (set_io_path node (head # tail) v) q = get_io_path node q"
    if "\<not> prefix (head # tail) q" "\<not> prefix q (head # tail)"
  proof (cases q)
    case (Cons h t)
    have *: "get_io_path (VMap (map_of_value node)) q = get_io_path node q"
      by (rule get_io_path_map_of_value) (simp add: Cons)
    show ?thesis
    proof (cases "h = head")
      case True
      with that Cons have "\<not> prefix tail t" "\<not> prefix t tail" by auto
      with IH [of t] have "get_io_path (set_io_path ?entry tail v) t = get_io_path ?entry t" by blast
      moreover have "t \<noteq> []" using \<open>\<not> prefix t tail\<close> by auto
      ultimately show ?thesis
        using * Cons True get_io_path_empty [of t] by (simp add: Let_def split: option.splits)
    next
      case False
      then show ?thesis using * Cons by (simp add: Let_def)
    qed
  qed (use that in simp)
  then show ?case using IH by (simp add: Let_def)
qed

theorem io_path_round_trip_witness:
  "get_io_path (set_io_path (VMap (fmupd ''total'' (VInt 1) fmempty)) [''customer'', ''name''] (VStr ''ada'')) [''customer'', ''name''] = Some (VStr ''ada'')
   \<and> get_io_path (set_io_path (VMap (fmupd ''total'' (VInt 1) fmempty)) [''customer'', ''name''] (VStr ''ada'')) [''total''] = Some (VInt 1)"
  using io_path_round_trip [of "VMap (fmupd ''total'' (VInt 1) fmempty)" "[''customer'', ''name'']" "VStr ''ada''" "[''total'']"]
  by simp

end
