(* ===== verification/Expressions.thy ===== *)
theory Expressions
  imports Variables Temporal
begin

text \<open>
  Attributes that may be literals or FEEL expressions (\<open>engine-core/src/engine/resolve.rs\<close>): names,
  correlation keys, retries, priorities, user-task attributes and io mappings. The FEEL evaluator is a
  parameter: every definition takes the evaluation functions of \<open>engine-core/src/feel/mod.rs\<close> as an
  argument, and every theorem holds for all of them.
\<close>

section \<open>The evaluator\<close>

text \<open>\<open>eval\<close>, \<open>eval_string\<close> and \<open>referenced_variables\<close>, where an error carries its message, and the instant
  of a date and time in nanoseconds (\<open>engine-core/src/feel/temporal.rs\<close>); and the derived \<open>Debug\<close> rendering of a
  value, which occurs only inside a message.\<close>

record feel =
  feel_eval :: "string \<Rightarrow> vars \<Rightarrow> string + rval"
  feel_eval_string :: "string \<Rightarrow> vars \<Rightarrow> string + string"
  feel_eval_bool :: "string \<Rightarrow> vars \<Rightarrow> string + bool"
  referenced_variables :: "string \<Rightarrow> string fset"
  datetime_nanos :: "string \<Rightarrow> int option"
  debug_value :: "rval \<Rightarrow> string"

text \<open>An evaluator that rejects every expression.\<close>

definition literal_feel :: feel where
  "literal_feel = \<lparr> feel_eval = (\<lambda>_ _. Inl ''unsupported''), feel_eval_string = (\<lambda>_ _. Inl ''unsupported''),
     feel_eval_bool = (\<lambda>_ _. Inl ''unsupported''), referenced_variables = (\<lambda>_. {||}), datetime_nanos = (\<lambda>_. None), debug_value = (\<lambda>_. []) \<rparr>"

section \<open>Numbers\<close>

definition number_as_i32 :: "string + rval \<Rightarrow> int option" where
  "number_as_i32 r = (case r of
     Inr (VInt i) \<Rightarrow> Some (i64_as_i32 i) | Inr (VDouble d) \<Rightarrow> Some (f64_as_i32 d) | _ \<Rightarrow> None)"

section \<open>Attributes\<close>

definition resolve_correlation_value_checked :: "feel \<Rightarrow> vars \<Rightarrow> string \<Rightarrow> string + string" where
  "resolve_correlation_value_checked F vs correlation_key =
     (if trim correlation_key = [] then Inr []
      else case feel_eval_string F correlation_key vs of
        Inr s \<Rightarrow> Inr s
      | Inl err \<Rightarrow> Inl (''failed to evaluate correlation key expression '' @ [CHR 39] @ correlation_key @ [CHR 39] @ '': '' @ err))"

definition resolve_correlation_value :: "feel \<Rightarrow> vars \<Rightarrow> string \<Rightarrow> string" where
  "resolve_correlation_value F vs correlation_key =
     (case resolve_correlation_value_checked F vs correlation_key of Inr s \<Rightarrow> s | Inl _ \<Rightarrow> [])"

definition resolve_event_name :: "feel \<Rightarrow> vars \<Rightarrow> string \<Rightarrow> string" where
  "resolve_event_name F vs raw =
     (if \<not> is_expression (trim raw) then raw
      else case feel_eval_string F (trim raw) vs of Inr s \<Rightarrow> s | Inl _ \<Rightarrow> raw)"

definition resolve_job_type :: "feel \<Rightarrow> vars \<Rightarrow> string \<Rightarrow> string" where
  "resolve_job_type F vs job_type =
     (if \<not> is_expression (trim job_type) then job_type
      else case feel_eval_string F (trim job_type) vs of Inr s \<Rightarrow> s | Inl _ \<Rightarrow> job_type)"

definition literal_or_number :: "feel \<Rightarrow> vars \<Rightarrow> string \<Rightarrow> int option" where
  "literal_or_number F vs raw =
     (let trimmed = trim raw
      in if is_expression trimmed then number_as_i32 (feel_eval F (drop 1 trimmed) vs) else parse_i32 trimmed)"

definition resolve_retries :: "feel \<Rightarrow> vars \<Rightarrow> string option \<Rightarrow> int" where
  "resolve_retries F vs raw = (case raw of
     None \<Rightarrow> DEFAULT_JOB_RETRIES
   | Some r \<Rightarrow> (case literal_or_number F vs r of None \<Rightarrow> DEFAULT_JOB_RETRIES | Some v \<Rightarrow> max v 0))"

definition resolve_priority :: "feel \<Rightarrow> vars \<Rightarrow> string option \<Rightarrow> int" where
  "resolve_priority F vs raw = (case raw of
     None \<Rightarrow> 50
   | Some r \<Rightarrow> (case literal_or_number F vs r of None \<Rightarrow> 50 | Some v \<Rightarrow> max 0 (min 100 v)))"

definition resolve_user_task_string :: "feel \<Rightarrow> vars \<Rightarrow> string option \<Rightarrow> string option" where
  "resolve_user_task_string F vs raw = (case raw of
     None \<Rightarrow> None
   | Some r \<Rightarrow>
       (if \<not> is_expression (trim r) then Some r
        else case feel_eval_string F (trim r) vs of Inr s \<Rightarrow> Some s | Inl _ \<Rightarrow> None))"

definition split_list :: "string \<Rightarrow> string list" where
  "split_list s = filter (\<lambda>p. p \<noteq> []) (map trim (split_on CHR '','' s))"

definition resolve_user_task_list :: "feel \<Rightarrow> vars \<Rightarrow> string option \<Rightarrow> string list" where
  "resolve_user_task_list F vs raw = (case raw of
     None \<Rightarrow> []
   | Some r \<Rightarrow>
       (if \<not> is_expression (trim r) then split_list r
        else case feel_eval F (trim r) vs of
          Inr (VList items) \<Rightarrow> filter (\<lambda>s. s \<noteq> [])
            (List.map_filter (\<lambda>v. case v of VStr s \<Rightarrow> Some s | VInt i \<Rightarrow> Some (int_string i) | _ \<Rightarrow> None) items)
        | Inr (VStr s) \<Rightarrow> split_list s
        | _ \<Rightarrow> []))"

section \<open>Timers\<close>

text \<open>When a timer is due, and the interval that re-arms it.\<close>

definition resolve_timer :: "feel \<Rightarrow> vars \<Rightarrow> timer_def option \<Rightarrow> u64 \<Rightarrow> u64 \<Rightarrow> u64 \<times> u64" where
  "resolve_timer F vs def base_now fallback_millis =
     (let default = (saturating_add base_now fallback_millis, fallback_millis)
      in case def of
           None \<Rightarrow> default
         | Some d \<Rightarrow>
             (case (if is_expression (trim_start (td_expr d))
                    then (case feel_eval_string F (td_expr d) vs of Inr s \<Rightarrow> Some s | Inl _ \<Rightarrow> None)
                    else Some (td_expr d)) of
                None \<Rightarrow> default
              | Some raw \<Rightarrow>
                  (let txt = trim raw
                   in case td_kind d of
                        TimerDuration \<Rightarrow> (case parse_duration_millis txt of
                            Some ms \<Rightarrow> (saturating_add base_now ms, ms) | None \<Rightarrow> default)
                      | TimerCycle \<Rightarrow> (case parse_cycle_millis txt of
                            Some ms \<Rightarrow> (saturating_add base_now ms, ms) | None \<Rightarrow> default)
                      | TimerDate \<Rightarrow> (case datetime_nanos F txt of
                            Some n \<Rightarrow> (word_of_int (max 0 (n div NANOS_PER_MILLI)), 0) | None \<Rightarrow> default))))"

text \<open>A timer that is not bound to a date is never due before the time it is armed at.\<close>

lemma resolve_timer_not_past:
  "(\<forall>d. def = Some d \<longrightarrow> td_kind d \<noteq> TimerDate) \<Longrightarrow> base_now \<le> fst (resolve_timer F vs def base_now fallback)"
  by (cases def)
    (auto simp: resolve_timer_def Let_def split: option.split sum.split timer_def_kind.split timer_def_kind.splits)

section \<open>Io mappings\<close>

definition eval_io_mapping_source :: "feel \<Rightarrow> string \<Rightarrow> vars \<Rightarrow> string + rval" where
  "eval_io_mapping_source F source vs =
     (if is_expression (trim_start source) then feel_eval F (trim source) vs else Inr (VStr source))"

definition io_mapping_failure :: "mapping \<Rightarrow> string \<Rightarrow> string" where
  "io_mapping_failure m err =
     ''failed to evaluate io mapping source '' @ [CHR 39] @ trim (mp_source m) @ [CHR 39] @ '' for target ''
       @ [CHR 39] @ mp_target m @ [CHR 39] @ '': '' @ err"

fun eval_io_mappings_from :: "feel \<Rightarrow> vars \<Rightarrow> string fset \<Rightarrow> mapping list \<Rightarrow> vars \<Rightarrow> string + vars" where
  "eval_io_mappings_from F vs tolerated [] result = Inr result"
| "eval_io_mappings_from F vs tolerated (m # ms) result =
     (case eval_io_mapping_source F (mp_source m) vs of
        Inr v \<Rightarrow> eval_io_mappings_from F vs tolerated ms (assign_io_target vs (mp_target m) v result)
      | Inl err \<Rightarrow>
          (if referenced_variables F (trim (mp_source m)) |\<inter>| tolerated \<noteq> {||}
           then eval_io_mappings_from F vs tolerated ms result
           else Inl (io_mapping_failure m err)))"

definition eval_io_mappings_in :: "feel \<Rightarrow> vars \<Rightarrow> mapping list \<Rightarrow> string + vars" where
  "eval_io_mappings_in F vs ms = eval_io_mappings_from F vs {||} ms fmempty"

definition eval_io_mappings_tolerating :: "feel \<Rightarrow> vars \<Rightarrow> mapping list \<Rightarrow> string fset \<Rightarrow> string + vars" where
  "eval_io_mappings_tolerating F vs ms tolerated = eval_io_mappings_from F vs tolerated ms fmempty"

section \<open>Properties of resolved attributes\<close>

lemma literal_or_number_range: "literal_or_number F vs raw = Some v \<Longrightarrow> i32_min \<le> v \<and> v \<le> i32_max"
proof -
  have "i32_min \<le> i64_as_i32 i \<and> i64_as_i32 i \<le> i32_max" for i
    using pos_mod_bound [of "2 ^ 32" "i + 2 ^ 31"] pos_mod_sign [of "2 ^ 32" "i + 2 ^ 31"]
    by (simp add: i64_as_i32_def i32_min_def i32_max_def)
  moreover have "i32_min \<le> f64_as_i32 d \<and> f64_as_i32 d \<le> i32_max" for d
    by (simp add: f64_as_i32_def clamp_i32_def i32_min_def i32_max_def split: option.split)
  moreover have "i32_min \<le> n \<and> n \<le> i32_max" if "parse_i32 s = Some n" for s n
    using that by (auto simp: parse_i32_def parse_int_def Let_def split: prod.splits if_splits option.splits)
  ultimately show "literal_or_number F vs raw = Some v \<Longrightarrow> i32_min \<le> v \<and> v \<le> i32_max"
    by (auto simp: literal_or_number_def number_as_i32_def Let_def split: if_splits sum.splits rval.splits)
qed

text \<open>whatever the attribute says and the evaluator answers (an overflowing number, NaN, an error, a
  value of another type), a resolved priority lies between 0 and 100 and a resolved retry count is a
  non-negative 32-bit integer.\<close>

theorem resolved_numbers_bounded:
  "0 \<le> resolve_priority F vs raw \<and> resolve_priority F vs raw \<le> 100
   \<and> 0 \<le> resolve_retries F vs raw \<and> resolve_retries F vs raw \<le> i32_max"
proof -
  have "0 \<le> DEFAULT_JOB_RETRIES" "DEFAULT_JOB_RETRIES \<le> i32_max"
    by (simp_all add: DEFAULT_JOB_RETRIES_def i32_max_def)
  moreover have "max v 0 \<le> i32_max" if "literal_or_number F vs r = Some v" for r v
    using literal_or_number_range [OF that] by (simp add: i32_max_def)
  ultimately show ?thesis
    by (auto simp: resolve_priority_def resolve_retries_def split: option.split)
qed

text \<open>A resolved user-task attribute can begin with the expression marker: an expression whose value is
  a string that begins with it is stored as it is.\<close>

theorem user_task_string_may_begin_with_marker:
  assumes "is_expression (trim r)" "feel_eval_string F (trim r) vs = Inr (''='' @ s)"
  shows "resolve_user_task_string F vs (Some r) = Some (''='' @ s)"
  using assms by (simp add: resolve_user_task_string_def)

end
