(* ===== verification/Joins.thy ===== *)
theory Joins
  imports Jobs
begin

text \<open>
  Sequence flows and synchronising joins, \<open>engine/mod.rs\<close>: the work-queue steps, taking a flow,
  the activation guard of parallel and inclusive joins with the breadth-first search behind the
  inclusive one, and the whole activation of a parallel join. The \<open>expect\<close> of \<open>take_flow\<close> is the
  value \<open>None\<close>. Process elements are visited in ascending id order where the source iterates over a
  hash map; the search is proved equal to reachability, so the order does not matter.
\<close>

section \<open>Steps\<close>

datatype step =
    SActivate key elementid key "incoming_flow option"
  | SComplete key key elementid
  | SCompleteAdHocCallActivityTool key key elementid key key vars
  | SCreateJob key key elementid
  | SReopenCatch key key elementid
  | SRetryActivation key key elementid
  | SActivateMiChild key elementid key nat
  | SCompleteMiBody key key
  | SActivateAdHocTool key key elementid vars
  | SCompleteAdHoc key key bool
  | SAdvanceListener key key elementid listener_event_type nat key
  | SAdvanceTaskListener key task_listener_event_type nat
  | SCompleteCallActivity key key elementid vars
  | SRetryMiChildActivation key elementid key key nat
  | SRetryMiBodyActivation key elementid key key
  | SRetryCallActivitySpawn key key elementid "vars option"

datatype join_kind = JoinParallel | JoinInclusive

section \<open>Queries on the instance's definition\<close>

definition outgoing :: "engine \<Rightarrow> key \<Rightarrow> elementid \<Rightarrow> sequence_flow list" where
  "outgoing e ik eid = (case Option.bind (process_of_instance e ik) (\<lambda>p. pd_element p eid) of
     None \<Rightarrow> [] | Some el \<Rightarrow> e_outgoing el)"

definition engine_incoming_count :: "engine \<Rightarrow> key \<Rightarrow> elementid \<Rightarrow> nat" where
  "engine_incoming_count e ik eid = (case process_of_instance e ik of None \<Rightarrow> 0 | Some p \<Rightarrow> incoming_count p eid)"

definition scope_of :: "engine \<Rightarrow> key \<Rightarrow> key \<Rightarrow> key" where
  "scope_of e ik eik =
     (case Option.bind (fmlookup (instances (est e)) ik) (\<lambda>i. fmlookup (pi_scopes i) eik) of None \<Rightarrow> 0 | Some s \<Rightarrow> s)"

definition join_eik :: "engine \<Rightarrow> key \<Rightarrow> elementid \<Rightarrow> key option" where
  "join_eik e ik eid = Option.bind (fmlookup (instances (est e)) ik) (\<lambda>i. fmlookup (pi_join_instances i) eid)"

definition join_arrivals :: "engine \<Rightarrow> key \<Rightarrow> elementid \<Rightarrow> flow_arrivals" where
  "join_arrivals e ik eid =
     (case Option.bind (fmlookup (instances (est e)) ik) (\<lambda>i. fmlookup (pi_join_flow_arrivals i) eid) of
        None \<Rightarrow> [] | Some a \<Rightarrow> a)"

definition unidentified_arrivals :: "engine \<Rightarrow> key \<Rightarrow> elementid \<Rightarrow> nat" where
  "unidentified_arrivals e ik eid =
     (case Option.bind (fmlookup (instances (est e)) ik) (\<lambda>i. fmlookup (pi_join_counts i) eid) of
        None \<Rightarrow> 0 | Some n \<Rightarrow> n)"

definition join_kind_of :: "engine \<Rightarrow> key \<Rightarrow> elementid \<Rightarrow> join_kind option" where
  "join_kind_of e ik eid =
     (case Option.bind (process_of_instance e ik) (\<lambda>p. pd_element p eid) of
        None \<Rightarrow> None
      | Some el \<Rightarrow>
          (case (case e_kind el of EK_ParallelGateway \<Rightarrow> Some JoinParallel | EK_InclusiveGateway \<Rightarrow> Some JoinInclusive | _ \<Rightarrow> None) of
             None \<Rightarrow> None
           | Some join \<Rightarrow> if 1 < engine_incoming_count e ik eid then Some join else None))"

section \<open>Taking flows\<close>

definition take_flow :: "engine \<Rightarrow> key \<Rightarrow> elementid \<Rightarrow> nat \<Rightarrow> key \<Rightarrow> (event list \<times> step) option" where
  "take_flow e ik from index scope =
     (case Option.bind (process_of_instance e ik) (\<lambda>p. pd_incoming_flow p from index) of
        None \<Rightarrow> None
      | Some (to, flow) \<Rightarrow>
          Some (EElement (SequenceFlowTaken ik from to) #
                  (if join_kind_of e ik to \<noteq> None then [EElement (ParallelJoinTokenArrived ik to (Some flow))] else []),
                SActivate ik to scope (Some flow)))"

definition take_all_flows :: "engine \<Rightarrow> key \<Rightarrow> elementid \<Rightarrow> key \<Rightarrow> (event list \<times> step) list option" where
  "take_all_flows e ik from scope =
     those (map (\<lambda>index. take_flow e ik from index scope) [0..<length (outgoing e ik from)])"

section \<open>Can a live token still reach the join?\<close>

definition link_catches :: "process_definition \<Rightarrow> string \<Rightarrow> elementid option \<Rightarrow> elementid list" where
  "link_catches p link_name parent =
     map e_id (filter (\<lambda>el. e_kind el = EK_LinkIntermediateCatchEvent link_name \<and> e_parent el = parent)
       (map snd (sorted_list_of_fmap (pd_elements p))))"

definition untaken_targets :: "process_definition \<Rightarrow> elementid \<Rightarrow> flow_arrivals \<Rightarrow> elementid \<Rightarrow> element \<Rightarrow> elementid list" where
  "untaken_targets p join taken node el =
     map (\<lambda>(index, flow). sf_to flow)
       (filter (\<lambda>(index, flow). \<not> (sf_to flow = join
            \<and> (case pd_incoming_flow p node index of None \<Rightarrow> False | Some (_, incoming) \<Rightarrow> 0 < fa_count taken incoming)))
         (enumerate 0 (e_outgoing el)))"

definition boundary_events :: "process_definition \<Rightarrow> elementid \<Rightarrow> elementid list" where
  "boundary_events p node =
     map e_id (filter (\<lambda>el. attached_to (e_kind el) = Some node) (map snd (sorted_list_of_fmap (pd_elements p))))"

definition next_nodes :: "process_definition \<Rightarrow> elementid \<Rightarrow> flow_arrivals \<Rightarrow> elementid \<Rightarrow> elementid list" where
  "next_nodes p join taken node = (case pd_element p node of
     None \<Rightarrow> []
   | Some el \<Rightarrow> (case e_kind el of
       EK_LinkIntermediateThrowEvent link_name \<Rightarrow> link_catches p link_name (e_parent el)
     | _ \<Rightarrow> untaken_targets p join taken node el @ boundary_events p node))"

function search :: "process_definition \<Rightarrow> elementid \<Rightarrow> flow_arrivals \<Rightarrow> elementid fset \<Rightarrow> elementid list \<Rightarrow> bool" where
  "search p join taken visited [] = False"
| "search p join taken visited (node # to_visit) =
     (if node = join then True
      else if node |\<in>| visited then search p join taken visited to_visit
      else search p join taken (finsert node visited) (to_visit @ next_nodes p join taken node))"
  by pat_completeness auto

lemma next_nodes_outside: "node |\<notin>| fmdom (pd_elements p) \<Longrightarrow> next_nodes p join taken node = []"
  by (simp add: next_nodes_def pd_element_def fmdom_notD)

termination search
proof (relation "measures [\<lambda>(p, join, taken, visited, q). fcard (fmdom (pd_elements p) |-| visited), \<lambda>(p, join, taken, visited, q). length q]",
    goal_cases)
  case (3 p join taken visited node to_visit)
  show ?case
  proof (cases "node |\<in>| fmdom (pd_elements p)")
    case True
    with 3 have "fmdom (pd_elements p) |-| finsert node visited |\<subset>| fmdom (pd_elements p) |-| visited" by auto
    then have "fcard (fmdom (pd_elements p) |-| finsert node visited) < fcard (fmdom (pd_elements p) |-| visited)"
      by (rule pfsubset_fcard_mono)
    then show ?thesis by simp
  next
    case False
    then have "fmdom (pd_elements p) |-| finsert node visited = fmdom (pd_elements p) |-| visited" by auto
    with False show ?thesis by (simp add: next_nodes_outside)
  qed
qed simp_all

definition path_reaches_join :: "process_definition \<Rightarrow> elementid \<Rightarrow> elementid \<Rightarrow> flow_arrivals \<Rightarrow> bool" where
  "path_reaches_join p source join taken = search p join taken {||} [source]"

definition in_transit :: "key \<Rightarrow> elementid \<Rightarrow> key \<Rightarrow> step \<Rightarrow> elementid option" where
  "in_transit ik join scope st = (case st of
     SActivate k eid sc (Some _) \<Rightarrow> if k = ik \<and> sc = scope \<and> eid \<noteq> join then Some eid else None
   | _ \<Rightarrow> None)"

definition has_active_path_to :: "engine \<Rightarrow> key \<Rightarrow> elementid \<Rightarrow> key \<Rightarrow> flow_arrivals \<Rightarrow> step list \<Rightarrow> bool" where
  "has_active_path_to e ik join scope taken pending =
     (case process_of_instance e ik of
        None \<Rightarrow> False
      | Some p \<Rightarrow> (case fmlookup (instances (est e)) ik of
          None \<Rightarrow> False
        | Some i \<Rightarrow>
            list_ex (\<lambda>source. path_reaches_join p source join taken)
              (map snd (filter (\<lambda>(eik, eid). eid \<noteq> join \<and> scope_of e ik eik = scope) (sorted_list_of_fmap (pi_active i)))
               @ List.map_filter (in_transit ik join scope) pending)))"

section \<open>Activating a join\<close>

definition open_join :: "key \<Rightarrow> elementid \<Rightarrow> key \<Rightarrow> engine \<Rightarrow> event list \<times> engine" where
  "open_join ik eid scope e =
     (let (eik, e1) = mint_key e
      in ([EElement (ElementActivating ik eik eid), EElement (ElementActivated ik eik eid scope),
           EElement (ParallelJoinOpened ik eik eid)], e1))"

definition fire_join :: "key \<Rightarrow> elementid \<Rightarrow> key \<Rightarrow> flow_arrivals \<Rightarrow> engine \<Rightarrow> event list \<times> engine" where
  "fire_join ik eid scope arrivals e =
     (let rest = consume_one_each arrivals;
          (opened, e1) = (if fa_is_empty rest then ([], e) else open_join ik eid scope e)
      in (EElement (ParallelJoinFired ik eid) # opened, e1))"

definition fire_open_inclusive_join :: "key \<Rightarrow> key \<Rightarrow> elementid \<Rightarrow> key \<Rightarrow> engine \<Rightarrow> event list \<times> engine" where
  "fire_open_inclusive_join ik eik eid scope e =
     (if join_eik e ik eid = Some eik then fire_join ik eid scope (join_arrivals e ik eid) e else ([], e))"

text \<open>The guard of \<open>activate_join\<close>, for both kinds; \<open>unidentified\<close> already counts an activation that
  did not come over a flow.\<close>

definition join_accepted :: "engine \<Rightarrow> key \<Rightarrow> elementid \<Rightarrow> key \<Rightarrow> nat \<Rightarrow> join_kind \<Rightarrow> step list \<Rightarrow> bool" where
  "join_accepted e ik eid scope unidentified join pending =
     (let arrivals = join_arrivals e ik eid;
          taken = distinct_flows arrivals + unidentified;
          all_taken = (engine_incoming_count e ik eid \<le> taken)
      in case join of
           JoinParallel \<Rightarrow> all_taken
         | JoinInclusive \<Rightarrow> all_taken \<or> (0 < taken \<and> \<not> has_active_path_to e ik eid scope arrivals pending))"

text \<open>\<open>activate_join\<close> for a parallel join: the events and follow-up steps the work loop then emits and
  enqueues.\<close>

definition activate_parallel_join ::
  "key \<Rightarrow> elementid \<Rightarrow> key \<Rightarrow> incoming_flow option \<Rightarrow> step list \<Rightarrow> engine \<Rightarrow> ((event list \<times> step list) \<times> engine) option" where
  "activate_parallel_join ik eid scope via pending e =
     (let counted = (if via = None then [EElement (ParallelJoinTokenArrived ik eid None)] else []);
          unidentified = unidentified_arrivals e ik eid + length counted;
          arrivals = join_arrivals e ik eid;
          taken = distinct_flows arrivals + unidentified;
          open_key = join_eik e ik eid
      in if \<not> join_accepted e ik eid scope unidentified JoinParallel pending
         then (if 0 < taken \<and> open_key = None
               then (let (opened, e1) = open_join ik eid scope e in Some ((counted @ opened, []), e1))
               else Some ((counted, []), e))
         else
           (let (eik, fresh, e1) = (case open_key of
                    Some k \<Rightarrow> (k, [], e)
                  | None \<Rightarrow> (let (k, e') = mint_key e
                             in (k, [EElement (ElementActivating ik k eid), EElement (ElementActivated ik k eid scope)], e')));
                (fired, e2) = fire_join ik eid scope arrivals e1
            in case take_all_flows e2 ik eid scope of
                 None \<Rightarrow> None
               | Some flows \<Rightarrow>
                   Some ((counted @ fresh @ fired
                          @ [EElement (ElementCompleting ik eik eid), EElement (ElementCompleted ik eik eid)]
                          @ concat (map fst flows), map snd flows), e2)))"

section \<open>The search decides reachability\<close>

definition path_edge :: "process_definition \<Rightarrow> elementid \<Rightarrow> flow_arrivals \<Rightarrow> (elementid \<times> elementid) set" where
  "path_edge p join taken = {(a, b). b \<in> set (next_nodes p join taken a)}"

lemma path_edge_iff: "(a, b) \<in> path_edge p join taken \<longleftrightarrow> b \<in> set (next_nodes p join taken a)"
  by (simp add: path_edge_def)

lemma search_sound:
  "search p join taken visited q \<Longrightarrow> \<exists>n \<in> set q. (n, join) \<in> (path_edge p join taken)\<^sup>*"
proof (induction p join taken visited q rule: search.induct)
  case (2 p join taken visited node to_visit)
  consider "node = join" | "node \<noteq> join" "node |\<in>| visited" | "node \<noteq> join" "node |\<notin>| visited" by blast
  then show ?case
  proof cases
    case 2
    with "2.IH"(1) "2.prems" show ?thesis by auto
  next
    case 3
    with "2.IH"(2) "2.prems" obtain n where
      "n \<in> set to_visit \<or> (node, n) \<in> path_edge p join taken" "(n, join) \<in> (path_edge p join taken)\<^sup>*"
      by (auto simp: path_edge_iff)
    then show ?thesis by (auto intro: converse_rtrancl_into_rtrancl)
  qed simp
qed simp

lemma rtrancl_closed:
  assumes "(n, m) \<in> R\<^sup>*" "n \<in> S" "\<And>a b. a \<in> S \<Longrightarrow> (a, b) \<in> R \<Longrightarrow> b \<in> S"
  shows "m \<in> S"
  using assms by (induction rule: rtrancl_induct) auto

lemma search_complete:
  assumes "(n, join) \<in> (path_edge p join taken)\<^sup>*" "n |\<in>| visited \<or> n \<in> set q"
    and "join |\<notin>| visited"
    and "\<And>v b. v |\<in>| visited \<Longrightarrow> (v, b) \<in> path_edge p join taken \<Longrightarrow> b |\<in>| visited \<or> b \<in> set q"
  shows "search p join taken visited q"
  using assms
proof (induction p join taken visited q rule: search.induct)
  case (1 p join taken visited)
  have "join \<in> fset visited" by (rule rtrancl_closed [OF "1.prems"(1)]) (use "1.prems" in auto)
  with "1.prems"(3) show ?case by simp
next
  case (2 p join taken visited node to_visit)
  consider "node = join" | "node \<noteq> join" "node |\<in>| visited" | "node \<noteq> join" "node |\<notin>| visited" by blast
  then show ?case
  proof cases
    case 2
    have "search p join taken visited to_visit"
      by (rule "2.IH"(1)) (use 2 "2.prems" in fastforce)+
    with 2 show ?thesis by simp
  next
    case 3
    have "search p join taken (finsert node visited) (to_visit @ next_nodes p join taken node)"
      by (rule "2.IH"(2)) (use 3 "2.prems" in \<open>fastforce simp: path_edge_iff\<close>)+
    with 3 show ?thesis by simp
  qed simp
qed

lemma path_reaches_join_iff:
  "path_reaches_join p source join taken \<longleftrightarrow> (source, join) \<in> (path_edge p join taken)\<^sup>*"
  unfolding path_reaches_join_def
  using search_sound [of p join taken "{||}" "[source]"] search_complete [of source join p taken "{||}" "[source]"]
  by auto

section \<open>The parallel guard\<close>

lemma finite_incoming_flows: "finite {f. has_incoming_flow p to f}"
  by (simp add: incoming_flow_set)

lemma all_flows_taken:
  assumes "fa_inv a" "\<forall>f \<in> fst ` set a. has_incoming_flow p eid f"
  shows "incoming_count p eid \<le> distinct_flows a \<longleftrightarrow> (\<forall>f. has_incoming_flow p eid f \<longrightarrow> 0 < fa_count a f)"
proof -
  let ?F = "{f. has_incoming_flow p eid f}" and ?S = "fst ` set a"
  have sub: "?S \<subseteq> ?F" using assms(2) by blast
  have len: "distinct_flows a = card ?S"
    using fa_inv_distinct [OF assms(1)] by (metis distinct_card distinct_flows_def length_map list.set_map)
  have "incoming_count p eid \<le> distinct_flows a \<longleftrightarrow> card ?F \<le> card ?S" by (simp add: len card_incoming_flows)
  also have "\<dots> \<longleftrightarrow> ?F = ?S" using sub finite_incoming_flows card_subset_eq card_mono
    by (metis card_seteq order_refl)
  also have "\<dots> \<longleftrightarrow> (\<forall>f. has_incoming_flow p eid f \<longrightarrow> 0 < fa_count a f)"
    using sub by (auto simp: fa_count_counts [OF assms(1)] counts_pos_iff [OF assms(1)])
  finally show ?thesis .
qed

section \<open>Taking flows always succeeds\<close>

lemma take_flow_some:
  assumes "index < length (outgoing e ik from)"
  shows "\<exists>flow. take_flow e ik from index scope =
     Some (EElement (SequenceFlowTaken ik from (sf_to (outgoing e ik from ! index))) #
             (if join_kind_of e ik (sf_to (outgoing e ik from ! index)) \<noteq> None
              then [EElement (ParallelJoinTokenArrived ik (sf_to (outgoing e ik from ! index)) (Some flow))] else []),
           SActivate ik (sf_to (outgoing e ik from ! index)) scope (Some flow))"
proof -
  obtain p el where p: "process_of_instance e ik = Some p" "pd_element p from = Some el" "outgoing e ik from = e_outgoing el"
    using assms by (cases "process_of_instance e ik"; cases "pd_element (the (process_of_instance e ik)) from")
      (auto simp: outgoing_def)
  with assms show ?thesis by (auto simp: take_flow_def pd_incoming_flow_def Let_def)
qed

lemma those_map_some: "(\<And>x. x \<in> set xs \<Longrightarrow> f x = Some (g x)) \<Longrightarrow> those (map f xs) = Some (map g xs)"
  by (induction xs) auto

lemma take_all_flows_some:
  "take_all_flows e ik from scope =
     Some (map (\<lambda>index. the (take_flow e ik from index scope)) [0..<length (outgoing e ik from)])"
  unfolding take_all_flows_def
proof (rule those_map_some)
  fix index
  assume "index \<in> set [0..<length (outgoing e ik from)]"
  then have "index < length (outgoing e ik from)" by simp
  from take_flow_some [OF this, of scope] show "take_flow e ik from index scope = Some (the (take_flow e ik from index scope))"
    by auto
qed

section \<open>What a join activation does to the join\<close>

text \<open>The bookkeeping of one join: tokens per flow, unidentified tokens, the open join instance.\<close>

type_synonym join_book = "flow_arrivals option \<times> nat option \<times> key option"

definition book :: "elementid \<Rightarrow> process_instance \<Rightarrow> join_book" where
  "book eid i = (fmlookup (pi_join_flow_arrivals i) eid, fmlookup (pi_join_counts i) eid, fmlookup (pi_join_instances i) eid)"

definition join_view :: "key \<Rightarrow> elementid \<Rightarrow> state \<Rightarrow> join_book option" where
  "join_view ik eid s = map_option (book eid) (fmlookup (instances s) ik)"

definition settle_arrivals :: "flow_arrivals option \<Rightarrow> flow_arrivals option" where
  "settle_arrivals a = (case a of None \<Rightarrow> None | Some xs \<Rightarrow> if consume_one_each xs = [] then None else Some (consume_one_each xs))"

lemma join_view_on_instance:
  "join_view ik eid (on_instance ik' f s) =
     (if ik = ik' then map_option (\<lambda>i. book eid (f i)) (fmlookup (instances s) ik) else join_view ik eid s)"
  by (simp add: join_view_def on_instance_def option.map_comp comp_def)

lemma join_view_keep:
  "(\<And>i. book eid (f i) = book eid i) \<Longrightarrow> join_view ik eid (on_instance ik' f s) = join_view ik eid s"
  by (simp add: join_view_on_instance) (simp add: join_view_def)

lemma join_view_change:
  "(\<And>i. book eid (f i) = g (book eid i)) \<Longrightarrow> join_view ik eid (on_instance ik f s) = map_option g (join_view ik eid s)"
  by (simp add: join_view_on_instance) (simp add: join_view_def option.map_comp comp_def)

lemma book_consume: "fmlookup (consume_arrivals eid m) eid = settle_arrivals (fmlookup m eid)"
  by (auto simp: consume_arrivals_def settle_arrivals_def Let_def fa_is_empty_def split: option.split)

lemma join_view_event [simp]:
  "join_view ik eid (apply_ElementActivated ik' eik eid' scope s) = join_view ik eid s"
  "join_view ik eid (apply_ElementCompleted ik' eik s) = join_view ik eid s"
  "eid' \<noteq> eid \<Longrightarrow> join_view ik eid (apply_ParallelJoinTokenArrived ik' eid' (Some f) s) = join_view ik eid s"
  by (simp_all add: element_arm_defs join_view_keep book_def)

lemma join_view_opened [simp]:
  "join_view ik eid (apply_ParallelJoinOpened ik eik eid s) =
     map_option (\<lambda>(a, n, k). (a, n, Some eik)) (join_view ik eid s)"
  unfolding apply_ParallelJoinOpened_def by (rule join_view_change) (simp add: book_def)

lemma join_view_unidentified [simp]:
  "join_view ik eid (apply_ParallelJoinTokenArrived ik eid None s) =
     map_option (\<lambda>(a, n, k). (a, Some (Suc (case n of None \<Rightarrow> 0 | Some m \<Rightarrow> m)), k)) (join_view ik eid s)"
  unfolding apply_ParallelJoinTokenArrived_def option.case by (rule join_view_change) (simp add: book_def)

lemma join_view_fired [simp]:
  "join_view ik eid (apply_ParallelJoinFired ik eid s) =
     map_option (\<lambda>(a, n, k). (settle_arrivals a, None, None)) (join_view ik eid s)"
  unfolding apply_ParallelJoinFired_def by (rule join_view_change) (simp add: book_def book_consume)

lemma join_queries_view:
  "join_arrivals e ik eid = (case join_view ik eid (est e) of Some (Some a, _, _) \<Rightarrow> a | _ \<Rightarrow> [])"
  "unidentified_arrivals e ik eid = (case join_view ik eid (est e) of Some (_, Some n, _) \<Rightarrow> n | _ \<Rightarrow> 0)"
  "join_eik e ik eid = (case join_view ik eid (est e) of Some (_, _, k) \<Rightarrow> k | _ \<Rightarrow> None)"
  by (auto simp: join_arrivals_def unidentified_arrivals_def join_eik_def join_view_def book_def split: option.splits)

definition element_events :: "event list \<Rightarrow> bool" where
  "element_events evs \<longleftrightarrow> (\<forall>ev \<in> set evs. case ev of EElement _ \<Rightarrow> True | _ \<Rightarrow> False)"

lemma emit_element: "emit (EElement ee) (e, log) = (e\<lparr> est := apply_element ee (est e) \<rparr>, log @ [EElement ee])"
  by (simp add: emit_simple emit_resolution_def terminal_instance_key_def emit_plain_def track_dirty_def Let_def)

lemma emit_element_events:
  "element_events evs \<Longrightarrow> est (fst (fold emit evs (e, log))) = fold apply_event evs (est e)"
proof (induction evs arbitrary: e log)
  case (Cons ev evs)
  then obtain ee where "ev = EElement ee" by (cases ev) (auto simp: element_events_def)
  with Cons show ?case by (simp add: emit_element element_events_def)
qed simp

lemma flow_events_view:
  assumes "\<forall>f \<in> set (outgoing e ik from). sf_to f \<noteq> eid"
  shows "join_view ik eid (fold apply_event (concat (map fst (the (take_all_flows e ik from scope)))) s) = join_view ik eid s"
    and "element_events (concat (map fst (the (take_all_flows e ik from scope))))"
proof -
  have one: "join_view ik eid (fold apply_event (fst (the (take_flow e ik from index scope))) t) = join_view ik eid t
      \<and> element_events (fst (the (take_flow e ik from index scope)))" if idx: "index < length (outgoing e ik from)" for index t
  proof -
    have "outgoing e ik from ! index \<in> set (outgoing e ik from)" using idx by simp
    with assms have ne: "sf_to (outgoing e ik from ! index) \<noteq> eid" by blast
    from take_flow_some [OF idx, of scope] ne show ?thesis by (auto simp: element_events_def)
  qed
  have "join_view ik eid (fold apply_event (concat (map (\<lambda>i. fst (the (take_flow e ik from i scope))) is)) t) = join_view ik eid t
      \<and> element_events (concat (map (\<lambda>i. fst (the (take_flow e ik from i scope))) is))"
    if "set is \<subseteq> {..< length (outgoing e ik from)}" for "is" t
    using that
  proof (induction "is" arbitrary: t)
    case (Cons i "is")
    with one [of i t] show ?case by (simp add: element_events_def ball_Un)
  qed (simp add: element_events_def)
  from this [of "[0..<length (outgoing e ik from)]" s]
  show "join_view ik eid (fold apply_event (concat (map fst (the (take_all_flows e ik from scope)))) s) = join_view ik eid s"
      "element_events (concat (map fst (the (take_all_flows e ik from scope))))"
    by (simp_all add: take_all_flows_some comp_def atLeast0LessThan [symmetric])
qed

lemma mint_frame [simp]: "est (snd (mint_key e)) = est e"
  by (simp add: mint_key_def Let_def)

lemma outgoing_cong: "est e' = est e \<Longrightarrow> outgoing e' ik eid = outgoing e ik eid"
  by (simp add: outgoing_def process_of_instance_def)

lemma fire_join_frame [simp]: "est (snd (fire_join ik eid scope a e)) = est e"
  by (simp add: fire_join_def open_join_def Let_def case_prod_beta)

lemma fire_join_events:
  "element_events (fst (fire_join ik eid scope a e))"
  "join_view ik eid (fold apply_event (fst (fire_join ik eid scope a e)) s) =
     map_option (\<lambda>(b, n, k). (settle_arrivals b, None, if consume_one_each a = [] then None else Some (fst (mint_key e))))
       (join_view ik eid s)"
  by (auto simp: fire_join_def open_join_def Let_def case_prod_beta element_events_def fa_is_empty_def option.map_comp comp_def
      intro!: option.map_cong)

lemma activate_accepted:
  assumes act: "activate_parallel_join ik eid scope via pending e = Some ((evs, steps), e')"
    and acc: "join_accepted e ik eid scope (unidentified_arrivals e ik eid + (if via = None then 1 else 0)) JoinParallel pending"
    and loops: "\<forall>f \<in> set (outgoing e ik eid). sf_to f \<noteq> eid"
  shows "element_events evs" "est e' = est e"
    "\<exists>k. join_view ik eid (fold apply_event evs (est e)) = map_option (\<lambda>(b, n, _). (settle_arrivals b, None,
       if consume_one_each (join_arrivals e ik eid) = [] then None else Some k)) (join_view ik eid (est e))"
    "steps = map snd (the (take_all_flows e' ik eid scope))"
proof -
  let ?c = "if via = None then [EElement (ParallelJoinTokenArrived ik eid None)] else []"
  obtain eik fresh e1 where pick: "(case join_eik e ik eid of Some k \<Rightarrow> (k, [], e)
      | None \<Rightarrow> (let (k, e') = mint_key e in
          (k, [EElement (ElementActivating ik k eid), EElement (ElementActivated ik k eid scope)], e'))) = (eik, fresh, e1)"
    by (rule prod_cases3)
  have e1: "est e1 = est e" "element_events fresh" "join_view ik eid (fold apply_event fresh s) = join_view ik eid s" for s
    using pick by (auto simp: case_prod_beta Let_def element_events_def split: option.splits)
  obtain fired e2 where fire: "fire_join ik eid scope (join_arrivals e ik eid) e1 = (fired, e2)" by fastforce
  have e2: "est e2 = est e" using fire_join_frame [of ik eid scope "join_arrivals e ik eid" e1] fire e1 by simp
  let ?fl = "the (take_all_flows e2 ik eid scope)"
  have acc': "join_accepted e ik eid scope (unidentified_arrivals e ik eid + length ?c) JoinParallel pending"
    using acc by (cases via) simp_all
  have eq: "activate_parallel_join ik eid scope via pending e =
      Some ((?c @ fresh @ fired @ [EElement (ElementCompleting ik eik eid), EElement (ElementCompleted ik eik eid)]
        @ concat (map fst ?fl), map snd ?fl), e2)"
    unfolding activate_parallel_join_def Let_def
    by (simp add: acc' pick [unfolded Let_def] fire take_all_flows_some split del: if_split)
  have res: "evs = ?c @ fresh @ fired @ [EElement (ElementCompleting ik eik eid), EElement (ElementCompleted ik eik eid)]
      @ concat (map fst ?fl)" "steps = map snd ?fl" "e' = e2"
    using act unfolding eq by (auto split del: if_split)
  have "\<forall>f \<in> set (outgoing e2 ik eid). sf_to f \<noteq> eid" using loops outgoing_cong [OF e2] by simp
  note flows = flow_events_view [OF this, of scope]
  note fj = fire_join_events [of ik eid scope "join_arrivals e ik eid" e1, unfolded fire fst_conv]
  show "element_events evs" using e1(2) fj(1) flows(2) by (auto simp: res(1) element_events_def)
  show "est e' = est e" by (simp add: res(3) e2)
  show "steps = map snd (the (take_all_flows e' ik eid scope))" by (simp add: res)
  show "\<exists>k. join_view ik eid (fold apply_event evs (est e)) = map_option (\<lambda>(b, n, _). (settle_arrivals b, None,
       if consume_one_each (join_arrivals e ik eid) = [] then None else Some k)) (join_view ik eid (est e))"
    by (rule exI [of _ "fst (mint_key e1)"])
      (cases "join_view ik eid (est e)", auto simp: res(1) flows(1) fj(2) e1(3))
qed

lemma activate_rejected:
  assumes "\<not> join_accepted e ik eid scope (unidentified_arrivals e ik eid + (if via = None then 1 else 0)) JoinParallel pending"
  shows "\<exists>evs e'. activate_parallel_join ik eid scope via pending e = Some ((evs, []), e') \<and> element_events evs \<and> est e' = est e
    \<and> (\<exists>k. join_view ik eid (fold apply_event evs (est e)) =
         map_option (\<lambda>(b, n, open). (b, if via = None then Some (Suc (case n of None \<Rightarrow> 0 | Some m \<Rightarrow> m)) else n,
           if open = None \<and> 0 < distinct_flows (join_arrivals e ik eid) + unidentified_arrivals e ik eid + (if via = None then 1 else 0)
           then Some k else open)) (join_view ik eid (est e)))"
proof -
  let ?c = "if via = None then [EElement (ParallelJoinTokenArrived ik eid None)] else []"
  let ?taken = "distinct_flows (join_arrivals e ik eid) + (unidentified_arrivals e ik eid + length ?c)"
  have rej: "\<not> join_accepted e ik eid scope (unidentified_arrivals e ik eid + length ?c) JoinParallel pending"
    using assms by (cases via) simp_all
  let ?opens = "0 < ?taken \<and> join_eik e ik eid = None"
  let ?evs = "if ?opens then ?c @ fst (open_join ik eid scope e) else ?c"
  let ?e' = "if ?opens then snd (open_join ik eid scope e) else e"
  have "activate_parallel_join ik eid scope via pending e = Some ((?evs, []), ?e')"
    unfolding activate_parallel_join_def Let_def case_prod_beta
    by (cases ?opens) (simp_all only: rej not_False_eq_True if_True if_P if_not_P)
  moreover have "element_events ?evs" by (auto simp: element_events_def open_join_def case_prod_beta Let_def)
  moreover have "est ?e' = est e" by (auto simp: open_join_def case_prod_beta Let_def)
  moreover have "join_view ik eid (fold apply_event ?evs (est e)) =
         map_option (\<lambda>(b, n, open). (b, if via = None then Some (Suc (case n of None \<Rightarrow> 0 | Some m \<Rightarrow> m)) else n,
           if open = None \<and> 0 < distinct_flows (join_arrivals e ik eid) + unidentified_arrivals e ik eid + (if via = None then 1 else 0)
           then Some (fst (mint_key e)) else open)) (join_view ik eid (est e))"
    by (cases via; cases "join_view ik eid (est e)")
      (auto simp: open_join_def case_prod_beta Let_def join_queries_view(3))
  ultimately show ?thesis by blast
qed

section \<open>Properties of joins\<close>

lemma activate_total: "activate_parallel_join ik eid scope via pending e \<noteq> None"
  by (simp add: activate_parallel_join_def Let_def case_prod_beta take_all_flows_some split: option.split)

lemma all_flow_steps:
  "map (\<lambda>st. case st of SActivate k el sc (Some _) \<Rightarrow> Some (k, el, sc) | _ \<Rightarrow> None)
     (map snd (the (take_all_flows e ik from scope))) = map (\<lambda>f. Some (ik, sf_to f, scope)) (outgoing e ik from)"
proof (rule nth_equalityI)
  fix i
  assume "i < length (map (\<lambda>st. case st of SActivate k el sc (Some _) \<Rightarrow> Some (k, el, sc) | _ \<Rightarrow> None)
     (map snd (the (take_all_flows e ik from scope))))"
  then have i: "i < length (outgoing e ik from)" by (simp add: take_all_flows_some)
  from take_flow_some [OF i, of scope] i show "map (\<lambda>st. case st of SActivate k el sc (Some _) \<Rightarrow> Some (k, el, sc) | _ \<Rightarrow> None)
     (map snd (the (take_all_flows e ik from scope))) ! i = map (\<lambda>f. Some (ik, sf_to f, scope)) (outgoing e ik from) ! i"
    by (auto simp: take_all_flows_some)
qed (simp add: take_all_flows_some)


text \<open>when every token at a parallel join came over one of its incoming flows, the join is accepted
  exactly when every incoming flow has delivered at least one.\<close>

theorem parallel_join_guard:
  assumes "process_of_instance e ik = Some p" "fa_inv (join_arrivals e ik eid)"
    and "\<forall>f \<in> fst ` set (join_arrivals e ik eid). has_incoming_flow p eid f"
  shows "join_accepted e ik eid scope 0 JoinParallel pending \<longleftrightarrow>
     (\<forall>f. has_incoming_flow p eid f \<longrightarrow> 0 < fa_count (join_arrivals e ik eid) f)"
  using all_flows_taken [OF assms(2,3)] by (simp add: join_accepted_def Let_def engine_incoming_count_def assms(1))

definition gateway :: "elementid \<Rightarrow> element_kind \<Rightarrow> elementid list \<Rightarrow> element" where
  "gateway i kind targets = \<lparr> e_id = i, e_kind = kind, e_name = None,
     e_outgoing = map (\<lambda>t. \<lparr> sf_to = t, sf_condition = None, sf_is_default = False \<rparr>) targets, e_parent = None,
     e_io = \<lparr> io_inputs = [], io_outputs = [] \<rparr>, e_timer = None, e_retries = None, e_multi_instance = None,
     e_start_listeners = [], e_end_listeners = [], e_task_listeners = [] \<rparr>"

definition fork_join :: process_definition where
  "fork_join = \<lparr> pd_id = ''order'', pd_name = None,
     pd_elements = fmap_of_list [(''fork'', gateway ''fork'' EK_ParallelGateway [''join'', ''join'']),
       (''join'', gateway ''join'' EK_ParallelGateway [''done'']), (''done'', gateway ''done'' EK_EndEvent [])],
     pd_start_event = ''fork'', pd_xml = [], pd_adhoc = [], pd_start_form_id = None \<rparr>"

definition join_engine :: "flow_arrivals \<Rightarrow> engine" where
  "join_engine a = engine_of (state_new\<lparr> processes := fmupd ''order'' \<lparr> dp_key = 9, dp_version = 1, dp_definition = fork_join \<rparr> fmempty,
     instances := fmupd 1 (running_instance\<lparr> pi_join_flow_arrivals := fmupd ''join'' a fmempty \<rparr>) fmempty \<rparr>) 0 10"

definition both_arrived :: flow_arrivals where
  "both_arrived = [(IncomingFlow ''fork'' 0, 1), (IncomingFlow ''fork'' 1, 2)]"

lemma join_engine_process: "process_of_instance (join_engine a) 1 = Some fork_join"
  by (simp add: process_of_instance_def join_engine_def engine_of_def definition_for_def or_else_def running_instance_def)

lemma join_engine_arrivals: "join_arrivals (join_engine a) 1 ''join'' = a"
  by (simp add: join_arrivals_def join_engine_def engine_of_def running_instance_def)

lemma both_arrived_inv: "fa_inv both_arrived"
  by (simp add: fa_inv_def both_arrived_def less_incoming_flow_def)

lemma fork_flows: "has_incoming_flow fork_join ''join'' f \<longleftrightarrow> if_from f = ''fork'' \<and> if_ordinal f < 2"
  by (cases f) (auto simp: has_incoming_flow_def pd_element_def fork_join_def gateway_def flows_to_def split: if_splits option.splits)

theorem parallel_join_guard_witness:
  "join_accepted (join_engine both_arrived) 1 ''join'' 0 0 JoinParallel [] \<longleftrightarrow>
     (\<forall>f. has_incoming_flow fork_join ''join'' f \<longrightarrow> 0 < fa_count (join_arrivals (join_engine both_arrived) 1 ''join'') f)"
  by (rule parallel_join_guard [OF join_engine_process])
    (simp_all add: join_engine_arrivals both_arrived_inv, simp add: both_arrived_def fork_flows)

text \<open>C28: an inclusive join is accepted when every incoming flow has delivered a token, and otherwise
  exactly when some token waits and no element that is active in the join's scope, and no activation
  still queued for it, can reach the join.\<close>

theorem inclusive_join_guard:
  assumes "process_of_instance e ik = Some p" "fmlookup (instances (est e)) ik = Some i"
  shows "join_accepted e ik eid scope u JoinInclusive pending \<longleftrightarrow>
     incoming_count p eid \<le> distinct_flows (join_arrivals e ik eid) + u
     \<or> (0 < distinct_flows (join_arrivals e ik eid) + u
        \<and> (\<forall>eik el. fmlookup (pi_active i) eik = Some el \<and> el \<noteq> eid \<and> scope_of e ik eik = scope \<longrightarrow>
             (el, eid) \<notin> (path_edge p eid (join_arrivals e ik eid))\<^sup>*)
        \<and> (\<forall>el flow. SActivate ik el scope (Some flow) \<in> set pending \<and> el \<noteq> eid \<longrightarrow>
             (el, eid) \<notin> (path_edge p eid (join_arrivals e ik eid))\<^sup>*))"
proof -
  let ?R = "(path_edge p eid (join_arrivals e ik eid))\<^sup>*"
  have transit: "in_transit ik eid scope st = Some el \<longleftrightarrow> (\<exists>flow. st = SActivate ik el scope (Some flow)) \<and> el \<noteq> eid" for st el
    by (auto simp: in_transit_def split: step.splits option.splits if_splits)
  have queued: "el \<in> set (List.map_filter (in_transit ik eid scope) pending) \<longleftrightarrow>
      (\<exists>flow. SActivate ik el scope (Some flow) \<in> set pending) \<and> el \<noteq> eid" for el
  proof -
    have "el \<in> set (List.map_filter (in_transit ik eid scope) pending) \<longleftrightarrow> (\<exists>st \<in> set pending. in_transit ik eid scope st = Some el)"
      by (induct pending) (auto simp: List.map_filter_simps split: option.splits)
    then show ?thesis unfolding transit by blast
  qed
  have active: "el \<in> set (map snd (filter (\<lambda>(eik, x). x \<noteq> eid \<and> scope_of e ik eik = scope) (sorted_list_of_fmap (pi_active i)))) \<longleftrightarrow>
      (\<exists>eik. fmlookup (pi_active i) eik = Some el \<and> el \<noteq> eid \<and> scope_of e ik eik = scope)" for el
    by (force simp: sorted_list_of_fmap_def fmlookup_dom_iff)
  have "has_active_path_to e ik eid scope (join_arrivals e ik eid) pending \<longleftrightarrow>
      (\<exists>el. (el \<in> set (map snd (filter (\<lambda>(eik, x). x \<noteq> eid \<and> scope_of e ik eik = scope) (sorted_list_of_fmap (pi_active i))))
         \<or> el \<in> set (List.map_filter (in_transit ik eid scope) pending)) \<and> (el, eid) \<in> ?R)"
    by (auto simp: has_active_path_to_def assms list_ex_iff path_reaches_join_iff)
  then show ?thesis unfolding active queued
    by (auto simp: join_accepted_def Let_def engine_incoming_count_def assms(1))
qed

theorem inclusive_join_guard_witness:
  "join_accepted (join_engine both_arrived) 1 ''join'' 0 0 JoinInclusive [] \<longleftrightarrow>
     incoming_count fork_join ''join'' \<le> distinct_flows (join_arrivals (join_engine both_arrived) 1 ''join'') + 0
     \<or> (0 < distinct_flows (join_arrivals (join_engine both_arrived) 1 ''join'') + 0
        \<and> (\<forall>eik el. fmlookup (pi_active (running_instance\<lparr> pi_join_flow_arrivals := fmupd ''join'' both_arrived fmempty \<rparr>)) eik = Some el
             \<and> el \<noteq> ''join'' \<and> scope_of (join_engine both_arrived) 1 eik = 0 \<longrightarrow>
             (el, ''join'') \<notin> (path_edge fork_join ''join'' (join_arrivals (join_engine both_arrived) 1 ''join''))\<^sup>*)
        \<and> (\<forall>el flow. SActivate 1 el 0 (Some flow) \<in> set [] \<and> el \<noteq> ''join'' \<longrightarrow>
             (el, ''join'') \<notin> (path_edge fork_join ''join'' (join_arrivals (join_engine both_arrived) 1 ''join''))\<^sup>*))"
  by (rule inclusive_join_guard [OF join_engine_process]) (simp add: join_engine_def engine_of_def)

text \<open>C27: an accepted parallel join never panics; emitting its events consumes one token of every flow,
  clears the unidentified tokens, keeps the surplus on a reopened join instance exactly when there is
  one, and continues with one activation per outgoing flow, in order. (The join has no flow into
  itself.)\<close>

theorem parallel_join_fires:
  assumes "join_accepted e ik eid scope (unidentified_arrivals e ik eid + (if via = None then 1 else 0)) JoinParallel pending"
    and "\<forall>f \<in> set (outgoing e ik eid). sf_to f \<noteq> eid" "ik |\<in>| fmdom (instances (est e))"
  shows "\<exists>evs steps e'. activate_parallel_join ik eid scope via pending e = Some ((evs, steps), e')
     \<and> join_arrivals (fst (fold emit evs (e', log))) ik eid = consume_one_each (join_arrivals e ik eid)
     \<and> unidentified_arrivals (fst (fold emit evs (e', log))) ik eid = 0
     \<and> (join_eik (fst (fold emit evs (e', log))) ik eid \<noteq> None \<longleftrightarrow> consume_one_each (join_arrivals e ik eid) \<noteq> [])
     \<and> map (\<lambda>st. case st of SActivate k el sc (Some _) \<Rightarrow> Some (k, el, sc) | _ \<Rightarrow> None) steps
         = map (\<lambda>f. Some (ik, sf_to f, scope)) (outgoing e ik eid)"
proof -
  obtain evs steps e' where act: "activate_parallel_join ik eid scope via pending e = Some ((evs, steps), e')"
    using activate_total [of ik eid scope via pending e] by auto
  note a = activate_accepted [OF act assms(1,2)]
  obtain a0 n0 k0 where v: "join_view ik eid (est e) = Some (a0, n0, k0)"
    using assms(3) by (auto simp: join_view_def book_def fmlookup_dom_iff)
  let ?e = "fst (fold emit evs (e', log))"
  have "est ?e = fold apply_event evs (est e)" using emit_element_events [OF a(1), of e' log] a(2) by simp
  then obtain k where v': "join_view ik eid (est ?e) =
      Some (settle_arrivals a0, None, if consume_one_each (join_arrivals e ik eid) = [] then None else Some k)"
    using a(3) v by auto
  have "join_arrivals e ik eid = (case a0 of None \<Rightarrow> [] | Some xs \<Rightarrow> xs)" by (simp add: join_queries_view(1) v split: option.split)
  then have "join_arrivals ?e ik eid = consume_one_each (join_arrivals e ik eid)"
    by (simp add: join_queries_view(1) v' settle_arrivals_def consume_one_each_def split: option.split)
  moreover have "map (\<lambda>st. case st of SActivate k el sc (Some _) \<Rightarrow> Some (k, el, sc) | _ \<Rightarrow> None) steps
         = map (\<lambda>f. Some (ik, sf_to f, scope)) (outgoing e ik eid)"
    unfolding a(4) using all_flow_steps [of e' ik eid scope] outgoing_cong [OF a(2)] by simp
  ultimately show ?thesis using act v' by (intro exI [of _ evs] exI [of _ steps] exI [of _ e']) (simp add: join_queries_view(2,3))
qed

theorem parallel_join_fires_witness:
  "\<exists>evs steps e'. activate_parallel_join 1 ''join'' 0 (Some (IncomingFlow ''fork'' 1)) [] (join_engine both_arrived) = Some ((evs, steps), e')
     \<and> join_arrivals (fst (fold emit evs (e', []))) 1 ''join'' = [(IncomingFlow ''fork'' 1, 1)]
     \<and> map (\<lambda>st. case st of SActivate k el sc (Some _) \<Rightarrow> Some (k, el, sc) | _ \<Rightarrow> None) steps = [Some (1, ''done'', 0)]"
proof -
  have out: "outgoing (join_engine both_arrived) 1 ''join'' = [\<lparr> sf_to = ''done'', sf_condition = None, sf_is_default = False \<rparr>]"
    by (simp add: outgoing_def join_engine_process pd_element_def fork_join_def gateway_def)
  have live: "1 |\<in>| fmdom (instances (est (join_engine both_arrived)))" by (simp add: join_engine_def engine_of_def)
  have un: "unidentified_arrivals (join_engine both_arrived) 1 ''join'' = 0"
    by (simp add: unidentified_arrivals_def join_engine_def engine_of_def running_instance_def)
  have inc: "incoming_count fork_join ''join'' = 2"
    by code_simp
  have acc: "join_accepted (join_engine both_arrived) 1 ''join'' 0
      (unidentified_arrivals (join_engine both_arrived) 1 ''join'' + (if Some (IncomingFlow ''fork'' 1) = None then 1 else 0)) JoinParallel []"
    by (simp add: join_accepted_def Let_def engine_incoming_count_def join_engine_process join_engine_arrivals un inc distinct_flows_def both_arrived_def)
  have "consume_one_each both_arrived = [(IncomingFlow ''fork'' 1, 1)]"
    by (simp add: consume_one_each_def both_arrived_def)
  then show ?thesis
    using parallel_join_fires [OF acc _ live, of "[]"] by (auto simp: out join_engine_arrivals)
qed

end
