(* ===== verification/Boundary.thy ===== *)
theory Boundary
  imports Joins Variables
begin

text \<open>
  Boundary events and the teardown of scopes (\<open>engine-core/src/engine/boundary.rs\<close>), with the discarding
  of whole instances (\<open>engine-core/src/engine/mod.rs\<close>) they build on. The functions that return events
  and those that emit them are kept apart as in the source. A hash map is read in key order; the
  source sorts what it collects, except where it takes the only match.
\<close>

section \<open>The entities resting on an element instance\<close>

definition sorted_values :: "('v \<Rightarrow> key) \<Rightarrow> ('v \<Rightarrow> bool) \<Rightarrow> (key, 'v) fmap \<Rightarrow> 'v list" where
  "sorted_values key P m = sort_key key (filter P (map snd (sorted_list_of_fmap m)))"

definition cancel_timer :: "timer \<Rightarrow> event" where
  "cancel_timer t = ETimer (TimerCanceled (tm_key t) (tm_instance_key t) (tm_element_instance_key t) (tm_element_id t))"

definition cancel_signal :: "signal_subscription \<Rightarrow> event" where
  "cancel_signal s = ESignal (SignalSubscriptionCanceled (ss_key s) (ss_instance_key s) (ss_element_instance_key s) (ss_element_id s))"

definition cancel_conditional :: "conditional_subscription \<Rightarrow> event" where
  "cancel_conditional s =
     ESignal (ConditionalSubscriptionCanceled (cd_key s) (cd_instance_key s) (cd_element_instance_key s) (cd_element_id s))"

definition cancel_user_task :: "user_task \<Rightarrow> event" where
  "cancel_user_task t = EUserTask (UserTaskCanceled (ut_key t) (ut_instance_key t))"

definition resolve_incident :: "engine \<Rightarrow> key \<Rightarrow> incident \<Rightarrow> event" where
  "resolve_incident e ik i = EIncident (IncidentResolved (inc_key i) ik (inc_job_key i) (now e) None)"

definition disarm_subscription_event :: "message_subscription \<Rightarrow> event" where
  "disarm_subscription_event s =
     (if ms_state s = SubOpening
      then EMessage (MessageSubscriptionClosing (ms_key s) (ms_instance_key s) (ms_element_instance_key s) (ms_element_id s)
             (ms_message_name s) (ms_correlation_key s))
      else EMessage (MessageSubscriptionCanceled (ms_key s) (ms_instance_key s) (ms_element_instance_key s) (ms_element_id s)))"

definition is_boundary_timer :: "timer_kind \<Rightarrow> bool" where
  "is_boundary_timer k = (case k of TimerInterruptingBoundary _ \<Rightarrow> True | TimerNonInterruptingBoundary _ \<Rightarrow> True | _ \<Rightarrow> False)"

definition is_boundary_subscription :: "message_subscription_kind \<Rightarrow> bool" where
  "is_boundary_subscription k = (case k of SubInterruptingBoundary _ \<Rightarrow> True | SubNonInterruptingBoundary _ \<Rightarrow> True | _ \<Rightarrow> False)"

definition cancel_created_user_tasks_on :: "engine \<Rightarrow> key \<Rightarrow> event list" where
  "cancel_created_user_tasks_on e eik =
     map cancel_user_task (sorted_values ut_key (\<lambda>t. ut_element_instance_key t = eik \<and> ut_state t = UTCreated) (user_tasks (est e)))"

definition resolve_incidents_on :: "engine \<Rightarrow> key \<Rightarrow> key \<Rightarrow> event list" where
  "resolve_incidents_on e ik eik = map (resolve_incident e ik) (sorted_values inc_key
     (\<lambda>i. inc_instance_key i = ik \<and> inc_element_instance_key i = eik \<and> inc_state i = IncActive) (incidents (est e)))"

definition cancel_all_timers_on :: "engine \<Rightarrow> key \<Rightarrow> event list" where
  "cancel_all_timers_on e eik =
     map cancel_timer (sorted_values tm_key (\<lambda>t. tm_element_instance_key t = eik \<and> tm_state t = TMCreated) (timers (est e)))"

definition cancel_all_subscriptions_on :: "engine \<Rightarrow> key \<Rightarrow> event list" where
  "cancel_all_subscriptions_on e eik = map disarm_subscription_event (sorted_values ms_key
     (\<lambda>s. ms_element_instance_key s = eik \<and> ms_state s \<in> {SubOpen, SubOpening}) (message_subscriptions (est e)))"

definition cancel_all_signal_subscriptions_on :: "engine \<Rightarrow> key \<Rightarrow> event list" where
  "cancel_all_signal_subscriptions_on e eik = map cancel_signal (sorted_values ss_key
     (\<lambda>s. ss_element_instance_key s = eik \<and> ss_state s = SubOpen) (signal_subscriptions (est e)))"

definition cancel_all_conditional_subscriptions_on :: "engine \<Rightarrow> key \<Rightarrow> event list" where
  "cancel_all_conditional_subscriptions_on e eik = map cancel_conditional (sorted_values cd_key
     (\<lambda>s. cd_element_instance_key s = eik \<and> cd_state s = SubOpen) (conditional_subscriptions (est e)))"

definition cancel_boundary_timers_on :: "engine \<Rightarrow> key \<Rightarrow> event list" where
  "cancel_boundary_timers_on e eik = map cancel_timer (sorted_values tm_key
     (\<lambda>t. tm_element_instance_key t = eik \<and> tm_state t = TMCreated \<and> is_boundary_timer (tm_kind t)) (timers (est e)))"

definition cancel_boundary_message_subscriptions_on :: "engine \<Rightarrow> key \<Rightarrow> event list" where
  "cancel_boundary_message_subscriptions_on e eik = map disarm_subscription_event (sorted_values ms_key
     (\<lambda>s. ms_element_instance_key s = eik \<and> ms_state s \<in> {SubOpen, SubOpening} \<and> is_boundary_subscription (ms_kind s))
     (message_subscriptions (est e)))"

definition cancel_boundary_signal_subscriptions_on :: "engine \<Rightarrow> key \<Rightarrow> event list" where
  "cancel_boundary_signal_subscriptions_on e eik = map cancel_signal (sorted_values ss_key
     (\<lambda>s. ss_element_instance_key s = eik \<and> ss_state s = SubOpen \<and> is_boundary_subscription (ss_kind s))
     (signal_subscriptions (est e)))"

definition cancel_boundary_conditional_subscriptions_on :: "engine \<Rightarrow> key \<Rightarrow> event list" where
  "cancel_boundary_conditional_subscriptions_on e eik = map cancel_conditional (sorted_values cd_key
     (\<lambda>s. cd_element_instance_key s = eik \<and> cd_state s = SubOpen \<and> is_boundary_subscription (cd_kind s))
     (conditional_subscriptions (est e)))"

text \<open>At most one job is in play on an element instance; the first in key order stands for it.\<close>

definition active_job_on :: "engine \<Rightarrow> key \<Rightarrow> key option" where
  "active_job_on e eik = map_option jb_key
     (List.find (\<lambda>j. jb_element_instance_key j = eik \<and> jb_state j \<notin> {JCompleted, JErrored, JCanceled})
       (map snd (sorted_list_of_fmap (jobs (est e)))))"

definition element_id_of_instance :: "engine \<Rightarrow> key \<Rightarrow> key \<Rightarrow> elementid option" where
  "element_id_of_instance e ik eik = Option.bind (fmlookup (instances (est e)) ik) (\<lambda>i. fmlookup (pi_active i) eik)"

definition min_key :: "key list \<Rightarrow> key option" where
  "min_key ks = (case sort ks of [] \<Rightarrow> None | k # _ \<Rightarrow> Some k)"

definition call_activity_child_of :: "engine \<Rightarrow> key \<Rightarrow> key option" where
  "call_activity_child_of e call_eik = min_key (map pi_key (filter
     (\<lambda>i. pi_state i \<in> {PIActive, PITerminating} \<and> pi_parent_element_instance_key i = Some call_eik)
     (map snd (sorted_list_of_fmap (instances (est e))))))"

section \<open>Which boundary catches\<close>

definition elements_list :: "process_definition \<Rightarrow> element list" where
  "elements_list p = map snd (sorted_list_of_fmap (pd_elements p))"

definition min_id :: "elementid list \<Rightarrow> elementid option" where
  "min_id xs = (case sort xs of [] \<Rightarrow> None | x # _ \<Rightarrow> Some x)"

definition find_error_boundary :: "engine \<Rightarrow> key \<Rightarrow> elementid \<Rightarrow> string \<Rightarrow> elementid option" where
  "find_error_boundary e ik task_eid error_code = Option.bind (process_of_instance e ik) (\<lambda>p.
     min_id (map e_id (filter (\<lambda>el. case e_kind el of
         EK_ErrorBoundaryEvent attached code \<Rightarrow> attached = task_eid \<and> code = error_code
       | _ \<Rightarrow> False) (elements_list p))))"

definition escalation_matches :: "elementid \<Rightarrow> string \<Rightarrow> element \<Rightarrow> bool" where
  "escalation_matches activity code el = (case e_kind el of
     EK_EscalationBoundaryEvent attached ec _ \<Rightarrow> attached = activity \<and> ec = code
   | _ \<Rightarrow> False)"

definition pick_escalation :: "process_definition \<Rightarrow> elementid \<Rightarrow> string \<Rightarrow> element option" where
  "pick_escalation p activity code =
     (case sort_key e_id (filter (escalation_matches activity code) (elements_list p)) of [] \<Rightarrow> None | el # _ \<Rightarrow> Some el)"

definition find_escalation_boundary :: "engine \<Rightarrow> key \<Rightarrow> elementid \<Rightarrow> string \<Rightarrow> (elementid \<times> bool) option" where
  "find_escalation_boundary e ik activity code = Option.bind (process_of_instance e ik) (\<lambda>p.
     Option.bind (case pick_escalation p activity code of
         Some el \<Rightarrow> Some el
       | None \<Rightarrow> if code = [] then None else pick_escalation p activity [])
       (\<lambda>el. case e_kind el of EK_EscalationBoundaryEvent _ _ interrupting \<Rightarrow> Some (e_id el, interrupting) | _ \<Rightarrow> None))"

text \<open>The two searches walk the enclosing scopes; the outer option is a walk that never ends.\<close>

partial_function (option) find_catching_error_boundary ::
  "engine \<Rightarrow> key \<Rightarrow> elementid \<Rightarrow> key \<Rightarrow> string \<Rightarrow> (elementid \<times> key \<times> elementid) option option" where
  "find_catching_error_boundary e ik eid eik code = (case find_error_boundary e ik eid code of
     Some b \<Rightarrow> Some (Some (b, eik, eid))
   | None \<Rightarrow>
       (let parent = scope_of e ik eik
        in if parent = 0 then Some None
           else case element_id_of_instance e ik parent of
             None \<Rightarrow> Some None
           | Some pid \<Rightarrow> find_catching_error_boundary e ik pid parent code))"

partial_function (option) find_catching_escalation_boundary ::
  "engine \<Rightarrow> key \<Rightarrow> key \<Rightarrow> string \<Rightarrow> (elementid \<times> key \<times> elementid \<times> bool) option option" where
  "find_catching_escalation_boundary e ik eik code =
     (if eik = 0 then Some None
      else case element_id_of_instance e ik eik of
        None \<Rightarrow> Some None
      | Some eid \<Rightarrow> (case find_escalation_boundary e ik eid code of
          Some (b, interrupting) \<Rightarrow> Some (Some (b, eik, eid, interrupting))
        | None \<Rightarrow> find_catching_escalation_boundary e ik (scope_of e ik eik) code))"

section \<open>Boundary events attached to an activity\<close>

definition attached :: "engine \<Rightarrow> key \<Rightarrow> (element \<Rightarrow> ('a :: linorder) option) \<Rightarrow> 'a list" where
  "attached e ik f = (case process_of_instance e ik of None \<Rightarrow> [] | Some p \<Rightarrow> sort (List.map_filter f (elements_list p)))"

definition attached_timer_boundaries :: "engine \<Rightarrow> key \<Rightarrow> elementid \<Rightarrow> (elementid \<times> u64 \<times> bool) list" where
  "attached_timer_boundaries e ik activity = attached e ik (\<lambda>el. case e_kind el of
     EK_TimerBoundaryEvent a millis interrupting _ \<Rightarrow> if a = activity then Some (e_id el, millis, interrupting) else None
   | _ \<Rightarrow> None)"

definition attached_message_boundaries :: "engine \<Rightarrow> key \<Rightarrow> elementid \<Rightarrow> (elementid \<times> string \<times> string \<times> bool) list" where
  "attached_message_boundaries e ik activity = attached e ik (\<lambda>el. case e_kind el of
     EK_MessageBoundaryEvent a name ck interrupting \<Rightarrow> if a = activity then Some (e_id el, name, ck, interrupting) else None
   | _ \<Rightarrow> None)"

definition attached_signal_boundaries :: "engine \<Rightarrow> key \<Rightarrow> elementid \<Rightarrow> (elementid \<times> string \<times> bool) list" where
  "attached_signal_boundaries e ik activity = attached e ik (\<lambda>el. case e_kind el of
     EK_SignalBoundaryEvent a name interrupting \<Rightarrow> if a = activity then Some (e_id el, name, interrupting) else None
   | _ \<Rightarrow> None)"

definition attached_conditional_boundaries :: "engine \<Rightarrow> key \<Rightarrow> elementid \<Rightarrow> (elementid \<times> string \<times> bool) list" where
  "attached_conditional_boundaries e ik activity = attached e ik (\<lambda>el. case e_kind el of
     EK_ConditionalBoundaryEvent a condition interrupting \<Rightarrow> if a = activity then Some (e_id el, condition, interrupting) else None
   | _ \<Rightarrow> None)"

definition compensation_handlers_for :: "engine \<Rightarrow> key \<Rightarrow> elementid \<Rightarrow> elementid list" where
  "compensation_handlers_for e ik eid = map snd (attached e ik (\<lambda>el. case e_kind el of
     EK_CompensationBoundaryEvent a handler \<Rightarrow> if a = eid then Some (e_id el, handler) else None
   | _ \<Rightarrow> None))"

definition compensable_in_scope :: "engine \<Rightarrow> key \<Rightarrow> key \<Rightarrow> compensation_subscription list" where
  "compensable_in_scope e ik scope = (case fmlookup (instances (est e)) ik of
     None \<Rightarrow> [] | Some i \<Rightarrow> filter (\<lambda>c. cs_scope c = scope) (pi_compensable i))"

definition pending_compensation_handler :: "engine \<Rightarrow> key \<Rightarrow> elementid \<Rightarrow> key \<Rightarrow> key option" where
  "pending_compensation_handler e ik eid scope = Option.bind (fmlookup (instances (est e)) ik) (\<lambda>i.
     min_key (map fst (filter (\<lambda>(_, w). cw_scope w = scope \<and> eid \<in> set (cw_pending_handlers w))
       (sorted_list_of_fmap (pi_compensation_waits i)))))"

definition is_subprocess :: "engine \<Rightarrow> key \<Rightarrow> elementid \<Rightarrow> bool" where
  "is_subprocess e ik eid = (case element_kind_of e ik eid of Some (EK_SubProcess _) \<Rightarrow> True | _ \<Rightarrow> False)"

definition is_adhoc_container :: "engine \<Rightarrow> key \<Rightarrow> key \<Rightarrow> bool" where
  "is_adhoc_container e ik eik = (case fmlookup (instances (est e)) ik of
     None \<Rightarrow> False | Some i \<Rightarrow> eik |\<in>| fmdom (pi_adhoc_instances i))"

definition is_multi_instance_body :: "engine \<Rightarrow> key \<Rightarrow> key \<Rightarrow> bool" where
  "is_multi_instance_body e ik eik = (case fmlookup (instances (est e)) ik of
     None \<Rightarrow> False | Some i \<Rightarrow> eik |\<in>| fmdom (pi_multi_instances i))"

section \<open>Everything inside a scope\<close>

definition children_of :: "(key, key) fmap \<Rightarrow> key \<Rightarrow> key list" where
  "children_of m parent = map fst (filter (\<lambda>(_, p). p = parent) (sorted_list_of_fmap m))"

partial_function (option) descend :: "(key, key) fmap \<Rightarrow> key list \<Rightarrow> key list \<Rightarrow> key list option" where
  "descend m stack result = (case stack of
     [] \<Rightarrow> Some result
   | parent # rest \<Rightarrow> descend m (rev (children_of m parent) @ rest) (result @ children_of m parent))"

definition scope_descendants :: "engine \<Rightarrow> key \<Rightarrow> key \<Rightarrow> key list option" where
  "scope_descendants e ik scope_eik = (case fmlookup (instances (est e)) ik of
     None \<Rightarrow> Some [] | Some i \<Rightarrow> map_option sort (descend (pi_scopes i) [scope_eik] []))"

section \<open>Discarding an instance\<close>

definition discard_instance_token_events :: "engine \<Rightarrow> key \<Rightarrow> event list" where
  "discard_instance_token_events e ik =
     map (\<lambda>j. EJob (JobCanceled (jb_key j) ik))
       (sorted_values jb_key (\<lambda>j. jb_instance_key j = ik \<and> jb_state j \<in> {JCreated, JActivated, JFailed}) (jobs (est e)))
   @ map cancel_timer (sorted_values tm_key (\<lambda>t. tm_instance_key t = ik \<and> tm_state t = TMCreated) (timers (est e)))
   @ map disarm_subscription_event (sorted_values ms_key
       (\<lambda>s. ms_instance_key s = ik \<and> ms_state s \<in> {SubOpen, SubOpening}) (message_subscriptions (est e)))
   @ map cancel_signal (sorted_values ss_key
       (\<lambda>s. ss_instance_key s = ik \<and> ss_state s = SubOpen) (signal_subscriptions (est e)))
   @ map cancel_conditional (sorted_values cd_key
       (\<lambda>s. cd_instance_key s = ik \<and> cd_state s = SubOpen) (conditional_subscriptions (est e)))
   @ map cancel_user_task (sorted_values ut_key
       (\<lambda>t. ut_instance_key t = ik \<and> ut_state t = UTCreated) (user_tasks (est e)))"

definition discard_instance_events :: "engine \<Rightarrow> key \<Rightarrow> event list" where
  "discard_instance_events e ik = discard_instance_token_events e ik @ [ELifecycle (ProcessInstanceTerminated ik)]"

definition discard_and_terminate_instance :: "key \<Rightarrow> logged \<Rightarrow> logged" where
  "discard_and_terminate_instance ik el = fold emit (discard_instance_events (fst el) ik) el"

definition resolve_instance_incidents :: "engine \<Rightarrow> key \<Rightarrow> event list" where
  "resolve_instance_incidents e ik = (case fmlookup (instances (est e)) ik of
     None \<Rightarrow> []
   | Some i \<Rightarrow> map (resolve_incident e ik) (sort_key inc_key (filter (\<lambda>x. inc_state x = IncActive)
       (List.map_filter (fmlookup (incidents (est e))) (pi_incidents i)))))"

section \<open>Tearing down a scope\<close>

definition option_event :: "('a \<Rightarrow> event) \<Rightarrow> 'a option \<Rightarrow> event list" where
  "option_event f x = (case x of None \<Rightarrow> [] | Some y \<Rightarrow> [f y])"

definition runtime_records :: "engine \<Rightarrow> key \<Rightarrow> key \<Rightarrow> event list" where
  "runtime_records e ik eik =
     (if is_multi_instance_body e ik eik then [EMultiInstance (MultiInstanceCompleted ik eik)] else [])
   @ (if is_adhoc_container e ik eik then [EAdHoc (AdHocCompleted ik eik True)] else [])"

definition element_teardown :: "engine \<Rightarrow> key \<Rightarrow> key \<Rightarrow> event list" where
  "element_teardown e ik eik =
     (let eid = (case element_id_of_instance e ik eik of None \<Rightarrow> [] | Some x \<Rightarrow> x)
      in (case call_activity_child_of e eik of None \<Rightarrow> [] | Some child \<Rightarrow> discard_instance_events e child)
       @ option_event (\<lambda>jk. EJob (JobCanceled jk ik)) (active_job_on e eik)
       @ cancel_all_timers_on e eik @ cancel_all_subscriptions_on e eik @ cancel_all_signal_subscriptions_on e eik
       @ cancel_all_conditional_subscriptions_on e eik @ cancel_created_user_tasks_on e eik
       @ resolve_incidents_on e ik eik
       @ runtime_records e ik eik
       @ (if join_eik e ik eid = Some eik then [EElement (ParallelJoinReset ik eid)] else [])
       @ [EElement (ElementCompleting ik eik eid), EElement (ElementCompleted ik eik eid)])"

definition compensation_cleanup :: "engine \<Rightarrow> key \<Rightarrow> key list \<Rightarrow> event list" where
  "compensation_cleanup e ik scopes = (case fmlookup (instances (est e)) ik of
     None \<Rightarrow> []
   | Some i \<Rightarrow>
       (if (\<exists>c \<in> set (pi_compensable i). cs_scope c \<in> set scopes)
           \<or> (\<exists>w \<in> set (map snd (sorted_list_of_fmap (pi_compensation_waits i))). cw_scope w \<in> set scopes)
        then [ECompensation (ScopedCompensationCleared ik (sort scopes))] else []))"

definition scope_teardown_events :: "engine \<Rightarrow> key \<Rightarrow> key \<Rightarrow> event list option" where
  "scope_teardown_events e ik scope_eik = map_option (\<lambda>inner.
     concat (map (element_teardown e ik) inner) @ compensation_cleanup e ik (inner @ [scope_eik]))
     (scope_descendants e ik scope_eik)"

definition boundary_root_teardown_events :: "engine \<Rightarrow> key \<Rightarrow> key \<Rightarrow> event list" where
  "boundary_root_teardown_events e ik root_eik =
     option_event (\<lambda>jk. EJob (JobCanceled jk ik)) (active_job_on e root_eik)
   @ resolve_incidents_on e ik root_eik @ runtime_records e ik root_eik"

definition terminate_subprocess_scope :: "key \<Rightarrow> key \<Rightarrow> logged \<Rightarrow> logged option" where
  "terminate_subprocess_scope ik scope_eik el =
     (let e1 = (fst el)\<lparr> torn_down_scopes := finsert scope_eik (torn_down_scopes (fst el)) \<rparr>
      in map_option (\<lambda>evs. fold emit evs (e1, snd el)) (scope_teardown_events e1 ik scope_eik))"

definition emit_all :: "(engine \<Rightarrow> event list) \<Rightarrow> logged \<Rightarrow> logged" where
  "emit_all f el = fold emit (f (fst el)) el"

definition complete_element :: "key \<Rightarrow> key \<Rightarrow> elementid \<Rightarrow> logged \<Rightarrow> logged" where
  "complete_element ik eik eid el =
     emit (EElement (ElementCompleted ik eik eid)) (emit (EElement (ElementCompleting ik eik eid)) el)"

definition interrupt_activity_via_boundary :: "key \<Rightarrow> key \<Rightarrow> elementid \<Rightarrow> logged \<Rightarrow> logged option" where
  "interrupt_activity_via_boundary ik eik eid el =
     map_option (\<lambda>el1.
         emit_all (\<lambda>e. cancel_boundary_conditional_subscriptions_on e eik)
           (emit_all (\<lambda>e. cancel_boundary_signal_subscriptions_on e eik)
             (emit_all (\<lambda>e. cancel_boundary_message_subscriptions_on e eik)
               (emit_all (\<lambda>e. cancel_boundary_timers_on e eik) (complete_element ik eik eid el1)))))
       (let e = fst el;
            cancel_job = (\<lambda>el. emit_all (\<lambda>e. option_event (\<lambda>jk. EJob (JobCanceled jk ik)) (active_job_on e eik)) el)
        in if is_multi_instance_body e ik eik
           then map_option (emit (EMultiInstance (MultiInstanceCompleted ik eik)))
                  (terminate_subprocess_scope ik eik (emit_all (\<lambda>e. resolve_incidents_on e ik eik) (cancel_job el)))
           else if is_subprocess e ik eid then terminate_subprocess_scope ik eik el
           else if is_adhoc_container e ik eik
           then map_option (emit (EAdHoc (AdHocCompleted ik eik True))) (terminate_subprocess_scope ik eik (cancel_job el))
           else (case call_activity_child_of e eik of
               Some child \<Rightarrow> Some (discard_and_terminate_instance child el)
             | None \<Rightarrow> Some (cancel_job el)))"

definition terminate_element_instance :: "key \<Rightarrow> key \<Rightarrow> elementid \<Rightarrow> logged \<Rightarrow> logged option" where
  "terminate_element_instance ik eik eid el =
     map_option (\<lambda>el1. complete_element ik eik eid
         (emit_all (\<lambda>e. cancel_all_conditional_subscriptions_on e eik)
           (emit_all (\<lambda>e. cancel_all_signal_subscriptions_on e eik)
             (emit_all (\<lambda>e. cancel_all_subscriptions_on e eik)
               (emit_all (\<lambda>e. cancel_all_timers_on e eik)
                 (emit_all (\<lambda>e. map (\<lambda>t. EUserTask (UserTaskCanceled (ut_key t) ik)) (sorted_values ut_key
                     (\<lambda>t. ut_instance_key t = ik \<and> ut_element_instance_key t = eik \<and> ut_state t = UTCreated)
                     (user_tasks (est e)))) el1))))))
       (if is_subprocess (fst el) ik eid then terminate_subprocess_scope ik eik el
        else Some (emit_all (\<lambda>e. option_event (\<lambda>jk. EJob (JobCanceled jk ik)) (active_job_on e eik)) el))"

section \<open>Cancelling the children of ended instances\<close>

definition ended_in :: "event list \<Rightarrow> key fset" where
  "ended_in log = fset_of_list (List.map_filter terminal_instance_key log)"

definition live_children :: "state \<Rightarrow> key fset \<Rightarrow> key list" where
  "live_children s ended = sort (map pi_key (filter
     (\<lambda>i. pi_state i \<in> {PIActive, PITerminating}
        \<and> (case pi_parent_process_instance_key i of None \<Rightarrow> False | Some p \<Rightarrow> p |\<in>| ended))
     (map snd (sorted_list_of_fmap (instances s)))))"

partial_function (option) cascade_from :: "key fset \<Rightarrow> logged \<Rightarrow> logged option" where
  "cascade_from ended el =
     (let children = live_children (est (fst el)) ended
      in if children = [] then Some el
         else cascade_from (ended |\<union>| fset_of_list children) (fold discard_and_terminate_instance children el))"

definition cascade_cancel_children :: "logged \<Rightarrow> logged option" where
  "cascade_cancel_children el =
     (let ended = ended_in (snd el) in if ended = {||} then Some el else cascade_from ended el)"

end
