(* ===== verification/Teardown.thy ===== *)
theory Teardown
  imports Boundary Memory
begin

text \<open>
  What tearing down achieves. Everything an instance has in play (jobs, timers, subscriptions, user
  tasks and active element instances) is viewed as one set of tokens; the events of a teardown only
  ever take tokens out of it. A discarded instance keeps nothing in play, a torn-down scope keeps
  nothing inside it, and the cascade over child instances ends exactly the live descendants of the
  ended instances.
\<close>

section \<open>Tokens in play\<close>

datatype holder = HJob | HTimer | HMessage | HSignal | HCondition | HUserTask | HElement

text \<open>A token: what holds it, its key, its instance and the element instance it rests on.\<close>

type_synonym token = "holder \<times> key \<times> key \<times> key"

definition tokens_of :: "holder \<Rightarrow> ('v \<Rightarrow> bool) \<Rightarrow> ('v \<Rightarrow> key) \<Rightarrow> ('v \<Rightarrow> key) \<Rightarrow> (key, 'v) fmap \<Rightarrow> token set" where
  "tokens_of h live inst host m = {(h, k, inst v, host v) | k v. fmlookup m k = Some v \<and> live v}"

definition job_in_play :: "job \<Rightarrow> bool" where
  "job_in_play j \<longleftrightarrow> jb_state j \<notin> {JCompleted, JErrored, JCanceled}"

definition subscription_in_play :: "message_subscription \<Rightarrow> bool" where
  "subscription_in_play m \<longleftrightarrow> ms_state m \<in> {SubOpen, SubOpening}"

definition job_tokens :: "state \<Rightarrow> token set" where
  "job_tokens s = tokens_of HJob job_in_play jb_instance_key jb_element_instance_key (jobs s)"

definition timer_tokens :: "state \<Rightarrow> token set" where
  "timer_tokens s = tokens_of HTimer (\<lambda>t. tm_state t = TMCreated) tm_instance_key tm_element_instance_key (timers s)"

definition message_tokens :: "state \<Rightarrow> token set" where
  "message_tokens s = tokens_of HMessage subscription_in_play ms_instance_key ms_element_instance_key (message_subscriptions s)"

definition signal_tokens :: "state \<Rightarrow> token set" where
  "signal_tokens s = tokens_of HSignal (\<lambda>t. ss_state t = SubOpen) ss_instance_key ss_element_instance_key (signal_subscriptions s)"

definition condition_tokens :: "state \<Rightarrow> token set" where
  "condition_tokens s =
     tokens_of HCondition (\<lambda>t. cd_state t = SubOpen) cd_instance_key cd_element_instance_key (conditional_subscriptions s)"

definition user_task_tokens :: "state \<Rightarrow> token set" where
  "user_task_tokens s = tokens_of HUserTask (\<lambda>t. ut_state t = UTCreated) ut_instance_key ut_element_instance_key (user_tasks s)"

definition element_tokens :: "state \<Rightarrow> token set" where
  "element_tokens s = {(HElement, eik, ik, eik) | ik i eik. fmlookup (instances s) ik = Some i \<and> eik |\<in>| fmdom (pi_active i)}"

definition in_play :: "state \<Rightarrow> token set" where
  "in_play s = job_tokens s \<union> timer_tokens s \<union> message_tokens s \<union> signal_tokens s \<union> condition_tokens s
     \<union> user_task_tokens s \<union> element_tokens s"

fun holder_of :: "token \<Rightarrow> holder" where "holder_of (h, _) = h"
fun instance_of :: "token \<Rightarrow> key" where "instance_of (_, _, ik, _) = ik"
fun host_of :: "token \<Rightarrow> key" where "host_of (_, _, _, eik) = eik"

section \<open>The events of a teardown\<close>

inductive teardown_event :: "event \<Rightarrow> bool" where
  job: "teardown_event (EJob (JobCanceled jk ik))"
| timer: "teardown_event (ETimer (TimerCanceled k ik eik eid))"
| message: "teardown_event (EMessage (MessageSubscriptionCanceled k ik eik eid))"
| remote: "teardown_event (EMessage (MessageSubscriptionClosing k ik eik eid name ck))"
| signal: "teardown_event (ESignal (SignalSubscriptionCanceled k ik eik eid))"
| conditional: "teardown_event (ESignal (ConditionalSubscriptionCanceled k ik eik eid))"
| user_task: "teardown_event (EUserTask (UserTaskCanceled k ik))"
| incident: "teardown_event (EIncident (IncidentResolved ick ik jko t opref))"
| multi_instance: "teardown_event (EMultiInstance (MultiInstanceCompleted ik bk))"
| adhoc: "teardown_event (EAdHoc (AdHocCompleted ik ck c))"
| join: "teardown_event (EElement (ParallelJoinReset ik eid))"
| completing: "teardown_event (EElement (ElementCompleting ik eik eid))"
| completed: "teardown_event (EElement (ElementCompleted ik eik eid))"
| compensation: "teardown_event (ECompensation (ScopedCompensationCleared ik scopes))"
| terminated: "teardown_event (ELifecycle (ProcessInstanceTerminated ik))"
| agent: "teardown_event (EAgent ae)"

declare teardown_event.intros [simp, intro]

fun disarms :: "event \<Rightarrow> token \<Rightarrow> bool" where
  "disarms (EJob (JobCanceled jk _)) (h, k, _) \<longleftrightarrow> h = HJob \<and> k = jk"
| "disarms (ETimer (TimerCanceled tk _ _ _)) (h, k, _) \<longleftrightarrow> h = HTimer \<and> k = tk"
| "disarms (EMessage (MessageSubscriptionCanceled mk _ _ _)) (h, k, _) \<longleftrightarrow> h = HMessage \<and> k = mk"
| "disarms (EMessage (MessageSubscriptionClosing mk _ _ _ _ _)) (h, k, _) \<longleftrightarrow> h = HMessage \<and> k = mk"
| "disarms (ESignal (SignalSubscriptionCanceled sk _ _ _)) (h, k, _) \<longleftrightarrow> h = HSignal \<and> k = sk"
| "disarms (ESignal (ConditionalSubscriptionCanceled ck _ _ _)) (h, k, _) \<longleftrightarrow> h = HCondition \<and> k = ck"
| "disarms (EUserTask (UserTaskCanceled uk _)) (h, k, _) \<longleftrightarrow> h = HUserTask \<and> k = uk"
| "disarms (EElement (ElementCompleted ik eik _)) (h, k, ik', _) \<longleftrightarrow> h = HElement \<and> k = eik \<and> ik' = ik"
| "disarms (ELifecycle (ProcessInstanceTerminated ik)) (h, _, ik', _) \<longleftrightarrow> h = HElement \<and> ik' = ik"
| "disarms _ _ \<longleftrightarrow> False"

lemma mem_tokens_of: "(h', k, ik, eik) \<in> tokens_of h live inst host m \<longleftrightarrow>
    h' = h \<and> (\<exists>v. fmlookup m k = Some v \<and> live v \<and> inst v = ik \<and> host v = eik)"
  by (auto simp: tokens_of_def)

lemma waiting_resolve [simp]:
  "timers (resolve_incidents ik s) = timers s" "message_subscriptions (resolve_incidents ik s) = message_subscriptions s"
  "signal_subscriptions (resolve_incidents ik s) = signal_subscriptions s"
  "conditional_subscriptions (resolve_incidents ik s) = conditional_subscriptions s"
  "user_tasks (resolve_incidents ik s) = user_tasks s" "jobs (resolve_incidents ik s) = jobs s"
  "instances (resolve_incidents ik s) = instances s"
  by (simp_all add: resolve_incidents_def split: option.split)

lemma waiting_decrement [simp]:
  "timers (decrement_inflight_by_process p s) = timers s"
  "message_subscriptions (decrement_inflight_by_process p s) = message_subscriptions s"
  "signal_subscriptions (decrement_inflight_by_process p s) = signal_subscriptions s"
  "conditional_subscriptions (decrement_inflight_by_process p s) = conditional_subscriptions s"
  "user_tasks (decrement_inflight_by_process p s) = user_tasks s" "jobs (decrement_inflight_by_process p s) = jobs s"
  "instances (decrement_inflight_by_process p s) = instances s"
  by (simp_all add: decrement_inflight_by_process_def split: option.split)

lemma waiting_update_job [simp]:
  "timers (update_job k f s) = timers s" "message_subscriptions (update_job k f s) = message_subscriptions s"
  "signal_subscriptions (update_job k f s) = signal_subscriptions s"
  "conditional_subscriptions (update_job k f s) = conditional_subscriptions s"
  "user_tasks (update_job k f s) = user_tasks s" "instances (update_job k f s) = instances s"
  by (simp_all add: update_job_def)

lemma waiting_on_instance [simp]:
  "timers (on_instance ik f s) = timers s" "message_subscriptions (on_instance ik f s) = message_subscriptions s"
  "signal_subscriptions (on_instance ik f s) = signal_subscriptions s"
  "conditional_subscriptions (on_instance ik f s) = conditional_subscriptions s"
  "user_tasks (on_instance ik f s) = user_tasks s" "jobs (on_instance ik f s) = jobs s"
  by (simp_all add: on_instance_def)

lemma waiting_agent [simp]:
  "timers (apply_agent ae s) = timers s" "message_subscriptions (apply_agent ae s) = message_subscriptions s"
  "signal_subscriptions (apply_agent ae s) = signal_subscriptions s"
  "conditional_subscriptions (apply_agent ae s) = conditional_subscriptions s"
  "user_tasks (apply_agent ae s) = user_tasks s" "jobs (apply_agent ae s) = jobs s"
  by (cases ae; simp add: instance_arm_defs)+

lemma waiting_incident [simp]:
  "timers (apply_IncidentResolved ick ik jk t opref s) = timers s"
  "message_subscriptions (apply_IncidentResolved ick ik jk t opref s) = message_subscriptions s"
  "signal_subscriptions (apply_IncidentResolved ick ik jk t opref s) = signal_subscriptions s"
  "conditional_subscriptions (apply_IncidentResolved ick ik jk t opref s) = conditional_subscriptions s"
  "user_tasks (apply_IncidentResolved ick ik jk t opref s) = user_tasks s"
  "instances (apply_IncidentResolved ick ik jk t opref s) =
     get_mut ik (\<lambda>i. i\<lparr> pi_incidents := filter (\<lambda>k. k \<noteq> ick) (pi_incidents i) \<rparr>) (instances s)"
  by (simp_all add: apply_IncidentResolved_def Let_def return_parked_job_def split: option.split)

lemmas teardown_arm_defs = apply_JobCanceled_def apply_ProcessInstanceTerminated_def Let_def waiting_arm_defs element_arm_defs

lemma step_timers: "teardown_event ev \<Longrightarrow> timer_tokens (apply_event ev s) = {x \<in> timer_tokens s. \<not> disarms ev x}"
  by (erule teardown_event.cases) (auto simp: timer_tokens_def tokens_of_def teardown_arm_defs split: if_splits)

lemma step_messages: "teardown_event ev \<Longrightarrow> message_tokens (apply_event ev s) = {x \<in> message_tokens s. \<not> disarms ev x}"
  by (erule teardown_event.cases)
    (auto simp: message_tokens_def subscription_in_play_def tokens_of_def teardown_arm_defs split: if_splits)

lemma step_signals: "teardown_event ev \<Longrightarrow> signal_tokens (apply_event ev s) = {x \<in> signal_tokens s. \<not> disarms ev x}"
  by (erule teardown_event.cases) (auto simp: signal_tokens_def tokens_of_def teardown_arm_defs split: if_splits)

lemma step_conditions: "teardown_event ev \<Longrightarrow> condition_tokens (apply_event ev s) = {x \<in> condition_tokens s. \<not> disarms ev x}"
  by (erule teardown_event.cases) (auto simp: condition_tokens_def tokens_of_def teardown_arm_defs split: if_splits)

lemma step_user_tasks: "teardown_event ev \<Longrightarrow> user_task_tokens (apply_event ev s) = {x \<in> user_task_tokens s. \<not> disarms ev x}"
  by (erule teardown_event.cases) (auto simp: user_task_tokens_def tokens_of_def teardown_arm_defs split: if_splits)

text \<open>Resolving an incident can put a failed job back to created, which leaves it in play.\<close>

lemma job_tokens_incident: "job_tokens (apply_IncidentResolved ick ik jk t opref s) = job_tokens s"
proof -
  have "job_tokens (return_parked_job k s) = job_tokens s" for k s
    by (auto simp: job_tokens_def return_parked_job_def mem_tokens_of job_in_play_def split: if_splits)
  then show ?thesis by (simp add: apply_IncidentResolved_def Let_def split: option.split) (simp add: job_tokens_def)
qed

lemma step_jobs: "teardown_event ev \<Longrightarrow> job_tokens (apply_event ev s) = {x \<in> job_tokens s. \<not> disarms ev x}"
  by (erule teardown_event.cases; (simp add: job_tokens_incident; fail)?)
    (auto simp: job_tokens_def job_in_play_def tokens_of_def teardown_arm_defs split: if_splits)

lemma active_agent: "fmlookup (instances (apply_agent ae s)) ik = Some i \<Longrightarrow> \<exists>i0. fmlookup (instances s) ik = Some i0
    \<and> pi_active i = pi_active i0 \<and> pi_state i = pi_state i0 \<and> pi_key i = pi_key i0
    \<and> pi_parent_process_instance_key i = pi_parent_process_instance_key i0"
  by (cases ae) (auto simp: instance_arm_defs on_instance_def split: if_splits)

lemma step_elements: "teardown_event ev \<Longrightarrow> element_tokens (apply_event ev s) = {x \<in> element_tokens s. \<not> disarms ev x}"
proof (erule teardown_event.cases)
  fix ae assume "ev = EAgent ae"
  have "element_tokens (on_instance ik f s) = element_tokens s" if "\<And>i. pi_active (f i) = pi_active i" for ik f
    using that by (force simp: element_tokens_def on_instance_def split: if_splits)
  with \<open>ev = EAgent ae\<close> show ?thesis by (cases ae) (simp_all add: instance_arm_defs)
qed (force simp: element_tokens_def teardown_arm_defs on_instance_def clear_terminated_def split: if_splits)+

lemma step_in_play: "teardown_event ev \<Longrightarrow> in_play (apply_event ev s) = {x \<in> in_play s. \<not> disarms ev x}"
  by (auto simp only: in_play_def step_jobs step_timers step_messages step_signals step_conditions step_user_tasks step_elements)

definition teardown :: "event list \<Rightarrow> bool" where
  "teardown evs \<longleftrightarrow> list_all teardown_event evs"

lemma fold_in_play: "teardown evs \<Longrightarrow> in_play (fold apply_event evs s) = {x \<in> in_play s. \<forall>ev \<in> set evs. \<not> disarms ev x}"
  by (induction evs arbitrary: s) (auto simp: teardown_def step_in_play)

section \<open>Standing of the instances\<close>

text \<open>What the cascade reads of an instance.\<close>

definition standing :: "state \<Rightarrow> key \<Rightarrow> (key \<times> key option \<times> process_instance_state) option" where
  "standing s k = map_option (\<lambda>i. (pi_key i, pi_parent_process_instance_key i, pi_state i)) (fmlookup (instances s) k)"

definition terminated_in :: "event list \<Rightarrow> key set" where
  "terminated_in evs = {ik. ELifecycle (ProcessInstanceTerminated ik) \<in> set evs}"

lemma step_standing: "teardown_event ev \<Longrightarrow> standing (apply_event ev s) k =
    map_option (\<lambda>(own, parent, st). (own, parent, if k \<in> terminated_in [ev] then PITerminated else st)) (standing s k)"
proof (erule teardown_event.cases)
  fix ae assume "ev = EAgent ae"
  have "standing (on_instance ik f s) = standing s" if "\<And>i. pi_state (f i) = pi_state i" "\<And>i. pi_key (f i) = pi_key i"
    "\<And>i. pi_parent_process_instance_key (f i) = pi_parent_process_instance_key i" for ik f
    using that by (auto simp: standing_def on_instance_def option.map_comp comp_def)
  with \<open>ev = EAgent ae\<close> show ?thesis
    by (cases ae) (simp_all add: instance_arm_defs terminated_in_def option.map_id0 case_prod_beta)
qed (auto simp: standing_def teardown_arm_defs on_instance_def clear_terminated_def terminated_in_def option.map_comp comp_def
      cong: option.map_cong)

lemma fold_standing: "teardown evs \<Longrightarrow> standing (fold apply_event evs s) k =
    map_option (\<lambda>(own, parent, st). (own, parent, if k \<in> terminated_in evs then PITerminated else st)) (standing s k)"
proof (induction evs arbitrary: s)
  case Nil
  show ?case by (cases "standing s k") (auto simp: terminated_in_def)
next
  case (Cons ev evs)
  then show ?case by (cases "standing s k") (auto simp: teardown_def step_standing terminated_in_def)
qed

section \<open>Emitting teardown events\<close>

text \<open>\<open>emit\<close> settles and cleans up agents around the event it is given; apart from agent events the log
  grows by that event alone.\<close>

definition is_agent :: "event \<Rightarrow> bool" where
  "is_agent ev \<longleftrightarrow> (\<exists>ae. ev = EAgent ae)"

definition emits :: "event list \<Rightarrow> logged \<Rightarrow> logged \<Rightarrow> bool" where
  "emits evs el el' \<longleftrightarrow> (\<exists>new. snd el' = snd el @ new \<and> est (fst el') = fold apply_event new (est (fst el))
     \<and> filter (\<lambda>ev. \<not> is_agent ev) new = filter (\<lambda>ev. \<not> is_agent ev) evs)"

lemma emits_refl [simp]: "emits [] el el"
  by (auto simp: emits_def intro: exI [of _ "[]"])

lemma emits_trans: "emits xs a b \<Longrightarrow> emits ys b c \<Longrightarrow> emits (xs @ ys) a c"
  unfolding emits_def
proof (elim exE conjE)
  fix xs' ys'
  assume "snd b = snd a @ xs'" "est (fst b) = fold apply_event xs' (est (fst a))"
    "filter (\<lambda>ev. \<not> is_agent ev) xs' = filter (\<lambda>ev. \<not> is_agent ev) xs"
    "snd c = snd b @ ys'" "est (fst c) = fold apply_event ys' (est (fst b))"
    "filter (\<lambda>ev. \<not> is_agent ev) ys' = filter (\<lambda>ev. \<not> is_agent ev) ys"
  then show "\<exists>new. snd c = snd a @ new \<and> est (fst c) = fold apply_event new (est (fst a))
     \<and> filter (\<lambda>ev. \<not> is_agent ev) new = filter (\<lambda>ev. \<not> is_agent ev) (xs @ ys)"
    by (intro exI [of _ "xs' @ ys'"]) simp
qed

lemma emits_agents: "list_all is_agent evs \<Longrightarrow> emits (evs @ xs) el el' = emits xs el el'"
proof -
  assume "list_all is_agent evs"
  then have "filter (\<lambda>ev. \<not> is_agent ev) evs = []" by (induction evs) auto
  then show ?thesis by (simp add: emits_def)
qed

lemma emits_plain: "emits [ev] el (emit_plain ev el)"
  by (cases el) (auto simp: emits_def emit_plain_def Let_def)

lemma emits_plain_agent: "emits [] el (emit_plain (EAgent ae) el)"
  using emits_plain [of "EAgent ae" el] emits_agents [of "[EAgent ae]" "[]"] by (simp add: is_agent_def)

lemma emits_fold: "(\<And>x el. emits (g x) el (f x el)) \<Longrightarrow> emits (concat (map g xs)) el (fold f xs el)"
proof (induction xs arbitrary: el)
  case (Cons x xs)
  have "emits (g x) el (f x el)" "emits (concat (map g xs)) (f x el) (fold f xs (f x el))" using Cons by blast+
  then show ?case by (simp add: emits_trans [of "g x" el "f x el"])
qed simp

lemma emits_fold_nil: "(\<And>x el. emits [] el (f x el)) \<Longrightarrow> emits [] el (fold f xs el)"
proof -
  assume "\<And>x el. emits [] el (f x el)"
  moreover have "concat (map (\<lambda>_. [] :: event list) xs) = []" by (induction xs) auto
  ultimately show ?thesis using emits_fold [of "\<lambda>_. []" f xs el] by metis
qed

lemma emits_plain_agentI: "emits [] el el1 \<Longrightarrow> emits [] el (emit_plain (EAgent ae) el1)"
  using emits_trans [OF _ emits_plain_agent, of "[]"] by simp

lemma emits_settle: "emits [] el (settle_job_history ik jk lease commit el)"
proof -
  have "emits [] el (settle_record ik lease commit r el)" for r el
    by (auto simp: settle_record_def Let_def split: option.split intro!: emits_plain_agentI)
  then show ?thesis by (simp add: settle_job_history_def Let_def emits_fold_nil)
qed

lemma emits_cleanup_agent: "emits [] el (cleanup_agent ik a el)"
proof -
  obtain e1 evs where t: "transition_pending_agent_history (ai_agent_instance_key a) False (fst el) = (e1, evs)"
    by fastforce
  then have "(e1, evs) = (fst el, []) \<or> (\<exists>ae. emit_plain (EAgent ae) (fst el, []) = (e1, evs))"
    by (auto simp: transition_pending_agent_history_def Let_def split: option.splits if_splits)
  then have "emits [] el (e1, snd el @ evs)"
  proof
    assume "\<exists>ae. emit_plain (EAgent ae) (fst el, []) = (e1, evs)"
    then obtain ae where "emit_plain (EAgent ae) (fst el, []) = (e1, evs)" ..
    then have "emit_plain (EAgent ae) el = (e1, snd el @ evs)" by (cases el) (auto simp: emit_plain_def Let_def)
    with emits_plain_agent [of el ae] show ?thesis by simp
  qed simp
  then show ?thesis by (simp add: cleanup_agent_def t Let_def emits_plain_agentI)
qed

lemma emits_emit: "emits [ev] el (emit ev el)"
proof -
  let ?el1 = "case terminal_instance_key ev of None \<Rightarrow> el | Some ik \<Rightarrow> cleanup_agent_instances ik el"
  have "emits [] el ?el1"
    by (auto simp: cleanup_agent_instances_def Let_def emits_fold_nil emits_cleanup_agent split: option.split)
  then have plain: "emits [ev] el (emit_plain ev ?el1)" using emits_trans [OF _ emits_plain, of "[]"] by simp
  then have "emits [ev] el (settle_job_history ik jk lease commit (emit_plain ev ?el1))" for ik jk lease commit
    using emits_trans [OF _ emits_settle, of "[ev]"] by simp
  with plain show ?thesis by (auto simp: emit_def Let_def split: option.split)
qed

lemma emits_fold_emit: "emits evs el (fold emit evs el)"
  using emits_fold [of "\<lambda>ev. [ev]" emit evs el] emits_emit by simp

text \<open>So a run of teardown events has the effect of applying them.\<close>

lemma emits_new:
  assumes "emits evs el el'" "teardown evs"
  obtains new where "snd el' = snd el @ new" "est (fst el') = fold apply_event new (est (fst el))" "teardown new"
    "\<And>ev. \<not> is_agent ev \<Longrightarrow> ev \<in> set new \<longleftrightarrow> ev \<in> set evs"
proof -
  from assms(1) obtain new where new: "snd el' = snd el @ new" "est (fst el') = fold apply_event new (est (fst el))"
    "filter (\<lambda>ev. \<not> is_agent ev) new = filter (\<lambda>ev. \<not> is_agent ev) evs"
    unfolding emits_def by blast
  from new(3) have eq: "\<not> is_agent ev \<Longrightarrow> ev \<in> set new \<longleftrightarrow> ev \<in> set evs" for ev
  proof -
    assume "\<not> is_agent ev"
    then have "ev \<in> set l \<longleftrightarrow> ev \<in> set (filter (\<lambda>ev. \<not> is_agent ev) l)" for l by simp
    with new(3) show ?thesis by metis
  qed
  then have "teardown new"
    using assms(2) unfolding teardown_def list_all_iff is_agent_def by (metis teardown_event.agent)
  then show ?thesis by (rule that [OF new(1,2) _ eq])
qed

lemma disarms_not_agent: "disarms ev x \<Longrightarrow> \<not> is_agent ev"
  by (auto simp: is_agent_def)

lemma emits_in_play:
  assumes "emits evs el el'" "teardown evs"
  shows "in_play (est (fst el')) = {x \<in> in_play (est (fst el)). \<forall>ev \<in> set evs. \<not> disarms ev x}"
proof (rule emits_new [OF assms])
  fix new
  assume "est (fst el') = fold apply_event new (est (fst el))" "teardown new"
    "\<And>ev. \<not> is_agent ev \<Longrightarrow> ev \<in> set new \<longleftrightarrow> ev \<in> set evs"
  then show ?thesis using fold_in_play [of new] disarms_not_agent by auto
qed

lemma terminated_not_agent [simp]: "\<not> is_agent (ELifecycle le)"
  by (simp add: is_agent_def)

lemma emits_standing:
  assumes "emits evs el el'" "teardown evs"
  shows "standing (est (fst el')) k =
    map_option (\<lambda>(own, parent, st). (own, parent, if k \<in> terminated_in evs then PITerminated else st)) (standing (est (fst el)) k)"
  by (rule emits_new [OF assms]) (simp add: fold_standing terminated_in_def)

section \<open>Cancelling everything of a kind\<close>

text \<open>The six kinds of waiting entities share a contract: the events the engine emits for the live ones
  that satisfy a condition disarm exactly their tokens.\<close>

lemma set_sorted_values: "set (sorted_values key P m) = {v. (\<exists>k. fmlookup m k = Some v) \<and> P v}"
proof -
  have "v \<in> snd ` set (sorted_list_of_fmap m) \<longleftrightarrow> (\<exists>k. fmlookup m k = Some v)" for v
    by (force simp: set_sorted_list_of_fmap [symmetric])
  then show ?thesis by (auto simp: sorted_values_def)
qed

definition disarm_exactly :: "event list \<Rightarrow> (token \<Rightarrow> bool) \<Rightarrow> state \<Rightarrow> bool" where
  "disarm_exactly evs P s \<longleftrightarrow> teardown evs \<and> (\<forall>x \<in> in_play s. (\<exists>ev \<in> set evs. disarms ev x) \<longleftrightarrow> P x)"

lemma disarm_nil: "(\<forall>x \<in> in_play s. \<not> P x) \<Longrightarrow> disarm_exactly [] P s"
  by (simp add: disarm_exactly_def teardown_def)

lemma disarm_append:
  "disarm_exactly xs P s \<Longrightarrow> disarm_exactly ys Q s \<Longrightarrow> disarm_exactly (xs @ ys) (\<lambda>x. P x \<or> Q x) s"
  by (auto simp: disarm_exactly_def teardown_def)

lemma disarm_cong:
  "disarm_exactly xs P s \<Longrightarrow> (\<And>x. x \<in> in_play s \<Longrightarrow> P x = Q x) \<Longrightarrow> disarm_exactly xs Q s"
  by (auto simp: disarm_exactly_def)

lemma disarm_concat:
  "(\<And>x. x \<in> set xs \<Longrightarrow> disarm_exactly (f x) (P x) s) \<Longrightarrow> disarm_exactly (concat (map f xs)) (\<lambda>t. \<exists>x \<in> set xs. P x t) s"
  by (auto simp: disarm_exactly_def teardown_def list_all_iff)

locale waiting_kind =
  fixes h :: holder and entities :: "state \<Rightarrow> (key, 'v) fmap" and live :: "'v \<Rightarrow> bool"
    and own inst host :: "'v \<Rightarrow> key" and cancel :: "'v \<Rightarrow> event"
  assumes view: "x \<in> in_play s \<Longrightarrow> holder_of x = h \<Longrightarrow> x \<in> tokens_of h live inst host (entities s)"
    and cancels: "disarms (cancel v) (h', k, ik, eik) \<longleftrightarrow> h' = h \<and> k = own v"
    and cancel_event: "teardown_event (cancel v)"
begin

lemma cancel_all:
  assumes "stored_under own (entities s)"
  shows "disarm_exactly (map cancel (sorted_values own (\<lambda>v. Q (inst v) (host v) \<and> live v) (entities s)))
    (\<lambda>x. holder_of x = h \<and> Q (instance_of x) (host_of x)) s"
proof -
  have "(\<exists>v. (\<exists>k. fmlookup (entities s) k = Some v) \<and> (Q (inst v) (host v) \<and> live v) \<and> disarms (cancel v) x)
      \<longleftrightarrow> holder_of x = h \<and> Q (instance_of x) (host_of x)" if x: "x \<in> in_play s" for x
  proof -
    obtain h' k ik eik where [simp]: "x = (h', k, ik, eik)" by (cases x)
    show ?thesis
    proof (cases "h' = h")
      case True
      with view [OF x] obtain v where v: "fmlookup (entities s) k = Some v" "live v" "inst v = ik" "host v = eik"
        by (auto simp: mem_tokens_of)
      then have "own v = k" using assms by (simp add: stored_underD)
      with v True stored_underD [OF assms] show ?thesis by (auto simp: cancels)
    qed (simp add: cancels)
  qed
  then show ?thesis
    by (auto simp: disarm_exactly_def set_sorted_values teardown_def list_all_iff cancel_event)
qed

end

lemmas token_defs = in_play_def job_tokens_def timer_tokens_def message_tokens_def signal_tokens_def condition_tokens_def
  user_task_tokens_def element_tokens_def

interpretation timer_kind: waiting_kind HTimer timers "\<lambda>t. tm_state t = TMCreated" tm_key tm_instance_key
    tm_element_instance_key cancel_timer
  by unfold_locales (auto simp: token_defs tokens_of_def cancel_timer_def)

interpretation message_kind: waiting_kind HMessage message_subscriptions subscription_in_play ms_key ms_instance_key
    ms_element_instance_key disarm_subscription_event
  by unfold_locales (auto simp: token_defs tokens_of_def disarm_subscription_event_def)

interpretation signal_kind: waiting_kind HSignal signal_subscriptions "\<lambda>t. ss_state t = SubOpen" ss_key ss_instance_key
    ss_element_instance_key cancel_signal
  by unfold_locales (auto simp: token_defs tokens_of_def cancel_signal_def)

interpretation condition_kind: waiting_kind HCondition conditional_subscriptions "\<lambda>t. cd_state t = SubOpen" cd_key
    cd_instance_key cd_element_instance_key cancel_conditional
  by unfold_locales (auto simp: token_defs tokens_of_def cancel_conditional_def)

interpretation user_task_kind: waiting_kind HUserTask user_tasks "\<lambda>t. ut_state t = UTCreated" ut_key ut_instance_key
    ut_element_instance_key cancel_user_task
  by unfold_locales (auto simp: token_defs tokens_of_def cancel_user_task_def)

interpretation job_kind: waiting_kind HJob jobs job_in_play jb_key jb_instance_key jb_element_instance_key
    "\<lambda>j. EJob (JobCanceled (jb_key j) (jb_instance_key j))"
  by unfold_locales (auto simp: token_defs tokens_of_def)

text \<open>The interpretations, in the form the engine writes the conditions in.\<close>

definition all_keyed :: "state \<Rightarrow> bool" where
  "all_keyed s \<longleftrightarrow> entity_keys_inv s \<and> stored_under jb_key (jobs s)"

lemma all_keyedD:
  assumes "all_keyed s"
  shows "stored_under pi_key (instances s)" "stored_under tm_key (timers s)" "stored_under ms_key (message_subscriptions s)"
    "stored_under ss_key (signal_subscriptions s)" "stored_under cd_key (conditional_subscriptions s)"
    "stored_under ut_key (user_tasks s)" "stored_under jb_key (jobs s)"
  using assms by (auto simp: all_keyed_def entity_keys_inv_def)

definition waiting_cancelled :: "(key \<Rightarrow> key \<Rightarrow> bool) \<Rightarrow> state \<Rightarrow> event list" where
  "waiting_cancelled Q s =
     map cancel_timer (sorted_values tm_key (\<lambda>t. Q (tm_instance_key t) (tm_element_instance_key t) \<and> tm_state t = TMCreated) (timers s))
   @ map disarm_subscription_event (sorted_values ms_key
       (\<lambda>t. Q (ms_instance_key t) (ms_element_instance_key t) \<and> subscription_in_play t) (message_subscriptions s))
   @ map cancel_signal (sorted_values ss_key
       (\<lambda>t. Q (ss_instance_key t) (ss_element_instance_key t) \<and> ss_state t = SubOpen) (signal_subscriptions s))
   @ map cancel_conditional (sorted_values cd_key
       (\<lambda>t. Q (cd_instance_key t) (cd_element_instance_key t) \<and> cd_state t = SubOpen) (conditional_subscriptions s))
   @ map cancel_user_task (sorted_values ut_key
       (\<lambda>t. Q (ut_instance_key t) (ut_element_instance_key t) \<and> ut_state t = UTCreated) (user_tasks s))"

lemma waiting_cancelled:
  assumes "all_keyed s"
  shows "disarm_exactly (waiting_cancelled Q s)
    (\<lambda>x. holder_of x \<notin> {HJob, HElement} \<and> Q (instance_of x) (host_of x)) s"
proof -
  note k = all_keyedD [OF assms]
  have "disarm_exactly (waiting_cancelled Q s) (\<lambda>x. (holder_of x = HTimer \<and> Q (instance_of x) (host_of x))
    \<or> (holder_of x = HMessage \<and> Q (instance_of x) (host_of x)) \<or> (holder_of x = HSignal \<and> Q (instance_of x) (host_of x))
    \<or> (holder_of x = HCondition \<and> Q (instance_of x) (host_of x)) \<or> (holder_of x = HUserTask \<and> Q (instance_of x) (host_of x))) s"
    unfolding waiting_cancelled_def
    by (intro disarm_append timer_kind.cancel_all message_kind.cancel_all signal_kind.cancel_all condition_kind.cancel_all
        user_task_kind.cancel_all k)
  then show ?thesis
  proof (rule disarm_cong)
    fix x :: token
    show "(holder_of x = HTimer \<and> Q (instance_of x) (host_of x))
      \<or> (holder_of x = HMessage \<and> Q (instance_of x) (host_of x)) \<or> (holder_of x = HSignal \<and> Q (instance_of x) (host_of x))
      \<or> (holder_of x = HCondition \<and> Q (instance_of x) (host_of x)) \<or> (holder_of x = HUserTask \<and> Q (instance_of x) (host_of x))
      \<longleftrightarrow> holder_of x \<notin> {HJob, HElement} \<and> Q (instance_of x) (host_of x)"
      by (cases "holder_of x") simp_all
  qed
qed

section \<open>Discarding an instance\<close>

lemma discard_events:
  "discard_instance_token_events e ik =
     map (\<lambda>j. EJob (JobCanceled (jb_key j) (jb_instance_key j)))
       (sorted_values jb_key (\<lambda>j. jb_instance_key j = ik \<and> job_in_play j) (jobs (est e)))
   @ waiting_cancelled (\<lambda>i _. i = ik) (est e)"
proof -
  have play: "(jb_state j = JCreated \<or> jb_state j = JActivated \<or> jb_state j = JFailed) = job_in_play j" for j
    by (cases "jb_state j") (simp_all add: job_in_play_def)
  have "map (\<lambda>j. EJob (JobCanceled (jb_key j) ik)) (sorted_values jb_key (\<lambda>j. jb_instance_key j = ik \<and> job_in_play j) m)
      = map (\<lambda>j. EJob (JobCanceled (jb_key j) (jb_instance_key j)))
          (sorted_values jb_key (\<lambda>j. jb_instance_key j = ik \<and> job_in_play j) m)" for m
    by (simp add: set_sorted_values)
  then show ?thesis
    by (simp add: discard_instance_token_events_def waiting_cancelled_def play subscription_in_play_def)
qed

lemma discard_disarms:
  assumes "all_keyed (est e)"
  shows "disarm_exactly (discard_instance_events e ik) (\<lambda>x. instance_of x = ik) (est e)"
proof -
  have "disarm_exactly [ELifecycle (ProcessInstanceTerminated ik)] (\<lambda>x. holder_of x = HElement \<and> instance_of x = ik) (est e)"
    by (auto simp: disarm_exactly_def teardown_def)
  then have "disarm_exactly (discard_instance_events e ik) (\<lambda>x. ((holder_of x = HJob \<and> instance_of x = ik)
      \<or> (holder_of x \<notin> {HJob, HElement} \<and> instance_of x = ik)) \<or> (holder_of x = HElement \<and> instance_of x = ik)) (est e)"
    unfolding discard_instance_events_def discard_events
    by (intro disarm_append waiting_cancelled assms
        job_kind.cancel_all [where Q = "\<lambda>i _. i = ik"] all_keyedD(7))
  then show ?thesis by (rule disarm_cong) auto
qed

lemma emits_disarm:
  "disarm_exactly evs P (est (fst el)) \<Longrightarrow> emits evs el el' \<Longrightarrow>
   in_play (est (fst el')) = {x \<in> in_play (est (fst el)). \<not> P x}"
  by (auto simp: disarm_exactly_def emits_in_play)

lemma keyed_jobs_part: "job_part s' = job_part s \<Longrightarrow> stored_under jb_key (jobs s) \<Longrightarrow> stored_under jb_key (jobs s')"
  by (simp add: job_part_def)

lemma keyed_jobs_job: "stored_under jb_key (jobs s) \<Longrightarrow> stored_under jb_key (jobs (apply_job je s))"
  by (cases je) (auto simp: job_arm_defs insert_job_def Let_def)

lemma keyed_jobs_incident: "stored_under jb_key (jobs s) \<Longrightarrow> stored_under jb_key (jobs (apply_incident ie s))"
  by (cases ie) (auto simp: incident_arm_defs Let_def split: option.split)

lemma keyed_jobs_lifecycle: "stored_under jb_key (jobs s) \<Longrightarrow> stored_under jb_key (jobs (apply_lifecycle le s))"
proof (cases le)
  case (ProcessInstanceMigrated ik pid pdk mappings)
  assume "stored_under jb_key (jobs s)"
  then have "stored_under jb_key (jobs (migrate_inflight p pid (on_instance ik f s)))" for p f
    by (rule keyed_jobs_part [rotated]) simp
  then show ?thesis
    by (auto simp: ProcessInstanceMigrated apply_ProcessInstanceMigrated_def Let_def migrate_attached_def)
qed (auto simp: apply_ProcessInstanceCompleted_def apply_ProcessInstanceTerminated_def
    apply_ProcessInstanceTerminating_def apply_ProcessInstanceSuspended_def apply_ProcessInstanceResumed_def Let_def)

lemma step_keyed: "all_keyed s \<Longrightarrow> all_keyed (apply_event ev s)"
  by (cases ev) (auto simp: all_keyed_def entity_keys_families keyed_jobs_job keyed_jobs_incident keyed_jobs_lifecycle
      elim: keyed_jobs_part [rotated])

interpretation keyed: event_invariant all_keyed "\<lambda>_ _. True"
proof
  show "all_keyed state_new" by (simp add: all_keyed_def entity_keys_inv_def state_new_def)
qed (rule step_keyed)

lemma emits_keyed: "emits evs el el' \<Longrightarrow> teardown evs \<Longrightarrow> all_keyed (est (fst el)) \<Longrightarrow> all_keyed (est (fst el'))"
proof (erule (1) emits_new)
  fix new
  assume "est (fst el') = fold apply_event new (est (fst el))" "all_keyed (est (fst el))"
  moreover have "admissible (\<lambda>_ _. True) new s" for s by (induction new arbitrary: s) simp_all
  ultimately show ?thesis using keyed.run by simp
qed

text \<open>The effect of discarding one instance, and of discarding several.\<close>

definition terminate_standing :: "key set \<Rightarrow> state \<Rightarrow> key \<Rightarrow> (key \<times> key option \<times> process_instance_state) option" where
  "terminate_standing ks s k =
     map_option (\<lambda>(own, parent, st). (own, parent, if k \<in> ks then PITerminated else st)) (standing s k)"

definition discards :: "key set \<Rightarrow> logged \<Rightarrow> logged \<Rightarrow> bool" where
  "discards ks el el' \<longleftrightarrow> all_keyed (est (fst el')) \<and> in_play (est (fst el')) = {x \<in> in_play (est (fst el)). instance_of x \<notin> ks}
     \<and> standing (est (fst el')) = terminate_standing ks (est (fst el))
     \<and> fset (ended_in (snd el')) = fset (ended_in (snd el)) \<union> ks"

lemma discards_trans: "discards ks a b \<Longrightarrow> discards ls b c \<Longrightarrow> discards (ks \<union> ls) a c"
  by (auto simp: discards_def terminate_standing_def fun_eq_iff option.map_comp comp_def split_beta intro!: option.map_cong)

lemma terminated_discard: "all_keyed (est e) \<Longrightarrow> terminated_in (discard_instance_events e ik) = {ik}"
  by (auto simp: terminated_in_def discard_instance_events_def discard_events waiting_cancelled_def cancel_timer_def
      cancel_signal_def cancel_conditional_def cancel_user_task_def disarm_subscription_event_def split: if_splits)

lemma mem_ended_in: "k \<in> fset (ended_in log) \<longleftrightarrow> (\<exists>ev \<in> set log. terminal_instance_key ev = Some k)"
  by (induction log) (auto simp: ended_in_def List.map_filter_simps split: option.split)

lemma ended_in_append: "fset (ended_in (xs @ ys)) = fset (ended_in xs) \<union> fset (ended_in ys)"
  by (auto simp: set_eq_iff mem_ended_in)

lemma ended_in_teardown: "teardown evs \<Longrightarrow> fset (ended_in evs) = terminated_in evs"
proof -
  assume "teardown evs"
  moreover have "terminal_instance_key ev = Some k \<longleftrightarrow> ev = ELifecycle (ProcessInstanceTerminated k)" if "teardown_event ev" for ev k
    using that by (cases rule: teardown_event.cases) (auto simp: terminal_instance_key_def)
  ultimately show ?thesis
    by (auto simp: set_eq_iff mem_ended_in terminated_in_def teardown_def list_all_iff)
qed

lemma emits_ended:
  "emits evs el el' \<Longrightarrow> teardown evs \<Longrightarrow> fset (ended_in (snd el')) = fset (ended_in (snd el)) \<union> terminated_in evs"
  by (erule (1) emits_new) (simp add: ended_in_append ended_in_teardown terminated_in_def)

lemma discard_one:
  assumes "all_keyed (est (fst el))"
  shows "discards {ik} el (discard_and_terminate_instance ik el)"
proof -
  let ?evs = "discard_instance_events (fst el) ik"
  have d: "disarm_exactly ?evs (\<lambda>x. instance_of x = ik) (est (fst el))" using assms by (rule discard_disarms)
  then have t: "teardown ?evs" by (simp add: disarm_exactly_def)
  have e: "emits ?evs el (discard_and_terminate_instance ik el)"
    unfolding discard_and_terminate_instance_def by (rule emits_fold_emit)
  from emits_keyed [OF e t assms] emits_disarm [OF d e] emits_standing [OF e t] emits_ended [OF e t]
  show ?thesis by (simp add: discards_def terminate_standing_def fun_eq_iff terminated_discard [OF assms])
qed

lemma discard_many:
  "all_keyed (est (fst el)) \<Longrightarrow> discards (set ks) el (fold discard_and_terminate_instance ks el)"
proof (induction ks arbitrary: el)
  case Nil
  then show ?case
    by (auto simp: discards_def terminate_standing_def fun_eq_iff split_beta option.map_id)
next
  case (Cons k ks)
  from discard_one [OF Cons.prems, of k] have one: "discards {k} el (discard_and_terminate_instance k el)" .
  then have "all_keyed (est (fst (discard_and_terminate_instance k el)))" by (simp add: discards_def)
  from discards_trans [OF one Cons.IH [OF this]] show ?case by simp
qed

text \<open>discarding an instance takes out of play exactly what belongs to it (its jobs, timers,
  subscriptions, user tasks and active element instances) and terminates it; every other instance
  keeps its state and everything it has in play.\<close>

theorem discarded_instance_out_of_play:
  assumes "all_keyed (est e)" "discard_and_terminate_instance ik (e, log) = (e', log')"
  shows "in_play (est e') = {x \<in> in_play (est e). instance_of x \<noteq> ik}
    \<and> (\<forall>k. standing (est e') k = (if k = ik then map_option (\<lambda>(own, parent, _). (own, parent, PITerminated)) (standing (est e) k)
          else standing (est e) k))"
  using discard_one [of "(e, log)" ik] assms
  by (auto simp: discards_def terminate_standing_def split_beta option.map_id)

definition two_instances :: engine where
  "two_instances = engine_of (state_new\<lparr>
     instances := fmupd 2 (running_instance\<lparr> pi_key := 2, pi_active := fmupd 4 ''task'' fmempty \<rparr>)
       (fmupd 1 (running_instance\<lparr> pi_active := fmupd 3 ''wait'' fmempty \<rparr>) fmempty),
     timers := fmupd 5 \<lparr> tm_key = 5, tm_instance_key = 1, tm_element_instance_key = 3, tm_element_id = ''wait'',
       tm_due_at = 99, tm_state = TMCreated, tm_kind = TimerIntermediateCatch \<rparr> fmempty \<rparr>) 0 10"

lemma two_instances_keyed: "all_keyed (est two_instances)"
  by (auto simp: all_keyed_def entity_keys_inv_def two_instances_def engine_of_def state_new_def running_instance_def
      intro!: stored_under_upd)

lemma two_instances_play: "(HTimer, 5, 1, 3) \<in> in_play (est two_instances)" "(HElement, 4, 2, 4) \<in> in_play (est two_instances)"
  by (auto simp: token_defs mem_tokens_of two_instances_def engine_of_def)

theorem discarded_instance_out_of_play_witness:
  "\<exists>e' log'. discard_and_terminate_instance 1 (two_instances, []) = (e', log')
     \<and> (HTimer, 5, 1, 3) \<in> in_play (est two_instances) \<and> (HTimer, 5, 1, 3) \<notin> in_play (est e')
     \<and> (HElement, 4, 2, 4) \<in> in_play (est e') \<and> standing (est e') 1 = Some (1, None, PITerminated)"
proof -
  obtain e' log' where d: "discard_and_terminate_instance 1 (two_instances, []) = (e', log')" by fastforce
  have "standing (est two_instances) 1 = Some (1, None, PIActive)"
    by (simp add: standing_def two_instances_def engine_of_def running_instance_def)
  with d two_instances_play discarded_instance_out_of_play [OF two_instances_keyed d] show ?thesis by simp
qed

end
