(* ===== verification/Scope_Teardown.thy ===== *)
theory Scope_Teardown
  imports Teardown
begin

text \<open>
  Searching and tearing down scopes: the walk down a scope tree finds exactly what the scope encloses,
  the walk up finds the nearest enclosing boundary event that catches, and tearing a scope down leaves
  nothing in play inside it.
\<close>

section \<open>Everything a scope encloses\<close>

definition parent_of :: "(key, key) fmap \<Rightarrow> (key \<times> key) set" where
  "parent_of m = {(child, parent). fmlookup m child = Some parent}"

definition enclosed :: "(key, key) fmap \<Rightarrow> key \<Rightarrow> key set" where
  "enclosed m scope = {k. (k, scope) \<in> (parent_of m)\<^sup>+}"

lemma set_children_of: "set (children_of m p) = {c. (c, p) \<in> parent_of m}"
  by (force simp: children_of_def parent_of_def set_sorted_list_of_fmap)

lemma distinct_children_of: "distinct (children_of m p)"
  unfolding children_of_def by (rule distinct_map_filter) (rule distinct_sorted_list_of_fmap)

lemma enclosed_unfold: "enclosed m p = set (children_of m p) \<union> (\<Union>c \<in> set (children_of m p). enclosed m c)"
proof -
  have "(k, p) \<in> (parent_of m)\<^sup>+ \<longleftrightarrow> (k, p) \<in> parent_of m \<or> (\<exists>c. (k, c) \<in> (parent_of m)\<^sup>+ \<and> (c, p) \<in> parent_of m)" for k
    by (auto elim: tranclE intro: trancl_into_trancl)
  then show ?thesis by (auto simp: enclosed_def set_children_of)
qed

lemma enclosed_greater: "increasing m \<Longrightarrow> k \<in> enclosed m p \<Longrightarrow> p < k"
proof -
  assume m: "increasing m" and "k \<in> enclosed m p"
  then have "(k, p) \<in> (parent_of m)\<^sup>+" by (simp add: enclosed_def)
  then show ?thesis by induction (auto simp: parent_of_def dest: increasingD [OF m])
qed

lemma single_parent: "single_valued (parent_of m)"
  by (auto simp: single_valued_def parent_of_def)

lemma enclosed_parent: "increasing m \<Longrightarrow> k \<in> enclosed m c \<Longrightarrow> fmlookup m k = Some p \<Longrightarrow> c \<le> p"
proof -
  assume m: "increasing m" and "k \<in> enclosed m c" "fmlookup m k = Some p"
  then have "(k, c) \<in> (parent_of m)\<^sup>+" "(k, p) \<in> parent_of m" by (auto simp: enclosed_def parent_of_def)
  then have "(p, c) \<in> (parent_of m)\<^sup>*" using single_parent [of m]
    by (metis single_valuedD tranclD)
  then show ?thesis using enclosed_greater [OF m, of p c] by (auto simp: enclosed_def rtrancl_eq_or_trancl)
qed

lemma enclosed_disjoint:
  assumes m: "increasing m" and "c \<in> set (children_of m p)" "d \<in> set (children_of m p)" "k \<in> enclosed m c" "k \<in> enclosed m d"
  shows "c = d"
proof -
  have "(k, c) \<in> (parent_of m)\<^sup>*" "(k, d) \<in> (parent_of m)\<^sup>*" using assms(4,5) by (auto simp: enclosed_def)
  then have "(c, d) \<in> (parent_of m)\<^sup>* \<or> (d, c) \<in> (parent_of m)\<^sup>*" by (rule single_valued_confluent [OF single_parent])
  then have "c = d \<or> c \<in> enclosed m d \<or> d \<in> enclosed m c" by (auto simp: enclosed_def rtrancl_eq_or_trancl)
  moreover have "\<not> a \<le> p" if "a \<in> set (children_of m p)" for a
    using that increasingD [OF m, of a p] by (auto simp: set_children_of parent_of_def)
  ultimately show ?thesis
    using assms(2,3) enclosed_parent [OF m, of c d p] enclosed_parent [OF m, of d c p] by (auto simp: set_children_of parent_of_def)
qed

text \<open>One node of the walk: everything below it is appended, each once.\<close>

lemma descend_node:
  assumes m: "increasing m"
  shows "\<exists>out. set out = enclosed m p \<and> distinct out \<and> (\<forall>rest res. descend m (p # rest) res = descend m rest (res @ out))"
proof (induction p rule: measure_induct_rule [of "\<lambda>p. 2 ^ 64 - unat p"])
  case (less p)
  have child: "\<exists>out. set out = enclosed m c \<and> distinct out \<and> (\<forall>rest res. descend m (c # rest) res = descend m rest (res @ out))"
    if "c \<in> set (children_of m p)" for c
  proof (rule less.IH)
    have "p < c" using that increasingD [OF m] by (auto simp: set_children_of parent_of_def)
    then show "2 ^ 64 - unat c < 2 ^ 64 - unat p" using unat_less_2_64 [of c] by (simp add: word_less_nat_alt)
  qed
  have "\<exists>out. set out = (\<Union>c \<in> set cs. enclosed m c) \<and> distinct out
      \<and> (\<forall>rest res. descend m (cs @ rest) res = descend m rest (res @ out))"
    if "set cs \<subseteq> set (children_of m p)" "distinct cs" for cs
    using that
  proof (induction cs)
    case (Cons c cs)
    then obtain out where out: "set out = (\<Union>c \<in> set cs. enclosed m c)" "distinct out"
      "\<forall>rest res. descend m (cs @ rest) res = descend m rest (res @ out)" by auto
    have "c \<in> set (children_of m p)" using Cons.prems by simp
    from child [OF this] obtain o1 where o1: "set o1 = enclosed m c" "distinct o1"
      "\<forall>rest res. descend m (c # rest) res = descend m rest (res @ o1)" by blast
    have "set o1 \<inter> set out = {}"
      using Cons.prems enclosed_disjoint [OF m, of c p] by (auto simp: out o1)
    with out o1 show ?case by (intro exI [of _ "o1 @ out"]) auto
  qed simp
  from this [of "rev (children_of m p)"] obtain out where out: "set out = (\<Union>c \<in> set (children_of m p). enclosed m c)"
    "distinct out" "\<forall>rest res. descend m (rev (children_of m p) @ rest) res = descend m rest (res @ out)"
    by (auto simp: distinct_children_of)
  have "c \<notin> enclosed m d" if "c \<in> set (children_of m p)" "d \<in> set (children_of m p)" for c d
    using that enclosed_parent [OF m, of c d p] increasingD [OF m, of d p] by (auto simp: set_children_of parent_of_def)
  then have "distinct (children_of m p @ out)" by (auto simp: out distinct_children_of)
  moreover have "set (children_of m p @ out) = enclosed m p" by (simp add: out enclosed_unfold [of m p])
  moreover have "descend m (p # rest) res = descend m rest (res @ (children_of m p @ out))" for rest res
    by (subst descend.simps) (simp add: out)
  ultimately show ?case by blast
qed

lemma scope_descendants_enclosed:
  assumes "fmlookup (instances (est e)) ik = Some i" "increasing (pi_scopes i)"
  shows "\<exists>ds. scope_descendants e ik scope = Some ds \<and> sorted ds \<and> distinct ds \<and> set ds = enclosed (pi_scopes i) scope"
proof -
  from descend_node [OF assms(2), of scope] obtain out where out: "set out = enclosed (pi_scopes i) scope" "distinct out"
    "\<forall>rest res. descend (pi_scopes i) (scope # rest) res = descend (pi_scopes i) rest (res @ out)" by blast
  then have "descend (pi_scopes i) [scope] [] = descend (pi_scopes i) [] out" by simp
  then have "descend (pi_scopes i) [scope] [] = Some out" by (simp add: descend.simps [of _ "[]"])
  with out(1,2) assms(1) show ?thesis by (simp add: scope_descendants_def)
qed

section \<open>The nearest boundary event that catches\<close>

definition name_of :: "process_instance \<Rightarrow> key \<Rightarrow> elementid" where
  "name_of i k = the (fmlookup (pi_active i) k)"

definition nearest_catch :: "(elementid \<Rightarrow> 'b option) \<Rightarrow> process_instance \<Rightarrow> key list \<Rightarrow> ('b \<times> key \<times> elementid) option" where
  "nearest_catch catch i chain = map_option (\<lambda>k. (the (catch (name_of i k)), k, name_of i k))
     (List.find (\<lambda>k. catch (name_of i k) \<noteq> None) chain)"

lemma nearest_catch_Cons: "nearest_catch catch i (k # ks) =
    (case catch (name_of i k) of Some b \<Rightarrow> Some (b, k, name_of i k) | None \<Rightarrow> nearest_catch catch i ks)"
  by (simp add: nearest_catch_def split: option.split)

lemma catching_error_nearest:
  assumes i: "fmlookup (instances (est e)) ik = Some i" and m: "scopes_ordered i"
  shows "scope_chain (pi_scopes i) eik = Some chain \<Longrightarrow> set chain \<subseteq> fset (fmdom (pi_active i)) \<Longrightarrow>
    find_catching_error_boundary e ik (name_of i eik) eik code = Some (nearest_catch (\<lambda>eid. find_error_boundary e ik eid code) i chain)"
proof -
  have inc: "increasing (pi_scopes i)" and zero: "0 |\<notin>| fmdom (pi_active i)" using m by (auto simp: scopes_ordered_def)
  show "scope_chain (pi_scopes i) eik = Some chain \<Longrightarrow> set chain \<subseteq> fset (fmdom (pi_active i)) \<Longrightarrow> ?thesis"
  proof (induction eik arbitrary: chain rule: upward_induct [OF inc])
    case (1 k)
    then show ?case
      by (subst find_catching_error_boundary.simps)
        (auto simp: nearest_catch_Cons scope_chain_end scope_of_def i nearest_catch_def split: option.split)
  next
    case (2 k p)
    then obtain rest where chain: "scope_chain (pi_scopes i) p = Some rest" "chain = k # rest"
      by (auto simp: scope_chain_up [OF inc])
    obtain rest' where "rest = p # rest'" using scope_chain_returns [OF inc, of p] chain(1) by auto
    then have p: "p |\<in>| fmdom (pi_active i)" using 2(5) chain(2) by auto
    then have "p \<noteq> 0" "fmlookup (pi_active i) p = Some (name_of i p)" using zero by (auto simp: name_of_def)
    with 2 chain show ?case
      by (subst find_catching_error_boundary.simps)
        (auto simp: nearest_catch_Cons scope_of_def i element_id_of_instance_def split: option.split)
  qed
qed

lemma catching_escalation_nearest:
  assumes i: "fmlookup (instances (est e)) ik = Some i" and m: "scopes_ordered i"
  shows "scope_chain (pi_scopes i) eik = Some chain \<Longrightarrow> set chain \<subseteq> fset (fmdom (pi_active i)) \<Longrightarrow>
    find_catching_escalation_boundary e ik eik code =
      Some (map_option (\<lambda>((b, interrupting), k, eid). (b, k, eid, interrupting))
        (nearest_catch (\<lambda>eid. find_escalation_boundary e ik eid code) i chain))"
proof -
  have inc: "increasing (pi_scopes i)" and zero: "0 |\<notin>| fmdom (pi_active i)" using m by (auto simp: scopes_ordered_def)
  have at_zero: "find_catching_escalation_boundary e ik 0 code = Some None"
    by (subst find_catching_escalation_boundary.simps) simp
  show "scope_chain (pi_scopes i) eik = Some chain \<Longrightarrow> set chain \<subseteq> fset (fmdom (pi_active i)) \<Longrightarrow> ?thesis"
  proof (induction eik arbitrary: chain rule: upward_induct [OF inc])
    case (1 k)
    then have "k |\<in>| fmdom (pi_active i)" by (auto simp: scope_chain_end)
    then have "k \<noteq> 0" "fmlookup (pi_active i) k = Some (name_of i k)" using zero by (auto simp: name_of_def)
    with 1 show ?case
      by (subst find_catching_escalation_boundary.simps)
        (auto simp: nearest_catch_Cons scope_chain_end scope_of_def i element_id_of_instance_def at_zero nearest_catch_def
          split: option.split)
  next
    case (2 k p)
    then obtain rest where chain: "scope_chain (pi_scopes i) p = Some rest" "chain = k # rest"
      by (auto simp: scope_chain_up [OF inc])
    with 2(5) have "k |\<in>| fmdom (pi_active i)" by simp
    then have "k \<noteq> 0" "fmlookup (pi_active i) k = Some (name_of i k)" using zero by (auto simp: name_of_def)
    with 2 chain show ?case
      by (subst find_catching_escalation_boundary.simps)
        (auto simp: nearest_catch_Cons scope_of_def i element_id_of_instance_def split: option.split)
  qed
qed

section \<open>Tearing a scope down\<close>

text \<open>The job that tearing an element instance down cancels: one that is in play on it, if there is any. The code takes it
  from the iteration over a hash map, so nothing may depend on which one it is.\<close>

fun key_of :: "token \<Rightarrow> key" where "key_of (_, k, _) = k"

definition one_job_of :: "state \<Rightarrow> key \<Rightarrow> key option \<Rightarrow> bool" where
  "one_job_of s eik choice \<longleftrightarrow> (case choice of
     None \<Rightarrow> \<not> (\<exists>k ik. (HJob, k, ik, eik) \<in> in_play s)
   | Some k \<Rightarrow> \<exists>ik. (HJob, k, ik, eik) \<in> in_play s)"

lemma active_job_disarms:
  assumes "all_keyed (est e)"
  shows "one_job_of (est e) eik (active_job_on e eik)
    \<and> disarm_exactly (option_event (\<lambda>jk. EJob (JobCanceled jk ik)) (active_job_on e eik))
      (\<lambda>x. holder_of x = HJob \<and> host_of x = eik \<and> active_job_on e eik = Some (key_of x)) (est e)"
proof -
  let ?P = "\<lambda>j. jb_element_instance_key j = eik \<and> jb_state j \<notin> {JCompleted, JErrored, JCanceled}"
  have token: "(HJob, k, ik', eik) \<in> in_play (est e) \<longleftrightarrow> (\<exists>j. fmlookup (jobs (est e)) k = Some j \<and> ?P j \<and> jb_instance_key j = ik')"
    for k ik' by (auto simp: token_defs mem_tokens_of job_in_play_def)
  have jobs: "j \<in> set (map snd (sorted_list_of_fmap (jobs (est e)))) \<longleftrightarrow> (\<exists>k. fmlookup (jobs (est e)) k = Some j)" for j
    by (force simp: set_sorted_list_of_fmap [symmetric])
  show ?thesis
  proof (cases "List.find ?P (map snd (sorted_list_of_fmap (jobs (est e))))")
    case None
    then have "\<not> (fmlookup (jobs (est e)) k = Some j \<and> ?P j)" for k j
      using jobs [of j] unfolding find_None_iff by metis
    then have "(HJob, k, ik', eik) \<notin> in_play (est e)" for k ik' by (auto simp: token)
    moreover have "active_job_on e eik = None" using None by (simp add: active_job_on_def)
    ultimately show ?thesis by (auto simp: option_event_def one_job_of_def intro!: disarm_nil)
  next
    case (Some j)
    then have "j \<in> set (map snd (sorted_list_of_fmap (jobs (est e))))" "?P j"
      unfolding find_Some_iff by (metis nth_mem)+
    then obtain k where k: "fmlookup (jobs (est e)) k = Some j" using jobs by blast
    then have "jb_key j = k" using all_keyedD(7) [OF assms] by (rule stored_underD [rotated])
    then have evs: "active_job_on e eik = Some k" using Some by (simp add: active_job_on_def)
    have tok: "(HJob, k, jb_instance_key j, eik) \<in> in_play (est e)" using k \<open>?P j\<close> by (auto simp: token)
    have "eik' = eik" if "(HJob, k, ik', eik') \<in> in_play (est e)" for ik' eik'
      using that k \<open>?P j\<close> by (auto simp: token_defs mem_tokens_of)
    then have "disarms (EJob (JobCanceled k ik)) x = (holder_of x = HJob \<and> host_of x = eik \<and> k = key_of x)"
      if "x \<in> in_play (est e)" for x
      using that by (cases x) auto
    then have "disarm_exactly [EJob (JobCanceled k ik)] (\<lambda>x. holder_of x = HJob \<and> host_of x = eik \<and> Some k = Some (key_of x)) (est e)"
      by (simp add: disarm_exactly_def teardown_def)
    moreover have "one_job_of (est e) eik (Some k)" using tok by (auto simp: one_job_of_def)
    ultimately show ?thesis by (simp add: evs option_event_def)
  qed
qed

text \<open>Events that disarm nothing.\<close>

lemma inert: "teardown evs \<Longrightarrow> (\<And>ev x. ev \<in> set evs \<Longrightarrow> \<not> disarms ev x) \<Longrightarrow> disarm_exactly evs (\<lambda>_. False) s"
  by (auto simp: disarm_exactly_def)

lemma element_host: "x \<in> in_play s \<Longrightarrow> x = (HElement, k, ik, eik) \<Longrightarrow> eik = k"
  by (auto simp: token_defs tokens_of_def)

definition torn_down :: "engine \<Rightarrow> key \<Rightarrow> key \<Rightarrow> token \<Rightarrow> bool" where
  "torn_down e ik eik x \<longleftrightarrow> (host_of x = eik \<and> (holder_of x = HElement \<longrightarrow> instance_of x = ik)
       \<and> (holder_of x = HJob \<longrightarrow> active_job_on e eik = Some (key_of x)))
     \<or> call_activity_child_of e eik = Some (instance_of x)"

lemma element_teardown_disarms:
  assumes "all_keyed (est e)"
  shows "disarm_exactly (element_teardown e ik eik) (torn_down e ik eik) (est e)"
proof -
  define eid where "eid = (case element_id_of_instance e ik eik of None \<Rightarrow> [] | Some x \<Rightarrow> x)"
  define rest where "rest = resolve_incidents_on e ik eik @ runtime_records e ik eik
    @ (if join_eik e ik eid = Some eik then [EElement (ParallelJoinReset ik eid)] else [])
    @ [EElement (ElementCompleting ik eik eid)]"
  have split: "element_teardown e ik eik =
      (case call_activity_child_of e eik of None \<Rightarrow> [] | Some child \<Rightarrow> discard_instance_events e child)
    @ option_event (\<lambda>jk. EJob (JobCanceled jk ik)) (active_job_on e eik)
    @ waiting_cancelled (\<lambda>_ h. h = eik) (est e) @ rest @ [EElement (ElementCompleted ik eik eid)]"
    by (simp add: element_teardown_def Let_def eid_def rest_def waiting_cancelled_def cancel_all_timers_on_def
        cancel_all_subscriptions_on_def cancel_all_signal_subscriptions_on_def cancel_all_conditional_subscriptions_on_def
        cancel_created_user_tasks_on_def subscription_in_play_def)
  have child: "disarm_exactly (case call_activity_child_of e eik of None \<Rightarrow> [] | Some child \<Rightarrow> discard_instance_events e child)
      (\<lambda>x. call_activity_child_of e eik = Some (instance_of x)) (est e)"
    using discard_disarms [OF assms] by (cases "call_activity_child_of e eik") (auto intro: disarm_nil disarm_cong)
  have rest: "disarm_exactly rest (\<lambda>_. False) (est e)"
    by (rule inert) (auto simp: rest_def teardown_def list_all_iff resolve_incidents_on_def resolve_incident_def runtime_records_def
        split: if_splits)
  have own: "disarm_exactly [EElement (ElementCompleted ik eik eid)]
      (\<lambda>x. holder_of x = HElement \<and> host_of x = eik \<and> instance_of x = ik) (est e)"
    by (auto simp: disarm_exactly_def teardown_def dest: element_host)
  show ?thesis unfolding split
    by (rule disarm_cong [OF disarm_append [OF child disarm_append [OF conjunct2 [OF active_job_disarms [OF assms]]
            disarm_append [OF waiting_cancelled [OF assms] disarm_append [OF rest own]]]]])
      (auto simp: torn_down_def)
qed

lemma compensation_inert: "disarm_exactly (compensation_cleanup e ik scopes) (\<lambda>_. False) s"
  by (rule inert) (auto simp: compensation_cleanup_def teardown_def split: option.splits if_splits)

lemma scope_teardown_disarms:
  assumes "all_keyed (est e)" "fmlookup (instances (est e)) ik = Some i" "increasing (pi_scopes i)"
  shows "\<exists>evs. scope_teardown_events e ik scope = Some evs
    \<and> disarm_exactly evs (\<lambda>x. \<exists>d \<in> enclosed (pi_scopes i) scope. torn_down e ik d x) (est e)"
proof -
  from scope_descendants_enclosed [OF assms(2,3), of scope] obtain ds where
    ds: "scope_descendants e ik scope = Some ds" "set ds = enclosed (pi_scopes i) scope" by blast
  have "disarm_exactly (concat (map (element_teardown e ik) ds) @ compensation_cleanup e ik (ds @ [scope]))
      (\<lambda>x. (\<exists>d \<in> set ds. torn_down e ik d x) \<or> False) (est e)"
    by (intro disarm_append disarm_concat compensation_inert element_teardown_disarms assms(1))
  with ds show ?thesis by (simp add: scope_teardown_events_def)
qed

lemma torn_down_scopes_frame:
  "scope_teardown_events (e\<lparr> torn_down_scopes := x \<rparr>) ik scope = scope_teardown_events e ik scope"
  by (simp add: scope_teardown_events_def scope_descendants_def element_teardown_def [abs_def] compensation_cleanup_def
      element_id_of_instance_def call_activity_child_of_def discard_instance_events_def discard_instance_token_events_def
      active_job_on_def cancel_all_timers_on_def cancel_all_subscriptions_on_def cancel_all_signal_subscriptions_on_def
      cancel_all_conditional_subscriptions_on_def cancel_created_user_tasks_on_def resolve_incidents_on_def
      resolve_incident_def [abs_def] runtime_records_def is_multi_instance_body_def is_adhoc_container_def join_eik_def
      cong: option.case_cong)

lemma terminate_scope_effect:
  assumes "all_keyed (est (fst el))" "fmlookup (instances (est (fst el))) ik = Some i"
    "increasing (pi_scopes i)"
  shows "\<exists>el'. terminate_subprocess_scope ik scope el = Some el' \<and> in_play (est (fst el')) =
    {x \<in> in_play (est (fst el)). \<not> (\<exists>d \<in> enclosed (pi_scopes i) scope. torn_down (fst el) ik d x)}"
proof -
  let ?e1 = "(fst el)\<lparr> torn_down_scopes := finsert scope (torn_down_scopes (fst el)) \<rparr>"
  from scope_teardown_disarms [OF assms, of scope] obtain evs where evs: "scope_teardown_events (fst el) ik scope = Some evs"
    "disarm_exactly evs (\<lambda>x. \<exists>d \<in> enclosed (pi_scopes i) scope. torn_down (fst el) ik d x) (est (fst el))" by blast
  then have "terminate_subprocess_scope ik scope el = Some (fold emit evs (?e1, snd el))"
    by (simp add: terminate_subprocess_scope_def Let_def torn_down_scopes_frame)
  moreover have "disarm_exactly evs (\<lambda>x. \<exists>d \<in> enclosed (pi_scopes i) scope. torn_down (fst el) ik d x) (est (fst (?e1, snd el)))"
    using evs(2) by simp
  from emits_disarm [OF this emits_fold_emit]
  have "in_play (est (fst (fold emit evs (?e1, snd el)))) =
    {x \<in> in_play (est (fst el)). \<not> (\<exists>d \<in> enclosed (pi_scopes i) scope. torn_down (fst el) ik d x)}" by simp
  ultimately show ?thesis by blast
qed

section \<open>Properties of scopes\<close>

text \<open>C30: the walk down the scope tree returns, and lists in key order, each once, exactly the element instances
  enclosed by the scope at any depth.\<close>

theorem scope_walk_complete:
  assumes "fmlookup (instances (est e)) ik = Some i" "scopes_ordered i"
  shows "\<exists>ds. scope_descendants e ik scope = Some ds \<and> sorted ds \<and> distinct ds
    \<and> set ds = {k. (k, scope) \<in> (parent_of (pi_scopes i))\<^sup>+}"
  using scope_descendants_enclosed [OF assms(1), of scope] assms(2) by (simp add: scopes_ordered_def enclosed_def)

text \<open>C16: an error, or an escalation, is caught by the nearest enclosing activity that has a matching boundary
  event, starting at the activity that raised it; the search returns, and finds nothing only if no
  enclosing activity catches.\<close>

theorem nearest_boundary_catches:
  assumes "fmlookup (instances (est e)) ik = Some i" "scopes_ordered i"
    "scope_chain (pi_scopes i) eik = Some chain" "set chain \<subseteq> fset (fmdom (pi_active i))"
  shows "find_catching_error_boundary e ik (name_of i eik) eik code =
      Some (nearest_catch (\<lambda>eid. find_error_boundary e ik eid code) i chain)
    \<and> find_catching_escalation_boundary e ik eik code =
      Some (map_option (\<lambda>((b, interrupting), k, eid). (b, k, eid, interrupting))
        (nearest_catch (\<lambda>eid. find_escalation_boundary e ik eid code) i chain))"
  using catching_error_nearest [OF assms] catching_escalation_nearest [OF assms] by simp


text \<open>The other job of an element instance with two jobs stays in play on a torn-down element instance.\<close>

lemma second_job_survives:
  assumes "all_keyed (est e)" "fmlookup (instances (est e)) ik = Some i" "scopes_ordered i" "d \<in> enclosed (pi_scopes i) scope"
    and "(HJob, j, ik, d) \<in> in_play (est e)" "(HJob, k, ik, d) \<in> in_play (est e)" "j \<noteq> k"
    and "\<forall>d \<in> enclosed (pi_scopes i) scope. call_activity_child_of e d \<noteq> Some ik"
  shows "\<exists>e' log'. terminate_subprocess_scope ik scope (e, log) = Some (e', log')
    \<and> ((HJob, j, ik, d) \<in> in_play (est e') \<or> (HJob, k, ik, d) \<in> in_play (est e')) \<and> (HElement, d, ik, d) \<notin> in_play (est e')"
proof -
  have "increasing (pi_scopes i)" using assms(3) by (simp add: scopes_ordered_def)
  from terminate_scope_effect [of "(e, log)", simplified, OF assms(1,2) this, of scope]
  obtain e' log' where effect: "terminate_subprocess_scope ik scope (e, log) = Some (e', log')"
      "in_play (est e') = {x \<in> in_play (est e). \<not> (\<exists>d \<in> enclosed (pi_scopes i) scope. torn_down e ik d x)}" by auto
  have "torn_down e ik d (HElement, d, ik, d)" by (simp add: torn_down_def)
  then have "(HElement, d, ik, d) \<notin> in_play (est e')" using effect(2) assms(4) by blast
  moreover obtain l where "l \<in> {j, k}" "active_job_on e d \<noteq> Some l" using assms(7) by (metis insertCI option.inject)
  then have "(HJob, l, ik, d) \<in> in_play (est e')" using effect(2) assms(5,6,8) by (auto simp: torn_down_def)
  ultimately show ?thesis using effect(1) \<open>l \<in> {j, k}\<close> by blast
qed

definition sub_process :: process_instance where
  "sub_process = running_instance\<lparr> pi_active := fmupd 3 ''sub'' (fmupd 5 ''inner'' (fmupd 7 ''task'' (fmupd 8 ''other'' fmempty))),
     pi_scopes := fmupd 5 3 (fmupd 7 5 fmempty) \<rparr>"

definition sub_process_engine :: engine where
  "sub_process_engine = engine_of (state_new\<lparr> instances := fmupd 1 sub_process fmempty,
     timers := fmupd 9 \<lparr> tm_key = 9, tm_instance_key = 1, tm_element_instance_key = 7, tm_element_id = ''task'',
       tm_due_at = 99, tm_state = TMCreated, tm_kind = TimerIntermediateCatch \<rparr> fmempty \<rparr>) 0 10"

lemma sub_process_lookup: "fmlookup (instances (est sub_process_engine)) 1 = Some sub_process"
  by (simp add: sub_process_engine_def engine_of_def)

lemma sub_process_ordered: "scopes_ordered sub_process"
  by (simp add: scopes_ordered_def sub_process_def running_instance_def increasing_upd)

lemma sub_process_parents: "parent_of (pi_scopes sub_process) = {(5, 3), (7, 5)}"
  by (auto simp: parent_of_def sub_process_def split: if_splits)

lemma sub_process_enclosed: "enclosed (pi_scopes sub_process) 3 = {5, 7}"
proof -
  have "(k, 3) \<in> {(5, 3), (7, 5)}\<^sup>+ \<Longrightarrow> k \<in> {5, 7 :: u64}" for k
    by (erule converse_tranclE) auto
  moreover have "(7 :: u64, 3) \<in> {(5, 3), (7, 5)}\<^sup>+"
    by (rule trancl_into_trancl [of 7 5]) auto
  ultimately show ?thesis unfolding enclosed_def sub_process_parents by auto
qed

theorem scope_walk_complete_witness:
  "\<exists>ds. scope_descendants sub_process_engine 1 3 = Some ds \<and> set ds = {5, 7} \<and> sorted ds"
  using scope_walk_complete [OF sub_process_lookup sub_process_ordered, of 3] sub_process_enclosed
  by (auto simp: enclosed_def)


lemma sub_process_chain: "scope_chain (pi_scopes sub_process) 7 = Some [7, 5, 3]"
proof -
  have inc: "increasing (pi_scopes sub_process)" using sub_process_ordered by (simp add: scopes_ordered_def)
  have "fmlookup (pi_scopes sub_process) 7 = Some 5" "fmlookup (pi_scopes sub_process) 5 = Some 3"
    "fmlookup (pi_scopes sub_process) 3 = None" by (simp_all add: sub_process_def running_instance_def)
  then show ?thesis by (simp add: scope_chain_up [OF inc] scope_chain_end)
qed

definition guarded_process :: process_definition where
  "guarded_process = demo_process\<lparr> pd_elements := fmupd ''caught'' (gateway ''caught'' (EK_ErrorBoundaryEvent ''sub'' ''E1'') []) fmempty \<rparr>"

definition guarded_engine :: engine where
  "guarded_engine = engine_of (state_new\<lparr>
     processes := fmupd ''order'' \<lparr> dp_key = 9, dp_version = 1, dp_definition = guarded_process \<rparr> fmempty,
     instances := fmupd 1 sub_process fmempty \<rparr>) 0 10"

theorem nearest_boundary_catches_witness:
  "find_catching_error_boundary guarded_engine 1 ''task'' 7 ''E1'' = Some (Some (''caught'', 3, ''sub''))"
proof -
  have "fmlookup (instances (est guarded_engine)) 1 = Some sub_process" by (simp add: guarded_engine_def engine_of_def)
  moreover have "set [7, 5, 3] \<subseteq> fset (fmdom (pi_active sub_process))" by (simp add: sub_process_def)
  moreover have "name_of sub_process 7 = ''task''" "name_of sub_process 5 = ''inner''" "name_of sub_process 3 = ''sub''"
    by (simp_all add: name_of_def sub_process_def)
  moreover have "find_error_boundary guarded_engine 1 eid ''E1'' = (if eid = ''sub'' then Some ''caught'' else None)" for eid
    by (simp add: find_error_boundary_def process_of_instance_def guarded_engine_def engine_of_def definition_for_def or_else_def
        sub_process_def running_instance_def elements_list_def sorted_list_of_fmap_def guarded_process_def gateway_def min_id_def
        sorted_list_of_fset.rep_eq)
  ultimately show ?thesis
    using nearest_boundary_catches [of guarded_engine 1 sub_process 7 "[7, 5, 3]" "''E1''", OF _ sub_process_ordered sub_process_chain]
    by (simp add: nearest_catch_def)
qed

section \<open>What an interrupted task leaves behind\<close>

lemma emits_emit_all: "emits (f (fst el)) el (emit_all f el)"
  unfolding emit_all_def by (rule emits_fold_emit)

text \<open>\<open>quiet P el el'\<close>: only teardown events that satisfy \<open>P\<close> were emitted.\<close>

definition quiet :: "(event \<Rightarrow> bool) \<Rightarrow> logged \<Rightarrow> logged \<Rightarrow> bool" where
  "quiet P el el' \<longleftrightarrow> (\<exists>evs. emits evs el el' \<and> teardown evs \<and> list_all P evs)"

lemma quiet_trans: "quiet P a b \<Longrightarrow> quiet P b c \<Longrightarrow> quiet P a c"
  unfolding quiet_def teardown_def
proof (elim exE conjE)
  fix xs ys
  assume "emits xs a b" "emits ys b c" "list_all teardown_event xs" "list_all P xs" "list_all teardown_event ys" "list_all P ys"
  then show "\<exists>evs. emits evs a c \<and> list_all teardown_event evs \<and> list_all P evs"
    by (intro exI [of _ "xs @ ys"]) (simp add: emits_trans [of xs a b ys c])
qed

lemma quiet_emit_all: "teardown (f (fst el)) \<Longrightarrow> list_all P (f (fst el)) \<Longrightarrow> quiet P el (emit_all f el)"
  unfolding quiet_def using emits_emit_all by blast

definition spares_user_tasks :: "event \<Rightarrow> bool" where
  "spares_user_tasks ev \<longleftrightarrow> (\<forall>k ik eik. \<not> disarms ev (HUserTask, k, ik, eik))"

lemma quiet_user_tasks:
  "quiet spares_user_tasks el el' \<Longrightarrow> (HUserTask, x) \<in> in_play (est (fst el)) \<Longrightarrow> (HUserTask, x) \<in> in_play (est (fst el'))"
  by (cases x) (auto simp: quiet_def emits_in_play spares_user_tasks_def list_all_iff)

text \<open>An interrupting boundary event on a user task completes the task's element instance but leaves the
  user task itself in play: only its jobs and boundary subscriptions are cancelled.\<close>

theorem interrupt_keeps_user_task:
  assumes "\<not> is_multi_instance_body (fst el) ik eik" "\<not> is_subprocess (fst el) ik eid" "\<not> is_adhoc_container (fst el) ik eik"
    "call_activity_child_of (fst el) eik = None" "interrupt_activity_via_boundary ik eik eid el = Some el'"
    "(HUserTask, k, ik, eik) \<in> in_play (est (fst el))"
  shows "(HUserTask, k, ik, eik) \<in> in_play (est (fst el'))"
proof -
  define job where "job = (\<lambda>e. option_event (\<lambda>jk. EJob (JobCanceled jk ik)) (active_job_on e eik))"
  have complete: "quiet spares_user_tasks el1 (complete_element ik eik eid el1)" for el1
  proof -
    have "complete_element ik eik eid el1 =
        emit_all (\<lambda>_. [EElement (ElementCompleting ik eik eid), EElement (ElementCompleted ik eik eid)]) el1"
      by (simp add: complete_element_def emit_all_def)
    then show ?thesis by (auto simp: teardown_def spares_user_tasks_def intro: quiet_emit_all)
  qed
  have job: "quiet spares_user_tasks el1 (emit_all job el1)" for el1
    by (rule quiet_emit_all) (auto simp: job_def option_event_def teardown_def spares_user_tasks_def split: option.split)
  have boundary: "quiet spares_user_tasks el1 (emit_all (\<lambda>e. cancel_boundary_timers_on e eik) el1)"
    "quiet spares_user_tasks el1 (emit_all (\<lambda>e. cancel_boundary_message_subscriptions_on e eik) el1)"
    "quiet spares_user_tasks el1 (emit_all (\<lambda>e. cancel_boundary_signal_subscriptions_on e eik) el1)"
    "quiet spares_user_tasks el1 (emit_all (\<lambda>e. cancel_boundary_conditional_subscriptions_on e eik) el1)" for el1
    by (rule quiet_emit_all; auto simp: cancel_boundary_timers_on_def cancel_boundary_message_subscriptions_on_def
        cancel_boundary_signal_subscriptions_on_def cancel_boundary_conditional_subscriptions_on_def cancel_timer_def
        disarm_subscription_event_def cancel_signal_def cancel_conditional_def teardown_def list_all_iff spares_user_tasks_def)+
  have "quiet spares_user_tasks el (emit_all (\<lambda>e. cancel_boundary_conditional_subscriptions_on e eik)
      (emit_all (\<lambda>e. cancel_boundary_signal_subscriptions_on e eik)
        (emit_all (\<lambda>e. cancel_boundary_message_subscriptions_on e eik)
          (emit_all (\<lambda>e. cancel_boundary_timers_on e eik) (complete_element ik eik eid (emit_all job el))))))"
    by (rule quiet_trans [OF _ boundary(4)] quiet_trans [OF _ boundary(3)] quiet_trans [OF _ boundary(2)]
        quiet_trans [OF _ boundary(1)] quiet_trans [OF _ complete] job)+
  then have "quiet spares_user_tasks el el'"
    using assms(1-5) by (auto simp: interrupt_activity_via_boundary_def Let_def job_def)
  then show ?thesis using assms(6) by (rule quiet_user_tasks)
qed

end
