(* ===== verification/Arming.thy ===== *)
theory Arming
  imports Expressions Scope_Teardown
begin

text \<open>
  Arming the boundary events of an activity (\<open>arm_boundary_events\<close> of
  \<open>engine-core/src/engine/boundary.rs\<close>): one timer or subscription per attached boundary event, under keys
  minted in order.
\<close>

section \<open>The events\<close>

text \<open>A loop that mints one key per item.\<close>

fun mint_each :: "('a \<Rightarrow> key \<Rightarrow> event) \<Rightarrow> 'a list \<Rightarrow> engine \<Rightarrow> event list \<times> engine" where
  "mint_each f [] e = ([], e)"
| "mint_each f (x # xs) e =
     (let (k, e1) = mint_key e; (evs, e2) = mint_each f xs e1 in (f x k # evs, e2))"

definition boundary_timer_kind :: "bool \<Rightarrow> elementid \<Rightarrow> timer_kind" where
  "boundary_timer_kind interrupting b = (if interrupting then TimerInterruptingBoundary b else TimerNonInterruptingBoundary b)"

definition boundary_kind :: "bool \<Rightarrow> elementid \<Rightarrow> message_subscription_kind" where
  "boundary_kind interrupting b = (if interrupting then SubInterruptingBoundary b else SubNonInterruptingBoundary b)"

definition arm_timer :: "feel \<Rightarrow> engine \<Rightarrow> vars \<Rightarrow> key \<Rightarrow> key \<Rightarrow> elementid \<Rightarrow> elementid \<times> u64 \<times> bool \<Rightarrow> key \<Rightarrow> event" where
  "arm_timer F e vs ik eik eid b k = (case b of (boundary_id, millis, interrupting) \<Rightarrow>
     ETimer (TimerCreated k ik eik eid (fst (resolve_timer F vs (timer_def_of e ik boundary_id) (now e) millis))
       (boundary_timer_kind interrupting boundary_id)))"

definition arm_message ::
  "feel \<Rightarrow> engine \<Rightarrow> vars \<Rightarrow> key \<Rightarrow> key \<Rightarrow> elementid \<Rightarrow> elementid \<times> string \<times> string \<times> bool \<Rightarrow> key \<Rightarrow> event" where
  "arm_message F e vs ik eik eid b k = (case b of (boundary_id, name, correlation_key, interrupting) \<Rightarrow>
     (let message_name = resolve_event_name F vs name;
          correlation_value = resolve_correlation_value F vs correlation_key;
          kind = boundary_kind interrupting boundary_id
      in if engine_subscription_partition e correlation_value = partition_id e
         then EMessage (MessageSubscriptionCreated k ik eik eid message_name correlation_value kind)
         else EMessage (MessageSubscriptionOpening k ik eik eid message_name correlation_value kind)))"

definition arm_signal :: "feel \<Rightarrow> vars \<Rightarrow> key \<Rightarrow> key \<Rightarrow> elementid \<Rightarrow> elementid \<times> string \<times> bool \<Rightarrow> key \<Rightarrow> event" where
  "arm_signal F vs ik eik eid b k = (case b of (boundary_id, name, interrupting) \<Rightarrow>
     ESignal (SignalSubscriptionCreated k ik eik eid (resolve_event_name F vs name) (boundary_kind interrupting boundary_id)))"

definition sorted_referenced_vars :: "feel \<Rightarrow> string \<Rightarrow> string list" where
  "sorted_referenced_vars F condition = sorted_list_of_fset (referenced_variables F condition)"

definition arm_condition :: "feel \<Rightarrow> key \<Rightarrow> key \<Rightarrow> elementid \<Rightarrow> elementid \<times> string \<times> bool \<Rightarrow> key \<Rightarrow> event" where
  "arm_condition F ik eik eid b k = (case b of (boundary_id, condition, interrupting) \<Rightarrow>
     ESignal (ConditionalSubscriptionCreated k ik eik eid condition (sorted_referenced_vars F condition)
       (boundary_kind interrupting boundary_id)))"

definition arm_boundary_events :: "feel \<Rightarrow> key \<Rightarrow> key \<Rightarrow> key \<Rightarrow> elementid \<Rightarrow> engine \<Rightarrow> (event list \<times> engine) option" where
  "arm_boundary_events F ik eik scope eid e = map_option (\<lambda>host_vars.
     (let (ts, e1) = mint_each (arm_timer F e host_vars ik eik eid) (attached_timer_boundaries e ik eid) e;
          (ms, e2) = mint_each (arm_message F e host_vars ik eik eid) (attached_message_boundaries e ik eid) e1;
          (ss, e3) = mint_each (arm_signal F host_vars ik eik eid) (attached_signal_boundaries e ik eid) e2;
          (cs, e4) = mint_each (arm_condition F ik eik eid) (attached_conditional_boundaries e ik eid) e3
      in (ts @ ms @ ss @ cs, e4))) (variables_for_element e ik scope)"

section \<open>What arming puts in play\<close>

text \<open>The token of an arming event, and what it takes of the state: its key is unused.\<close>

fun armed_token :: "event \<Rightarrow> token option" where
  "armed_token (ETimer (TimerCreated k ik eik _ _ _)) = Some (HTimer, k, ik, eik)"
| "armed_token (EMessage (MessageSubscriptionCreated k ik eik _ _ _ _)) = Some (HMessage, k, ik, eik)"
| "armed_token (EMessage (MessageSubscriptionOpening k ik eik _ _ _ _)) = Some (HMessage, k, ik, eik)"
| "armed_token (ESignal (SignalSubscriptionCreated k ik eik _ _ _)) = Some (HSignal, k, ik, eik)"
| "armed_token (ESignal (ConditionalSubscriptionCreated k ik eik _ _ _ _)) = Some (HCondition, k, ik, eik)"
| "armed_token _ = None"

definition unused :: "state \<Rightarrow> key \<Rightarrow> bool" where
  "unused s k \<longleftrightarrow> k |\<notin>| fmdom (timers s) \<and> k |\<notin>| fmdom (message_subscriptions s)
     \<and> k |\<notin>| fmdom (signal_subscriptions s) \<and> k |\<notin>| fmdom (conditional_subscriptions s)"

lemma step_armed:
  "armed_token ev = Some x \<Longrightarrow> unused s (fst (snd x)) \<Longrightarrow> in_play (apply_event ev s) = insert x (in_play s)"
  by (induction ev rule: armed_token.induct)
    (auto simp: token_defs mem_tokens_of tokens_of_def waiting_arm_defs unused_def subscription_in_play_def fmdom_notD split: if_splits)

text \<open>Minting one key per item is minting as many keys as there are items.\<close>

lemma mint_each_many: "mint_each f xs e = (map2 f xs (fst (mint_many (length xs) e)), snd (mint_many (length xs) e))"
  by (induction xs arbitrary: e) (simp_all add: case_prod_beta Let_def)

lemma mint_many_add: "mint_many (m + n) e =
    (fst (mint_many m e) @ fst (mint_many n (snd (mint_many m e))), snd (mint_many n (snd (mint_many m e))))"
  by (induction m arbitrary: e) (simp_all add: case_prod_beta Let_def)

lemma mint_many_length [simp]: "length (fst (mint_many n e)) = n"
  by (induction n arbitrary: e) (simp_all add: case_prod_beta Let_def)

lemma mint_many_est [simp]: "est (snd (mint_many n e)) = est e"
  by (induction n arbitrary: e) (simp_all add: case_prod_beta Let_def mint_key_def)

lemma mint_many_distinct:
  assumes "partition_id e \<le> MAX_PARTITION_ID" "unat (next_local e) + n \<le> unat LOCAL_MASK"
  shows "distinct (fst (mint_many n e))"
proof -
  have "distinct (map unat (fst (mint_many n e)))"
    unfolding mint_many_keys [OF assms] by (simp add: distinct_map inj_on_def del: upt_Suc)
  then show ?thesis by (simp add: distinct_map)
qed

lemma variables_return: "fmlookup (instances (est e)) ik = Some i \<Longrightarrow> scopes_ordered i \<Longrightarrow> \<exists>vs. variables_for_element e ik eik = Some vs"
proof -
  assume i: "fmlookup (instances (est e)) ik = Some i" "scopes_ordered i"
  then have "increasing (pi_scope_parents i)" by (simp add: scopes_ordered_def)
  from scope_chain_returns [OF this] obtain chain where
    "scope_chain (pi_scope_parents i) (variable_scope_of i eik) = Some (variable_scope_of i eik # chain)" by blast
  from visible_lookup [OF i(2) this, of e] i(1) show ?thesis by (auto simp: variables_for_element_def)
qed

text \<open>A list of arming events under distinct unused keys puts in play exactly their tokens.\<close>

lemma unused_step:
  "armed_token ev = Some x \<Longrightarrow> unused s k \<Longrightarrow> k \<noteq> fst (snd x) \<Longrightarrow> unused (apply_event ev s) k"
  by (induction ev rule: armed_token.induct) (auto simp: unused_def waiting_arm_defs)

lemma fold_armed:
  assumes "map armed_token evs = map Some xs" "distinct (map (fst \<circ> snd) xs)" "list_all (\<lambda>x. unused s (fst (snd x))) xs"
  shows "in_play (fold apply_event evs s) = in_play s \<union> set xs"
  using assms
proof (induction evs arbitrary: xs s)
  case (Cons ev evs)
  then obtain x ys where xs: "xs = x # ys" "armed_token ev = Some x" "map armed_token evs = map Some ys" by (cases xs) auto
  have "unused (apply_event ev s) (fst (snd y))" if "y \<in> set ys" for y
  proof (rule unused_step [OF xs(2)])
    have "fst (snd y) \<in> set (map (fst \<circ> snd) ys)" using that by auto
    moreover have "fst (snd x) \<notin> set (map (fst \<circ> snd) ys)" using Cons.prems(2) xs(1) by simp
    ultimately show "fst (snd y) \<noteq> fst (snd x)" by metis
  qed (use that Cons.prems(3) xs(1) in \<open>simp add: list_all_iff\<close>)
  then have "list_all (\<lambda>y. unused (apply_event ev s) (fst (snd y))) ys" by (simp add: list_all_iff)
  from Cons.IH [OF xs(3) _ this] Cons.prems(2,3) xs(1,2) step_armed [OF xs(2), of s] show ?case by auto
qed simp

definition boundary_holders :: "engine \<Rightarrow> key \<Rightarrow> elementid \<Rightarrow> holder list" where
  "boundary_holders e ik eid =
     replicate (length (attached_timer_boundaries e ik eid)) HTimer @ replicate (length (attached_message_boundaries e ik eid)) HMessage
     @ replicate (length (attached_signal_boundaries e ik eid)) HSignal
     @ replicate (length (attached_conditional_boundaries e ik eid)) HCondition"

section \<open>Which boundary event a token watches for\<close>

text \<open>A watch: a token, the boundary event it fires, whether firing interrupts the activity, and what makes it fire.\<close>

datatype trigger = AtTime u64 | OnMessage string string | OnSignal string | OnCondition string

type_synonym watch = "token \<times> elementid \<times> bool \<times> trigger"

definition timer_boundary :: "timer_kind \<Rightarrow> (elementid \<times> bool) option" where
  "timer_boundary kind = (case kind of TimerIntermediateCatch \<Rightarrow> None
     | TimerInterruptingBoundary b \<Rightarrow> Some (b, True) | TimerNonInterruptingBoundary b \<Rightarrow> Some (b, False))"

definition subscription_boundary :: "message_subscription_kind \<Rightarrow> (elementid \<times> bool) option" where
  "subscription_boundary kind = (case kind of SubIntermediateCatch \<Rightarrow> None
     | SubInterruptingBoundary b \<Rightarrow> Some (b, True) | SubNonInterruptingBoundary b \<Rightarrow> Some (b, False))"

definition watches_of :: "holder \<Rightarrow> ('v \<Rightarrow> bool) \<Rightarrow> ('v \<Rightarrow> key) \<Rightarrow> ('v \<Rightarrow> key) \<Rightarrow> ('v \<Rightarrow> (elementid \<times> bool) option) \<Rightarrow>
    ('v \<Rightarrow> trigger) \<Rightarrow> (key, 'v) fmap \<Rightarrow> watch set" where
  "watches_of h live inst host boundary fires m = {((h, k, inst v, host v), b, intr, fires v) | k v b intr.
     fmlookup m k = Some v \<and> live v \<and> boundary v = Some (b, intr)}"

definition watches :: "state \<Rightarrow> watch set" where
  "watches s =
     watches_of HTimer (\<lambda>t. tm_state t = TMCreated) tm_instance_key tm_element_instance_key
       (\<lambda>t. timer_boundary (tm_kind t)) (\<lambda>t. AtTime (tm_due_at t)) (timers s)
   \<union> watches_of HMessage (\<lambda>m. ms_state m \<in> {SubOpen, SubOpening}) ms_instance_key ms_element_instance_key
       (\<lambda>m. subscription_boundary (ms_kind m)) (\<lambda>m. OnMessage (ms_message_name m) (ms_correlation_key m)) (message_subscriptions s)
   \<union> watches_of HSignal (\<lambda>x. ss_state x = SubOpen) ss_instance_key ss_element_instance_key
       (\<lambda>x. subscription_boundary (ss_kind x)) (\<lambda>x. OnSignal (ss_signal_name x)) (signal_subscriptions s)
   \<union> watches_of HCondition (\<lambda>c. cd_state c = SubOpen) cd_instance_key cd_element_instance_key
       (\<lambda>c. subscription_boundary (cd_kind c)) (\<lambda>c. OnCondition (cd_condition c)) (conditional_subscriptions s)"

lemma watches_of_upd:
  "k |\<notin>| fmdom m \<Longrightarrow> live v \<Longrightarrow> boundary v = Some (b, intr) \<Longrightarrow>
   watches_of h live inst host boundary fires (fmupd k v m) =
     insert ((h, k, inst v, host v), b, intr, fires v) (watches_of h live inst host boundary fires m)"
  by (auto simp: watches_of_def fmdom_notD split: if_splits)

text \<open>The watch that an element of the process asks for on an activity: none unless it is a timer, message, signal or
  conditional boundary event attached to it.\<close>

definition watch_for :: "feel \<Rightarrow> engine \<Rightarrow> vars \<Rightarrow> key \<Rightarrow> elementid \<Rightarrow> element \<Rightarrow> (holder \<times> elementid \<times> bool \<times> trigger) option" where
  "watch_for F e vs ik activity el = (case e_kind el of
     EK_TimerBoundaryEvent a millis interrupting _ \<Rightarrow> if a = activity then Some (HTimer, e_id el, interrupting,
       AtTime (fst (resolve_timer F vs (timer_def_of e ik (e_id el)) (now e) millis))) else None
   | EK_MessageBoundaryEvent a name ck interrupting \<Rightarrow> if a = activity then Some (HMessage, e_id el, interrupting,
       OnMessage (resolve_event_name F vs name) (resolve_correlation_value F vs ck)) else None
   | EK_SignalBoundaryEvent a name interrupting \<Rightarrow> if a = activity then Some (HSignal, e_id el, interrupting,
       OnSignal (resolve_event_name F vs name)) else None
   | EK_ConditionalBoundaryEvent a condition interrupting \<Rightarrow> if a = activity then Some (HCondition, e_id el, interrupting,
       OnCondition condition) else None
   | _ \<Rightarrow> None)"

definition watch_list :: "feel \<Rightarrow> engine \<Rightarrow> vars \<Rightarrow> key \<Rightarrow> elementid \<Rightarrow> (holder \<times> elementid \<times> bool \<times> trigger) list" where
  "watch_list F e vs ik activity =
     map (\<lambda>(b, millis, intr). (HTimer, b, intr, AtTime (fst (resolve_timer F vs (timer_def_of e ik b) (now e) millis))))
       (attached_timer_boundaries e ik activity)
   @ map (\<lambda>(b, name, ck, intr). (HMessage, b, intr, OnMessage (resolve_event_name F vs name) (resolve_correlation_value F vs ck)))
       (attached_message_boundaries e ik activity)
   @ map (\<lambda>(b, name, intr). (HSignal, b, intr, OnSignal (resolve_event_name F vs name))) (attached_signal_boundaries e ik activity)
   @ map (\<lambda>(b, c, intr). (HCondition, b, intr, OnCondition c)) (attached_conditional_boundaries e ik activity)"

lemma watch_list_holders: "map fst (watch_list F e vs ik activity) = boundary_holders e ik activity"
  by (simp add: watch_list_def boundary_holders_def comp_def case_prod_beta map_replicate_const)

lemma watch_list_elements:
  assumes "process_of_instance e ik = Some p"
  shows "mset (watch_list F e vs ik activity) = mset (List.map_filter (watch_for F e vs ik activity) (elements_list p))"
proof -
  have "mset (map g (sort (List.map_filter f els))) = mset (map g (List.map_filter f els))"
    for g :: "'a :: linorder \<Rightarrow> holder \<times> elementid \<times> bool \<times> trigger" and f :: "element \<Rightarrow> 'a option" and els by simp
  note sorted = this
  have "mset (watch_list F e vs ik activity) =
      mset (map (\<lambda>(b, millis, intr). (HTimer, b, intr, AtTime (fst (resolve_timer F vs (timer_def_of e ik b) (now e) millis))))
        (List.map_filter (\<lambda>el. case e_kind el of
           EK_TimerBoundaryEvent a millis interrupting _ \<Rightarrow> if a = activity then Some (e_id el, millis, interrupting) else None
         | _ \<Rightarrow> None) (elements_list p)))
    + mset (map (\<lambda>(b, name, ck, intr). (HMessage, b, intr, OnMessage (resolve_event_name F vs name) (resolve_correlation_value F vs ck)))
        (List.map_filter (\<lambda>el. case e_kind el of
           EK_MessageBoundaryEvent a name ck interrupting \<Rightarrow> if a = activity then Some (e_id el, name, ck, interrupting) else None
         | _ \<Rightarrow> None) (elements_list p)))
    + mset (map (\<lambda>(b, name, intr). (HSignal, b, intr, OnSignal (resolve_event_name F vs name)))
        (List.map_filter (\<lambda>el. case e_kind el of
           EK_SignalBoundaryEvent a name interrupting \<Rightarrow> if a = activity then Some (e_id el, name, interrupting) else None
         | _ \<Rightarrow> None) (elements_list p)))
    + mset (map (\<lambda>(b, c, intr). (HCondition, b, intr, OnCondition c))
        (List.map_filter (\<lambda>el. case e_kind el of
           EK_ConditionalBoundaryEvent a condition interrupting \<Rightarrow> if a = activity then Some (e_id el, condition, interrupting) else None
         | _ \<Rightarrow> None) (elements_list p)))" (is "_ = ?split (elements_list p)")
    by (simp only: watch_list_def attached_timer_boundaries_def attached_message_boundaries_def attached_signal_boundaries_def
        attached_conditional_boundaries_def attached_def assms option.case mset_append sorted add.assoc)
  moreover have "?split els = mset (List.map_filter (watch_for F e vs ik activity) els)" for els
  proof (induction els)
    case (Cons el els)
    then show ?case by (cases "e_kind el") (simp_all add: List.map_filter_simps watch_for_def)
  qed (simp add: List.map_filter_simps)
  ultimately show ?thesis by simp
qed

text \<open>What an arming event adds to the watches.\<close>

fun armed_watch :: "event \<Rightarrow> watch option" where
  "armed_watch (ETimer (TimerCreated k ik eik _ due kind)) =
     map_option (\<lambda>(b, intr). ((HTimer, k, ik, eik), b, intr, AtTime due)) (timer_boundary kind)"
| "armed_watch (EMessage (MessageSubscriptionCreated k ik eik _ name ck kind)) =
     map_option (\<lambda>(b, intr). ((HMessage, k, ik, eik), b, intr, OnMessage name ck)) (subscription_boundary kind)"
| "armed_watch (EMessage (MessageSubscriptionOpening k ik eik _ name ck kind)) =
     map_option (\<lambda>(b, intr). ((HMessage, k, ik, eik), b, intr, OnMessage name ck)) (subscription_boundary kind)"
| "armed_watch (ESignal (SignalSubscriptionCreated k ik eik _ name kind)) =
     map_option (\<lambda>(b, intr). ((HSignal, k, ik, eik), b, intr, OnSignal name)) (subscription_boundary kind)"
| "armed_watch (ESignal (ConditionalSubscriptionCreated k ik eik _ c _ kind)) =
     map_option (\<lambda>(b, intr). ((HCondition, k, ik, eik), b, intr, OnCondition c)) (subscription_boundary kind)"
| "armed_watch _ = None"

lemma armed_watch_token: "armed_watch ev = Some w \<Longrightarrow> armed_token ev = Some (fst w)"
  by (induction ev rule: armed_watch.induct) auto

lemma step_watch: "armed_watch ev = Some w \<Longrightarrow> unused s (fst (snd (fst w))) \<Longrightarrow> watches (apply_event ev s) = insert w (watches s)"
  by (induction ev rule: armed_watch.induct)
    (clarsimp simp: watches_def waiting_arm_defs unused_def watches_of_upd)+

lemma fold_watches:
  assumes "map armed_watch evs = map Some ws" "distinct (map (fst \<circ> snd \<circ> fst) ws)" "list_all (\<lambda>w. unused s (fst (snd (fst w)))) ws"
  shows "watches (fold apply_event evs s) = watches s \<union> set ws"
  using assms
proof (induction evs arbitrary: ws s)
  case (Cons ev evs)
  then obtain w vs where ws: "ws = w # vs" "armed_watch ev = Some w" "map armed_watch evs = map Some vs" by (cases ws) auto
  have "unused (apply_event ev s) (fst (snd (fst v)))" if "v \<in> set vs" for v
  proof (rule unused_step [OF armed_watch_token [OF ws(2)]])
    have "fst (snd (fst v)) \<in> set (map (fst \<circ> snd \<circ> fst) vs)" using that by auto
    moreover have "fst (snd (fst w)) \<notin> set (map (fst \<circ> snd \<circ> fst) vs)" using Cons.prems(2) ws(1) by simp
    ultimately show "fst (snd (fst v)) \<noteq> fst (snd (fst w))" by metis
  qed (use that Cons.prems(3) ws(1) in \<open>simp add: list_all_iff\<close>)
  then have "list_all (\<lambda>v. unused (apply_event ev s) (fst (snd (fst v)))) vs" by (simp add: list_all_iff)
  from Cons.IH [OF ws(3) _ this] Cons.prems(2,3) ws(1,2) step_watch [OF ws(2), of s] show ?case by auto
qed simp

definition watch_at :: "key \<Rightarrow> key \<Rightarrow> (holder \<times> elementid \<times> bool \<times> trigger) \<times> key \<Rightarrow> watch" where
  "watch_at ik eik x = (case x of ((h, what), k) \<Rightarrow> ((h, k, ik, eik), what))"

lemma boundary_kinds: "timer_boundary (boundary_timer_kind intr b) = Some (b, intr)" "subscription_boundary (boundary_kind intr b) = Some (b, intr)"
  by (simp_all add: timer_boundary_def boundary_timer_kind_def subscription_boundary_def boundary_kind_def)

lemma watches_of_arms:
  "map armed_watch (map2 (arm_timer F e vs ik eik eid) ts ks) = map (Some \<circ> watch_at ik eik)
     (zip (map (\<lambda>(b, millis, intr). (HTimer, b, intr, AtTime (fst (resolve_timer F vs (timer_def_of e ik b) (now e) millis)))) ts) ks)"
  "map armed_watch (map2 (arm_message F e vs ik eik eid) ms ks) = map (Some \<circ> watch_at ik eik)
     (zip (map (\<lambda>(b, name, ck, intr). (HMessage, b, intr, OnMessage (resolve_event_name F vs name) (resolve_correlation_value F vs ck))) ms) ks)"
  "map armed_watch (map2 (arm_signal F vs ik eik eid) ss ks) = map (Some \<circ> watch_at ik eik)
     (zip (map (\<lambda>(b, name, intr). (HSignal, b, intr, OnSignal (resolve_event_name F vs name))) ss) ks)"
  "map armed_watch (map2 (arm_condition F ik eik eid) cs ks) = map (Some \<circ> watch_at ik eik)
     (zip (map (\<lambda>(b, c, intr). (HCondition, b, intr, OnCondition c)) cs) ks)"
  by (auto simp: zip_map1 arm_timer_def arm_message_def arm_signal_def arm_condition_def Let_def boundary_kinds watch_at_def)

lemma arm_watches:
  assumes "variables_for_element e ik scope = Some vs"
  shows "\<exists>evs e'. arm_boundary_events F ik eik scope eid e = Some (evs, e') \<and> est e' = est e
    \<and> map armed_watch evs = map Some (map (watch_at ik eik)
        (zip (watch_list F e vs ik eid) (fst (mint_many (length (boundary_holders e ik eid)) e))))"
  using assms
  by (simp add: arm_boundary_events_def mint_each_many Let_def boundary_holders_def mint_many_add watches_of_arms watch_list_def
      zip_append del: map_map) (simp add: comp_def)

text \<open>C17: arming the boundary events of an activity. Each timer, message, signal and conditional boundary event that the
  process attaches to the activity gets exactly one token on the activity, and the token names that boundary event, carries its
  interrupting flag, and fires at the time, on the message and correlation value, on the signal or on the condition that the
  event's definition resolves to in the scope of the activity; error, escalation and compensation boundary events get none, as
  they are looked up when they are thrown. The keys are minted one after the other, for timers, messages, signals and conditions
  in that order. Nothing else changes in what is in play.\<close>

theorem boundaries_armed:
  assumes "fmlookup (instances (est e)) ik = Some i" "scopes_ordered i" "partition_id e \<le> MAX_PARTITION_ID"
    and "process_of_instance e ik = Some p" and "unat (next_local e) + length (boundary_holders e ik eid) \<le> unat LOCAL_MASK"
    and "list_all (unused (est e)) (fst (mint_many (length (boundary_holders e ik eid)) e))"
  shows "\<exists>vs evs e' new. variables_for_element e ik scope = Some vs
    \<and> arm_boundary_events F ik eik scope eid e = Some (evs, e')
    \<and> watches (fold apply_event evs (est e)) = watches (est e) \<union> set new
    \<and> in_play (fold apply_event evs (est e)) = in_play (est e) \<union> set (map fst new)
    \<and> map fst new = map (\<lambda>(h, k). (h, k, ik, eik))
        (zip (boundary_holders e ik eid) (fst (mint_many (length (boundary_holders e ik eid)) e)))
    \<and> mset (map (\<lambda>((h, _), what). (h, what)) new) = mset (List.map_filter (watch_for F e vs ik eid) (elements_list p))"
proof -
  let ?ks = "fst (mint_many (length (boundary_holders e ik eid)) e)"
  obtain vs where vs: "variables_for_element e ik scope = Some vs" using variables_return [OF assms(1,2)] by blast
  define new where "new = map (watch_at ik eik) (zip (watch_list F e vs ik eid) ?ks)"
  from arm_watches [OF vs] obtain evs e' where arm: "arm_boundary_events F ik eik scope eid e = Some (evs, e')"
    "map armed_watch evs = map Some new" unfolding new_def by blast
  have len: "length (watch_list F e vs ik eid) = length (boundary_holders e ik eid)"
    by (simp add: watch_list_holders [of F e vs, symmetric])
  have tokens: "map fst new = map (\<lambda>(h, k). (h, k, ik, eik)) (zip (boundary_holders e ik eid) ?ks)"
    by (simp add: new_def watch_list_holders [of F e vs, symmetric] zip_map1 watch_at_def comp_def case_prod_beta)
  have keys: "map (fst \<circ> snd \<circ> fst) new = ?ks"
    using len by (simp add: new_def watch_at_def comp_def case_prod_beta)
  then have distinct: "distinct (map (fst \<circ> snd \<circ> fst) new)" using mint_many_distinct [OF assms(3,5)] by simp
  have fresh: "list_all (\<lambda>w. unused (est e) (fst (snd (fst w)))) new"
    using assms(6) unfolding keys [symmetric] by (simp add: list_all_iff)
  have "map armed_token evs = map Some (map fst new)"
    using arm(2) by (auto simp: list_eq_iff_nth_eq dest!: armed_watch_token)
  from fold_armed [OF this, of "est e"] distinct fresh
  have "in_play (fold apply_event evs (est e)) = in_play (est e) \<union> set (map fst new)"
    by (simp add: comp_def list_all_iff)
  moreover have "map (\<lambda>((h, _), what). (h, what)) new = watch_list F e vs ik eid"
    using len by (simp add: new_def watch_at_def comp_def case_prod_beta)
  ultimately show ?thesis using vs arm(1) tokens fold_watches [OF arm(2) distinct fresh] watch_list_elements [OF assms(4), of F vs eid]
    by (intro exI [of _ vs] exI [of _ evs] exI [of _ e'] exI [of _ new]) simp
qed

definition timed_process :: process_definition where
  "timed_process = demo_process\<lparr> pd_elements :=
     fmupd ''late'' (gateway ''late'' (EK_TimerBoundaryEvent ''task'' 60000 True False) []) fmempty \<rparr>"

definition timed_engine :: engine where
  "timed_engine = engine_of (state_new\<lparr>
     processes := fmupd ''order'' \<lparr> dp_key = 9, dp_version = 1, dp_definition = timed_process \<rparr> fmempty,
     instances := fmupd 1 sub_process fmempty \<rparr>) 0 10"

lemma timed_holders: "boundary_holders timed_engine 1 ''task'' = [HTimer]"
  by (simp add: boundary_holders_def attached_timer_boundaries_def attached_message_boundaries_def attached_signal_boundaries_def
      attached_conditional_boundaries_def attached_def process_of_instance_def timed_engine_def engine_of_def definition_for_def
      or_else_def sub_process_def running_instance_def elements_list_def sorted_list_of_fmap_def timed_process_def gateway_def
      sorted_list_of_fset.rep_eq List.map_filter_simps)

lemma timed_elements:
  "process_of_instance timed_engine 1 = Some timed_process"
  "elements_list timed_process = [gateway ''late'' (EK_TimerBoundaryEvent ''task'' 60000 True False) []]"
  by (simp_all add: process_of_instance_def timed_engine_def engine_of_def definition_for_def
      or_else_def sub_process_def running_instance_def elements_list_def sorted_list_of_fmap_def timed_process_def gateway_def
      sorted_list_of_fset.rep_eq)

theorem boundaries_armed_witness:
  "\<exists>evs e' due. arm_boundary_events literal_feel 1 7 5 ''task'' timed_engine = Some (evs, e')
     \<and> ((HTimer, 11, 1, 7), ''late'', True, AtTime due) \<in> watches (fold apply_event evs (est timed_engine))
     \<and> (HTimer, 11, 1, 7) \<in> in_play (fold apply_event evs (est timed_engine))"
proof -
  have mint: "fst (mint_many (length (boundary_holders timed_engine 1 ''task'')) timed_engine) = [11]"
    by (simp add: timed_holders) (simp add: timed_engine_def engine_of_def mint_key_def compose_key_def LOCAL_MASK_eq mask_eq_exp_minus_1)
  have i: "fmlookup (instances (est timed_engine)) 1 = Some sub_process" by (simp add: timed_engine_def engine_of_def)
  have hyps: "partition_id timed_engine \<le> MAX_PARTITION_ID"
    "unat (next_local timed_engine) + length (boundary_holders timed_engine 1 ''task'') \<le> unat LOCAL_MASK"
    "list_all (unused (est timed_engine)) (fst (mint_many (length (boundary_holders timed_engine 1 ''task'')) timed_engine))"
    unfolding mint by (simp_all add: timed_holders)
      (simp_all add: timed_engine_def engine_of_def unused_def state_new_def LOCAL_MASK_eq mask_eq_exp_minus_1)
  from boundaries_armed [OF i sub_process_ordered hyps(1) timed_elements(1) hyps(2,3), of 5 literal_feel 7, unfolded mint]
  obtain vs evs e' new where arm: "arm_boundary_events literal_feel 1 7 5 ''task'' timed_engine = Some (evs, e')"
    and after: "watches (fold apply_event evs (est timed_engine)) = watches (est timed_engine) \<union> set new"
      "in_play (fold apply_event evs (est timed_engine)) = in_play (est timed_engine) \<union> set (map fst new)"
    and new: "map fst new = map (\<lambda>(h, k). (h, k, 1, 7)) (zip (boundary_holders timed_engine 1 ''task'') [11])"
      "mset (map (\<lambda>((h, _), what). (h, what)) new) = mset (List.map_filter (watch_for literal_feel timed_engine vs 1 ''task'') (elements_list timed_process))"
    by blast
  obtain what where one: "new = [((HTimer, 11, 1, 7), what)]" using new(1) by (cases new) (auto simp: timed_holders)
  with new(2) obtain due where "what = (''late'', True, AtTime due)"
    by (auto simp: timed_elements(2) List.map_filter_simps watch_for_def gateway_def)
  with one after arm show ?thesis by auto
qed

end
