(* ===== verification/Gateways.thy ===== *)
theory Gateways
  imports Arming "HOL-Library.Monad_Syntax"
begin

text \<open>
  Planning a step (\<open>engine-core/src/engine/mod.rs\<close>). A planner reads the state, may mint keys, and returns events and
  follow-up steps; it never changes the state. Its result is \<open>None\<close> where a walk of the source would not end or the
  source panics. This theory holds what the planners share (incidents, the first job of a listener chain) and the
  routing of exclusive and inclusive gateways.
\<close>

type_synonym plan = "((event list \<times> step list) \<times> engine) option"

section \<open>Shared parts of planners\<close>

definition quoted :: "string \<Rightarrow> string" where
  "quoted s = [CHR 39] @ s @ [CHR 39]"

definition incident_raised :: "key \<Rightarrow> key \<Rightarrow> elementid \<Rightarrow> incident_kind \<Rightarrow> io_mapping_redrive option \<Rightarrow> string \<Rightarrow> engine \<Rightarrow> event \<times> engine" where
  "incident_raised ik eik eid kind redrive reason e =
     (let (k, e1) = mint_key e in (EIncident (IncidentRaised k ik eik eid kind redrive reason None (now e)), e1))"

definition raise_incident :: "key \<Rightarrow> key \<Rightarrow> elementid \<Rightarrow> incident_kind \<Rightarrow> io_mapping_redrive option \<Rightarrow> string \<Rightarrow> engine \<Rightarrow> plan" where
  "raise_incident ik eik eid kind redrive reason e =
     (let (ev, e1) = incident_raised ik eik eid kind redrive reason e in Some (([ev], []), e1))"

definition io_mapping_incident :: "key \<Rightarrow> key \<Rightarrow> elementid \<Rightarrow> string \<Rightarrow> io_mapping_redrive \<Rightarrow> engine \<Rightarrow> event \<times> engine" where
  "io_mapping_incident ik eik eid reason redrive e = incident_raised ik eik eid IoMappingIncident (Some redrive) reason e"

definition listener_job ::
  "feel \<Rightarrow> vars \<Rightarrow> key \<Rightarrow> key \<Rightarrow> elementid \<Rightarrow> listener_event_type \<Rightarrow> nat \<Rightarrow> key \<Rightarrow> execution_listener \<Rightarrow> engine \<Rightarrow> event \<times> engine" where
  "listener_job F vs ik eik eid ty index scope l e =
     (let (k, e1) = mint_key e
      in (EJob (ExecutionListenerJobCreated k ik eik eid (resolve_job_type F vs (el_job_type l)) ty index scope (now e)
            (resolve_retries F vs (el_retries l))), e1))"

definition begin_end_listener_chain :: "feel \<Rightarrow> key \<Rightarrow> key \<Rightarrow> elementid \<Rightarrow> key \<Rightarrow> vars \<Rightarrow> engine \<Rightarrow> (event \<times> engine) option" where
  "begin_end_listener_chain F ik eik eid scope vs e = (case listeners_of e ik eid ListenerEnd of
     [] \<Rightarrow> None
   | first # _ \<Rightarrow> Some (listener_job F vs ik eik eid ListenerEnd 0 scope first e))"

definition multi_instance_of :: "engine \<Rightarrow> key \<Rightarrow> elementid \<Rightarrow> multi_instance option" where
  "multi_instance_of e ik eid = Option.bind (element_of e ik eid) e_multi_instance"

definition adhoc_def_of :: "engine \<Rightarrow> key \<Rightarrow> elementid \<Rightarrow> adhoc_subprocess_def option" where
  "adhoc_def_of e ik eid =
     Option.bind (process_of_instance e ik) (\<lambda>p. List.find (\<lambda>d. asd_container_id d = eid) (pd_adhoc p))"

definition resolve_link_catch :: "engine \<Rightarrow> key \<Rightarrow> elementid \<Rightarrow> string \<Rightarrow> elementid option" where
  "resolve_link_catch e ik throw_id link_name = Option.bind (process_of_instance e ik) (\<lambda>p.
     case link_catches p link_name (Option.bind (pd_element p throw_id) e_parent) of [] \<Rightarrow> None | x # _ \<Rightarrow> Some x)"

section \<open>Exclusive gateways\<close>

text \<open>The loop over the outgoing flows: the default flow is remembered, a flow that is not taken is passed over.\<close>

definition condition_failure :: "string \<Rightarrow> condition \<Rightarrow> elementid \<Rightarrow> string \<Rightarrow> string" where
  "condition_failure what c eid err =
     ''failed to evaluate condition '' @ quoted c @ '' at '' @ what @ '' gateway '' @ quoted eid @ '': '' @ err"

fun exclusive_from :: "feel \<Rightarrow> vars \<Rightarrow> elementid \<Rightarrow> (nat \<times> sequence_flow) list \<Rightarrow> nat option \<Rightarrow> string + nat option" where
  "exclusive_from F vs eid [] dflt = Inr dflt"
| "exclusive_from F vs eid ((index, flow) # flows) dflt =
     (if sf_is_default flow then exclusive_from F vs eid flows (Some index)
      else case sf_condition flow of
        None \<Rightarrow> Inr (Some index)
      | Some c \<Rightarrow> (case feel_eval_bool F c vs of
          Inr True \<Rightarrow> Inr (Some index)
        | Inr False \<Rightarrow> exclusive_from F vs eid flows dflt
        | Inl err \<Rightarrow> Inl (condition_failure ''exclusive'' c eid err)))"

definition select_exclusive_flow :: "feel \<Rightarrow> engine \<Rightarrow> key \<Rightarrow> elementid \<Rightarrow> string + nat option" where
  "select_exclusive_flow F e ik eid = exclusive_from F (engine_variables e ik) eid (enumerate 0 (outgoing e ik eid)) None"

definition no_matching_flow :: "string \<Rightarrow> elementid \<Rightarrow> string" where
  "no_matching_flow what eid = ''no matching outgoing sequence flow at '' @ what @ '' gateway '' @ quoted eid"

definition complete_exclusive_gateway :: "feel \<Rightarrow> key \<Rightarrow> key \<Rightarrow> elementid \<Rightarrow> engine \<Rightarrow> plan" where
  "complete_exclusive_gateway F ik eik eid e = (case select_exclusive_flow F e ik eid of
     Inl reason \<Rightarrow> raise_incident ik eik eid ExpressionEvaluation None reason e
   | Inr None \<Rightarrow> raise_incident ik eik eid NoMatchingSequenceFlow None (no_matching_flow ''exclusive'' eid) e
   | Inr (Some index) \<Rightarrow>
       (let scope = scope_of e ik eik; completing = EElement (ElementCompleting ik eik eid)
        in case begin_end_listener_chain F ik eik eid scope (engine_variables e ik) e of
             Some (job, e1) \<Rightarrow> Some (([completing, job], []), e1)
           | None \<Rightarrow> do {
               (taken, st) \<leftarrow> take_flow e ik eid index scope;
               Some ((completing # EElement (ElementCompleted ik eik eid) # taken, [st]), e)
             }))"

definition finalize_exclusive_gateway :: "feel \<Rightarrow> key \<Rightarrow> key \<Rightarrow> elementid \<Rightarrow> key \<Rightarrow> engine \<Rightarrow> plan" where
  "finalize_exclusive_gateway F ik eik eid scope e = (case select_exclusive_flow F e ik eid of
     Inr (Some index) \<Rightarrow> do {
       (taken, st) \<leftarrow> take_flow e ik eid index scope;
       Some ((EElement (ElementCompleted ik eik eid) # taken, [st]), e)
     }
   | Inr None \<Rightarrow> raise_incident ik eik eid NoMatchingSequenceFlow None (no_matching_flow ''exclusive'' eid) e
   | Inl reason \<Rightarrow> raise_incident ik eik eid ExpressionEvaluation None reason e)"

section \<open>Inclusive gateways\<close>

fun inclusive_from ::
  "feel \<Rightarrow> vars \<Rightarrow> elementid \<Rightarrow> (nat \<times> sequence_flow) list \<Rightarrow> nat option \<Rightarrow> nat list \<Rightarrow> string + nat option \<times> nat list" where
  "inclusive_from F vs eid [] dflt selected = Inr (dflt, selected)"
| "inclusive_from F vs eid ((index, flow) # flows) dflt selected =
     (if sf_is_default flow then inclusive_from F vs eid flows (Some index) selected
      else case sf_condition flow of
        None \<Rightarrow> inclusive_from F vs eid flows dflt (selected @ [index])
      | Some c \<Rightarrow> (case feel_eval_bool F c vs of
          Inr True \<Rightarrow> inclusive_from F vs eid flows dflt (selected @ [index])
        | Inr False \<Rightarrow> inclusive_from F vs eid flows dflt selected
        | Inl err \<Rightarrow> Inl (condition_failure ''inclusive'' c eid err)))"

definition select_inclusive_flows :: "feel \<Rightarrow> engine \<Rightarrow> key \<Rightarrow> elementid \<Rightarrow> string + nat list" where
  "select_inclusive_flows F e ik eid =
     (case inclusive_from F (engine_variables e ik) eid (enumerate 0 (outgoing e ik eid)) None [] of
        Inl err \<Rightarrow> Inl err
      | Inr (dflt, selected) \<Rightarrow>
          Inr (if selected = [] then (case dflt of None \<Rightarrow> [] | Some d \<Rightarrow> [d]) else selected))"

text \<open>Taking some of the outgoing flows, one after the other.\<close>

definition take_flows :: "engine \<Rightarrow> key \<Rightarrow> elementid \<Rightarrow> key \<Rightarrow> nat list \<Rightarrow> (event list \<times> step list) option" where
  "take_flows e ik eid scope indices = map_option (\<lambda>flows. (concat (map fst flows), map snd flows))
     (those (map (\<lambda>index. take_flow e ik eid index scope) indices))"

definition route_inclusive_gateway :: "feel \<Rightarrow> key \<Rightarrow> key \<Rightarrow> elementid \<Rightarrow> key \<Rightarrow> engine \<Rightarrow> plan" where
  "route_inclusive_gateway F ik eik eid scope e = (case select_inclusive_flows F e ik eid of
     Inl reason \<Rightarrow> raise_incident ik eik eid ExpressionEvaluation None reason e
   | Inr [] \<Rightarrow> raise_incident ik eik eid NoMatchingSequenceFlow None (no_matching_flow ''inclusive'' eid) e
   | Inr selected \<Rightarrow>
       (let completing = EElement (ElementCompleting ik eik eid)
        in case begin_end_listener_chain F ik eik eid scope (engine_variables e ik) e of
             Some (job, e1) \<Rightarrow> Some (([completing, job], []), e1)
           | None \<Rightarrow> do {
               (taken, steps) \<leftarrow> take_flows e ik eid scope selected;
               Some ((completing # EElement (ElementCompleted ik eik eid) # taken, steps), e)
             }))"

definition complete_inclusive_gateway :: "feel \<Rightarrow> key \<Rightarrow> key \<Rightarrow> elementid \<Rightarrow> engine \<Rightarrow> plan" where
  "complete_inclusive_gateway F ik eik eid e =
     (let scope = scope_of e ik eik; (fired, e1) = fire_open_inclusive_join ik eik eid scope e
      in do {
        ((routed, steps), e2) \<leftarrow> route_inclusive_gateway F ik eik eid scope e1;
        Some ((fired @ routed, steps), e2)
      })"

definition finalize_inclusive_gateway :: "feel \<Rightarrow> key \<Rightarrow> key \<Rightarrow> elementid \<Rightarrow> key \<Rightarrow> engine \<Rightarrow> plan" where
  "finalize_inclusive_gateway F ik eik eid scope e =
     (let (fired, e1) = fire_open_inclusive_join ik eik eid scope e
      in do {
        ((routed, steps), e2) \<leftarrow> (case select_inclusive_flows F e1 ik eid of
            Inl reason \<Rightarrow> raise_incident ik eik eid ExpressionEvaluation None reason e1
          | Inr [] \<Rightarrow> raise_incident ik eik eid NoMatchingSequenceFlow None (no_matching_flow ''inclusive'' eid) e1
          | Inr selected \<Rightarrow> do {
              (taken, steps) \<leftarrow> take_flows e1 ik eid scope selected;
              Some ((EElement (ElementCompleted ik eik eid) # taken, steps), e1)
            });
        Some ((fired @ routed, steps), e2)
      })"

text \<open>An inclusive gateway as a join: it routes where a parallel join takes every flow.\<close>

definition activate_inclusive_join :: "feel \<Rightarrow> key \<Rightarrow> elementid \<Rightarrow> key \<Rightarrow> incoming_flow option \<Rightarrow> step list \<Rightarrow> engine \<Rightarrow> plan" where
  "activate_inclusive_join F ik eid scope via pending e =
     (let counted = (if via = None then [EElement (ParallelJoinTokenArrived ik eid None)] else []);
          unidentified = unidentified_arrivals e ik eid + length counted;
          arrivals = join_arrivals e ik eid;
          taken = distinct_flows arrivals + unidentified;
          open_key = join_eik e ik eid
      in if \<not> join_accepted e ik eid scope unidentified JoinInclusive pending
         then (if 0 < taken \<and> open_key = None
               then (let (opened, e1) = open_join ik eid scope e in Some ((counted @ opened, []), e1))
               else Some ((counted, []), e))
         else
           (let (eik, fresh, e1) = (case open_key of
                    Some k \<Rightarrow> (k, [], e)
                  | None \<Rightarrow> (let (k, e') = mint_key e
                             in (k, [EElement (ElementActivating ik k eid), EElement (ElementActivated ik k eid scope)], e')));
                (fired, e2) = fire_join ik eid scope arrivals e1
            in do {
              ((routed, steps), e3) \<leftarrow> route_inclusive_gateway F ik eik eid scope e2;
              Some ((counted @ fresh @ fired @ routed, steps), e3)
            }))"

definition activate_join ::
  "feel \<Rightarrow> key \<Rightarrow> elementid \<Rightarrow> key \<Rightarrow> incoming_flow option \<Rightarrow> join_kind \<Rightarrow> step list \<Rightarrow> engine \<Rightarrow> plan" where
  "activate_join F ik eid scope via join pending e = (case join of
     JoinParallel \<Rightarrow> activate_parallel_join ik eid scope via pending e
   | JoinInclusive \<Rightarrow> activate_inclusive_join F ik eid scope via pending e)"

end
