(* ===== verification/Doubles.thy ===== *)
theory Doubles
  imports Text
begin

text \<open>
  Rust's \<open>f64\<close> as far as the engine computes with it. A double is its bit pattern. Every finite double is a
  multiple of \<open>2^-1074\<close>: its value is held exactly as the integer that counts those units, and a result is rounded to
  the nearest double, ties to even.
\<close>

section \<open>Bit patterns and values\<close>

definition f64_sign :: "u64 \<Rightarrow> bool" where
  "f64_sign b \<longleftrightarrow> 2 ^ 63 \<le> uint b"

definition f64_exponent :: "u64 \<Rightarrow> nat" where
  "f64_exponent b = nat (uint b div 2 ^ 52 mod 2 ^ 11)"

definition f64_mantissa :: "u64 \<Rightarrow> int" where
  "f64_mantissa b = uint b mod 2 ^ 52"

definition f64_nan :: "u64 \<Rightarrow> bool" where
  "f64_nan b \<longleftrightarrow> f64_exponent b = 2047 \<and> f64_mantissa b \<noteq> 0"

definition f64_infinite :: "u64 \<Rightarrow> bool" where
  "f64_infinite b \<longleftrightarrow> f64_exponent b = 2047 \<and> f64_mantissa b = 0"

definition f64_finite :: "u64 \<Rightarrow> bool" where
  "f64_finite b \<longleftrightarrow> f64_exponent b \<noteq> 2047"

definition f64_magnitude :: "u64 \<Rightarrow> int" where
  "f64_magnitude b =
     (if f64_exponent b = 0 then f64_mantissa b else (f64_mantissa b + 2 ^ 52) * 2 ^ (f64_exponent b - 1))"

definition f64_units :: "u64 \<Rightarrow> int" where
  "f64_units b = (if f64_sign b then - f64_magnitude b else f64_magnitude b)"

section \<open>Rounding\<close>

fun bit_length :: "nat \<Rightarrow> nat" where
  "bit_length n = (if n = 0 then 0 else Suc (bit_length (n div 2)))"

declare bit_length.simps [simp del]

definition round_half_even :: "int \<Rightarrow> nat \<Rightarrow> int" where
  "round_half_even n k =
     (let q = n div 2 ^ k; r = n mod 2 ^ k
      in if k = 0 then n else if 2 ^ (k - 1) < r \<or> (r = 2 ^ (k - 1) \<and> odd q) then q + 1 else q)"

definition f64_with_sign :: "bool \<Rightarrow> int \<Rightarrow> u64" where
  "f64_with_sign neg v = word_of_int (v + (if neg then 2 ^ 63 else 0))"

definition f64_inf :: "bool \<Rightarrow> u64" where
  "f64_inf neg = f64_with_sign neg (2047 * 2 ^ 52)"

definition f64_round :: "int \<Rightarrow> u64" where
  "f64_round n =
     (let k = bit_length (nat \<bar>n\<bar>) - 53; v = int k * 2 ^ 52 + round_half_even \<bar>n\<bar> k
      in if 2047 * 2 ^ 52 \<le> v then f64_inf (n < 0) else f64_with_sign (n < 0) v)"

section \<open>Operations\<close>

definition f64_of_int :: "int \<Rightarrow> u64" where
  "f64_of_int i = f64_round (i * 2 ^ 1074)"

definition f64_quiet :: u64 where
  "f64_quiet = word_of_int (2047 * 2 ^ 52 + 2 ^ 51)"

definition f64_add :: "u64 \<Rightarrow> u64 \<Rightarrow> u64" where
  "f64_add a b =
     (if f64_nan a \<or> f64_nan b then f64_quiet
      else if f64_infinite a then (if f64_infinite b \<and> f64_sign a \<noteq> f64_sign b then f64_quiet else a)
      else if f64_infinite b then b
      else if f64_units a = 0 \<and> f64_units b = 0 then f64_with_sign (f64_sign a \<and> f64_sign b) 0
      else f64_round (f64_units a + f64_units b))"

definition f64_eq :: "u64 \<Rightarrow> u64 \<Rightarrow> bool" where
  "f64_eq a b \<longleftrightarrow> \<not> f64_nan a \<and> \<not> f64_nan b \<and>
     (if f64_finite a \<and> f64_finite b then f64_units a = f64_units b else a = b)"

text \<open>The magnitude of an infinity orders above that of every finite double.\<close>

definition f64_less :: "u64 \<Rightarrow> u64 \<Rightarrow> bool" where
  "f64_less a b \<longleftrightarrow> \<not> f64_nan a \<and> \<not> f64_nan b \<and> f64_units a < f64_units b"

definition f64_min :: "u64 \<Rightarrow> u64 \<Rightarrow> u64" where
  "f64_min a b = (if f64_nan a then b else if f64_nan b then a else if f64_less b a then b else a)"

definition f64_max :: "u64 \<Rightarrow> u64 \<Rightarrow> u64" where
  "f64_max a b = (if f64_nan a then b else if f64_nan b then a else if f64_less a b then b else a)"

definition f64_whole :: "u64 \<Rightarrow> bool" where
  "f64_whole b \<longleftrightarrow> f64_finite b \<and> f64_units b mod 2 ^ 1074 = 0"

section \<open>Every double is the rounding of its own value\<close>

lemma bit_length_bounds:
  "0 < n \<Longrightarrow> 2 ^ (bit_length n - 1) \<le> n" "n < 2 ^ bit_length n"
proof (induction n rule: bit_length.induct)
  case (1 n)
  {
    assume "0 < n"
    show "2 ^ (bit_length n - 1) \<le> n"
    proof (cases "n div 2 = 0")
      case True
      then show ?thesis using \<open>0 < n\<close> by (simp add: bit_length.simps [of n] bit_length.simps [of 0])
    next
      case False
      then have "2 ^ (bit_length (n div 2) - 1) \<le> n div 2" using \<open>0 < n\<close> 1(1) by simp
      moreover have "bit_length (n div 2) \<noteq> 0" using False by (simp add: bit_length.simps [of "n div 2"])
      then have "(2::nat) ^ bit_length (n div 2) = 2 * 2 ^ (bit_length (n div 2) - 1)"
        by (metis Suc_diff_1 bot_nat_0.not_eq_extremum power_Suc)
      ultimately show ?thesis using \<open>0 < n\<close> by (simp add: bit_length.simps [of n])
    qed
  }
  show "n < 2 ^ bit_length n"
  proof (cases "n = 0")
    case False
    then have "n div 2 < 2 ^ bit_length (n div 2)" using 1(2) by simp
    then have "n < 2 * 2 ^ bit_length (n div 2)" by linarith
    then show ?thesis using False by (simp add: bit_length.simps [of n])
  qed simp
qed

lemma bit_length_eq:
  assumes "2 ^ k \<le> n" "n < 2 ^ Suc k"
  shows "bit_length n = Suc k"
proof -
  have "0 < n" using assms(1) by (meson less_le_trans zero_less_numeral zero_less_power)
  then have "bit_length n \<noteq> 0" by (simp add: bit_length.simps [of n])
  have "(2::nat) ^ (bit_length n - 1) < 2 ^ Suc k" using bit_length_bounds(1) [OF \<open>0 < n\<close>] assms(2) by linarith
  moreover have "(2::nat) ^ k < 2 ^ bit_length n" using bit_length_bounds(2) [of n] assms(1) by linarith
  ultimately have "bit_length n - 1 < Suc k" "k < bit_length n"
    by (metis one_less_numeral_iff power_less_imp_less_exp semiring_norm(76))+
  then show ?thesis using \<open>bit_length n \<noteq> 0\<close> by linarith
qed

lemma bit_length_less: "n < 2 ^ k \<Longrightarrow> bit_length n \<le> k"
proof (rule ccontr)
  assume "n < 2 ^ k" "\<not> bit_length n \<le> k"
  then have "0 < n" "k \<le> bit_length n - 1" by (auto simp: bit_length.simps [of 0] intro: gr0I)
  then have "(2::nat) ^ k \<le> n" using bit_length_bounds(1) [of n] by (meson le_trans one_le_numeral power_increasing)
  with \<open>n < 2 ^ k\<close> show False by simp
qed

lemma f64_fields: "uint b = (if f64_sign b then 2 ^ 63 else 0) + int (f64_exponent b) * 2 ^ 52 + f64_mantissa b"
proof -
  have range: "0 \<le> uint b" "uint b < 2 ^ 64" using uint_lt2p [of b] by simp_all
  define q where "q = uint b div 2 ^ 52"
  have q: "0 \<le> q" "q < 2 ^ 12" using range by (simp_all add: q_def pos_imp_zdiv_nonneg_iff)
  have "uint b = q * 2 ^ 52 + f64_mantissa b" by (simp add: q_def f64_mantissa_def)
  moreover have "q = (if f64_sign b then 2 ^ 11 else 0) + q mod 2 ^ 11"
  proof (cases "f64_sign b")
    case True
    then have "2 ^ 11 \<le> q" using zdiv_mono1 [of "2 ^ 63" "uint b" "2 ^ 52"] by (simp add: f64_sign_def q_def)
    then have "(q - 2 ^ 11) mod 2 ^ 11 = q - 2 ^ 11" using q(2) by (intro mod_pos_pos_trivial) auto
    then have "q mod 2 ^ 11 = q - 2 ^ 11" by (simp add: minus_mod_self2)
    then show ?thesis using True by simp
  next
    case False
    then have "q < 2 ^ 11" by (simp add: f64_sign_def q_def)
    then show ?thesis using False q(1) by simp
  qed
  moreover have "int (f64_exponent b) = q mod 2 ^ 11" by (simp add: f64_exponent_def q_def)
  ultimately show ?thesis by (auto split: if_splits)
qed

lemma f64_ranges: "0 \<le> f64_mantissa b" "f64_mantissa b < 2 ^ 52" "f64_exponent b \<le> 2047"
proof -
  show "0 \<le> f64_mantissa b" "f64_mantissa b < 2 ^ 52" by (simp_all add: f64_mantissa_def)
  have "uint b div 2 ^ 52 mod 2 ^ 11 < 2 ^ 11" by (rule pos_mod_bound) simp
  then show "f64_exponent b \<le> 2047" by (simp add: f64_exponent_def nat_le_iff)
qed

lemma magnitude_nonneg: "0 \<le> f64_magnitude b"
  using f64_ranges [of b] by (simp add: f64_magnitude_def)

lemma round_exact: "round_half_even (q * 2 ^ k) k = q"
  by (simp add: round_half_even_def)

lemma round_magnitude:
  assumes "f64_finite b"
  defines "k \<equiv> bit_length (nat (f64_magnitude b)) - 53"
  shows "int k * 2 ^ 52 + round_half_even (f64_magnitude b) k = int (f64_exponent b) * 2 ^ 52 + f64_mantissa b"
proof (cases "f64_exponent b = 0")
  case True
  then have "nat (f64_magnitude b) < 2 ^ 52" using f64_ranges [of b] by (simp add: f64_magnitude_def nat_less_iff)
  then have "bit_length (nat (f64_magnitude b)) \<le> 52" by (rule bit_length_less)
  then have "k = 0" by (simp add: k_def)
  then show ?thesis using True by (simp add: round_half_even_def f64_magnitude_def)
next
  case False
  let ?m = "f64_mantissa b + 2 ^ 52" and ?x = "f64_exponent b - 1"
  have m: "2 ^ 52 \<le> ?m" "?m < 2 ^ 53" using f64_ranges [of b] by simp_all
  have mag: "f64_magnitude b = ?m * 2 ^ ?x" using False by (simp add: f64_magnitude_def)
  have "(2::nat) ^ (52 + ?x) \<le> nat (?m * 2 ^ ?x)"
    using m(1) by (simp add: le_nat_iff power_add)
  moreover have "nat (?m * 2 ^ ?x) < 2 ^ Suc (52 + ?x)"
    using m f64_ranges(1) [of b] by (subst nat_less_iff) (simp_all add: power_add)
  ultimately have "bit_length (nat (f64_magnitude b)) = Suc (52 + ?x)" unfolding mag by (rule bit_length_eq)
  then have k: "k = ?x" by (simp add: k_def)
  have "round_half_even (f64_magnitude b) k = ?m" unfolding mag k by (rule round_exact)
  moreover have "int k = int (f64_exponent b) - 1" using False by (simp add: k of_nat_diff)
  ultimately show ?thesis by simp
qed

lemma f64_round_units:
  assumes "f64_finite b" "f64_units b \<noteq> 0"
  shows "f64_round (f64_units b) = b"
proof -
  have abs: "\<bar>f64_units b\<bar> = f64_magnitude b" using magnitude_nonneg [of b] by (simp add: f64_units_def)
  have neg: "f64_units b < 0 \<longleftrightarrow> f64_sign b" using assms(2) magnitude_nonneg [of b] by (auto simp: f64_units_def)
  let ?v = "int (f64_exponent b) * 2 ^ 52 + f64_mantissa b"
  have "f64_exponent b \<le> 2046" using assms(1) f64_ranges(3) [of b] by (simp add: f64_finite_def)
  then have "int (f64_exponent b) \<le> 2046" by simp
  then have "?v < 2047 * 2 ^ 52" using f64_ranges(2) [of b] by simp
  moreover have "word_of_int (?v + (if f64_sign b then 2 ^ 63 else 0)) = b"
  proof -
    have "?v + (if f64_sign b then 2 ^ 63 else 0) = uint b" using f64_fields [of b] by linarith
    then show ?thesis by simp
  qed
  ultimately show ?thesis
    unfolding f64_round_def Let_def abs neg round_magnitude [OF assms(1)] by (simp add: f64_with_sign_def)
qed

end
