(* ===== verification/Decisions.thy ===== *)
theory Decisions
  imports Expressions Doubles "HOL-Library.Monad_Syntax"
begin

text \<open>
  Evaluation of decisions (\<open>engine-core/src/dmn/eval.rs\<close>): the walk over the decision requirements graph, decision
  tables with their unary tests, hit policies and aggregations. The FEEL evaluator is a parameter. A panic of the
  source is an outer \<open>None\<close>.
\<close>

section \<open>Values\<close>

definition as_f64 :: "rval \<Rightarrow> u64 option" where
  "as_f64 v = (case v of VInt i \<Rightarrow> Some (f64_of_int i) | VDouble d \<Rightarrow> Some d | _ \<Rightarrow> None)"

text \<open>The derived equality of values: doubles compare as numbers, and a number never equals a value of another type.\<close>

primrec value_eq :: "rval \<Rightarrow> rval \<Rightarrow> bool" where
  "value_eq Null w = (w = Null)"
| "value_eq (VBool b) w = (w = VBool b)"
| "value_eq (VInt i) w = (w = VInt i)"
| "value_eq (VDouble d) w = (case w of VDouble d' \<Rightarrow> f64_eq d d' | _ \<Rightarrow> False)"
| "value_eq (VStr s) w = (w = VStr s)"
| "value_eq (VList xs) w = (case w of VList ys \<Rightarrow> list_all2 (\<lambda>f y. f y) (map value_eq xs) ys | _ \<Rightarrow> False)"
| "value_eq (VMap m) w = (case w of
     VMap m' \<Rightarrow> fmdom m = fmdom m'
       \<and> list_all (\<lambda>(k, f). case fmlookup m' k of None \<Rightarrow> False | Some v \<Rightarrow> f v) (sorted_list_of_fmap (fmmap value_eq m))
   | _ \<Rightarrow> False)"

definition values_equal :: "rval \<Rightarrow> rval \<Rightarrow> bool" where
  "values_equal a b = (case (as_f64 a, as_f64 b) of (Some x, Some y) \<Rightarrow> f64_eq x y | _ \<Rightarrow> value_eq a b)"

definition number_value :: "u64 \<Rightarrow> rval" where
  "number_value n =
     (if f64_finite n \<and> f64_whole n \<and> \<bar>f64_units n\<bar> < 2 ^ 63 * 2 ^ 1074 then VInt (f64_units n div 2 ^ 1074) else VDouble n)"

section \<open>Unary tests\<close>

definition INPUT_VAR :: string where
  "INPUT_VAR = ''__dmn_input__''"

definition opens :: "char \<Rightarrow> bool" where
  "opens c \<longleftrightarrow> c \<in> {CHR ''('', CHR ''['', CHR ''{''}"

definition closes :: "char \<Rightarrow> bool" where
  "closes c \<longleftrightarrow> c \<in> {CHR '')'', CHR '']'', CHR ''}''}"

text \<open>Splitting at the commas outside strings and brackets: the nesting depth, whether a string is open, the item so far.\<close>

primrec split_commas :: "string \<Rightarrow> int \<Rightarrow> bool \<Rightarrow> string \<Rightarrow> string list" where
  "split_commas [] depth in_str item = (if trim item = [] then [] else [trim item])"
| "split_commas (c # cs) depth in_str item =
     (if in_str then split_commas cs depth (c \<noteq> CHR 34) (item @ [c])
      else if c = CHR 34 then split_commas cs depth True (item @ [c])
      else if opens c then split_commas cs (depth + 1) False (item @ [c])
      else if closes c then split_commas cs (depth - 1) False (item @ [c])
      else if c = CHR '','' \<and> depth = 0
      then (if trim item = [] then [] else [trim item]) @ split_commas cs depth False []
      else split_commas cs depth False (item @ [c]))"

definition split_top_level_commas :: "string \<Rightarrow> string list" where
  "split_top_level_commas s = split_commas s 0 False []"

primrec contains_marker :: "string \<Rightarrow> bool \<Rightarrow> bool" where
  "contains_marker [] in_str = False"
| "contains_marker (c # cs) in_str =
     (if c = CHR 34 then contains_marker cs (\<not> in_str) else if c = CHR ''?'' \<and> \<not> in_str then True else contains_marker cs in_str)"

definition contains_input_marker :: "string \<Rightarrow> bool" where
  "contains_input_marker t = contains_marker t False"

primrec substitute_marker :: "string \<Rightarrow> bool \<Rightarrow> string" where
  "substitute_marker [] in_str = []"
| "substitute_marker (c # cs) in_str =
     (if c = CHR 34 then c # substitute_marker cs (\<not> in_str)
      else if c = CHR ''?'' \<and> \<not> in_str then INPUT_VAR @ substitute_marker cs in_str
      else c # substitute_marker cs in_str)"

definition substitute_input_marker :: "string \<Rightarrow> string" where
  "substitute_input_marker t = substitute_marker t False"

definition dmn_strip_prefix :: "string \<Rightarrow> string \<Rightarrow> string option" where
  "dmn_strip_prefix p s = (if starts_with p s then Some (drop (length p) s) else None)"

definition strip_not :: "string \<Rightarrow> string option" where
  "strip_not t = do {
     rest \<leftarrow> dmn_strip_prefix ''not'' t;
     inner \<leftarrow> dmn_strip_prefix ''('' (trim_start rest);
     if inner \<noteq> [] \<and> last inner = CHR '')'' then Some (butlast inner) else None
   }"

text \<open>The position of the first \<open>..\<close>.\<close>

fun find_dots :: "string \<Rightarrow> nat option" where
  "find_dots (a # b # s) = (if a = CHR ''.'' \<and> b = CHR ''.'' then Some 0 else map_option Suc (find_dots (b # s)))"
| "find_dots _ = None"

text \<open>The slice between the brackets panics on a test that is a single bracket.\<close>

definition parse_interval :: "string \<Rightarrow> (string \<times> bool \<times> string \<times> bool) option option" where
  "parse_interval t =
     (if t = [] then Some None
      else
        (let lo_inc = (hd t = CHR ''[''); hi_inc = (last t = CHR '']'')
         in if hd t \<notin> {CHR ''['', CHR ''('', CHR '']''} \<or> last t \<notin> {CHR '']'', CHR '')'', CHR ''[''} then Some None
            else if length t = 1 then None
            else
              (let inner = butlast (tl t)
               in case find_dots inner of
                    None \<Rightarrow> Some None
                  | Some sep \<Rightarrow>
                      (let lo = trim (take sep inner); hi = trim (drop (sep + 2) inner)
                       in if lo = [] \<or> hi = [] then Some None else Some (Some (lo, lo_inc, hi, hi_inc))))))"

definition eval_bool_with_input :: "feel \<Rightarrow> string \<Rightarrow> rval \<Rightarrow> vars \<Rightarrow> string + bool" where
  "eval_bool_with_input F expr input ctx = feel_eval_bool F expr (fmupd INPUT_VAR input ctx)"

definition parens :: "string \<Rightarrow> string" where
  "parens s = ''('' @ s @ '')''"

definition comparison :: "string \<Rightarrow> (string \<times> string) option" where
  "comparison t = Option.bind (List.find (\<lambda>op. starts_with op t) [''<='', ''>='', ''<'', ''>''])
     (\<lambda>op. Some (op, drop (length op) t))"

definition subtest_matches :: "feel \<Rightarrow> string \<Rightarrow> rval \<Rightarrow> vars \<Rightarrow> (string + bool) option" where
  "subtest_matches F test input ctx =
     (let t = trim test
      in if t = [] then Some (Inr True)
         else if contains_input_marker t then Some (eval_bool_with_input F (substitute_input_marker t) input ctx)
         else case comparison t of
           Some (op, rest) \<Rightarrow> Some (eval_bool_with_input F (INPUT_VAR @ '' '' @ op @ '' '' @ parens (trim rest)) input ctx)
         | None \<Rightarrow> map_option (\<lambda>interval. case interval of
               Some (lo, lo_inc, hi, hi_inc) \<Rightarrow>
                 eval_bool_with_input F
                   (INPUT_VAR @ (if lo_inc then '' >= '' else '' > '') @ parens lo @ '' and ''
                    @ INPUT_VAR @ (if hi_inc then '' <= '' else '' < '') @ parens hi) input ctx
             | None \<Rightarrow> map_sum id (values_equal input) (feel_eval F t ctx)) (parse_interval t))"

fun positive_tests :: "feel \<Rightarrow> rval \<Rightarrow> vars \<Rightarrow> string list \<Rightarrow> (string + bool) option" where
  "positive_tests F input ctx [] = Some (Inr False)"
| "positive_tests F input ctx (test # tests) = (case subtest_matches F test input ctx of
     None \<Rightarrow> None
   | Some (Inl err) \<Rightarrow> Some (Inl err)
   | Some (Inr True) \<Rightarrow> Some (Inr True)
   | Some (Inr False) \<Rightarrow> positive_tests F input ctx tests)"

definition positive_list_matches :: "feel \<Rightarrow> string \<Rightarrow> rval \<Rightarrow> vars \<Rightarrow> (string + bool) option" where
  "positive_list_matches F tests input ctx = positive_tests F input ctx (split_top_level_commas tests)"

definition unary_test_matches :: "feel \<Rightarrow> string \<Rightarrow> rval \<Rightarrow> vars \<Rightarrow> (string + bool) option" where
  "unary_test_matches F entry input ctx =
     (let t = trim entry
      in if t = [] \<or> t = ''-'' then Some (Inr True)
         else case strip_not t of
           Some inner \<Rightarrow> map_option (map_sum id Not) (positive_list_matches F inner input ctx)
         | None \<Rightarrow> positive_list_matches F t input ctx)"

section \<open>Decision tables\<close>

record rule_match =
  rm_rule_id :: string
  rm_rule_index :: nat
  rm_row_output :: rval
  rm_per_output :: "rval list"
  rm_evaluated_outputs :: "evaluated_output list"

definition row_value :: "output_clause list \<Rightarrow> rval list \<Rightarrow> rval" where
  "row_value outputs per_output =
     (if length outputs = 1 then (case per_output of [] \<Rightarrow> Null | v # _ \<Rightarrow> v)
      else VMap (foldl (\<lambda>m (output, value). fmupd (case oc_name output of None \<Rightarrow> oc_id output | Some n \<Rightarrow> n) value m)
        fmempty (zip outputs per_output)))"

definition failure_of :: "decision \<Rightarrow> string \<Rightarrow> evaluation_failure" where
  "failure_of d message = \<lparr> ef_message = message, ef_failed_decision_id = dc_id d \<rparr>"

definition eval_text :: "feel \<Rightarrow> string \<Rightarrow> vars \<Rightarrow> (string \<Rightarrow> string) \<Rightarrow> string + rval" where
  "eval_text F txt ctx message = (if trim txt = [] then Inr Null else map_sum message id (feel_eval F txt ctx))"

definition sq :: "string \<Rightarrow> string" where
  "sq s = [CHR 39] @ s @ [CHR 39]"

fun eval_inputs :: "feel \<Rightarrow> decision \<Rightarrow> vars \<Rightarrow> input_clause list \<Rightarrow> string + (evaluated_input \<times> rval) list" where
  "eval_inputs F d ctx [] = Inr []"
| "eval_inputs F d ctx (i # is) =
     (case eval_text F (ic_expression i) ctx (\<lambda>err.
         ''failed to evaluate input expression '' @ sq (ic_expression i) @ '' of decision '' @ sq (dc_id d) @ '': '' @ err) of
        Inl err \<Rightarrow> Inl err
      | Inr v \<Rightarrow> map_sum id (\<lambda>rest. (\<lparr> ei_input_id = ic_id i, ei_input_name = ic_label i, ei_input_value = v \<rparr>, v) # rest)
          (eval_inputs F d ctx is))"

text \<open>The entries of a rule against the input values, column by column, up to the first that does not match.\<close>

fun rule_matches :: "feel \<Rightarrow> vars \<Rightarrow> string list \<Rightarrow> rval list \<Rightarrow> (string + bool) option" where
  "rule_matches F ctx [] vals = Some (Inr True)"
| "rule_matches F ctx (entry # entries) vals =
     (case unary_test_matches F entry (case vals of [] \<Rightarrow> Null | v # _ \<Rightarrow> v) ctx of
        Some (Inr True) \<Rightarrow> rule_matches F ctx entries (drop 1 vals)
      | r \<Rightarrow> r)"

fun eval_outputs :: "feel \<Rightarrow> decision \<Rightarrow> vars \<Rightarrow> output_clause list \<Rightarrow> string list \<Rightarrow> string + (evaluated_output \<times> rval) list" where
  "eval_outputs F d ctx [] texts = Inr []"
| "eval_outputs F d ctx (o' # os) texts =
     (let txt = (case texts of [] \<Rightarrow> [] | t # _ \<Rightarrow> t)
      in case eval_text F txt ctx (\<lambda>err.
           ''failed to evaluate output entry '' @ sq txt @ '' of decision '' @ sq (dc_id d) @ '': '' @ err) of
          Inl err \<Rightarrow> Inl err
        | Inr v \<Rightarrow> map_sum id (\<lambda>rest. (\<lparr> eo_output_id = oc_id o', eo_output_name = oc_name o', eo_output_value = v \<rparr>, v) # rest)
            (eval_outputs F d ctx os (drop 1 texts)))"

fun match_rules ::
  "feel \<Rightarrow> decision \<Rightarrow> vars \<Rightarrow> output_clause list \<Rightarrow> rval list \<Rightarrow> (nat \<times> decision_rule) list \<Rightarrow> (string + rule_match list) option" where
  "match_rules F d ctx outputs vals [] = Some (Inr [])"
| "match_rules F d ctx outputs vals ((index, rule) # rules) =
     (case rule_matches F ctx (dr_input_entries rule) vals of
        None \<Rightarrow> None
      | Some (Inl err) \<Rightarrow> Some (Inl (''in decision '' @ sq (dc_id d) @ '': '' @ err))
      | Some (Inr False) \<Rightarrow> match_rules F d ctx outputs vals rules
      | Some (Inr True) \<Rightarrow> (case eval_outputs F d ctx outputs (dr_output_entries rule) of
          Inl err \<Rightarrow> Some (Inl err)
        | Inr outs \<Rightarrow> map_option (map_sum id (\<lambda>rest.
            \<lparr> rm_rule_id = dr_id rule, rm_rule_index = index, rm_row_output = row_value outputs (map snd outs),
              rm_per_output = map snd outs, rm_evaluated_outputs = map fst outs \<rparr> # rest))
            (match_rules F d ctx outputs vals rules)))"

section \<open>Hit policies\<close>

definition output_priorities :: "feel \<Rightarrow> output_clause list \<Rightarrow> rval list list" where
  "output_priorities F outputs = map (\<lambda>o'. map (\<lambda>t. case feel_eval F t fmempty of Inr v \<Rightarrow> v | Inl _ \<Rightarrow> Null) (oc_output_values o')) outputs"

text \<open>The position of a value in the declared priorities; a value that is not declared comes last.\<close>

definition priority_of :: "rval list \<Rightarrow> rval \<Rightarrow> nat" where
  "priority_of declared value = (case List.find (\<lambda>i. values_equal (declared ! i) value) [0 ..< length declared] of
     None \<Rightarrow> 2 ^ 64 - 1 | Some i \<Rightarrow> i)"

definition priority_key :: "rval list list \<Rightarrow> rval list \<Rightarrow> nat list" where
  "priority_key priorities per_output =
     map (\<lambda>(col, value). if col < length priorities then priority_of (priorities ! col) value else 2 ^ 64 - 1)
       (enumerate 0 per_output)"

text \<open>\<open>Vec<usize>\<close> compares lexicographically.\<close>

fun lex_le :: "nat list \<Rightarrow> nat list \<Rightarrow> bool" where
  "lex_le [] ys = True"
| "lex_le (x # xs) [] = False"
| "lex_le (x # xs) (y # ys) = (x < y \<or> (x = y \<and> lex_le xs ys))"

text \<open>\<open>min_by\<close> keeps the earlier of two equal minima, and \<open>sort_by\<close> is stable.\<close>

fun insert_by :: "('a \<Rightarrow> nat list) \<Rightarrow> 'a \<Rightarrow> 'a list \<Rightarrow> 'a list" where
  "insert_by f x [] = [x]"
| "insert_by f x (y # ys) = (if lex_le (f x) (f y) then x # y # ys else y # insert_by f x ys)"

definition stable_sort_by :: "('a \<Rightarrow> nat list) \<Rightarrow> 'a list \<Rightarrow> 'a list" where
  "stable_sort_by f xs = foldr (insert_by f) xs []"

definition min_index_by :: "('a \<Rightarrow> nat list) \<Rightarrow> 'a list \<Rightarrow> nat option" where
  "min_index_by f xs = (case xs of
     [] \<Rightarrow> None
   | _ \<Rightarrow> Some (fold (\<lambda>i best. if lex_le (f (xs ! best)) (f (xs ! i)) then best else i) [1 ..< length xs] 0))"

fun numbers :: "feel \<Rightarrow> rule_match list \<Rightarrow> string + u64 list" where
  "numbers F [] = Inr []"
| "numbers F (m # ms) =
     (let v = (case rm_per_output m of [] \<Rightarrow> Null | x # _ \<Rightarrow> x)
      in case as_f64 v of
           None \<Rightarrow> Inl (''COLLECT aggregation requires numeric outputs, got '' @ debug_value F v)
         | Some n \<Rightarrow> map_sum id ((#) n) (numbers F ms))"

definition aggregate :: "feel \<Rightarrow> aggregation \<Rightarrow> rule_match list \<Rightarrow> string + rval" where
  "aggregate F agg matched =
     (if agg = AggCount then Inr (VInt (int (length matched)))
      else if matched = [] then Inr Null
      else map_sum id (\<lambda>nums. number_value (case agg of
          AggMin \<Rightarrow> foldl f64_min (f64_inf False) nums
        | AggMax \<Rightarrow> foldl f64_max (f64_inf True) nums
        | _ \<Rightarrow> foldl f64_add 0 nums)) (numbers F matched))"

definition first_row :: "rule_match list \<Rightarrow> rval" where
  "first_row matched = (case matched of [] \<Rightarrow> Null | m # _ \<Rightarrow> rm_row_output m)"

definition apply_hit_policy :: "feel \<Rightarrow> decision_table \<Rightarrow> rule_match list \<Rightarrow> string + rval \<times> nat list" where
  "apply_hit_policy F table matched =
     (let all = [0 ..< length matched];
          rows = VList (map rm_row_output matched);
          rank = (\<lambda>m. priority_key (output_priorities F (dt_outputs table)) (rm_per_output m))
      in case dt_hit_policy table of
           HitUnique \<Rightarrow>
             (if 1 < length matched
              then Inl (''hit policy UNIQUE requires at most one matching rule, but '' @ nat_string (length matched) @ '' rules matched'')
              else Inr (first_row matched, all))
         | HitFirst \<Rightarrow> Inr (first_row matched, if matched = [] then [] else [0])
         | HitAny \<Rightarrow> (case matched of
             [] \<Rightarrow> Inr (Null, [])
           | first # rest \<Rightarrow>
               (if list_ex (\<lambda>m. \<not> value_eq (rm_row_output m) (rm_row_output first)) rest
                then Inl ''hit policy ANY requires all matching rules to produce the same output, but outputs differ''
                else Inr (rm_row_output first, [0])))
         | HitPriority \<Rightarrow> (case min_index_by rank matched of
             None \<Rightarrow> Inr (Null, []) | Some i \<Rightarrow> Inr (rm_row_output (matched ! i), [i]))
         | HitCollect \<Rightarrow> (case dt_aggregation table of
             None \<Rightarrow> Inr (rows, all) | Some agg \<Rightarrow> map_sum id (\<lambda>v. (v, all)) (aggregate F agg matched))
         | HitRuleOrder \<Rightarrow> Inr (rows, all)
         | HitOutputOrder \<Rightarrow>
             (let order = stable_sort_by (\<lambda>i. rank (matched ! i)) all
              in Inr (VList (map (\<lambda>i. rm_row_output (matched ! i)) order), order)))"

definition eval_table :: "feel \<Rightarrow> decision \<Rightarrow> decision_table \<Rightarrow> vars \<Rightarrow> (string + rval \<times> evaluated_decision) option" where
  "eval_table F d table ctx = (case eval_inputs F d ctx (dt_inputs table) of
     Inl err \<Rightarrow> Some (Inl err)
   | Inr ins \<Rightarrow> map_option (\<lambda>r. case r of
       Inl err \<Rightarrow> Inl err
     | Inr matched \<Rightarrow> map_sum id (\<lambda>(output, selected).
         (output, \<lparr> ed_decision_id = dc_id d, ed_decision_name = dc_name d, ed_decision_type = DtDecisionTable,
            ed_decision_output = output, ed_evaluated_inputs = map fst ins,
            ed_matched_rules = map (\<lambda>i. \<lparr> mr_rule_id = rm_rule_id (matched ! i), mr_rule_index = rm_rule_index (matched ! i) + 1,
              mr_evaluated_outputs = rm_evaluated_outputs (matched ! i) \<rparr>) selected \<rparr>))
         (apply_hit_policy F table matched))
       (match_rules F d ctx (dt_outputs table) (map snd ins) (enumerate 0 (dt_rules table))))"

section \<open>The graph\<close>

definition eval_logic :: "feel \<Rightarrow> decision \<Rightarrow> vars \<Rightarrow> (string + rval \<times> evaluated_decision) option" where
  "eval_logic F d ctx = (case dc_logic d of
     LiteralExpression txt \<Rightarrow> Some (map_sum
       (\<lambda>err. ''failed to evaluate literal expression of decision '' @ sq (dc_id d) @ '': '' @ err)
       (\<lambda>output. (output, \<lparr> ed_decision_id = dc_id d, ed_decision_name = dc_name d, ed_decision_type = DtLiteralExpression,
          ed_decision_output = output, ed_evaluated_inputs = [], ed_matched_rules = [] \<rparr>)) (feel_eval F txt ctx))
   | DecisionTable table \<Rightarrow> eval_table F d table ctx
   | Unsupported kind \<Rightarrow>
       Some (Inl (''decision '' @ sq (dc_id d) @ '' has an unsupported decision type '' @ sq kind)))"

text \<open>The walk: the context, the decisions evaluated so far and the ids that are done. A decision that returns has
  taken itself off the stack, so the stack of a call is that of its caller with the caller added.\<close>

record walk =
  wk_ctx :: vars
  wk_evaluated :: "evaluated_decision list"
  wk_done :: "string fset"

type_synonym walked = "((evaluation_failure \<times> evaluated_decision list) + rval \<times> walk) option"

definition graph_ids :: "decision_requirements_graph \<Rightarrow> string set" where
  "graph_ids g = dc_id ` set (drg_decisions g)"

function (sequential) eval_decision :: "feel \<Rightarrow> decision_requirements_graph \<Rightarrow> string fset \<Rightarrow> string \<Rightarrow> walk \<Rightarrow> walked"
  and eval_required :: "feel \<Rightarrow> decision_requirements_graph \<Rightarrow> string fset \<Rightarrow> string list \<Rightarrow> walk \<Rightarrow> walked" where
  "eval_decision F g on_stack did w = (case drg_decision g did of
     None \<Rightarrow> Some (Inl (\<lparr> ef_message = ''no decision found with id '' @ sq did, ef_failed_decision_id = did \<rparr>, wk_evaluated w))
   | Some d \<Rightarrow>
       (if did |\<in>| wk_done w then Some (Inr (case fmlookup (wk_ctx w) (result_name d) of None \<Rightarrow> Null | Some v \<Rightarrow> v, w))
        else if did |\<in>| on_stack
        then Some (Inl (\<lparr> ef_message = ''the decision requirements graph has a cycle involving decision '' @ sq did,
          ef_failed_decision_id = did \<rparr>, wk_evaluated w))
        else (case eval_required F g (finsert did on_stack) (dc_required_decisions d) w of
            Some (Inr (_, w1)) \<Rightarrow> (case eval_logic F d (wk_ctx w1) of
                None \<Rightarrow> None
              | Some (Inl message) \<Rightarrow> Some (Inl (failure_of d message, wk_evaluated w1))
              | Some (Inr (output, ev)) \<Rightarrow> Some (Inr (output, \<lparr> wk_ctx = fmupd (result_name d) output (wk_ctx w1),
                  wk_evaluated = wk_evaluated w1 @ [ev], wk_done = finsert did (wk_done w1) \<rparr>)))
          | r \<Rightarrow> r)))"
| "eval_required F g on_stack [] w = Some (Inr (Null, w))"
| "eval_required F g on_stack (required # rest) w = (case eval_decision F g on_stack required w of
     Some (Inr (_, w1)) \<Rightarrow> eval_required F g on_stack rest w1
   | r \<Rightarrow> r)"
  by pat_completeness auto

definition unvisited :: "decision_requirements_graph \<Rightarrow> string fset \<Rightarrow> nat" where
  "unvisited g on_stack = card (graph_ids g - fset on_stack)"

lemma drg_decisionD: "drg_decision g did = Some d \<Longrightarrow> d \<in> set (drg_decisions g) \<and> dc_id d = did"
  by (auto simp: drg_decision_def find_Some_iff)

lemma unvisited_less:
  assumes "drg_decision g did = Some d" "did |\<notin>| on_stack"
  shows "unvisited g (finsert did on_stack) < unvisited g on_stack"
  unfolding unvisited_def graph_ids_def
proof (rule psubset_card_mono)
  show "dc_id ` set (drg_decisions g) - fset (finsert did on_stack) \<subset> dc_id ` set (drg_decisions g) - fset on_stack"
    using assms drg_decisionD [OF assms(1)] by (auto simp: image_iff)
qed simp

termination eval_decision
  by (relation "measures [case_sum (\<lambda>(F, g, on_stack, did, w). unvisited g on_stack) (\<lambda>(F, g, on_stack, ds, w). unvisited g on_stack),
      case_sum (\<lambda>_. 0) (\<lambda>(F, g, on_stack, ds, w). Suc (length ds))]") (auto simp: unvisited_less)

declare eval_decision.simps [simp del]

definition dmn_evaluate :: "feel \<Rightarrow> decision_requirements_graph \<Rightarrow> string \<Rightarrow> vars \<Rightarrow> decision_evaluation_result option" where
  "dmn_evaluate F g did input = map_option (\<lambda>r. case r of
       Inr (output, w) \<Rightarrow> \<lparr> der_decision_id = did, der_decision_output = output, der_evaluated_decisions = wk_evaluated w, der_failure = None \<rparr>
     | Inl (failure, evaluated) \<Rightarrow> \<lparr> der_decision_id = did, der_decision_output = Null, der_evaluated_decisions = evaluated, der_failure = Some failure \<rparr>)
     (eval_decision F g {||} did \<lparr> wk_ctx = input, wk_evaluated = [], wk_done = {||} \<rparr>)"

lemma map_sum_Inr: "map_sum g f r = Inr y \<longleftrightarrow> (\<exists>x. r = Inr x \<and> y = f x)"
  by (cases r) auto

section \<open>Decisions are evaluated once, after what they require\<close>

definition requires :: "decision_requirements_graph \<Rightarrow> (string \<times> string) set" where
  "requires g = {(a, b). \<exists>d. drg_decision g a = Some d \<and> b \<in> set (dc_required_decisions d)}"

definition evaluated_ids :: "evaluated_decision list \<Rightarrow> string list" where
  "evaluated_ids = map ed_decision_id"

definition in_dependency_order :: "decision_requirements_graph \<Rightarrow> string list \<Rightarrow> bool" where
  "in_dependency_order g ids \<longleftrightarrow> distinct ids \<and>
     (\<forall>i < length ids. \<exists>d. drg_decision g (ids ! i) = Some d \<and> set (dc_required_decisions d) \<subseteq> set (take i ids))"

definition walk_ok :: "decision_requirements_graph \<Rightarrow> walk \<Rightarrow> bool" where
  "walk_ok g w \<longleftrightarrow> in_dependency_order g (evaluated_ids (wk_evaluated w)) \<and> set (evaluated_ids (wk_evaluated w)) = fset (wk_done w)"

lemma in_dependency_order_snoc:
  assumes "in_dependency_order g ids" "x \<notin> set ids" "drg_decision g x = Some d" "set (dc_required_decisions d) \<subseteq> set ids"
  shows "in_dependency_order g (ids @ [x])"
  using assms unfolding in_dependency_order_def by (auto simp: nth_append less_Suc_eq)

lemma eval_table_id:
  assumes "eval_table F d table ctx = Some (Inr (out, ev))"
  shows "ed_decision_id ev = dc_id d \<and> ed_decision_output ev = out"
proof -
  obtain ins where ins: "eval_inputs F d ctx (dt_inputs table) = Inr ins"
    using assms by (cases "eval_inputs F d ctx (dt_inputs table)") (auto simp: eval_table_def)
  obtain r where r: "match_rules F d ctx (dt_outputs table) (map snd ins) (enumerate 0 (dt_rules table)) = Some r"
    using assms by (cases "match_rules F d ctx (dt_outputs table) (map snd ins) (enumerate 0 (dt_rules table))") (auto simp: eval_table_def ins)
  show ?thesis using assms by (cases r) (auto simp: eval_table_def ins r map_sum_Inr)
qed

lemma eval_logic_id: "eval_logic F d ctx = Some (Inr (out, ev)) \<Longrightarrow> ed_decision_id ev = dc_id d \<and> ed_decision_output ev = out"
  by (cases "dc_logic d") (auto simp: eval_logic_def map_sum_Inr eval_table_id)

text \<open>What a call that returns a value leaves behind: the walk is in order, the decision is done, and no decision of
  the stack has been done on the way.\<close>

definition extends_walk :: "decision_requirements_graph \<Rightarrow> string fset \<Rightarrow> walk \<Rightarrow> walk \<Rightarrow> bool" where
  "extends_walk g on_stack w w' \<longleftrightarrow> walk_ok g w' \<and> fset (wk_done w) \<subseteq> fset (wk_done w')
     \<and> (fset (wk_done w') - fset (wk_done w)) \<inter> fset on_stack = {} \<and> (\<exists>rest. wk_evaluated w' = wk_evaluated w @ rest)"

lemma extends_walk_trans:
  "extends_walk g st w w1 \<Longrightarrow> extends_walk g st w1 w2 \<Longrightarrow> extends_walk g st w w2"
  unfolding extends_walk_def by auto

lemma walk_step:
  "eval_decision F g st did w = Some (Inr (out, w')) \<Longrightarrow> walk_ok g w \<Longrightarrow>
     extends_walk g st w w' \<and> did |\<in>| wk_done w'
     \<and> (did |\<notin>| wk_done w \<longrightarrow> wk_evaluated w' \<noteq> [] \<and> ed_decision_id (last (wk_evaluated w')) = did
          \<and> ed_decision_output (last (wk_evaluated w')) = out)"
  "eval_required F g st ds w = Some (Inr (out', w')) \<Longrightarrow> walk_ok g w \<Longrightarrow>
     extends_walk g st w w' \<and> set ds \<subseteq> fset (wk_done w')"
proof (induction F g st did w and F g st ds w arbitrary: out w' and out' w' rule: eval_decision_eval_required.induct)
  case (1 F g st did w)
  note call = 1(2) [unfolded eval_decision.simps [of F g st did w]]
  obtain d where d: "drg_decision g did = Some d" using call by (cases "drg_decision g did") auto
  have id: "dc_id d = did" using drg_decisionD [OF d] by simp
  show ?case
  proof (cases "did |\<in>| wk_done w")
    case True
    then show ?thesis using call 1(3) d by (simp add: extends_walk_def)
  next
    case False
    then have new: "did |\<notin>| st" using call d by (auto split: if_splits)
    from call d False new obtain o1 w1 ev where
      req: "eval_required F g (finsert did st) (dc_required_decisions d) w = Some (Inr (o1, w1))" and
      logic: "eval_logic F d (wk_ctx w1) = Some (Inr (out, ev))" and
      w': "w' = \<lparr> wk_ctx = fmupd (result_name d) out (wk_ctx w1), wk_evaluated = wk_evaluated w1 @ [ev], wk_done = finsert did (wk_done w1) \<rparr>"
      by (auto split: option.splits sum.splits)
    from 1(1) [OF d False new req 1(3)]
    have ext: "extends_walk g (finsert did st) w w1" and all: "set (dc_required_decisions d) \<subseteq> fset (wk_done w1)" by auto
    have fresh: "did |\<notin>| wk_done w1" using ext False by (auto simp: extends_walk_def)
    note ev = eval_logic_id [OF logic]
    have "walk_ok g w'"
      using ext all fresh ev id in_dependency_order_snoc [OF _ _ d]
      by (auto simp: extends_walk_def walk_ok_def w' evaluated_ids_def)
    then show ?thesis using ext fresh new ev id by (auto simp: extends_walk_def w')
  qed
next
  case (2 F g st w)
  then show ?case by (simp add: extends_walk_def)
next
  case (3 F g st required rest w)
  from 3(3) obtain o1 w1 where one: "eval_decision F g st required w = Some (Inr (o1, w1))"
    and rest: "eval_required F g st rest w1 = Some (Inr (out', w'))"
    by (auto split: option.splits sum.splits)
  from 3(1) [OF one 3(4)] have ext: "extends_walk g st w w1" and "required |\<in>| wk_done w1" by auto
  moreover from ext have "walk_ok g w1" by (simp add: extends_walk_def)
  from 3(2) [OF one refl refl rest this] have "extends_walk g st w1 w'" "set rest \<subseteq> fset (wk_done w')" by auto
  moreover from this(1) have "fset (wk_done w1) \<subseteq> fset (wk_done w')" by (simp add: extends_walk_def)
  ultimately show ?case using extends_walk_trans [OF ext] by auto
qed

lemma order_requires:
  "in_dependency_order g ids \<Longrightarrow> i < length ids \<Longrightarrow> (ids ! i, b) \<in> requires g \<Longrightarrow> b \<in> set (take i ids)"
  unfolding in_dependency_order_def requires_def by (auto dest!: spec [of _ i])

lemma order_closed:
  assumes "in_dependency_order g ids" "(a, b) \<in> (requires g)\<^sup>*" "a \<in> set ids"
  shows "b \<in> set ids"
  using assms(2,3)
proof (induction rule: rtrancl_induct)
  case (step b c)
  then obtain i where "i < length ids" "ids ! i = b" by (metis in_set_conv_nth)
  then show ?case using step(2) order_requires [OF assms(1)] by (metis in_set_takeD)
qed

lemma order_earlier:
  assumes "in_dependency_order g ids" "(a, b) \<in> (requires g)\<^sup>+" "i < length ids" "ids ! i = a"
  shows "b \<in> set (take i ids)"
  using assms(2,3,4)
proof (induction arbitrary: rule: trancl_induct)
  case (base b)
  then show ?case using order_requires [OF assms(1)] by metis
next
  case (step b c)
  then obtain j where j: "j < length (take i ids)" "take i ids ! j = b" by (metis in_set_conv_nth)
  then have "c \<in> set (take j ids)" using step(2) order_requires [OF assms(1), of j c] by simp
  then show ?case using j by (metis in_mono less_imp_le_nat length_take min_less_iff_conj set_take_subset_set_take)
qed

lemma evaluation_order:
  assumes "dmn_evaluate F g did input = Some r" "der_failure r = None"
  shows "in_dependency_order g (evaluated_ids (der_evaluated_decisions r))"
    and "set (evaluated_ids (der_evaluated_decisions r)) \<supseteq> {x. (did, x) \<in> (requires g)\<^sup>*}"
    and "(did, x) \<in> (requires g)\<^sup>* \<Longrightarrow> (x, x) \<notin> (requires g)\<^sup>+"
    and "der_evaluated_decisions r \<noteq> []" "ed_decision_id (last (der_evaluated_decisions r)) = did"
      "ed_decision_output (last (der_evaluated_decisions r)) = der_decision_output r"
proof -
  let ?w = "\<lparr> wk_ctx = input, wk_evaluated = [], wk_done = {||} \<rparr>"
  obtain z where z: "eval_decision F g {||} did ?w = Some z"
    using assms(1) by (cases "eval_decision F g {||} did ?w") (simp_all add: dmn_evaluate_def)
  then obtain out w' where ok: "eval_decision F g {||} did ?w = Some (Inr (out, w'))"
    and r: "der_evaluated_decisions r = wk_evaluated w'" "der_decision_output r = out"
    using assms by (cases z) (auto simp: dmn_evaluate_def)
  have "walk_ok g ?w" by (simp add: walk_ok_def in_dependency_order_def evaluated_ids_def)
  note w = walk_step(1) [OF ok this]
  then have ids: "in_dependency_order g (evaluated_ids (wk_evaluated w'))" and did: "did \<in> set (evaluated_ids (wk_evaluated w'))"
    by (auto simp: extends_walk_def walk_ok_def)
  show "in_dependency_order g (evaluated_ids (der_evaluated_decisions r))" by (simp add: r ids)
  show "set (evaluated_ids (der_evaluated_decisions r)) \<supseteq> {x. (did, x) \<in> (requires g)\<^sup>*}"
    using order_closed [OF ids _ did] by (auto simp: r)
  show "der_evaluated_decisions r \<noteq> []" "ed_decision_id (last (der_evaluated_decisions r)) = did"
    "ed_decision_output (last (der_evaluated_decisions r)) = der_decision_output r"
    using w by (auto simp: r)
  show "(x, x) \<notin> (requires g)\<^sup>+" if reach: "(did, x) \<in> (requires g)\<^sup>*"
  proof
    assume cycle: "(x, x) \<in> (requires g)\<^sup>+"
    obtain i where i: "i < length (evaluated_ids (wk_evaluated w'))" "evaluated_ids (wk_evaluated w') ! i = x"
      using order_closed [OF ids reach did] by (metis in_set_conv_nth)
    from order_earlier [OF ids cycle i] obtain j where "j < i" "evaluated_ids (wk_evaluated w') ! j = x"
      using i by (auto simp: in_set_conv_nth)
    then show False using i ids by (metis (no_types, lifting) in_dependency_order_def less_imp_neq less_trans nth_eq_iff_index_eq)
  qed
qed

text \<open>C18: a decision that evaluates without failure has evaluated every decision it requires, directly or not, exactly
  once and before the decisions that require it, and itself last, with the output it reports. In particular the part
  of the graph below it has no cycle: a cycle always fails the evaluation, which ends on every graph.
\<close>

theorem decisions_in_dependency_order:
  assumes "dmn_evaluate F g did input = Some r" "der_failure r = None"
  shows "in_dependency_order g (evaluated_ids (der_evaluated_decisions r))
    \<and> {x. (did, x) \<in> (requires g)\<^sup>*} \<subseteq> set (evaluated_ids (der_evaluated_decisions r))
    \<and> {x. (did, x) \<in> (requires g)\<^sup>*} \<inter> {x. (x, x) \<in> (requires g)\<^sup>+} = {}
    \<and> der_evaluated_decisions r \<noteq> [] \<and> ed_decision_id (last (der_evaluated_decisions r)) = did
    \<and> ed_decision_output (last (der_evaluated_decisions r)) = der_decision_output r"
  using evaluation_order [OF assms] by blast

text \<open>An evaluator that returns the text of an expression, and a decision that requires another.\<close>

definition echo_feel :: feel where
  "echo_feel = literal_feel\<lparr> feel_eval := (\<lambda>t _. Inr (VStr t)) \<rparr>"

definition demo_decision :: "string \<Rightarrow> string list \<Rightarrow> decision" where
  "demo_decision i required = \<lparr> dc_id = i, dc_name = i, dc_variable_name = None, dc_required_decisions = required,
     dc_logic = LiteralExpression i \<rparr>"

definition demo_graph :: decision_requirements_graph where
  "demo_graph = \<lparr> drg_id = ''g'', drg_name = ''g'', drg_namespace = [],
     drg_decisions = [demo_decision ''dish'' [''season''], demo_decision ''season'' []], drg_xml = [] \<rparr>"

theorem decisions_in_dependency_order_witness:
  "\<exists>r. dmn_evaluate echo_feel demo_graph ''dish'' fmempty = Some r \<and> der_failure r = None
     \<and> evaluated_ids (der_evaluated_decisions r) = [''season'', ''dish'']
     \<and> in_dependency_order demo_graph (evaluated_ids (der_evaluated_decisions r))"
proof -
  obtain r where r: "dmn_evaluate echo_feel demo_graph ''dish'' fmempty = Some r" "der_failure r = None"
    "evaluated_ids (der_evaluated_decisions r) = [''season'', ''dish'']"
    by (simp add: dmn_evaluate_def eval_decision.simps demo_graph_def demo_decision_def drg_decision_def eval_logic_def
        echo_feel_def evaluated_ids_def)
  then show ?thesis using decisions_in_dependency_order [OF r(1,2)] by blast
qed

section \<open>Priorities\<close>

lemma lex_le_refl [simp]: "lex_le xs xs"
  by (induction xs) auto

lemma lex_le_total: "lex_le xs ys \<or> lex_le ys xs"
  by (induction xs ys rule: lex_le.induct) auto

lemma lex_le_trans: "lex_le xs ys \<Longrightarrow> lex_le ys zs \<Longrightarrow> lex_le xs zs"
proof (induction xs ys arbitrary: zs rule: lex_le.induct)
  case (3 x xs y ys)
  then show ?case by (cases zs) auto
qed auto

definition first_minimum :: "('a \<Rightarrow> nat list) \<Rightarrow> 'a list \<Rightarrow> nat \<Rightarrow> bool" where
  "first_minimum f xs i \<longleftrightarrow> i < length xs \<and> (\<forall>j < length xs. lex_le (f (xs ! i)) (f (xs ! j))) \<and> (\<forall>j < i. \<not> lex_le (f (xs ! j)) (f (xs ! i)))"

lemma first_minimum_unique: "first_minimum f xs i \<Longrightarrow> first_minimum f xs j \<Longrightarrow> i = j"
  unfolding first_minimum_def by (metis linorder_neqE_nat)

lemma min_fold:
  "let best = fold (\<lambda>i best. if lex_le (f (xs ! best)) (f (xs ! i)) then best else i) [1 ..< Suc n] 0
   in best \<le> n \<and> (\<forall>j \<le> n. lex_le (f (xs ! best)) (f (xs ! j))) \<and> (\<forall>j < best. \<not> lex_le (f (xs ! j)) (f (xs ! best)))"
proof (induction n)
  case (Suc n)
  define best where "best = fold (\<lambda>i best. if lex_le (f (xs ! best)) (f (xs ! i)) then best else i) [1 ..< Suc n] 0"
  have IH: "best \<le> n" "\<And>j. j \<le> n \<Longrightarrow> lex_le (f (xs ! best)) (f (xs ! j))" "\<And>j. j < best \<Longrightarrow> \<not> lex_le (f (xs ! j)) (f (xs ! best))"
    using Suc unfolding best_def [symmetric] Let_def by auto
  have step: "fold (\<lambda>i best. if lex_le (f (xs ! best)) (f (xs ! i)) then best else i) [1 ..< Suc (Suc n)] 0
    = (if lex_le (f (xs ! best)) (f (xs ! Suc n)) then best else Suc n)"
    by (simp add: best_def)
  show ?case
  proof (cases "lex_le (f (xs ! best)) (f (xs ! Suc n))")
    case True
    then show ?thesis unfolding step Let_def using IH by (auto simp: le_Suc_eq)
  next
    case False
    then have "lex_le (f (xs ! Suc n)) (f (xs ! best))" using lex_le_total by blast
    then have "lex_le (f (xs ! Suc n)) (f (xs ! j))" if "j \<le> n" for j using IH(2) [OF that] lex_le_trans by blast
    moreover have "\<not> lex_le (f (xs ! j)) (f (xs ! Suc n))" if "j \<le> n" for j
      using IH(2) [OF that] lex_le_trans False by blast
    ultimately show ?thesis unfolding step Let_def using False by (auto simp: le_Suc_eq less_Suc_eq_le)
  qed
qed simp

lemma min_index_first:
  assumes "xs \<noteq> []"
  shows "\<exists>i. min_index_by f xs = Some i \<and> first_minimum f xs i"
proof -
  obtain n where "length xs = Suc n" using assms by (cases xs) auto
  then show ?thesis
    using min_fold [of f xs n] assms by (auto simp: min_index_by_def first_minimum_def Let_def less_Suc_eq_le split: list.split)
qed

lemma insert_by_head: "hd (insert_by f x ys) = (if ys = [] \<or> lex_le (f x) (f (hd ys)) then x else hd ys)" "insert_by f x ys \<noteq> []"
  by (cases ys; simp)+

lemma sort_head:
  "xs \<noteq> [] \<Longrightarrow> \<exists>i. first_minimum f xs i \<and> stable_sort_by f xs \<noteq> [] \<and> hd (stable_sort_by f xs) = xs ! i"
proof (induction xs)
  case (Cons x xs)
  show ?case
  proof (cases "xs = []")
    case True
    then show ?thesis by (auto simp: stable_sort_by_def first_minimum_def)
  next
    case False
    then obtain i where i: "first_minimum f xs i" "stable_sort_by f xs \<noteq> []" "hd (stable_sort_by f xs) = xs ! i" using Cons by auto
    have sort: "stable_sort_by f (x # xs) = insert_by f x (stable_sort_by f xs)" by (simp add: stable_sort_by_def)
    show ?thesis
    proof (cases "lex_le (f x) (f (xs ! i))")
      case True
      then have "first_minimum f (x # xs) 0"
        using i(1) lex_le_trans by (auto simp: first_minimum_def nth_Cons split: nat.split)
      then show ?thesis using True i unfolding sort by (intro exI [of _ 0]) (simp add: insert_by_head)
    next
      case False
      then have "lex_le (f (xs ! i)) (f x)" using lex_le_total by blast
      then have "first_minimum f (x # xs) (Suc i)"
        using i(1) False by (auto simp: first_minimum_def nth_Cons split: nat.splits)
      then show ?thesis using False i unfolding sort by (intro exI [of _ "Suc i"]) (simp add: insert_by_head)
    qed
  qed
qed simp

lemma first_minimum_map: "first_minimum (\<lambda>i. f (xs ! i)) [0 ..< length xs] i \<longleftrightarrow> first_minimum f xs i"
  by (auto simp: first_minimum_def)

text \<open>The ranking that the declared output values express, without positions: a value comes before another when it is listed
  and the other is not listed up to there. A row outranks another when its value comes first in the first column in which the
  declared values tell the two apart.\<close>

definition declared_values :: "feel \<Rightarrow> output_clause \<Rightarrow> rval list" where
  "declared_values F clause = map (\<lambda>t. case feel_eval F t fmempty of Inr v \<Rightarrow> v | Inl _ \<Rightarrow> Null) (oc_output_values clause)"

definition listed_before :: "rval list \<Rightarrow> rval \<Rightarrow> rval \<Rightarrow> bool" where
  "listed_before declared a b \<longleftrightarrow>
     (\<exists>p < length declared. values_equal (declared ! p) a \<and> (\<forall>q \<le> p. \<not> values_equal (declared ! q) b))"

definition outranks :: "feel \<Rightarrow> output_clause list \<Rightarrow> rule_match \<Rightarrow> rule_match \<Rightarrow> bool" where
  "outranks F outputs m m' \<longleftrightarrow> (\<exists>c < length outputs.
     listed_before (declared_values F (outputs ! c)) (rm_per_output m ! c) (rm_per_output m' ! c)
     \<and> (\<forall>d < c. \<not> listed_before (declared_values F (outputs ! d)) (rm_per_output m ! d) (rm_per_output m' ! d)
              \<and> \<not> listed_before (declared_values F (outputs ! d)) (rm_per_output m' ! d) (rm_per_output m ! d)))"

lemma priority_of_cases:
  "(\<exists>p < length declared. priority_of declared v = p \<and> values_equal (declared ! p) v \<and> (\<forall>q < p. \<not> values_equal (declared ! q) v))
   \<or> priority_of declared v = 2 ^ 64 - 1 \<and> (\<forall>q < length declared. \<not> values_equal (declared ! q) v)"
proof (cases "List.find (\<lambda>i. values_equal (declared ! i) v) [0 ..< length declared]")
  case None
  then have "\<forall>q < length declared. \<not> values_equal (declared ! q) v" by (auto simp: find_None_iff)
  with None show ?thesis by (simp add: priority_of_def)
next
  case (Some p)
  then have "p < length declared" "values_equal (declared ! p) v" "\<forall>q < p. \<not> values_equal (declared ! q) v"
    by (auto simp: find_Some_iff)
  with Some show ?thesis by (auto simp: priority_of_def)
qed

lemma priority_of_less:
  assumes "length declared < 2 ^ 64"
  shows "priority_of declared a < priority_of declared b \<longleftrightarrow> listed_before declared a b"
  using priority_of_cases [of declared a] priority_of_cases [of declared b] assms unfolding listed_before_def
  by (elim disjE exE conjE) (auto, (metis not_le less_trans le_less_trans)+)

lemma lex_less_nth:
  "length xs = length ys \<Longrightarrow> \<not> lex_le ys xs \<longleftrightarrow> (\<exists>c < length xs. xs ! c < ys ! c \<and> (\<forall>d < c. xs ! d = ys ! d))"
proof (induction ys xs rule: lex_le.induct)
  case (3 y ys x xs)
  have "(\<exists>c < length (x # xs). (x # xs) ! c < (y # ys) ! c \<and> (\<forall>d < c. (x # xs) ! d = (y # ys) ! d)) \<longleftrightarrow>
      x < y \<or> x = y \<and> (\<exists>c < length xs. xs ! c < ys ! c \<and> (\<forall>d < c. xs ! d = ys ! d))"
    by (auto simp: All_less_Suc2 Ex_less_Suc2)
  with 3 show ?case by auto
qed auto

definition fits :: "output_clause list \<Rightarrow> rule_match \<Rightarrow> bool" where
  "fits outputs m \<longleftrightarrow> length (rm_per_output m) = length outputs \<and> (\<forall>c \<in> set outputs. length (oc_output_values c) < 2 ^ 64)"

lemma priority_key_nth:
  assumes "fits outputs m" "c < length outputs"
  shows "priority_key (output_priorities F outputs) (rm_per_output m) ! c =
    priority_of (declared_values F (outputs ! c)) (rm_per_output m ! c)"
  using assms by (simp add: priority_key_def fits_def output_priorities_def declared_values_def nth_enumerate_eq)

lemma outranks_iff:
  assumes "fits outputs m" "fits outputs m'"
  shows "\<not> lex_le (priority_key (output_priorities F outputs) (rm_per_output m')) (priority_key (output_priorities F outputs) (rm_per_output m))
    \<longleftrightarrow> outranks F outputs m m'"
proof -
  have len: "length (priority_key (output_priorities F outputs) (rm_per_output x)) = length outputs" if "fits outputs x" for x
    using that by (simp add: priority_key_def fits_def)
  have short: "length (declared_values F (outputs ! c)) < 2 ^ 64" if "c < length outputs" for c
    using that assms(1) nth_mem [of c outputs] by (auto simp: fits_def declared_values_def)
  let ?p = "\<lambda>m c. priority_of (declared_values F (outputs ! c)) (rm_per_output m ! c)"
  have "listed_before (declared_values F (outputs ! c)) (rm_per_output m ! c) (rm_per_output m' ! c)
      \<and> (\<forall>d < c. \<not> listed_before (declared_values F (outputs ! d)) (rm_per_output m ! d) (rm_per_output m' ! d)
               \<and> \<not> listed_before (declared_values F (outputs ! d)) (rm_per_output m' ! d) (rm_per_output m ! d))
    \<longleftrightarrow> ?p m c < ?p m' c \<and> (\<forall>d < c. ?p m d = ?p m' d)" if c: "c < length outputs" for c
  proof -
    have less: "listed_before (declared_values F (outputs ! d)) a b \<longleftrightarrow>
        priority_of (declared_values F (outputs ! d)) a < priority_of (declared_values F (outputs ! d)) b" if "d \<le> c" for a b d
      using priority_of_less [OF short, of d] that c by simp
    have "?p m d = ?p m' d \<longleftrightarrow> \<not> ?p m d < ?p m' d \<and> \<not> ?p m' d < ?p m d" for d by auto
    then show ?thesis by (simp only: less order_refl less_imp_le cong: conj_cong imp_cong)
  qed
  then have "outranks F outputs m m' \<longleftrightarrow> (\<exists>c < length outputs. ?p m c < ?p m' c \<and> (\<forall>d < c. ?p m d = ?p m' d))"
    unfolding outranks_def by (intro ex_cong1 conj_cong [OF refl])
  with assms show ?thesis by (auto simp: lex_less_nth len priority_key_nth cong: conj_cong)
qed

lemma outputs_width: "eval_outputs F d ctx outputs texts = Inr outs \<Longrightarrow> length outs = length outputs"
  by (induction F d ctx outputs texts arbitrary: outs rule: eval_outputs.induct)
    (auto simp: Let_def map_sum_Inr split: sum.splits list.splits)

lemma match_rules_width:
  "match_rules F d ctx outputs vals rules = Some (Inr matched) \<Longrightarrow> m \<in> set matched \<Longrightarrow> length (rm_per_output m) = length outputs"
  by (induction F d ctx outputs vals rules arbitrary: matched rule: match_rules.induct)
    (auto simp: outputs_width map_sum_Inr split: option.splits sum.splits bool.splits)

lemma insert_by_set: "set (insert_by f x ys) = insert x (set ys)"
  by (induction f x ys rule: insert_by.induct) auto

lemma insert_by_sorted:
  "sorted_wrt (\<lambda>a b. lex_le (f a) (f b) \<and> (lex_le (f b) (f a) \<longrightarrow> a < b)) ys \<Longrightarrow> \<forall>y \<in> set ys. (x :: nat) < y \<Longrightarrow>
   sorted_wrt (\<lambda>a b. lex_le (f a) (f b) \<and> (lex_le (f b) (f a) \<longrightarrow> a < b)) (insert_by f x ys)"
proof (induction f x ys rule: insert_by.induct)
  case (2 f x y ys)
  then show ?case using lex_le_total [of "f x" "f y"] by (auto simp: insert_by_set intro: lex_le_trans)
qed simp

lemma stable_sort_sorted:
  "sorted_wrt (\<lambda>a b. lex_le (f a) (f b) \<and> (lex_le (f b) (f a) \<longrightarrow> a < b)) (stable_sort_by f xs) \<and> set (stable_sort_by f xs) = set xs
   \<and> length (stable_sort_by f xs) = length xs" if "sorted_wrt (<) (xs :: nat list)"
proof -
  have len: "length (insert_by f x ys) = Suc (length ys)" for x and ys :: "nat list"
    by (induction f x ys rule: insert_by.induct) auto
  show ?thesis using that
    by (induction xs) (simp_all add: stable_sort_by_def insert_by_set insert_by_sorted len)
qed

text \<open>C19: the order that hit policies PRIORITY and OUTPUT ORDER give to the matching rules of a table is the one its
  declared output values express. OUTPUT ORDER returns every matching row once: a row that outranks another comes before it, and
  rows that the declared values do not tell apart keep the order of their rules. PRIORITY returns the first of these rows.\<close>

theorem priority_leads_output_order:
  assumes "match_rules F d ctx (dt_outputs table) vals rules = Some (Inr matched)" "matched \<noteq> []"
    and "\<forall>c \<in> set (dt_outputs table). length (oc_output_values c) < 2 ^ 64"
  shows "\<exists>i rest.
     apply_hit_policy F (table\<lparr> dt_hit_policy := HitPriority \<rparr>) matched = Inr (rm_row_output (matched ! i), [i])
     \<and> apply_hit_policy F (table\<lparr> dt_hit_policy := HitOutputOrder \<rparr>) matched
         = Inr (VList (map (\<lambda>k. rm_row_output (matched ! k)) (i # rest)), i # rest)
     \<and> distinct (i # rest) \<and> set (i # rest) = {..< length matched}
     \<and> sorted_wrt (\<lambda>a b. outranks F (dt_outputs table) (matched ! a) (matched ! b)
          \<or> \<not> outranks F (dt_outputs table) (matched ! b) (matched ! a) \<and> a < b) (i # rest)"
proof -
  let ?rank = "\<lambda>m. priority_key (output_priorities F (dt_outputs table)) (rm_per_output m)"
  let ?order = "stable_sort_by (\<lambda>i. ?rank (matched ! i)) [0 ..< length matched]"
  obtain i where i: "min_index_by ?rank matched = Some i" "first_minimum ?rank matched i"
    using min_index_first [OF assms(2)] by blast
  have "[0 ..< length matched] \<noteq> []" using assms(2) by simp
  from sort_head [OF this, of "\<lambda>i. ?rank (matched ! i)"] obtain k where k:
    "first_minimum ?rank matched k" "?order \<noteq> []" "hd ?order = [0 ..< length matched] ! k"
    using first_minimum_map [of ?rank matched] by auto
  then have "hd ?order = i" using first_minimum_unique [OF k(1) i(2)] i(2) by (simp add: first_minimum_def)
  then obtain rest where order: "?order = i # rest" using k(2) by (cases ?order) auto
  note srt = stable_sort_sorted [of "[0 ..< length matched]" "\<lambda>i. ?rank (matched ! i)", simplified, unfolded order]
  have fits: "fits (dt_outputs table) (matched ! a)" if "a < length matched" for a
    using match_rules_width [OF assms(1)] assms(3) that by (auto simp: fits_def)
  have in_range: "a < length matched" if "a \<in> set (i # rest)" for a using srt that by auto
  have "sorted_wrt (\<lambda>a b. outranks F (dt_outputs table) (matched ! a) (matched ! b)
      \<or> \<not> outranks F (dt_outputs table) (matched ! b) (matched ! a) \<and> a < b) (i # rest)"
    using conjunct1 [OF srt]
    by (rule sorted_wrt_mono_rel [rotated]) (auto simp: outranks_iff [OF fits fits, OF in_range in_range, symmetric])
  moreover have "distinct (i # rest)" using srt by (intro card_distinct) auto
  moreover have "set (i # rest) = {..< length matched}" using srt by auto
  ultimately show ?thesis using i order
    by (intro exI [of _ i] exI [of _ rest]) (simp add: apply_hit_policy_def Let_def)
qed

section \<open>A test that is a single bracket\<close>

definition ascii_visible :: "char \<Rightarrow> bool" where
  "ascii_visible c \<longleftrightarrow> 32 < (of_char c :: nat) \<and> (of_char c :: nat) < 128"

lemma starts_with_hd: "starts_with p s \<Longrightarrow> p \<noteq> [] \<Longrightarrow> s \<noteq> [] \<and> hd s = hd p"
  by (cases p; cases s) (auto simp: starts_with_def)

lemma spaces_not_visible:
  "w \<in> set white_space \<Longrightarrow> w \<noteq> [] \<and> \<not> ascii_visible (hd w) \<and> \<not> ascii_visible (last w)"
  by (auto simp: white_space_def bytes_def ascii_visible_def)

lemma trim_with_id: "leading_space spaces s = 0 \<Longrightarrow> trim_with spaces s = s"
  by (subst trim_with.simps) simp

lemma leading_visible:
  assumes "s \<noteq> []" "ascii_visible (hd s)" "\<And>w. w \<in> set spaces \<Longrightarrow> w \<noteq> [] \<and> \<not> ascii_visible (hd w)"
  shows "leading_space spaces s = 0"
proof -
  have "\<not> starts_with w s" if "w \<in> set spaces" for w
    using starts_with_hd [of w s] assms(3) [OF that] assms(2) by auto
  then show ?thesis by (auto simp: leading_space_def find_Some_iff split: option.split)
qed

text \<open>A text that begins and ends with visible ASCII characters has nothing to trim.\<close>

lemma trim_visible: "s \<noteq> [] \<Longrightarrow> ascii_visible (hd s) \<Longrightarrow> ascii_visible (last s) \<Longrightarrow> trim s = s"
  unfolding trim_def trim_start_def
  by (subst (1 2) trim_with_id) (auto intro!: leading_visible simp: hd_rev, (metis spaces_not_visible)+)

text \<open>A table that declares its output values, with the better one in the second rule.\<close>

definition ranked_table :: decision_table where
  "ranked_table = \<lparr> dt_hit_policy = HitUnique, dt_aggregation = None, dt_inputs = [],
     dt_outputs = [\<lparr> oc_id = ''o'', oc_label = None, oc_name = None, oc_type_ref = None, oc_output_values = [''high'', ''low''] \<rparr>],
     dt_rules = [\<lparr> dr_id = ''r1'', dr_input_entries = [], dr_output_entries = [''low''] \<rparr>,
                 \<lparr> dr_id = ''r2'', dr_input_entries = [], dr_output_entries = [''high''] \<rparr>] \<rparr>"

theorem priority_leads_output_order_witness:
  "\<exists>matched. match_rules echo_feel (demo_decision ''d'' []) fmempty (dt_outputs ranked_table) [] (enumerate 0 (dt_rules ranked_table))
       = Some (Inr matched)
     \<and> apply_hit_policy echo_feel (ranked_table\<lparr> dt_hit_policy := HitPriority \<rparr>) matched = Inr (VStr ''high'', [1])
     \<and> apply_hit_policy echo_feel (ranked_table\<lparr> dt_hit_policy := HitOutputOrder \<rparr>) matched
         = Inr (VList [VStr ''high'', VStr ''low''], [1, 0])"
proof -
  have trim: "trim t = t" if "t \<in> {''low'', ''high''}" for t
    using that by (intro trim_visible) (auto simp: ascii_visible_def)
  obtain low high where run: "match_rules echo_feel (demo_decision ''d'' []) fmempty (dt_outputs ranked_table) []
      (enumerate 0 (dt_rules ranked_table)) = Some (Inr [low, high])"
    and rows: "rm_row_output low = VStr ''low''" "rm_per_output low = [VStr ''low'']" "rm_row_output high = VStr ''high''"
      "rm_per_output high = [VStr ''high'']"
    by (simp add: ranked_table_def eval_text_def echo_feel_def row_value_def Let_def trim)
  have "declared_values echo_feel (dt_outputs ranked_table ! 0) = [VStr ''high'', VStr ''low'']"
    by (simp add: declared_values_def ranked_table_def echo_feel_def)
  moreover have "length (dt_outputs ranked_table) = 1" by (simp add: ranked_table_def)
  ultimately have best: "outranks echo_feel (dt_outputs ranked_table) high low" "\<not> outranks echo_feel (dt_outputs ranked_table) low high"
    by (auto simp: outranks_def listed_before_def rows values_equal_def as_f64_def less_Suc_eq)
  from priority_leads_output_order [OF run] obtain i rest where
    out: "apply_hit_policy echo_feel (ranked_table\<lparr> dt_hit_policy := HitPriority \<rparr>) [low, high] = Inr (rm_row_output ([low, high] ! i), [i])"
      "apply_hit_policy echo_feel (ranked_table\<lparr> dt_hit_policy := HitOutputOrder \<rparr>) [low, high]
         = Inr (VList (map (\<lambda>k. rm_row_output ([low, high] ! k)) (i # rest)), i # rest)"
    and order: "distinct (i # rest)" "set (i # rest) = {..< 2}" "sorted_wrt (\<lambda>a b. outranks echo_feel (dt_outputs ranked_table) ([low, high] ! a) ([low, high] ! b)
      \<or> \<not> outranks echo_feel (dt_outputs ranked_table) ([low, high] ! b) ([low, high] ! a) \<and> a < b) (i # rest)"
    by (auto simp: ranked_table_def)
  have "length (i # rest) = 2" using order(1,2) by (metis card_lessThan distinct_card)
  then obtain k where "rest = [k]" by (auto simp: length_Suc_conv)
  with order best have "i = 1 \<and> rest = [0]" by (auto simp: lessThan_Suc numeral_2_eq_2 doubleton_eq_iff)
  with run out show ?thesis by (intro exI [of _ "[low, high]"]) (simp add: rows)
qed

text \<open>A unary test that consists of one square bracket panics: the slice between the brackets starts after its end.
  Other malformed tests are reported as errors.\<close>

lemma single_bracket_panics:
  assumes "t \<in> {''['', '']''}"
  shows "unary_test_matches F t v ctx = None"
proof -
  have trim: "trim t = t" using assms by (intro trim_visible) (auto simp: ascii_visible_def)
  moreover have "t \<noteq> []" "t \<noteq> ''-''" "strip_not t = None" "\<not> contains_input_marker t" "comparison t = None" "parse_interval t = None"
    using assms by (auto simp: strip_not_def dmn_strip_prefix_def starts_with_def contains_input_marker_def comparison_def parse_interval_def)
  moreover have "split_top_level_commas t = [t]"
    using assms trim by (auto simp: split_top_level_commas_def opens_def closes_def)
  ultimately show ?thesis by (simp add: unary_test_matches_def positive_list_matches_def subtest_matches_def)
qed
end
