(* ===== verification/Activation.thy ===== *)
theory Activation
  imports Gateways Decisions
begin

text \<open>
  Activating an element (\<open>engine-core/src/engine/mod.rs\<close>, \<open>engine/call_activity.rs\<close>): spawning the child of a call
  activity, the first job of a task-listener chain, the activation of every kind of element, multi-instance bodies and
  their children, and the tools of an ad-hoc sub-process.
\<close>

section \<open>Plans\<close>

definition after_events :: "event list \<Rightarrow> plan \<Rightarrow> plan" where
  "after_events evs p = map_option (\<lambda>((evs', steps), e). ((evs @ evs', steps), e)) p"

definition no_plan :: "engine \<Rightarrow> plan" where
  "no_plan e = Some (([], []), e)"

definition job_created :: "key \<Rightarrow> key \<Rightarrow> elementid \<Rightarrow> string \<Rightarrow> int \<Rightarrow> int \<Rightarrow> engine \<Rightarrow> event \<times> engine" where
  "job_created ik eik eid job_type priority retries e =
     (let (k, e1) = mint_key e in (EJob (JobCreated k ik eik eid job_type (now e) priority retries), e1))"

section \<open>Call activities\<close>

definition call_activity_completion_step :: "engine \<Rightarrow> key \<Rightarrow> step option" where
  "call_activity_completion_step e child_key = do {
     child \<leftarrow> fmlookup (instances (est e)) child_key;
     parent \<leftarrow> pi_parent_process_instance_key child;
     call_eik \<leftarrow> pi_parent_element_instance_key child;
     parent_instance \<leftarrow> fmlookup (instances (est e)) parent;
     eid \<leftarrow> fmlookup (pi_active parent_instance) call_eik;
     Some (SCompleteCallActivity parent call_eik eid (pi_variables child))
   }"

fun depth_from :: "nat \<Rightarrow> engine \<Rightarrow> key option \<Rightarrow> nat" where
  "depth_from 0 e cursor = 0"
| "depth_from (Suc n) e cursor = (case cursor of
     None \<Rightarrow> 0
   | Some parent \<Rightarrow> Suc (depth_from n e (Option.bind (fmlookup (instances (est e)) parent) pi_parent_process_instance_key)))"

definition call_activity_depth :: "engine \<Rightarrow> key \<Rightarrow> nat" where
  "call_activity_depth e ik =
     depth_from MAX_CALL_ACTIVITY_DEPTH e (Option.bind (fmlookup (instances (est e)) ik) pi_parent_process_instance_key)"

definition spawn_redrive :: "vars option \<Rightarrow> io_mapping_redrive" where
  "spawn_redrive projection = (case projection of Some p \<Rightarrow> AdHocCallActivitySpawn p | None \<Rightarrow> CallActivitySpawn)"

definition called_process :: "feel \<Rightarrow> string \<Rightarrow> vars \<Rightarrow> string + string" where
  "called_process F called_id view =
     (if starts_with ''='' (trim called_id) then feel_eval_string F (trim called_id) view else Inr called_id)"

definition spawn_call_activity_instance ::
  "feel \<Rightarrow> key \<Rightarrow> key \<Rightarrow> elementid \<Rightarrow> string \<Rightarrow> vars \<Rightarrow> vars \<Rightarrow> vars option \<Rightarrow> engine \<Rightarrow> plan" where
  "spawn_call_activity_instance F parent call_eik eid called_id eval_view child_seed projection e =
     (case called_process F called_id eval_view of
        Inl err \<Rightarrow> raise_incident parent call_eik eid ExpressionEvaluation (Some (spawn_redrive projection))
          (''call activity '' @ quoted eid @ '' could not evaluate calledElement expression '' @ quoted called_id @ '': '' @ err) e
      | Inr called \<Rightarrow>
          (if MAX_CALL_ACTIVITY_DEPTH \<le> call_activity_depth e parent
           then raise_incident parent call_eik eid CalledElementError (Some (spawn_redrive projection))
             (''call activity '' @ quoted eid @ '' exceeded the maximum child-instance depth of 1000 calling '' @ quoted called
              @ '' (possible unbounded recursion)'') e
           else case fmlookup (processes (est e)) called of
             None \<Rightarrow> raise_incident parent call_eik eid CalledElementError (Some (spawn_redrive projection))
               (''call activity '' @ quoted eid @ '' references unknown called process '' @ quoted called) e
           | Some d \<Rightarrow>
               (let (child_key, e1) = mint_key e
                in Some (([EVariable (ProcessInstanceCreated child_key called child_seed (now e) [] None (dp_key d) (dp_version d)
                      (Some parent) (Some call_eik))],
                    [SActivate child_key (pd_start_event (dp_definition d)) 0 None]), e1))))"

definition spawn_call_activity_child :: "feel \<Rightarrow> key \<Rightarrow> key \<Rightarrow> elementid \<Rightarrow> string \<Rightarrow> bool \<Rightarrow> vars \<Rightarrow> engine \<Rightarrow> plan" where
  "spawn_call_activity_child F parent call_eik eid called_id propagate_all_parent vs e =
     (let inputs = engine_io_inputs e parent eid
      in case (if inputs = [] then Inr fmempty else eval_io_mappings_in F vs inputs) of
           Inl failure \<Rightarrow> (let (ev, e1) = io_mapping_incident parent call_eik eid failure CallActivitySpawn e in Some (([ev], []), e1))
         | Inr input_results \<Rightarrow>
             spawn_call_activity_instance F parent call_eik eid called_id vs
               (if propagate_all_parent then vs ++\<^sub>f input_results else input_results) None e)"

section \<open>Task listeners\<close>

definition mint_task_listener_job ::
  "feel \<Rightarrow> key \<Rightarrow> key \<Rightarrow> key \<Rightarrow> elementid \<Rightarrow> task_listener_event_type \<Rightarrow> nat \<Rightarrow> task_listener \<Rightarrow> engine \<Rightarrow> (event \<times> engine) option" where
  "mint_task_listener_job F utk ik eik eid ty index l e = do {
     vs \<leftarrow> variables_for_element e ik eik;
     let (k, e1) = mint_key e;
     Some (EJob (TaskListenerJobCreated k ik eik eid utk (resolve_job_type F vs (tl_job_type l)) ty index (now e)
        (resolve_retries F vs (tl_retries l))), e1)
   }"

definition start_task_listener_chain ::
  "feel \<Rightarrow> key \<Rightarrow> key \<Rightarrow> key \<Rightarrow> elementid \<Rightarrow> task_listener_event_type \<Rightarrow> pending_user_task_transition \<Rightarrow> task_listener \<Rightarrow> engine
     \<Rightarrow> (event list \<times> engine) option" where
  "start_task_listener_chain F utk ik eik eid ty pending first e = do {
     (job, e1) \<leftarrow> mint_task_listener_job F utk ik eik eid ty 0 first e;
     Some ([EUserTask (UserTaskTransitionDeferred utk ik pending), job], e1)
   }"

definition pending_transition :: "task_listener_event_type \<Rightarrow> string option \<Rightarrow> pending_user_task_transition" where
  "pending_transition ty assignee =
     \<lparr> put_event_type = ty, put_assignee = assignee, put_update = None, put_variables = fmempty, put_corrections = no_corrections \<rparr>"

section \<open>Ad-hoc sub-processes: data\<close>

definition adhoc_inner_instance_id :: "elementid \<Rightarrow> elementid" where
  "adhoc_inner_instance_id container_id = container_id @ ''#innerInstance''"

definition advertised_adhoc_catalog :: "adhoc_subprocess_def \<Rightarrow> rval list" where
  "advertised_adhoc_catalog d = map (\<lambda>t. VMap (fmap_of_list
     [(''elementId'', VStr (tool_element_id t)), (''elementName'', VStr (tool_name t))]))
     (filter (\<lambda>t. tool_kind t \<noteq> ToolOther) (asd_tools d))"

definition find_tool :: "adhoc_subprocess_def \<Rightarrow> elementid \<Rightarrow> adhoc_tool option" where
  "find_tool d tool_id = List.find (\<lambda>t. tool_element_id t = tool_id) (asd_tools d)"

definition empty_io :: io_mapping where
  "empty_io = \<lparr> io_inputs = [], io_outputs = [] \<rparr>"

definition adhoc_tool_io :: "engine \<Rightarrow> key \<Rightarrow> elementid \<Rightarrow> elementid \<Rightarrow> io_mapping" where
  "adhoc_tool_io e ik container_id tool_id =
     (case Option.bind (adhoc_def_of e ik container_id) (\<lambda>d. find_tool d tool_id) of None \<Rightarrow> empty_io | Some t \<Rightarrow> tool_io t)"

definition adhoc_tool_input_updates :: "feel \<Rightarrow> engine \<Rightarrow> key \<Rightarrow> elementid \<Rightarrow> elementid \<Rightarrow> vars \<Rightarrow> string + vars" where
  "adhoc_tool_input_updates F e ik container_id tool_id view =
     (let inputs = io_inputs (adhoc_tool_io e ik container_id tool_id)
      in if inputs = [] then Inr fmempty else eval_io_mappings_in F view inputs)"

definition eval_adhoc_active_elements :: "feel \<Rightarrow> string \<Rightarrow> vars \<Rightarrow> adhoc_subprocess_def \<Rightarrow> elementid list" where
  "eval_adhoc_active_elements F expr vs d = (case feel_eval F expr vs of
     Inr (VList items) \<Rightarrow> List.map_filter (\<lambda>v. case v of
         VStr s \<Rightarrow> if list_ex (\<lambda>t. tool_element_id t = s) (asd_tools d) then Some s else None
       | _ \<Rightarrow> None) items
   | _ \<Rightarrow> [])"

definition adhoc_activated :: "key \<Rightarrow> key \<Rightarrow> elementid \<Rightarrow> adhoc_subprocess_def \<Rightarrow> event" where
  "adhoc_activated ik container_key eid d =
     EAdHoc (AdHocActivated ik container_key eid (asd_output_collection d) (asd_output_element d))"

definition catalog_update :: "key \<Rightarrow> key \<Rightarrow> adhoc_subprocess_def \<Rightarrow> event" where
  "catalog_update ik container_key d = EVariable (ScopedVariablesUpdated ik container_key
     (fmupd ''adHocSubProcessElements'' (VList (advertised_adhoc_catalog d)) fmempty))"

text \<open>The tools a declarative container activates at once; with none it completes.\<close>

definition declarative_tools :: "feel \<Rightarrow> key \<Rightarrow> key \<Rightarrow> vars \<Rightarrow> adhoc_subprocess_def \<Rightarrow> step list" where
  "declarative_tools F ik container_key vs d =
     (let ids = (case asd_active_elements_collection d of None \<Rightarrow> [] | Some expr \<Rightarrow> eval_adhoc_active_elements F expr vs d)
      in map (\<lambda>i. SActivateAdHocTool ik container_key i fmempty) ids
         @ (if ids = [] then [SCompleteAdHoc ik container_key False] else []))"

definition declarative :: "adhoc_subprocess_def option \<Rightarrow> bool" where
  "declarative d = (case d of None \<Rightarrow> False | Some a \<Rightarrow> asd_impl_type a = AdHocBpmnTask)"

section \<open>The behaviour of an element\<close>

definition seed_output_collection :: "key \<Rightarrow> key \<Rightarrow> adhoc_subprocess_def \<Rightarrow> event list" where
  "seed_output_collection ik scope_key d = option_event
     (\<lambda>name. EVariable (ScopedVariablesUpdated ik scope_key (fmupd name (VList []) fmempty))) (asd_output_collection d)"

definition service_job ::
  "feel \<Rightarrow> vars \<Rightarrow> key \<Rightarrow> key \<Rightarrow> elementid \<Rightarrow> string \<Rightarrow> string option \<Rightarrow> string option \<Rightarrow> engine \<Rightarrow> event \<times> engine" where
  "service_job F vs ik eik eid job_type priority retries e =
     job_created ik eik eid (resolve_job_type F vs job_type) (resolve_priority F vs priority) (resolve_retries F vs retries) e"

definition activate_service_task ::
  "feel \<Rightarrow> key \<Rightarrow> key \<Rightarrow> elementid \<Rightarrow> key \<Rightarrow> vars \<Rightarrow> string \<Rightarrow> string option \<Rightarrow> engine \<Rightarrow> plan" where
  "activate_service_task F ik eik eid scope vs job_type priority e = (case adhoc_def_of e ik eid of
     Some d \<Rightarrow>
       (if declarative (Some d) then do {
          (armed, e1) \<leftarrow> arm_boundary_events F ik eik scope eid e;
          Some ((adhoc_activated ik eik eid d # armed, declarative_tools F ik eik vs d), e1)
        }
        else (let (job, e1) = service_job F vs ik eik eid job_type priority (retries_of e ik eid) e in do {
          (armed, e2) \<leftarrow> arm_boundary_events F ik eik scope eid e1;
          Some ((job # adhoc_activated ik eik eid d # catalog_update ik eik d # armed, []), e2)
        }))
   | None \<Rightarrow> (let (job, e1) = service_job F vs ik eik eid job_type priority (retries_of e ik eid) e in do {
       (armed, e2) \<leftarrow> arm_boundary_events F ik eik scope eid e1;
       Some ((job # armed, []), e2)
     }))"

definition user_task_created ::
  "feel \<Rightarrow> engine \<Rightarrow> vars \<Rightarrow> key \<Rightarrow> key \<Rightarrow> key \<Rightarrow> elementid \<Rightarrow> user_task_props \<Rightarrow> string option \<Rightarrow> event" where
  "user_task_created F e vs utk ik eik eid props assignee =
     (let (form_key, external_form_reference) = resolve_user_task_form_linkage e props
      in EUserTask (UserTaskCreated utk ik eik eid (now e) assignee
           (resolve_user_task_list F vs (up_candidate_groups props)) (resolve_user_task_list F vs (up_candidate_users props))
           (nonempty (resolve_user_task_string F vs (up_due_date props)))
           (nonempty (resolve_user_task_string F vs (up_follow_up_date props)))
           (resolve_priority F vs (up_priority props)) form_key external_form_reference))"

text \<open>The listeners that run before a new task is available: the creating chain, or else the assigning chain of an
  initial assignee.\<close>

definition initial_listeners ::
  "feel \<Rightarrow> key \<Rightarrow> key \<Rightarrow> key \<Rightarrow> elementid \<Rightarrow> string option \<Rightarrow> engine \<Rightarrow> (event list \<times> engine) option" where
  "initial_listeners F utk ik eik eid deferred e = (case task_listeners_of e ik eid Creating of
     first # _ \<Rightarrow> start_task_listener_chain F utk ik eik eid Creating (pending_transition Creating deferred) first e
   | [] \<Rightarrow> (case (deferred, task_listeners_of e ik eid Assigning) of
       (Some initial, first # _) \<Rightarrow>
         start_task_listener_chain F utk ik eik eid Assigning (pending_transition Assigning (Some initial)) first e
     | _ \<Rightarrow> Some ([], e)))"

definition activate_user_task ::
  "feel \<Rightarrow> key \<Rightarrow> key \<Rightarrow> elementid \<Rightarrow> key \<Rightarrow> vars \<Rightarrow> user_task_props \<Rightarrow> engine \<Rightarrow> plan" where
  "activate_user_task F ik eik eid scope vs props e =
     (let (utk, e1) = mint_key e;
          assignee = nonempty (resolve_user_task_string F vs (up_assignee props));
          routed = (assignee \<noteq> None \<and> task_listeners_of e ik eid Assigning \<noteq> []);
          created = user_task_created F e vs utk ik eik eid props (if routed then None else assignee)
      in do {
        (listeners, e2) \<leftarrow> initial_listeners F utk ik eik eid (if routed then assignee else None) e1;
        (armed, e3) \<leftarrow> arm_boundary_events F ik eik scope eid e2;
        Some ((created # listeners @ armed, []), e3)
      })"

definition activate_timer_catch :: "feel \<Rightarrow> key \<Rightarrow> key \<Rightarrow> elementid \<Rightarrow> vars \<Rightarrow> u64 \<Rightarrow> engine \<Rightarrow> plan" where
  "activate_timer_catch F ik eik eid vs millis e =
     (let (k, e1) = mint_key e;
          (due_at, _) = resolve_timer F vs (timer_def_of e ik eid) (now e) millis
      in Some (([ETimer (TimerCreated k ik eik eid due_at TimerIntermediateCatch)], []), e1))"

text \<open>A correlation key that cannot be evaluated raises an incident under the key minted for the subscription.\<close>

definition activate_message_catch :: "feel \<Rightarrow> key \<Rightarrow> key \<Rightarrow> elementid \<Rightarrow> vars \<Rightarrow> string \<Rightarrow> string \<Rightarrow> engine \<Rightarrow> plan" where
  "activate_message_catch F ik eik eid vs message_name correlation_key e =
     (let (k, e1) = mint_key e; name = resolve_event_name F vs message_name
      in case resolve_correlation_value_checked F vs correlation_key of
           Inl reason \<Rightarrow> Some (([EIncident (IncidentRaised k ik eik eid ExpressionEvaluation None reason None (now e))], []), e1)
         | Inr v \<Rightarrow> Some (([EMessage
              (if engine_subscription_partition e v = partition_id e
               then MessageSubscriptionCreated k ik eik eid name v SubIntermediateCatch
               else MessageSubscriptionOpening k ik eik eid name v SubIntermediateCatch)], []), e1))"

definition activate_signal_catch :: "feel \<Rightarrow> key \<Rightarrow> key \<Rightarrow> elementid \<Rightarrow> vars \<Rightarrow> string \<Rightarrow> engine \<Rightarrow> plan" where
  "activate_signal_catch F ik eik eid vs signal_name e =
     (let (k, e1) = mint_key e
      in Some (([ESignal (SignalSubscriptionCreated k ik eik eid (resolve_event_name F vs signal_name) SubIntermediateCatch)], []), e1))"

definition activate_conditional_catch :: "feel \<Rightarrow> key \<Rightarrow> key \<Rightarrow> elementid \<Rightarrow> string \<Rightarrow> engine \<Rightarrow> plan" where
  "activate_conditional_catch F ik eik eid condition e =
     (if feel_eval_bool F condition (engine_variables e ik) = Inr True then Some (([], [SComplete ik eik eid]), e)
      else (let (k, e1) = mint_key e
            in Some (([ESignal (ConditionalSubscriptionCreated k ik eik eid condition (sorted_referenced_vars F condition)
                 SubIntermediateCatch)], []), e1)))"

definition activate_sub_process :: "feel \<Rightarrow> key \<Rightarrow> key \<Rightarrow> elementid \<Rightarrow> key \<Rightarrow> elementid \<Rightarrow> engine \<Rightarrow> plan" where
  "activate_sub_process F ik eik eid scope start_event e = do {
     (armed, e1) \<leftarrow> arm_boundary_events F ik eik scope eid e;
     Some ((armed, [SActivate ik start_event eik None]), e1)
   }"

definition activate_call_activity ::
  "feel \<Rightarrow> key \<Rightarrow> key \<Rightarrow> elementid \<Rightarrow> key \<Rightarrow> vars \<Rightarrow> string \<Rightarrow> bool \<Rightarrow> engine \<Rightarrow> plan" where
  "activate_call_activity F ik eik eid scope vs called propagate_all_parent e = do {
     (armed, e1) \<leftarrow> arm_boundary_events F ik eik scope eid e;
     after_events armed (spawn_call_activity_child F ik eik eid called propagate_all_parent vs e1)
   }"

text \<open>Compensation handlers run newest first.\<close>

definition activate_compensation_throw :: "key \<Rightarrow> key \<Rightarrow> elementid \<Rightarrow> key \<Rightarrow> engine \<Rightarrow> plan" where
  "activate_compensation_throw ik eik eid scope e =
     (let targets = rev (compensable_in_scope e ik scope); handlers = map cs_handler targets
      in if targets = [] then Some (([], [SComplete ik eik eid]), e)
         else Some (([ECompensation (CompensationTriggered ik eik eid scope handlers (map cs_element_instance_key targets))],
                map (\<lambda>h. SActivate ik h scope None) handlers), e))"

definition run_activation_body :: "feel \<Rightarrow> key \<Rightarrow> elementid \<Rightarrow> key \<Rightarrow> key \<Rightarrow> vars \<Rightarrow> engine \<Rightarrow> plan" where
  "run_activation_body F ik eid eik scope vs e = (case element_kind_of e ik eid of
     None \<Rightarrow> no_plan e
   | Some (EK_ServiceTask job_type priority _ _ _) \<Rightarrow> activate_service_task F ik eik eid scope vs job_type priority e
   | Some (EK_UserTask props) \<Rightarrow> activate_user_task F ik eik eid scope vs props e
   | Some (EK_TimerIntermediateCatchEvent millis) \<Rightarrow> activate_timer_catch F ik eik eid vs millis e
   | Some (EK_MessageIntermediateCatchEvent name correlation_key) \<Rightarrow> activate_message_catch F ik eik eid vs name correlation_key e
   | Some (EK_SignalIntermediateCatchEvent name) \<Rightarrow> activate_signal_catch F ik eik eid vs name e
   | Some (EK_ConditionalIntermediateCatchEvent condition) \<Rightarrow> activate_conditional_catch F ik eik eid condition e
   | Some (EK_SubProcess start_event) \<Rightarrow> activate_sub_process F ik eik eid scope start_event e
   | Some (EK_CallActivity called propagate_all_parent _) \<Rightarrow>
       activate_call_activity F ik eik eid scope vs called propagate_all_parent e
   | Some EK_CompensationThrowEvent \<Rightarrow> activate_compensation_throw ik eik eid scope e
   | Some _ \<Rightarrow> Some (([], [SComplete ik eik eid]), e))"

section \<open>Activation\<close>

definition is_call_activity :: "engine \<Rightarrow> key \<Rightarrow> elementid \<Rightarrow> bool" where
  "is_call_activity e ik eid = (case element_kind_of e ik eid of Some (EK_CallActivity _ _ _) \<Rightarrow> True | _ \<Rightarrow> False)"

definition is_sub_process_kind :: "engine \<Rightarrow> key \<Rightarrow> elementid \<Rightarrow> bool" where
  "is_sub_process_kind e ik eid = (case element_kind_of e ik eid of Some (EK_SubProcess _) \<Rightarrow> True | _ \<Rightarrow> False)"

definition opens_scope :: "engine \<Rightarrow> key \<Rightarrow> elementid \<Rightarrow> bool" where
  "opens_scope e ik eid \<longleftrightarrow> is_sub_process_kind e ik eid \<or> adhoc_def_of e ik eid \<noteq> None"

text \<open>The mappings applied to an element's own scope: those of a call activity seed its child instead.\<close>

definition own_inputs :: "engine \<Rightarrow> key \<Rightarrow> elementid \<Rightarrow> mapping list" where
  "own_inputs e ik eid = (if is_call_activity e ik eid then [] else engine_io_inputs e ik eid)"

definition input_writes :: "engine \<Rightarrow> key \<Rightarrow> elementid \<Rightarrow> key \<Rightarrow> key \<Rightarrow> vars \<Rightarrow> event list" where
  "input_writes e ik eid eik scope updates =
     (if updates = fmempty then []
      else (if opens_scope e ik eid then [] else [EVariable (VariableScopeCreated ik eik scope)])
         @ [EVariable (ScopedVariablesUpdated ik eik updates)])"

definition activate_body :: "feel \<Rightarrow> key \<Rightarrow> elementid \<Rightarrow> key \<Rightarrow> key \<Rightarrow> engine \<Rightarrow> plan" where
  "activate_body F ik eid eik scope e = do {
     element_vars \<leftarrow> variables_for_element e ik scope;
     case eval_io_mappings_in F element_vars (own_inputs e ik eid) of
       Inl failure \<Rightarrow> (let (ev, e1) = io_mapping_incident ik eik eid failure RedriveActivation e in Some (([ev], []), e1))
     | Inr updates \<Rightarrow>
         (let events = (case adhoc_def_of e ik eid of None \<Rightarrow> [] | Some d \<Rightarrow> seed_output_collection ik eik d)
                @ input_writes e ik eid eik scope updates;
              activation_vars = element_vars ++\<^sub>f updates
          in after_events events (case listeners_of e ik eid ListenerStart of
               first # _ \<Rightarrow>
                 (let (job, e1) = listener_job F activation_vars ik eik eid ListenerStart 0 scope first e in Some (([job], []), e1))
             | [] \<Rightarrow> run_activation_body F ik eid eik scope activation_vars e))
   }"

definition activation_events :: "key \<Rightarrow> key \<Rightarrow> elementid \<Rightarrow> key \<Rightarrow> event list" where
  "activation_events ik eik eid scope = [EElement (ElementActivating ik eik eid), EElement (ElementActivated ik eik eid scope)]"

section \<open>Multi-instance bodies\<close>

definition spawn_steps :: "key \<Rightarrow> elementid \<Rightarrow> key \<Rightarrow> bool \<Rightarrow> nat \<Rightarrow> step list" where
  "spawn_steps ik eid body_key sequential n =
     (if n = 0 then [SCompleteMiBody ik body_key]
      else if sequential then [SActivateMiChild ik eid body_key 0]
      else map (SActivateMiChild ik eid body_key) [0..<n])"

definition mi_state_of :: "engine \<Rightarrow> key \<Rightarrow> key \<Rightarrow> multi_instance_state option" where
  "mi_state_of e ik body_key = Option.bind (fmlookup (instances (est e)) ik) (\<lambda>i. fmlookup (pi_multi_instances i) body_key)"

definition spawn_multi_instance_children :: "engine \<Rightarrow> key \<Rightarrow> key \<Rightarrow> step list" where
  "spawn_multi_instance_children e ik body_key = (case mi_state_of e ik body_key of
     None \<Rightarrow> []
   | Some mi \<Rightarrow> spawn_steps ik (mis_element_id mi) body_key (mis_sequential mi) (length (mis_items mi)))"

definition loop_tolerated :: "multi_instance \<Rightarrow> string fset" where
  "loop_tolerated mi = finsert ''loopCounter'' (case mi_input_element mi of None \<Rightarrow> {||} | Some name \<Rightarrow> {|name|})"

definition mi_items :: "feel \<Rightarrow> multi_instance \<Rightarrow> vars \<Rightarrow> rval list" where
  "mi_items F mi vs = (case feel_eval F (mi_input_collection mi) vs of Inr (VList items) \<Rightarrow> items | _ \<Rightarrow> [])"

definition run_mi_body_activation :: "feel \<Rightarrow> key \<Rightarrow> elementid \<Rightarrow> key \<Rightarrow> key \<Rightarrow> multi_instance \<Rightarrow> engine \<Rightarrow> plan" where
  "run_mi_body_activation F ik eid body_key scope mi e = do {
     enclosing_vars \<leftarrow> variables_for_element e ik scope;
     case eval_io_mappings_tolerating F enclosing_vars (own_inputs e ik eid) (loop_tolerated mi) of
       Inl failure \<Rightarrow> (let (ev, e1) = io_mapping_incident ik body_key eid failure MiBodyActivation e in Some (([ev], []), e1))
     | Inr updates \<Rightarrow>
         (let writes = (if updates = fmempty then [] else [EVariable (ScopedVariablesUpdated ik body_key updates)]);
              vs = enclosing_vars ++\<^sub>f updates;
              items = mi_items F mi vs;
              activated = EMultiInstance (MultiInstanceActivated ik body_key eid (mi_sequential mi) items (mi_input_element mi)
                 (mi_output_collection mi) (mi_output_element mi) (mi_completion_condition mi))
          in do {
            (armed, e1) \<leftarrow> arm_boundary_events F ik body_key scope eid e;
            after_events (writes @ activated # armed) (case listeners_of e ik eid ListenerStart of
              first # _ \<Rightarrow>
                (let (job, e2) = listener_job F vs ik body_key eid ListenerStart 0 scope first e1 in Some (([job], []), e2))
            | [] \<Rightarrow> Some (([], spawn_steps ik eid body_key (mi_sequential mi) (length items)), e1))
          })
   }"

definition activate_multi_instance_body :: "feel \<Rightarrow> key \<Rightarrow> elementid \<Rightarrow> key \<Rightarrow> multi_instance \<Rightarrow> engine \<Rightarrow> plan" where
  "activate_multi_instance_body F ik eid scope mi e =
     (let (body_key, e1) = mint_key e
      in after_events (activation_events ik body_key eid scope @ [EVariable (VariableScopeCreated ik body_key scope)])
           (run_mi_body_activation F ik eid body_key scope mi e1))"

definition is_mi_child_scope :: "engine \<Rightarrow> key \<Rightarrow> elementid \<Rightarrow> key \<Rightarrow> bool" where
  "is_mi_child_scope e ik eid scope \<longleftrightarrow>
     scope \<noteq> 0 \<and> (case mi_state_of e ik scope of None \<Rightarrow> False | Some mi \<Rightarrow> mis_element_id mi = eid)"

definition activate :: "feel \<Rightarrow> key \<Rightarrow> elementid \<Rightarrow> key \<Rightarrow> incoming_flow option \<Rightarrow> step list \<Rightarrow> engine \<Rightarrow> plan" where
  "activate F ik eid scope via pending e = (case join_kind_of e ik eid of
     Some join \<Rightarrow> activate_join F ik eid scope via join pending e
   | None \<Rightarrow>
       (case (if is_mi_child_scope e ik eid scope then None else multi_instance_of e ik eid) of
          Some mi \<Rightarrow> activate_multi_instance_body F ik eid scope mi e
        | None \<Rightarrow>
            (let (eik, e1) = mint_key e
             in after_events
                  (activation_events ik eik eid scope
                   @ (if opens_scope e ik eid then [EVariable (VariableScopeCreated ik eik scope)] else []))
                  (activate_body F ik eid eik scope e1))))"

section \<open>Multi-instance children\<close>

definition run_mi_child_behaviour :: "feel \<Rightarrow> key \<Rightarrow> elementid \<Rightarrow> key \<Rightarrow> vars \<Rightarrow> engine \<Rightarrow> plan" where
  "run_mi_child_behaviour F ik eid child_key child_vars e = (case element_kind_of e ik eid of
     Some (EK_ServiceTask job_type priority _ _ _) \<Rightarrow>
       (let adhoc = adhoc_def_of e ik eid
        in if declarative adhoc
           then Some (([adhoc_activated ik child_key eid (the adhoc)], declarative_tools F ik child_key child_vars (the adhoc)), e)
           else (let (job, e1) = service_job F child_vars ik child_key eid job_type priority (retries_of e ik eid) e
                 in Some ((job # (case adhoc of None \<Rightarrow> []
                        | Some d \<Rightarrow> [adhoc_activated ik child_key eid d, catalog_update ik child_key d]), []), e1)))
   | Some (EK_SubProcess start_event) \<Rightarrow> Some (([], [SActivate ik start_event child_key None]), e)
   | Some (EK_CallActivity called propagate_all_parent _) \<Rightarrow>
       spawn_call_activity_child F ik child_key eid called propagate_all_parent child_vars e
   | _ \<Rightarrow> Some (([], [SComplete ik child_key eid]), e))"

definition child_locals :: "engine \<Rightarrow> key \<Rightarrow> elementid \<Rightarrow> multi_instance_state \<Rightarrow> nat \<Rightarrow> vars" where
  "child_locals e ik eid mi index =
     (let item = (if index < length (mis_items mi) then mis_items mi ! index else Null);
          bound = (case mis_input_element mi of None \<Rightarrow> fmempty | Some name \<Rightarrow> fmupd name item fmempty);
          counted = fmupd ''loopCounter'' (VInt (int index + 1)) bound
      in case Option.bind (adhoc_def_of e ik eid) asd_output_collection of
           None \<Rightarrow> counted | Some name \<Rightarrow> fmupd name (VList []) counted)"

definition child_activated :: "key \<Rightarrow> elementid \<Rightarrow> key \<Rightarrow> key \<Rightarrow> nat \<Rightarrow> vars \<Rightarrow> event list" where
  "child_activated ik eid body_key child_key index locals =
     activation_events ik child_key eid body_key
     @ [EMultiInstance (MultiInstanceChildActivated ik body_key child_key index locals)]"

definition activate_mi_child :: "feel \<Rightarrow> key \<Rightarrow> elementid \<Rightarrow> key \<Rightarrow> nat \<Rightarrow> engine \<Rightarrow> plan" where
  "activate_mi_child F ik eid body_key index e = (case mi_state_of e ik body_key of
     None \<Rightarrow> no_plan e
   | Some mi \<Rightarrow>
       (let (child_key, e1) = mint_key e; locals = child_locals e ik eid mi index
        in do {
          view \<leftarrow> variables_for_element e1 ik body_key;
          case eval_io_mappings_in F (view ++\<^sub>f locals) (own_inputs e ik eid) of
            Inr results \<Rightarrow>
              (let mapped = fmdrop ''loopCounter'' results
               in after_events (child_activated ik eid body_key child_key index (locals ++\<^sub>f mapped))
                    (run_mi_child_behaviour F ik eid child_key ((view ++\<^sub>f locals) ++\<^sub>f mapped) e1))
          | Inl failure \<Rightarrow>
              (let (ev, e2) = io_mapping_incident ik child_key eid failure (MiChildActivation body_key index) e1
               in Some ((child_activated ik eid body_key child_key index locals @ [ev], []), e2))
        }))"

definition retry_mi_child_activation :: "feel \<Rightarrow> key \<Rightarrow> elementid \<Rightarrow> key \<Rightarrow> key \<Rightarrow> nat \<Rightarrow> engine \<Rightarrow> plan" where
  "retry_mi_child_activation F ik eid body_key child_key index e = do {
     child_vars \<leftarrow> variables_for_element e ik child_key;
     case eval_io_mappings_in F child_vars (engine_io_inputs e ik eid) of
       Inl failure \<Rightarrow>
         (let (ev, e1) = io_mapping_incident ik child_key eid failure (MiChildActivation body_key index) e in Some (([ev], []), e1))
     | Inr results \<Rightarrow>
         (let mapped = fmdrop ''loopCounter'' results
          in after_events (if mapped = fmempty then [] else [EVariable (ScopedVariablesUpdated ik child_key mapped)])
               (run_mi_child_behaviour F ik eid child_key (child_vars ++\<^sub>f mapped) e))
   }"

section \<open>Tools of an ad-hoc sub-process\<close>

definition adhoc_state_of :: "engine \<Rightarrow> key \<Rightarrow> key \<Rightarrow> adhoc_state option" where
  "adhoc_state_of e ik container_key =
     Option.bind (fmlookup (instances (est e)) ik) (\<lambda>i. fmlookup (pi_adhoc_instances i) container_key)"

definition tool_kind_in :: "engine \<Rightarrow> key \<Rightarrow> elementid option \<Rightarrow> elementid \<Rightarrow> adhoc_tool_kind option" where
  "tool_kind_in e ik container_id tool_id =
     map_option tool_kind (Option.bind (Option.bind container_id (adhoc_def_of e ik)) (\<lambda>d. find_tool d tool_id))"

text \<open>A tool that is itself an ad-hoc sub-process.\<close>

definition activate_nested_container ::
  "feel \<Rightarrow> key \<Rightarrow> key \<Rightarrow> elementid \<Rightarrow> adhoc_tool_kind option \<Rightarrow> vars \<Rightarrow> adhoc_subprocess_def \<Rightarrow> engine \<Rightarrow> plan" where
  "activate_nested_container F ik child_key eid kind child_vars d e =
     after_events (adhoc_activated ik child_key eid d # seed_output_collection ik child_key d)
       (if asd_impl_type d = AdHocBpmnTask then Some (([], declarative_tools F ik child_key child_vars d), e)
        else (let job_type = (case kind of Some (ToolServiceTask t) \<Rightarrow> t | _ \<Rightarrow> eid);
                  (job, e1) = service_job F child_vars ik child_key eid job_type None None e
              in Some (([catalog_update ik child_key d, job], []), e1)))"

definition run_tool_behaviour ::
  "feel \<Rightarrow> key \<Rightarrow> key \<Rightarrow> key \<Rightarrow> elementid \<Rightarrow> adhoc_tool_kind option \<Rightarrow> vars \<Rightarrow> vars \<Rightarrow> engine \<Rightarrow> plan" where
  "run_tool_behaviour F ik child_key inner_key eid kind child_vars applied_inputs e = (case kind of
     Some (ToolServiceTask job_type) \<Rightarrow>
       (let (job, e1) = service_job F child_vars ik child_key eid job_type None None e in Some (([job], []), e1))
   | Some (ToolUserTask props) \<Rightarrow>
       (let (utk, e1) = mint_key e
        in Some (([user_task_created F e child_vars utk ik child_key eid props
             (nonempty (resolve_user_task_string F child_vars (up_assignee props)))], []), e1))
   | Some (ToolSubProcess start_event) \<Rightarrow> do {
       (armed, e1) \<leftarrow> arm_boundary_events F ik child_key inner_key eid e;
       Some ((armed, [SActivate ik start_event child_key None]), e1)
     }
   | Some (ToolCallActivity (Some called) propagate_all_parent _) \<Rightarrow>
       spawn_call_activity_instance F ik child_key eid called child_vars
         (if propagate_all_parent then child_vars else applied_inputs) (Some applied_inputs) e
   | _ \<Rightarrow> Some (([], [SComplete ik child_key eid]), e))"

definition activate_adhoc_tool :: "feel \<Rightarrow> key \<Rightarrow> key \<Rightarrow> elementid \<Rightarrow> vars \<Rightarrow> engine \<Rightarrow> plan" where
  "activate_adhoc_tool F ik container_key eid seed e =
     (let (child_key, e1) = mint_key e;
          container_id = map_option ahs_element_id (adhoc_state_of e ik container_key)
      in do {
        container_vars \<leftarrow> variables_for_element e1 ik container_key;
        let view = container_vars ++\<^sub>f seed;
        case (case container_id of None \<Rightarrow> Inr fmempty | Some cid \<Rightarrow> adhoc_tool_input_updates F e1 ik cid eid view) of
          Inl failure \<Rightarrow>
            (let (ev, e2) = io_mapping_incident ik container_key (the container_id) failure (AdHocToolActivation eid seed) e1
             in Some (([ev], []), e2))
        | Inr applied_inputs \<Rightarrow>
            (let (inner_key, e2) = mint_key e1;
                 inner_id = adhoc_inner_instance_id (case container_id of None \<Rightarrow> eid | Some cid \<Rightarrow> cid);
                 child_vars = view ++\<^sub>f applied_inputs;
                 kind = tool_kind_in e ik container_id eid
             in after_events (activation_events ik inner_key inner_id container_key @ activation_events ik child_key eid inner_key
                    @ [EAdHoc (AdHocToolActivated ik container_key child_key (seed ++\<^sub>f applied_inputs))])
                  (case adhoc_def_of e ik eid of
                     Some d \<Rightarrow> activate_nested_container F ik child_key eid kind child_vars d e2
                   | None \<Rightarrow> run_tool_behaviour F ik child_key inner_key eid kind child_vars applied_inputs e2))
      })"

section \<open>Jobs of incident retries\<close>

definition create_job_for :: "feel \<Rightarrow> key \<Rightarrow> key \<Rightarrow> elementid \<Rightarrow> engine \<Rightarrow> plan" where
  "create_job_for F ik eik eid e = (case element_kind_of e ik eid of
     Some (EK_ServiceTask job_type priority _ _ _) \<Rightarrow>
       do {
         job_vars \<leftarrow> variables_for_element e ik eik;
         let (job, e1) = service_job F job_vars ik eik eid job_type priority (retries_of e ik eid) e;
         Some (([job], []), e1)
       }
   | _ \<Rightarrow> no_plan e)"

end
