(* ===== verification/Loops.thy ===== *)
theory Loops
  imports Activation
begin

text \<open>
  Completing multi-instance loops and ad-hoc sub-processes (\<open>engine-core/src/engine/mod.rs\<close>): a child of a loop, the
  body, the cancellation of children that still run, a tool of an ad-hoc container, the chains of tools and the
  container itself. The sets of active children are ordered sets and are walked in key order.
\<close>

section \<open>Shared parts\<close>

definition completion_events :: "key \<Rightarrow> key \<Rightarrow> elementid \<Rightarrow> event list" where
  "completion_events ik eik eid = [EElement (ElementCompleting ik eik eid), EElement (ElementCompleted ik eik eid)]"

definition take_every_flow :: "engine \<Rightarrow> key \<Rightarrow> elementid \<Rightarrow> key \<Rightarrow> (event list \<times> step list) option" where
  "take_every_flow e ik eid scope =
     map_option (\<lambda>flows. (concat (map fst flows), map snd flows)) (take_all_flows e ik eid scope)"

text \<open>The events of a completion, and then the outgoing flows.\<close>

definition then_every_flow :: "event list \<Rightarrow> key \<Rightarrow> elementid \<Rightarrow> key \<Rightarrow> engine \<Rightarrow> plan" where
  "then_every_flow evs ik eid scope e = do {
     (taken, steps) \<leftarrow> take_every_flow e ik eid scope;
     Some ((evs @ taken, steps), e)
   }"

definition feel_ok :: "feel \<Rightarrow> string \<Rightarrow> vars \<Rightarrow> rval option" where
  "feel_ok F expr vs = (case feel_eval F expr vs of Inr v \<Rightarrow> Some v | Inl _ \<Rightarrow> None)"

definition holds :: "feel \<Rightarrow> string \<Rightarrow> vars \<Rightarrow> bool" where
  "holds F condition vs \<longleftrightarrow> feel_eval_bool F condition vs = Inr True"

definition cancel_boundary_events_on :: "engine \<Rightarrow> key \<Rightarrow> event list" where
  "cancel_boundary_events_on e eik = cancel_boundary_timers_on e eik @ cancel_boundary_message_subscriptions_on e eik
     @ cancel_boundary_signal_subscriptions_on e eik @ cancel_boundary_conditional_subscriptions_on e eik"

text \<open>What a propagation writes, when there is anything to write.\<close>

definition propagated_nonempty :: "engine \<Rightarrow> key \<Rightarrow> key \<Rightarrow> vars \<Rightarrow> event list option" where
  "propagated_nonempty e ik scope updates = (if updates = fmempty then Some [] else propagated_updates e ik scope updates False)"

definition propagated_map :: "engine \<Rightarrow> key \<Rightarrow> key \<Rightarrow> vars option \<Rightarrow> event list option" where
  "propagated_map e ik scope m = (case m of None \<Rightarrow> Some [] | Some vs \<Rightarrow> propagated_updates e ik scope vs False)"

section \<open>A child of a multi-instance loop\<close>

text \<open>A double converted to a signed 64-bit integer saturates; the subtraction wraps.\<close>

definition f64_as_i64 :: "u64 \<Rightarrow> int" where
  "f64_as_i64 bits = (case f64_trunc bits of None \<Rightarrow> 0 | Some v \<Rightarrow> max (- (2 ^ 63)) (min (2 ^ 63 - 1) v))"

definition counter_index :: "u64 \<Rightarrow> nat" where
  "counter_index c = nat (max 0 (sint (word_of_int (f64_as_i64 c - 1) :: 64 word)))"

definition mi_child_index :: "engine \<Rightarrow> key \<Rightarrow> multi_instance_state \<Rightarrow> key \<Rightarrow> nat" where
  "mi_child_index e ik mi child_eik = (case fmlookup (mis_child_indices mi) child_eik of
     Some index \<Rightarrow> index
   | None \<Rightarrow>
       (case do {
          i \<leftarrow> fmlookup (instances (est e)) ik;
          locals \<leftarrow> fmlookup (pi_scope_variables i) child_eik;
          v \<leftarrow> fmlookup locals ''loopCounter'';
          as_f64 v
        } of None \<Rightarrow> 0 | Some c \<Rightarrow> counter_index c))"

text \<open>The value a child contributes: the error is the failure of an output mapping.\<close>

definition mi_child_output ::
  "feel \<Rightarrow> engine \<Rightarrow> key \<Rightarrow> key \<Rightarrow> elementid \<Rightarrow> multi_instance_state \<Rightarrow> vars option \<Rightarrow> (string + rval option) option" where
  "mi_child_output F e ik child_eik eid mi produced = (case mis_output_element mi of
     None \<Rightarrow> Some (Inr None)
   | Some expr \<Rightarrow> do {
       visible \<leftarrow> variables_for_element e ik child_eik;
       Some (case produced of
         Some produced \<Rightarrow> Inr (feel_ok F expr (visible ++\<^sub>f produced))
       | None \<Rightarrow> (case eval_io_mappings_in F visible (engine_io_outputs e ik eid) of
           Inr mapped \<Rightarrow> Inr (feel_ok F expr (visible ++\<^sub>f mapped))
         | Inl failure \<Rightarrow> Inl failure))
     })"

definition after_mi_child :: "feel \<Rightarrow> engine \<Rightarrow> key \<Rightarrow> key \<Rightarrow> multi_instance_state \<Rightarrow> step list" where
  "after_mi_child F e ik body_key mi =
     (let completion_now = (case mis_completion_condition mi of None \<Rightarrow> False | Some c \<Rightarrow> holds F c (engine_variables e ik));
          total = length (mis_items mi)
      in if completion_now then [SCompleteMiBody ik body_key]
         else if mis_sequential mi
         then (if mis_spawned mi < total then [SActivateMiChild ik (mis_element_id mi) body_key (mis_spawned mi)]
               else [SCompleteMiBody ik body_key])
         else if fcard (mis_active mi) - 1 = 0 \<and> total \<le> mis_spawned mi then [SCompleteMiBody ik body_key]
         else [])"

definition complete_mi_child :: "feel \<Rightarrow> key \<Rightarrow> key \<Rightarrow> elementid \<Rightarrow> key \<Rightarrow> vars option \<Rightarrow> engine \<Rightarrow> plan" where
  "complete_mi_child F ik child_eik eid body_key produced e = (case mi_state_of e ik body_key of
     None \<Rightarrow> Some ((completion_events ik child_eik eid, []), e)
   | Some mi \<Rightarrow> do {
       result \<leftarrow> mi_child_output F e ik child_eik eid mi produced;
       case result of
         Inl failure \<Rightarrow> (let (ev, e1) = io_mapping_incident ik child_eik eid failure RedriveCompletion e in Some (([ev], []), e1))
       | Inr value \<Rightarrow> Some ((completion_events ik child_eik eid
            @ [EMultiInstance (MultiInstanceChildCompleted ik body_key child_eik (mi_child_index e ik mi child_eik) value)],
            after_mi_child F e ik body_key mi), e)
     })"

section \<open>Cancelling children that still run\<close>

definition cancel_mi_child_events :: "engine \<Rightarrow> key \<Rightarrow> key \<Rightarrow> event list" where
  "cancel_mi_child_events e ik child_eik =
     (let eid = (case element_id_of_instance e ik child_eik of None \<Rightarrow> [] | Some i \<Rightarrow> i)
      in (case call_activity_child_of e child_eik of None \<Rightarrow> [] | Some callee \<Rightarrow> discard_instance_events e callee)
         @ option_event (\<lambda>jk. EJob (JobCanceled jk ik)) (active_job_on e child_eik)
         @ cancel_all_timers_on e child_eik @ cancel_all_subscriptions_on e child_eik
         @ option_event (\<lambda>t. EUserTask (UserTaskCanceled (ut_key t) ik))
             (List.find (\<lambda>t. ut_instance_key t = ik \<and> ut_element_instance_key t = child_eik \<and> ut_state t = UTCreated)
               (map snd (sorted_list_of_fmap (user_tasks (est e)))))
         @ resolve_incidents_on e ik child_eik
         @ completion_events ik child_eik eid)"

text \<open>The container part of a nested container, and the wrapper of a tool.\<close>

definition cancel_container_events :: "engine \<Rightarrow> key \<Rightarrow> key \<Rightarrow> elementid \<Rightarrow> event list" where
  "cancel_container_events e ik child eid =
     option_event (\<lambda>jk. EJob (JobCanceled jk ik)) (active_job_on e child)
     @ cancel_all_timers_on e child @ cancel_all_subscriptions_on e child @ resolve_incidents_on e ik child
     @ completion_events ik child eid @ [EAdHoc (AdHocCompleted ik child True)]"

definition adhoc_inner_instance_teardown :: "engine \<Rightarrow> key \<Rightarrow> key \<Rightarrow> event list" where
  "adhoc_inner_instance_teardown e ik inner_key = (case element_id_of_instance e ik inner_key of
     None \<Rightarrow> [] | Some inner_id \<Rightarrow> completion_events ik inner_key inner_id)"

definition cancel_wrapper_events :: "engine \<Rightarrow> key \<Rightarrow> key \<Rightarrow> key \<Rightarrow> event list" where
  "cancel_wrapper_events e ik container_key child =
     (case call_activity_child_of e child of None \<Rightarrow> [] | Some callee \<Rightarrow> discard_instance_events e callee)
     @ (let inner = scope_of e ik child
        in if inner \<noteq> 0 \<and> inner \<noteq> container_key then adhoc_inner_instance_teardown e ik inner else [])"

text \<open>The recursion into nested containers follows the active sets of the state, for which nothing rules out a cycle;
  the loop over the children of a container is part of it.\<close>

partial_function (option) cancel_adhoc_children :: "engine \<Rightarrow> key \<Rightarrow> key \<Rightarrow> key list \<Rightarrow> event list option" where
  "cancel_adhoc_children e ik container_key children =
     (if children = [] then Some []
      else if is_adhoc_container e ik (hd children)
      then Option.bind (adhoc_state_of e ik (hd children)) (\<lambda>a.
        Option.bind (cancel_adhoc_children e ik (hd children) (sorted_list_of_fset (ahs_active a))) (\<lambda>nested.
          Option.bind (cancel_adhoc_children e ik container_key (tl children)) (\<lambda>others.
            Some (nested @ cancel_container_events e ik (hd children) (ahs_element_id a)
              @ cancel_wrapper_events e ik container_key (hd children) @ others))))
      else Option.bind (scope_descendants e ik (hd children)) (\<lambda>inner.
        Option.bind (cancel_adhoc_children e ik container_key (tl children)) (\<lambda>others.
          Some (concat (map (cancel_mi_child_events e ik) inner) @ cancel_mi_child_events e ik (hd children)
            @ cancel_wrapper_events e ik container_key (hd children) @ others))))"

definition cancel_adhoc_active_child :: "engine \<Rightarrow> key \<Rightarrow> key \<Rightarrow> key \<Rightarrow> event list option" where
  "cancel_adhoc_active_child e ik container_key child = cancel_adhoc_children e ik container_key [child]"

section \<open>The body of a loop\<close>

text \<open>Children of a body that completes early; a scope that is torn down is marked for the rest of the command.\<close>

fun cancel_mi_children :: "key \<Rightarrow> key \<Rightarrow> key list \<Rightarrow> engine \<Rightarrow> (event list \<times> engine) option" where
  "cancel_mi_children ik body_key [] e = Some ([], e)"
| "cancel_mi_children ik body_key (child # rest) e = do {
     (own, e1) \<leftarrow> (if is_adhoc_container e ik child
       then map_option (\<lambda>evs. (evs, e)) (cancel_adhoc_active_child e ik body_key child)
       else do {
         inner \<leftarrow> scope_teardown_events e ik child;
         Some (inner @ cancel_mi_child_events e ik child, e\<lparr> torn_down_scopes := finsert child (torn_down_scopes e) \<rparr>)
       });
     (others, e2) \<leftarrow> cancel_mi_children ik body_key rest e1;
     Some (own @ others, e2)
   }"

definition body_collection :: "multi_instance_state \<Rightarrow> vars option" where
  "body_collection mi = map_option
     (\<lambda>name. fmupd name (VList (map (\<lambda>x. case x of None \<Rightarrow> Null | Some v \<Rightarrow> v) (mis_output_values mi))) fmempty)
     (mis_output_collection mi)"

definition or_empty :: "vars option \<Rightarrow> vars" where
  "or_empty m = (case m of None \<Rightarrow> fmempty | Some vs \<Rightarrow> vs)"

definition body_tolerated :: "multi_instance_state \<Rightarrow> string fset" where
  "body_tolerated mi = finsert ''loopCounter'' (case mis_input_element mi of None \<Rightarrow> {||} | Some name \<Rightarrow> {|name|})"

definition body_output_updates :: "feel \<Rightarrow> engine \<Rightarrow> key \<Rightarrow> key \<Rightarrow> multi_instance_state \<Rightarrow> (string + vars) option" where
  "body_output_updates F e ik body_key mi =
     (let outputs = engine_io_outputs e ik (mis_element_id mi)
      in if outputs = [] then Some (Inr fmempty)
         else do {
           visible \<leftarrow> variables_for_element e ik body_key;
           Some (eval_io_mappings_tolerating F (visible ++\<^sub>f or_empty (body_collection mi)) outputs (body_tolerated mi))
         })"

definition body_completed :: "key \<Rightarrow> key \<Rightarrow> elementid \<Rightarrow> event list" where
  "body_completed ik body_key eid =
     [EElement (ElementCompleted ik body_key eid), EMultiInstance (MultiInstanceCompleted ik body_key)]"

definition complete_multi_instance_body :: "feel \<Rightarrow> key \<Rightarrow> key \<Rightarrow> engine \<Rightarrow> plan" where
  "complete_multi_instance_body F ik body_key e = (case mi_state_of e ik body_key of
     None \<Rightarrow> no_plan e
   | Some mi \<Rightarrow> do {
       let eid = mis_element_id mi;
       let scope = scope_of e ik body_key;
       result \<leftarrow> body_output_updates F e ik body_key mi;
       case result of
         Inl failure \<Rightarrow> (let (ev, e1) = io_mapping_incident ik body_key eid failure MiBodyCompletion e in Some (([ev], []), e1))
       | Inr output_updates \<Rightarrow> do {
           (cancelled, e1) \<leftarrow> cancel_mi_children ik body_key (sorted_list_of_fset (mis_active mi)) e;
           collected \<leftarrow> propagated_map e1 ik scope (body_collection mi);
           mapped \<leftarrow> propagated_nonempty e1 ik scope output_updates;
           let events = cancelled @ cancel_boundary_events_on e1 body_key @ collected @ [EElement (ElementCompleting ik body_key eid)];
           if listeners_of e1 ik eid ListenerEnd \<noteq> []
           then do {
             visible \<leftarrow> variables_for_element e1 ik body_key;
             (job, e2) \<leftarrow> begin_end_listener_chain F ik body_key eid scope
               (visible ++\<^sub>f or_empty (body_collection mi) ++\<^sub>f output_updates) e1;
             Some ((events @ mapped @ [job], []), e2)
           }
           else then_every_flow (events @ body_completed ik body_key eid @ mapped) ik eid scope e1
         }
     })"

definition finalize_multi_instance_body :: "key \<Rightarrow> key \<Rightarrow> engine \<Rightarrow> plan" where
  "finalize_multi_instance_body ik body_key e = (case mi_state_of e ik body_key of
     None \<Rightarrow> no_plan e
   | Some mi \<Rightarrow>
       then_every_flow (body_completed ik body_key (mis_element_id mi)) ik (mis_element_id mi) (scope_of e ik body_key) e)"

section \<open>A tool of an ad-hoc container\<close>

definition adhoc_inner_flow_targets :: "feel \<Rightarrow> engine \<Rightarrow> key \<Rightarrow> elementid \<Rightarrow> elementid \<Rightarrow> key \<Rightarrow> elementid list option" where
  "adhoc_inner_flow_targets F e ik container_id tool_id child_eik = (case adhoc_def_of e ik container_id of
     None \<Rightarrow> Some []
   | Some d \<Rightarrow> do {
       vs \<leftarrow> variables_for_element e ik child_eik;
       Some (map aif_to (filter (\<lambda>f. case aif_condition f of None \<Rightarrow> True | Some c \<Rightarrow> holds F c vs)
         (filter (\<lambda>f. aif_from f = tool_id) (asd_inner_flows d))))
     })"

datatype adhoc_post_tool = PostContinue | PostComplete bool | PostDefer "event option"

definition adhoc_completion_after_tool :: "feel \<Rightarrow> engine \<Rightarrow> key \<Rightarrow> key \<Rightarrow> elementid \<Rightarrow> vars \<Rightarrow> nat \<Rightarrow> adhoc_post_tool option" where
  "adhoc_completion_after_tool F e ik container_key container_id output_updates others = (case adhoc_def_of e ik container_id of
     None \<Rightarrow> Some PostContinue
   | Some d \<Rightarrow> do {
       completion_now \<leftarrow> (case asd_completion_condition d of
           None \<Rightarrow> Some False
         | Some c \<Rightarrow> map_option (\<lambda>vs. holds F c (vs ++\<^sub>f output_updates)) (variables_for_element e ik container_key));
       let already = (case adhoc_state_of e ik container_key of None \<Rightarrow> False | Some a \<Rightarrow> ahs_completion_condition_fulfilled a);
       Some (if \<not> (completion_now \<or> already) then PostContinue
             else if asd_cancel_remaining_instances d then PostComplete True
             else if others = 0 then PostComplete False
             else PostDefer (if already then None else Some (EAdHoc (AdHocCompletionConditionFulfilled ik container_key))))
     })"

definition adhoc_container_job_type :: "engine \<Rightarrow> key \<Rightarrow> key \<Rightarrow> elementid \<Rightarrow> string option" where
  "adhoc_container_job_type e ik container_key container_id = (case element_kind_of e ik container_id of
     Some (EK_ServiceTask job_type _ _ _ _) \<Rightarrow> Some job_type
   | _ \<Rightarrow>
       (let inner = scope_of e ik container_key; parent = (if inner \<noteq> 0 then scope_of e ik inner else 0)
        in do {
          parent_id \<leftarrow> element_id_of_instance e ik parent;
          d \<leftarrow> adhoc_def_of e ik parent_id;
          t \<leftarrow> find_tool d container_id;
          case tool_kind t of ToolServiceTask job_type \<Rightarrow> Some job_type | _ \<Rightarrow> None
        }))"

definition adhoc_agent_job_events :: "feel \<Rightarrow> key \<Rightarrow> key \<Rightarrow> elementid \<Rightarrow> engine \<Rightarrow> (event list \<times> engine) option" where
  "adhoc_agent_job_events F ik container_key container_id e = (case adhoc_container_job_type e ik container_key container_id of
     None \<Rightarrow> Some ([], e)
   | Some job_type \<Rightarrow> do {
       vs \<leftarrow> variables_for_element e ik container_key;
       let (job, e1) = service_job F vs ik container_key container_id job_type None (retries_of e ik container_id) e;
       Some ([job], e1)
     })"

text \<open>The projection of a tool's outputs: given, or evaluated in the scope of the tool.\<close>

definition tool_output_updates ::
  "feel \<Rightarrow> engine \<Rightarrow> key \<Rightarrow> elementid \<Rightarrow> elementid \<Rightarrow> key \<Rightarrow> vars option \<Rightarrow> (string + vars) option" where
  "tool_output_updates F e ik container_id tool_id child_eik precomputed = (case precomputed of
     Some updates \<Rightarrow> Some (Inr updates)
   | None \<Rightarrow>
       (let outputs = io_outputs (adhoc_tool_io e ik container_id tool_id)
        in if outputs = [] then Some (Inr fmempty)
           else do { vs \<leftarrow> variables_for_element e ik child_eik; Some (eval_io_mappings_in F vs outputs) }))"

definition tool_completed :: "engine \<Rightarrow> key \<Rightarrow> key \<Rightarrow> elementid \<Rightarrow> key \<Rightarrow> key \<Rightarrow> rval option \<Rightarrow> event list" where
  "tool_completed e ik child_eik tool_id container_key inner_key value =
     completion_events ik child_eik tool_id @ adhoc_inner_instance_teardown e ik inner_key
     @ [EAdHoc (AdHocToolCompleted ik container_key child_eik value)]"

text \<open>What follows the completion of a tool: the condition of the container decides, or else the given continuation.\<close>

definition after_tool ::
  "feel \<Rightarrow> engine \<Rightarrow> key \<Rightarrow> key \<Rightarrow> adhoc_state \<Rightarrow> vars \<Rightarrow> event list \<Rightarrow> plan \<Rightarrow> plan" where
  "after_tool F e ik container_key a output_updates events continue = do {
     post \<leftarrow> adhoc_completion_after_tool F e ik container_key (ahs_element_id a) output_updates (fcard (ahs_active a) - 1);
     case post of
       PostComplete cancel \<Rightarrow> Some ((events, [SCompleteAdHoc ik container_key cancel]), e)
     | PostDefer fulfilled \<Rightarrow> Some ((events @ option_event id fulfilled, []), e)
     | PostContinue \<Rightarrow> after_events events continue
   }"

definition continue_adhoc_inner_flow ::
  "feel \<Rightarrow> key \<Rightarrow> key \<Rightarrow> elementid \<Rightarrow> key \<Rightarrow> key \<Rightarrow> elementid list \<Rightarrow> vars option \<Rightarrow> engine \<Rightarrow> plan" where
  "continue_adhoc_inner_flow F ik child_eik tool_id container_key inner_key targets precomputed e =
     (case adhoc_state_of e ik container_key of
        None \<Rightarrow> no_plan e
      | Some a \<Rightarrow> do {
          result \<leftarrow> tool_output_updates F e ik (ahs_element_id a) tool_id child_eik precomputed;
          case result of
            Inl failure \<Rightarrow> (let (ev, e1) = io_mapping_incident ik child_eik tool_id failure RedriveCompletion e in Some (([ev], []), e1))
          | Inr updates \<Rightarrow> do {
              propagated \<leftarrow> propagated_nonempty e ik container_key updates;
              after_tool F e ik container_key a updates
                (tool_completed e ik child_eik tool_id container_key inner_key None @ propagated)
                (Some ((map (\<lambda>t. EElement (SequenceFlowTaken ik tool_id t)) targets,
                        map (\<lambda>t. SActivateAdHocTool ik container_key t fmempty) targets), e))
            }
        })"

text \<open>The output collection of a container must be a list where it is bound at all.\<close>

definition collection_of :: "engine \<Rightarrow> key \<Rightarrow> key \<Rightarrow> string \<Rightarrow> rval option" where
  "collection_of e ik container_key name = do {
     i \<leftarrow> fmlookup (instances (est e)) ik;
     locals \<leftarrow> fmlookup (pi_scope_variables i) container_key;
     fmlookup locals name
   }"

definition mistyped_collection :: "engine \<Rightarrow> key \<Rightarrow> key \<Rightarrow> adhoc_state \<Rightarrow> string option" where
  "mistyped_collection e ik container_key a = (case ahs_output_collection a of
     None \<Rightarrow> None
   | Some name \<Rightarrow> (case collection_of e ik container_key name of
       None \<Rightarrow> None | Some (VList _) \<Rightarrow> None | Some _ \<Rightarrow> Some name))"

definition wrong_collection_type :: "string \<Rightarrow> elementid \<Rightarrow> string" where
  "wrong_collection_type name container_id =
     ''the output collection '' @ quoted name @ '' of ad-hoc sub-process '' @ quoted container_id
     @ '' has the wrong type: expected an array''"

text \<open>Once the last tool of a turn has completed: a declarative container completes, an agent gets its next job.\<close>

definition next_turn :: "feel \<Rightarrow> key \<Rightarrow> key \<Rightarrow> adhoc_state \<Rightarrow> engine \<Rightarrow> plan" where
  "next_turn F ik container_key a e =
     (if fcard (ahs_active a) - 1 \<noteq> 0 then no_plan e
      else if declarative (adhoc_def_of e ik (ahs_element_id a)) then Some (([], [SCompleteAdHoc ik container_key False]), e)
      else do {
        (job, e1) \<leftarrow> adhoc_agent_job_events F ik container_key (ahs_element_id a) e;
        Some ((EAdHoc (AdHocIterated ik container_key) # job, []), e1)
      })"

definition complete_adhoc_tool :: "feel \<Rightarrow> key \<Rightarrow> key \<Rightarrow> elementid \<Rightarrow> key \<Rightarrow> key \<Rightarrow> vars option \<Rightarrow> engine \<Rightarrow> plan" where
  "complete_adhoc_tool F ik child_eik tool_id container_key inner_key precomputed e =
     (case adhoc_state_of e ik container_key of
        None \<Rightarrow> no_plan e
      | Some a \<Rightarrow> do {
          targets \<leftarrow> adhoc_inner_flow_targets F e ik (ahs_element_id a) tool_id child_eik;
          if targets \<noteq> []
          then continue_adhoc_inner_flow F ik child_eik tool_id container_key inner_key targets precomputed e
          else do {
            value \<leftarrow> (case ahs_output_element a of
                None \<Rightarrow> Some None
              | Some expr \<Rightarrow> map_option (feel_ok F expr) (variables_for_element e ik child_eik));
            case (if value = None then None else mistyped_collection e ik container_key a) of
              Some name \<Rightarrow> raise_incident ik child_eik tool_id ExpressionEvaluation (map_option AdHocToolOutputCollection precomputed)
                (wrong_collection_type name (ahs_element_id a)) e
            | None \<Rightarrow> do {
                result \<leftarrow> tool_output_updates F e ik (ahs_element_id a) tool_id child_eik precomputed;
                case result of
                  Inl failure \<Rightarrow>
                    (let (ev, e1) = io_mapping_incident ik child_eik tool_id failure RedriveCompletion e in Some (([ev], []), e1))
                | Inr updates \<Rightarrow> do {
                    propagated \<leftarrow> propagated_nonempty e ik container_key updates;
                    after_tool F e ik container_key a updates
                      (tool_completed e ik child_eik tool_id container_key inner_key value @ propagated)
                      (next_turn F ik container_key a e)
                  }
              }
          }
        })"

section \<open>Completing an ad-hoc container\<close>

definition is_active_tool :: "engine \<Rightarrow> key \<Rightarrow> key \<Rightarrow> key \<Rightarrow> bool" where
  "is_active_tool e ik container_key child \<longleftrightarrow>
     container_key \<noteq> 0 \<and> (case adhoc_state_of e ik container_key of None \<Rightarrow> False | Some a \<Rightarrow> child |\<in>| ahs_active a)"

definition container_collection :: "engine \<Rightarrow> key \<Rightarrow> key \<Rightarrow> adhoc_state \<Rightarrow> vars option" where
  "container_collection e ik container_key a = map_option
     (\<lambda>name. fmupd name (case collection_of e ik container_key name of None \<Rightarrow> VList [] | Some v \<Rightarrow> v) fmempty)
     (ahs_output_collection a)"

definition is_tool_completed :: "event \<Rightarrow> bool" where
  "is_tool_completed ev = (case ev of EAdHoc (AdHocToolCompleted _ _ _ _) \<Rightarrow> True | _ \<Rightarrow> False)"

text \<open>A container that is a tool of another container.\<close>

definition complete_nested_container :: "feel \<Rightarrow> key \<Rightarrow> key \<Rightarrow> elementid \<Rightarrow> key \<Rightarrow> key \<Rightarrow> bool \<Rightarrow> engine \<Rightarrow> plan" where
  "complete_nested_container F ik container_key eid parent inner_key cancel e = do {
     ((tool_events, steps), e1) \<leftarrow> complete_adhoc_tool F ik container_key eid parent inner_key None e;
     Some ((tool_events
        @ (if list_ex is_tool_completed tool_events then [EAdHoc (AdHocCompleted ik container_key cancel)] else []), steps), e1)
   }"

definition container_completed :: "key \<Rightarrow> key \<Rightarrow> elementid \<Rightarrow> bool \<Rightarrow> event list" where
  "container_completed ik container_key eid cancelled =
     [EElement (ElementCompleted ik container_key eid), EAdHoc (AdHocCompleted ik container_key cancelled)]"

text \<open>A container on the token flow, with the end-listener gate of a natural completion.\<close>

definition complete_flow_container :: "feel \<Rightarrow> key \<Rightarrow> key \<Rightarrow> adhoc_state \<Rightarrow> key \<Rightarrow> bool \<Rightarrow> engine \<Rightarrow> plan" where
  "complete_flow_container F ik container_key a scope cancel e =
     (let eid = ahs_element_id a
      in after_events [EElement (ElementCompleting ik container_key eid)]
        (if \<not> cancel \<and> listeners_of e ik eid ListenerEnd \<noteq> []
         then do {
           visible \<leftarrow> variables_for_element e ik container_key;
           (job, e1) \<leftarrow> begin_end_listener_chain F ik container_key eid scope
             (visible ++\<^sub>f or_empty (container_collection e ik container_key a)) e;
           Some ((cancel_boundary_events_on e1 container_key @ [job], []), e1)
         }
         else then_every_flow (container_completed ik container_key eid cancel) ik eid scope e))"

definition complete_adhoc_container :: "feel \<Rightarrow> key \<Rightarrow> key \<Rightarrow> bool \<Rightarrow> engine \<Rightarrow> plan" where
  "complete_adhoc_container F ik container_key cancel e = (case adhoc_state_of e ik container_key of
     None \<Rightarrow> no_plan e
   | Some a \<Rightarrow> do {
       let eid = ahs_element_id a;
       let scope = scope_of e ik container_key;
       cancelled \<leftarrow> (if cancel then cancel_adhoc_children e ik container_key (sorted_list_of_fset (ahs_active a)) else Some []);
       if is_mi_child_scope e ik eid scope
       then after_events (cancelled @ [EAdHoc (AdHocCompleted ik container_key cancel)])
              (complete_mi_child F ik container_key eid scope None e)
       else do {
         let parent = (if scope \<noteq> 0 then scope_of e ik scope else 0);
         if is_active_tool e ik parent container_key
         then after_events cancelled (complete_nested_container F ik container_key eid parent scope cancel e)
         else do {
           collected \<leftarrow> propagated_map e ik scope (container_collection e ik container_key a);
           after_events (cancelled @ collected) (complete_flow_container F ik container_key a scope cancel e)
         }
       }
     })"

definition finalize_adhoc_container :: "key \<Rightarrow> key \<Rightarrow> bool \<Rightarrow> engine \<Rightarrow> plan" where
  "finalize_adhoc_container ik container_key cancelled e = (case adhoc_state_of e ik container_key of
     None \<Rightarrow> no_plan e
   | Some a \<Rightarrow>
       then_every_flow (container_completed ik container_key (ahs_element_id a) cancelled) ik (ahs_element_id a)
         (scope_of e ik container_key) e)"

end
