(* ===== verification/Completion.thy ===== *)
theory Completion
  imports Loops
begin

text \<open>
  Completing an element (\<open>engine-core/src/engine/mod.rs\<close>, \<open>engine/call_activity.rs\<close>): escalations, compensation, the
  race behind an event-based gateway, terminate end events, script and business rule tasks, output mappings and end
  listeners; the deferred completions after a listener chain; the transitions of a user task; and call activities whose
  child has ended.
\<close>

section \<open>Escalation throws\<close>

text \<open>A boundary event on a loop is armed on its body: a child that is caught stands for the body.\<close>

definition boundary_host :: "engine \<Rightarrow> key \<Rightarrow> key \<Rightarrow> key" where
  "boundary_host e ik caught_eik =
     (let child_scope = scope_of e ik caught_eik in if is_multi_instance_body e ik child_scope then child_scope else caught_eik)"

definition boundary_host_id :: "engine \<Rightarrow> key \<Rightarrow> key \<Rightarrow> elementid \<Rightarrow> elementid" where
  "boundary_host_id e ik caught_eik caught_id =
     (let child_scope = scope_of e ik caught_eik
      in if is_multi_instance_body e ik child_scope
         then (case element_id_of_instance e ik child_scope of None \<Rightarrow> caught_id | Some i \<Rightarrow> i) else caught_id)"

definition completes_instance :: "key \<Rightarrow> event \<Rightarrow> bool" where
  "completes_instance eik ev = (case ev of
     EElement (ElementCompleting _ k _) \<Rightarrow> k = eik | EElement (ElementCompleted _ k _) \<Rightarrow> k = eik | _ \<Rightarrow> False)"

definition interrupted_by_escalation ::
  "key \<Rightarrow> key \<Rightarrow> elementid \<Rightarrow> key \<Rightarrow> elementid \<Rightarrow> engine \<Rightarrow> plan" where
  "interrupted_by_escalation ik throw_eik boundary_id caught_eik caught_id e =
     (let torn = boundary_host e ik caught_eik; torn_id = boundary_host_id e ik caught_eik caught_id
      in do {
        inner \<leftarrow> scope_teardown_events e ik torn;
        let e1 = e\<lparr> torn_down_scopes := finsert torn (torn_down_scopes e) \<rparr>;
        Some ((filter (\<lambda>ev. \<not> completes_instance throw_eik ev) inner @ boundary_root_teardown_events e ik torn
          @ completion_events ik torn torn_id @ cancel_boundary_events_on e torn,
          [SActivate ik boundary_id (scope_of e ik torn) None]), e1)
      })"

definition raise_escalation_from_throw :: "key \<Rightarrow> key \<Rightarrow> elementid \<Rightarrow> key \<Rightarrow> string \<Rightarrow> event list \<Rightarrow> engine \<Rightarrow> plan" where
  "raise_escalation_from_throw ik throw_eik throw_id scope code events e = do {
     caught \<leftarrow> find_catching_escalation_boundary e ik scope code;
     (taken, steps) \<leftarrow> take_every_flow e ik throw_id scope;
     case caught of
       None \<Rightarrow> Some ((events @ taken, steps), e)
     | Some (boundary_id, caught_eik, caught_id, interrupting) \<Rightarrow>
         (if interrupting then after_events events (interrupted_by_escalation ik throw_eik boundary_id caught_eik caught_id e)
          else Some ((events @ taken,
            steps @ [SActivate ik boundary_id (scope_of e ik (boundary_host e ik caught_eik)) None]), e))
   }"

section \<open>Compensation\<close>

definition resume_compensation_throw :: "engine \<Rightarrow> key \<Rightarrow> elementid \<Rightarrow> key \<Rightarrow> event list \<times> step list" where
  "resume_compensation_throw e ik handler_id throw_eik =
     (case Option.bind (fmlookup (instances (est e)) ik) (\<lambda>i. fmlookup (pi_compensation_waits i) throw_eik) of
        None \<Rightarrow> ([], [])
      | Some w \<Rightarrow> ([ECompensation (CompensationHandlerCompleted ik throw_eik handler_id)],
          if length (cw_pending_handlers w) = 1 then [SComplete ik throw_eik (cw_throw_element_id w)] else []))"

definition compensation_subscriptions :: "engine \<Rightarrow> key \<Rightarrow> key \<Rightarrow> elementid \<Rightarrow> key \<Rightarrow> event list" where
  "compensation_subscriptions e ik eik eid scope =
     map (\<lambda>handler. ECompensation (CompensationSubscriptionCreated ik eik eid handler scope)) (compensation_handlers_for e ik eid)"

section \<open>The race behind an event-based gateway\<close>

definition is_catch_event :: "process_definition \<Rightarrow> elementid \<Rightarrow> bool" where
  "is_catch_event p eid = (case map_option e_kind (pd_element p eid) of
     Some (EK_TimerIntermediateCatchEvent _) \<Rightarrow> True
   | Some (EK_MessageIntermediateCatchEvent _ _) \<Rightarrow> True
   | Some (EK_SignalIntermediateCatchEvent _) \<Rightarrow> True
   | Some (EK_ConditionalIntermediateCatchEvent _) \<Rightarrow> True
   | _ \<Rightarrow> False)"

definition race_owner :: "process_definition \<Rightarrow> elementid \<Rightarrow> element option" where
  "race_owner p winner =
     (if \<not> is_catch_event p winner \<or> incoming_count p winner \<noteq> 1 then None
      else case filter (\<lambda>el. e_kind el = EK_EventBasedGateway \<and> list_ex (\<lambda>f. sf_to f = winner) (e_outgoing el)) (elements_list p) of
        [owner] \<Rightarrow> if incoming_count p (e_id owner) = 1 then Some owner else None
      | _ \<Rightarrow> None)"

definition race_siblings :: "process_definition \<Rightarrow> elementid \<Rightarrow> elementid list" where
  "race_siblings p winner = (case race_owner p winner of
     None \<Rightarrow> []
   | Some owner \<Rightarrow> filter (is_catch_event p) (filter (\<lambda>i. i \<noteq> winner) (map sf_to (e_outgoing owner))))"

definition race_losers :: "engine \<Rightarrow> key \<Rightarrow> key \<Rightarrow> elementid \<Rightarrow> key \<Rightarrow> (key \<times> elementid) list" where
  "race_losers e ik winner_eik winner scope = (case (process_of_instance e ik, fmlookup (instances (est e)) ik) of
     (Some p, Some i) \<Rightarrow>
       filter (\<lambda>(eik, eid). eik \<noteq> winner_eik \<and> eid \<in> set (race_siblings p winner) \<and> scope_of e ik eik = scope)
         (sorted_list_of_fmap (pi_active i))
   | _ \<Rightarrow> [])"

definition withdraw_loser :: "engine \<Rightarrow> key \<Rightarrow> key \<times> elementid \<Rightarrow> event list" where
  "withdraw_loser e ik loser = (case loser of (eik, eid) \<Rightarrow>
     cancel_all_timers_on e eik @ cancel_all_subscriptions_on e eik @ cancel_all_signal_subscriptions_on e eik
     @ cancel_all_conditional_subscriptions_on e eik @ completion_events ik eik eid)"

definition withdraw_event_gateway_siblings :: "engine \<Rightarrow> key \<Rightarrow> key \<Rightarrow> elementid \<Rightarrow> key \<Rightarrow> event list" where
  "withdraw_event_gateway_siblings e ik winner_eik winner scope =
     concat (map (withdraw_loser e ik) (race_losers e ik winner_eik winner scope))"

section \<open>Terminate end events\<close>

definition complete_terminate_end :: "key \<Rightarrow> key \<Rightarrow> elementid \<Rightarrow> key \<Rightarrow> engine \<Rightarrow> plan" where
  "complete_terminate_end ik eik eid scope e =
     (if scope = 0
      then Some ((completion_events ik eik eid @ discard_instance_token_events e ik @ resolve_instance_incidents e ik
             @ [ELifecycle (ProcessInstanceCompleted ik)],
             case call_activity_completion_step e ik of None \<Rightarrow> [] | Some s \<Rightarrow> [s]), e)
      else do {
        inner \<leftarrow> scope_teardown_events e ik scope;
        Some ((inner, []), e\<lparr> torn_down_scopes := finsert scope (torn_down_scopes e) \<rparr>)
      })"

section \<open>Completing an element\<close>

text \<open>Where the token goes once the element instance has completed.\<close>

definition route_thrown :: "key \<Rightarrow> key \<Rightarrow> elementid \<Rightarrow> key \<Rightarrow> event list \<Rightarrow> event list \<Rightarrow> engine \<Rightarrow> plan" where
  "route_thrown ik eik eid scope events compensable e = (case element_kind_of e ik eid of
     Some (EK_LinkIntermediateThrowEvent link_name) \<Rightarrow> Some ((events,
       case resolve_link_catch e ik eid link_name of None \<Rightarrow> [] | Some catch_id \<Rightarrow> [SActivate ik catch_id scope None]), e)
   | Some (EK_EscalationThrowEvent code) \<Rightarrow> raise_escalation_from_throw ik eik eid scope code events e
   | _ \<Rightarrow> then_every_flow (events @ compensable) ik eid scope e)"

definition route_completed :: "key \<Rightarrow> key \<Rightarrow> elementid \<Rightarrow> key \<Rightarrow> event list \<Rightarrow> engine \<Rightarrow> plan" where
  "route_completed ik eik eid scope events e = (case pending_compensation_handler e ik eid scope of
     Some throw_eik \<Rightarrow> (let (evs, steps) = resume_compensation_throw e ik eid throw_eik in Some ((events @ evs, steps), e))
   | None \<Rightarrow> route_thrown ik eik eid scope (events @ compensation_subscriptions e ik eik eid scope) [] e)"

definition complete_with ::
  "feel \<Rightarrow> key \<Rightarrow> key \<Rightarrow> elementid \<Rightarrow> event option \<Rightarrow> vars option \<Rightarrow> engine \<Rightarrow> plan" where
  "complete_with F ik eik eid decision_event script_update e =
     (let scope = scope_of e ik eik; outputs = engine_io_outputs e ik eid
      in do {
        result \<leftarrow> (if outputs = [] then Some (Inr fmempty)
          else map_option (\<lambda>visible. eval_io_mappings_in F (visible ++\<^sub>f or_empty script_update) outputs)
            (variables_for_element e ik eik));
        case result of
          Inl failure \<Rightarrow> (let (ev, e1) = io_mapping_incident ik eik eid failure RedriveCompletion e in Some (([ev], []), e1))
        | Inr output_updates \<Rightarrow> do {
            propagated \<leftarrow> propagated_nonempty e ik scope output_updates;
            let events = option_event id decision_event @ cancel_boundary_events_on e eik
              @ withdraw_event_gateway_siblings e ik eik eid scope
              @ option_event (\<lambda>vs. EVariable (VariablesUpdated ik vs)) script_update @ propagated;
            case listeners_of e ik eid ListenerEnd of
              first # _ \<Rightarrow> do {
                visible \<leftarrow> variables_for_element e ik eik;
                let (job, e1) = listener_job F (visible ++\<^sub>f or_empty script_update) ik eik eid ListenerEnd 0 scope first e;
                Some ((EElement (ElementCompleting ik eik eid) # events @ [job], []), e1)
              }
            | [] \<Rightarrow> route_completed ik eik eid scope (completion_events ik eik eid @ events) e
          }
      })"

definition complete_script_task :: "feel \<Rightarrow> key \<Rightarrow> key \<Rightarrow> elementid \<Rightarrow> string \<Rightarrow> string \<Rightarrow> engine \<Rightarrow> plan" where
  "complete_script_task F ik eik eid expression result_variable e = (case feel_eval F expression (engine_variables e ik) of
     Inr v \<Rightarrow> complete_with F ik eik eid None (Some (fmupd result_variable v fmempty)) e
   | Inl err \<Rightarrow> raise_incident ik eik eid ExpressionEvaluation None
       (''failed to evaluate script expression '' @ quoted expression @ '' at script task '' @ quoted eid @ '': '' @ err) e)"

text \<open>A decision's output under its result variable; without one the entries of a context are spread.\<close>

definition decision_update :: "string option \<Rightarrow> rval \<Rightarrow> vars" where
  "decision_update result_variable v = (case nonempty result_variable of
     Some name \<Rightarrow> fmupd name v fmempty
   | None \<Rightarrow> (case v of VMap entries \<Rightarrow> entries | _ \<Rightarrow> fmempty))"

definition complete_business_rule_task :: "feel \<Rightarrow> key \<Rightarrow> key \<Rightarrow> elementid \<Rightarrow> string \<Rightarrow> string option \<Rightarrow> engine \<Rightarrow> plan" where
  "complete_business_rule_task F ik eik eid decision_id result_variable e =
     (let vs = engine_variables e ik; resolved_id = resolve_job_type F vs decision_id
      in case fmlookup (decisions (est e)) resolved_id of
           None \<Rightarrow> raise_incident ik eik eid DecisionEvaluation None
             (''no deployed decision with id '' @ quoted resolved_id @ '' for business rule task '' @ quoted decision_id) e
         | Some d \<Rightarrow> do {
             result \<leftarrow> dmn_evaluate F (dd_drg d) resolved_id vs;
             case der_failure result of
               Some failure \<Rightarrow> raise_incident ik eik eid DecisionEvaluation None
                 (''failed to evaluate decision '' @ quoted (ef_failed_decision_id failure) @ '' at business rule task '' @ quoted eid
                  @ '': '' @ ef_message failure) e
             | None \<Rightarrow>
                 (let update = decision_update result_variable (der_decision_output result)
                  in complete_with F ik eik eid
                       (Some (EResource (DecisionEvaluated ik eik eid (dd_key d) resolved_id (der_decision_output result)
                          (der_evaluated_decisions result) (now e))))
                       (if update = fmempty then None else Some update) e)
           })"

definition engine_complete :: "feel \<Rightarrow> key \<Rightarrow> key \<Rightarrow> elementid \<Rightarrow> engine \<Rightarrow> plan" where
  "engine_complete F ik eik eid e =
     (let scope = scope_of e ik eik
      in if is_mi_child_scope e ik eid scope then complete_mi_child F ik eik eid scope None e
         else if scope \<noteq> 0 \<and> is_active_tool e ik (scope_of e ik scope) eik
         then complete_adhoc_tool F ik eik eid (scope_of e ik scope) scope None e
         else case element_kind_of e ik eid of
           Some EK_ExclusiveGateway \<Rightarrow> complete_exclusive_gateway F ik eik eid e
         | Some EK_InclusiveGateway \<Rightarrow> complete_inclusive_gateway F ik eik eid e
         | Some EK_TerminateEndEvent \<Rightarrow> complete_terminate_end ik eik eid scope e
         | Some (EK_ScriptTask expression result_variable) \<Rightarrow> complete_script_task F ik eik eid expression result_variable e
         | Some (EK_BusinessRuleTask decision_id result_variable) \<Rightarrow>
             complete_business_rule_task F ik eik eid decision_id result_variable e
         | _ \<Rightarrow> complete_with F ik eik eid None None e)"

section \<open>Completions deferred behind end listeners\<close>

definition finalize_compensation_handler :: "key \<Rightarrow> key \<Rightarrow> elementid \<Rightarrow> key \<Rightarrow> engine \<Rightarrow> plan" where
  "finalize_compensation_handler ik eik eid throw_eik e =
     (let (evs, steps) = resume_compensation_throw e ik eid throw_eik
      in Some ((EElement (ElementCompleted ik eik eid) # evs, steps), e))"

definition finalize_completion :: "key \<Rightarrow> key \<Rightarrow> elementid \<Rightarrow> key \<Rightarrow> engine \<Rightarrow> plan" where
  "finalize_completion ik eik eid scope e = (case pending_compensation_handler e ik eid scope of
     Some throw_eik \<Rightarrow> finalize_compensation_handler ik eik eid throw_eik e
   | None \<Rightarrow> route_thrown ik eik eid scope [EElement (ElementCompleted ik eik eid)]
       (compensation_subscriptions e ik eik eid scope) e)"

definition finalize_subprocess :: "key \<Rightarrow> key \<Rightarrow> elementid \<Rightarrow> key \<Rightarrow> engine \<Rightarrow> plan" where
  "finalize_subprocess ik eik eid scope e = then_every_flow [EElement (ElementCompleted ik eik eid)] ik eid scope e"

definition finalize_end_transition :: "feel \<Rightarrow> key \<Rightarrow> key \<Rightarrow> elementid \<Rightarrow> key \<Rightarrow> engine \<Rightarrow> plan" where
  "finalize_end_transition F ik eik eid scope e =
     (if is_multi_instance_body e ik eik then finalize_multi_instance_body ik eik e
      else if is_adhoc_container e ik eik then finalize_adhoc_container ik eik False e
      else case element_kind_of e ik eid of
        Some EK_ExclusiveGateway \<Rightarrow> finalize_exclusive_gateway F ik eik eid scope e
      | Some EK_InclusiveGateway \<Rightarrow> finalize_inclusive_gateway F ik eik eid scope e
      | Some (EK_SubProcess _) \<Rightarrow> finalize_subprocess ik eik eid scope e
      | _ \<Rightarrow> finalize_completion ik eik eid scope e)"

definition advance_listener :: "feel \<Rightarrow> key \<Rightarrow> key \<Rightarrow> elementid \<Rightarrow> listener_event_type \<Rightarrow> nat \<Rightarrow> key \<Rightarrow> engine \<Rightarrow> plan" where
  "advance_listener F ik eik eid ty index scope e =
     (let listeners = listeners_of e ik eid ty
      in if index + 1 < length listeners
         then do {
           vs \<leftarrow> variables_for_element e ik eik;
           let (job, e1) = listener_job F vs ik eik eid ty (index + 1) scope (listeners ! (index + 1)) e;
           Some (([job], []), e1)
         }
         else case ty of
           ListenerStart \<Rightarrow>
             (if is_multi_instance_body e ik eik then Some (([], spawn_multi_instance_children e ik eik), e)
              else do {
                vs \<leftarrow> variables_for_element e ik eik;
                run_activation_body F ik eid eik scope vs e
              })
         | ListenerEnd \<Rightarrow> finalize_end_transition F ik eik eid scope e)"

section \<open>User-task transitions\<close>

definition task_event_supports_deny :: "task_listener_event_type \<Rightarrow> bool" where
  "task_event_supports_deny ty \<longleftrightarrow> ty \<in> {Assigning, Updating, Completing}"

text \<open>An empty string in a correction clears the field.\<close>

definition blank_clears :: "string \<Rightarrow> string option" where
  "blank_clears d = (if d = [] then None else Some d)"

definition apply_non_assignee_corrections :: "key \<Rightarrow> key \<Rightarrow> user_task_corrections \<Rightarrow> event list" where
  "apply_non_assignee_corrections utk ik c =
     (if uc_candidate_groups c = None \<and> uc_candidate_users c = None \<and> uc_due_date c = None \<and> uc_follow_up_date c = None
         \<and> uc_priority c = None then []
      else [EUserTask (UserTaskUpdated utk ik (uc_candidate_groups c) (uc_candidate_users c)
        (map_option blank_clears (uc_due_date c)) (map_option blank_clears (uc_follow_up_date c)) (uc_priority c))])"

definition corrected_assignee :: "key \<Rightarrow> key \<Rightarrow> user_task_corrections \<Rightarrow> event list" where
  "corrected_assignee utk ik c = option_event (\<lambda>a. EUserTask (UserTaskAssigned utk ik (blank_clears a))) (uc_assignee c)"

definition apply_creating_corrections :: "key \<Rightarrow> key \<Rightarrow> user_task_corrections \<Rightarrow> bool \<Rightarrow> event list" where
  "apply_creating_corrections utk ik c has_initial_assignee =
     apply_non_assignee_corrections utk ik c @ (if has_initial_assignee then [] else corrected_assignee utk ik c)"

definition no_update :: pending_user_task_update where
  "no_update = \<lparr> puu_candidate_groups = None, puu_candidate_users = None, puu_due_date = None, puu_follow_up_date = None,
     puu_priority = None \<rparr>"

definition corrected_update :: "key \<Rightarrow> key \<Rightarrow> user_task_corrections \<Rightarrow> pending_user_task_update \<Rightarrow> event" where
  "corrected_update utk ik c u = EUserTask (UserTaskUpdated utk ik
     (overlay (puu_candidate_groups u) (uc_candidate_groups c)) (overlay (puu_candidate_users u) (uc_candidate_users c))
     (overlay (puu_due_date u) (map_option blank_clears (uc_due_date c)))
     (overlay (puu_follow_up_date u) (map_option blank_clears (uc_follow_up_date c)))
     (overlay (puu_priority u) (uc_priority c)))"

definition others_canceling :: "engine \<Rightarrow> key \<Rightarrow> key \<Rightarrow> bool" where
  "others_canceling e ik utk = fBex (fmran (user_tasks (est e))) (\<lambda>t. ut_instance_key t = ik \<and> ut_key t \<noteq> utk
     \<and> map_option put_event_type (ut_pending t) = Some Canceling)"

definition is_terminating :: "engine \<Rightarrow> key \<Rightarrow> bool" where
  "is_terminating e ik = (case fmlookup (instances (est e)) ik of None \<Rightarrow> False | Some i \<Rightarrow> pi_state i = PITerminating)"

text \<open>The lifecycle events of a transition, before it is marked resolved; the merged variables of a completion come just
  before the completion.\<close>

definition transition_events :: "engine \<Rightarrow> key \<Rightarrow> user_task \<Rightarrow> pending_user_task_transition \<Rightarrow> event list option" where
  "transition_events e utk t p =
     (let ik = ut_instance_key t; c = put_corrections p
      in case put_event_type p of
           Creating \<Rightarrow> Some (apply_creating_corrections utk ik c (ut_assignee t \<noteq> None \<or> put_assignee p \<noteq> None))
         | Assigning \<Rightarrow> Some (apply_non_assignee_corrections utk ik c
             @ [EUserTask (UserTaskAssigned utk ik (case uc_assignee c of Some a \<Rightarrow> blank_clears a | None \<Rightarrow> put_assignee p))])
         | Updating \<Rightarrow> Some (corrected_update utk ik c (case put_update p of None \<Rightarrow> no_update | Some u \<Rightarrow> u)
             # corrected_assignee utk ik c)
         | Completing \<Rightarrow> do {
             merged \<leftarrow> propagated_nonempty e ik (scope_of e ik (ut_element_instance_key t)) (put_variables p);
             Some (apply_non_assignee_corrections utk ik c @ corrected_assignee utk ik c @ merged
               @ [EUserTask (UserTaskCompleted utk ik)])
           }
         | Canceling \<Rightarrow> Some [EUserTask (UserTaskCanceled utk ik)])"

definition commit_user_task_transition :: "feel \<Rightarrow> key \<Rightarrow> engine \<Rightarrow> plan" where
  "commit_user_task_transition F utk e = (case fmlookup (user_tasks (est e)) utk of
     None \<Rightarrow> no_plan e
   | Some t \<Rightarrow> (case ut_pending t of
       None \<Rightarrow> no_plan e
     | Some p \<Rightarrow>
         (let ik = ut_instance_key t; eik = ut_element_instance_key t; eid = ut_element_id t
          in do {
            events \<leftarrow> transition_events e utk t p;
            let resolved = EUserTask (UserTaskTransitionResolved utk ik None);
            let ended = (if put_event_type p = Canceling \<and> is_terminating e ik \<and> \<not> others_canceling e ik utk
              then [ELifecycle (ProcessInstanceTerminated ik)] else []);
            (listeners, e1) \<leftarrow> (case (put_event_type p, put_assignee p, task_listeners_of e ik eid Assigning) of
                (Creating, Some initial, first # _) \<Rightarrow>
                  start_task_listener_chain F utk ik eik eid Assigning (pending_transition Assigning (Some initial)) first e
              | _ \<Rightarrow> Some ([], e));
            Some ((events @ resolved # ended @ listeners,
              if put_event_type p = Completing then [SComplete ik eik eid] else []), e1)
          })))"

definition advance_task_listener :: "feel \<Rightarrow> key \<Rightarrow> task_listener_event_type \<Rightarrow> nat \<Rightarrow> engine \<Rightarrow> plan" where
  "advance_task_listener F utk ty index e = (case fmlookup (user_tasks (est e)) utk of
     None \<Rightarrow> no_plan e
   | Some t \<Rightarrow>
       (let listeners = task_listeners_of e (ut_instance_key t) (ut_element_id t) ty
        in if index + 1 < length listeners
           then do {
             (job, e1) \<leftarrow> mint_task_listener_job F utk (ut_instance_key t) (ut_element_instance_key t) (ut_element_id t) ty
               (index + 1) (listeners ! (index + 1)) e;
             Some (([job], []), e1)
           }
           else commit_user_task_transition F utk e))"

section \<open>Call activities\<close>

definition adhoc_tool_container_of :: "engine \<Rightarrow> key \<Rightarrow> key \<Rightarrow> (key \<times> key) option" where
  "adhoc_tool_container_of e ik eik =
     (let inner_key = scope_of e ik eik; container_key = scope_of e ik inner_key
      in if inner_key \<noteq> 0 \<and> is_active_tool e ik container_key eik then Some (container_key, inner_key) else None)"

definition respawn_adhoc_call_activity_tool ::
  "feel \<Rightarrow> key \<Rightarrow> key \<Rightarrow> key \<Rightarrow> elementid \<Rightarrow> vars option \<Rightarrow> engine \<Rightarrow> plan" where
  "respawn_adhoc_call_activity_tool F ik child_eik container_key eid preserved e = (case adhoc_state_of e ik container_key of
     None \<Rightarrow> no_plan e
   | Some a \<Rightarrow> (case tool_kind_in e ik (Some (ahs_element_id a)) eid of
       Some (ToolCallActivity (Some called) propagate_all_parent _) \<Rightarrow> do {
         view \<leftarrow> variables_for_element e ik child_eik;
         case (case preserved of Some seed \<Rightarrow> Inr seed | None \<Rightarrow> adhoc_tool_input_updates F e ik (ahs_element_id a) eid view) of
           Inl failure \<Rightarrow> (let (ev, e1) = io_mapping_incident ik child_eik eid failure CallActivitySpawn e in Some (([ev], []), e1))
         | Inr projection \<Rightarrow>
             spawn_call_activity_instance F ik child_eik eid called view
               (if propagate_all_parent then view ++\<^sub>f projection else projection) (Some projection) e
       }
     | _ \<Rightarrow> no_plan e))"

definition retry_call_activity_spawn :: "feel \<Rightarrow> key \<Rightarrow> key \<Rightarrow> elementid \<Rightarrow> vars option \<Rightarrow> engine \<Rightarrow> plan" where
  "retry_call_activity_spawn F ik eik eid preserved e = (case adhoc_tool_container_of e ik eik of
     Some (container_key, _) \<Rightarrow> respawn_adhoc_call_activity_tool F ik eik container_key eid preserved e
   | None \<Rightarrow> (case element_kind_of e ik eid of
       Some (EK_CallActivity called propagate_all_parent _) \<Rightarrow>
         (let scope = scope_of e ik eik
          in do {
            vs \<leftarrow> variables_for_element e ik (if is_mi_child_scope e ik eid scope then eik else scope);
            spawn_call_activity_child F ik eik eid called propagate_all_parent vs e
          })
     | _ \<Rightarrow> no_plan e))"

definition call_completion_incident :: "key \<Rightarrow> key \<Rightarrow> elementid \<Rightarrow> string \<Rightarrow> vars \<Rightarrow> engine \<Rightarrow> plan" where
  "call_completion_incident ik eik eid failure child_variables e =
     (let (ev, e1) = io_mapping_incident ik eik eid failure (CallActivityCompletion child_variables) e in Some (([ev], []), e1))"

definition tool_propagates :: "engine \<Rightarrow> key \<Rightarrow> elementid \<Rightarrow> elementid \<Rightarrow> bool" where
  "tool_propagates e ik container_id tool_id = (case tool_kind_in e ik (Some container_id) tool_id of
     Some (ToolCallActivity _ _ propagate_all_child) \<Rightarrow> propagate_all_child | _ \<Rightarrow> True)"

definition complete_adhoc_call_activity_tool ::
  "feel \<Rightarrow> key \<Rightarrow> key \<Rightarrow> elementid \<Rightarrow> key \<Rightarrow> key \<Rightarrow> vars \<Rightarrow> engine \<Rightarrow> plan" where
  "complete_adhoc_call_activity_tool F ik child_eik eid container_key inner_key child_variables e =
     (case adhoc_state_of e ik container_key of
        None \<Rightarrow> no_plan e
      | Some a \<Rightarrow>
          (case eval_io_mappings_in F child_variables (io_outputs (adhoc_tool_io e ik (ahs_element_id a) eid)) of
             Inl failure \<Rightarrow> call_completion_incident ik child_eik eid failure child_variables e
           | Inr output_updates \<Rightarrow>
               (let seed = child_variables ++\<^sub>f output_updates
                in do {
                  propagated \<leftarrow> propagated_nonempty e ik container_key
                    (if tool_propagates e ik (ahs_element_id a) eid then child_variables else fmempty);
                  Some (((if seed = fmempty then [] else [EVariable (ScopedVariablesUpdated ik child_eik seed)]) @ propagated,
                    [SCompleteAdHocCallActivityTool ik child_eik eid container_key inner_key output_updates]), e)
                })))"

definition call_propagates :: "engine \<Rightarrow> key \<Rightarrow> elementid \<Rightarrow> bool" where
  "call_propagates e ik eid = (case element_kind_of e ik eid of
     Some (EK_CallActivity _ _ propagate_all_child) \<Rightarrow> propagate_all_child | _ \<Rightarrow> True)"

definition complete_call_activity :: "feel \<Rightarrow> key \<Rightarrow> key \<Rightarrow> elementid \<Rightarrow> vars \<Rightarrow> engine \<Rightarrow> plan" where
  "complete_call_activity F ik eik eid child_variables e =
     (if element_id_of_instance e ik eik = None then no_plan e
      else case adhoc_tool_container_of e ik eik of
        Some (container_key, inner_key) \<Rightarrow>
          complete_adhoc_call_activity_tool F ik eik eid container_key inner_key child_variables e
      | None \<Rightarrow>
          (let scope = scope_of e ik eik;
               produced = (if call_propagates e ik eid then child_variables else fmempty)
           in case eval_io_mappings_in F child_variables (engine_io_outputs e ik eid) of
                Inl failure \<Rightarrow> call_completion_incident ik eik eid failure child_variables e
              | Inr updates \<Rightarrow>
                  (if is_mi_child_scope e ik eid scope
                   then complete_mi_child F ik eik eid scope (Some (produced ++\<^sub>f updates)) e
                   else do {
                     propagated \<leftarrow> propagated_nonempty e ik scope produced;
                     mapped \<leftarrow> propagated_nonempty e ik scope updates;
                     then_every_flow (completion_events ik eik eid @ cancel_boundary_events_on e eik @ propagated @ mapped) ik eid scope e
                   })))"

end
