(* ===== verification/Cascade.thy ===== *)
theory Cascade
  imports Teardown
begin

text \<open>
  The cascade over child instances (\<open>cascade_cancel_children\<close> of \<open>engine-core/src/engine/mod.rs\<close>): it returns,
  and it ends exactly the live descendants of the instances a command ended.
\<close>

section \<open>The cascade\<close>

text \<open>The live instances below an ended one.\<close>

definition live :: "state \<Rightarrow> key \<Rightarrow> key \<Rightarrow> bool" where
  "live s p k \<longleftrightarrow> (\<exists>own st. standing s k = Some (own, Some p, st) \<and> st \<in> {PIActive, PITerminating})"

inductive orphaned :: "state \<Rightarrow> key fset \<Rightarrow> key \<Rightarrow> bool" for s E where
  child: "live s p k \<Longrightarrow> p |\<in>| E \<Longrightarrow> orphaned s E k"
| deeper: "live s p k \<Longrightarrow> orphaned s E p \<Longrightarrow> orphaned s E k"

lemma set_live_children:
  "stored_under pi_key (instances s) \<Longrightarrow> set (live_children s E) = {k. \<exists>p. live s p k \<and> p |\<in>| E}"
proof -
  assume keyed: "stored_under pi_key (instances s)"
  have "k \<in> set (live_children s E) \<longleftrightarrow> (\<exists>p. live s p k \<and> p |\<in>| E)" for k
  proof -
    have "k \<in> set (live_children s E) \<longleftrightarrow> (\<exists>k' i. fmlookup (instances s) k' = Some i \<and> pi_key i = k
        \<and> pi_state i \<in> {PIActive, PITerminating} \<and> (\<exists>p. pi_parent_process_instance_key i = Some p \<and> p |\<in>| E))"
      by (force simp: live_children_def set_sorted_list_of_fmap [symmetric] split: option.split)
    also have "\<dots> \<longleftrightarrow> (\<exists>p. live s p k \<and> p |\<in>| E)"
      using stored_underD [OF keyed] by (fastforce simp: live_def standing_def)
    finally show ?thesis .
  qed
  then show ?thesis by blast
qed

lemma orphaned_round:
  assumes children: "\<And>k. k \<in> set ks \<longleftrightarrow> (\<exists>p. live s p k \<and> p |\<in>| E)"
    and s': "standing s' = terminate_standing (set ks) s"
  shows "orphaned s E k \<longleftrightarrow> k \<in> set ks \<or> orphaned s' (E |\<union>| fset_of_list ks) k"
proof -
  have live: "live s' p k \<longleftrightarrow> live s p k \<and> k \<notin> set ks" for p k
    by (auto simp: live_def s' terminate_standing_def split: if_splits)
  show ?thesis
  proof
    assume "orphaned s E k"
    then show "k \<in> set ks \<or> orphaned s' (E |\<union>| fset_of_list ks) k"
    proof induction
      case (child p k)
      then show ?case using children by blast
    next
      case (deeper p k)
      then show ?case by (auto simp: live fset_of_list_elem intro: orphaned.intros)
    qed
  next
    assume "k \<in> set ks \<or> orphaned s' (E |\<union>| fset_of_list ks) k"
    moreover have "orphaned s E k" if "k \<in> set ks" for k using that children by (auto intro: orphaned.child)
    moreover have "orphaned s E k" if "orphaned s' (E |\<union>| fset_of_list ks) k"
      using that by induction (auto simp: live fset_of_list_elem intro: orphaned.intros calculation)
    ultimately show "orphaned s E k" by blast
  qed
qed

text \<open>Each round ends at least one live instance, so there are at most as many rounds as live instances.\<close>

definition live_instances :: "state \<Rightarrow> key set" where
  "live_instances s = {k. \<exists>p. live s p k}"

lemma finite_live: "finite (live_instances s)"
proof (rule finite_subset)
  show "live_instances s \<subseteq> fset (fmdom (instances s))"
    by (auto simp: live_instances_def live_def standing_def intro: fmdomI)
qed simp

definition cascaded :: "key fset \<Rightarrow> logged \<Rightarrow> logged \<Rightarrow> bool" where
  "cascaded E el el' \<longleftrightarrow> discards {k. orphaned (est (fst el)) E k} el el'"

lemma cascade_returns:
  assumes "all_keyed (est (fst el))"
  shows "\<exists>el'. cascade_from E el = Some el' \<and> cascaded E el el'"
  using assms
proof (induction "card (live_instances (est (fst el)))" arbitrary: E el rule: less_induct)
  case less
  let ?s = "est (fst el)" and ?ks = "live_children (est (fst el)) E"
  note ks = set_live_children [OF all_keyedD(1) [OF less.prems], of E]
  show ?case
  proof (cases "?ks = []")
    case True
    with ks have "\<not> (live ?s p k \<and> p |\<in>| E)" for p k by auto
    then have "\<not> orphaned ?s E k" for k by (auto elim: orphaned.induct)
    with less.prems True show ?thesis
      using discard_many [OF less.prems, of "[]"] by (simp add: cascade_from.simps cascaded_def)
  next
    case False
    let ?el = "fold discard_and_terminate_instance ?ks el" and ?E = "E |\<union>| fset_of_list ?ks"
    have d: "discards (set ?ks) el ?el" using less.prems by (rule discard_many)
    then have s': "standing (est (fst ?el)) = terminate_standing (set ?ks) ?s" by (simp add: discards_def)
    obtain k where "k \<in> set ?ks" using False by (cases ?ks) auto
    moreover have "live_instances (est (fst ?el)) = live_instances ?s - set ?ks"
      by (auto simp: live_instances_def live_def s' terminate_standing_def split: if_splits)
    ultimately have "card (live_instances (est (fst ?el))) < card (live_instances ?s)"
      using ks by (intro psubset_card_mono) (auto simp: finite_live live_instances_def)
    with less.hyps [of ?el ?E] d obtain el' where el': "cascade_from ?E ?el = Some el'" "cascaded ?E ?el el'"
      by (auto simp: discards_def)
    have "orphaned ?s E k \<longleftrightarrow> k \<in> set ?ks \<or> orphaned (est (fst ?el)) ?E k" for k
      by (rule orphaned_round) (simp_all add: ks s')
    then have "{k. orphaned ?s E k} = set ?ks \<union> {k. orphaned (est (fst ?el)) ?E k}" by blast
    with discards_trans [OF d] el' False show ?thesis
      by (subst cascade_from.simps) (simp add: Let_def cascaded_def)
  qed
qed

text \<open>C9: after a command ended instances, the cascade over their children returns. It terminates exactly the
  live (active or terminating) instances below an ended one, at any depth, takes everything of theirs
  out of play, and leaves no live child of an instance that the log ends.\<close>

theorem cascade_ends_live_descendants:
  assumes "all_keyed (est e)"
  shows "\<exists>e' log'. cascade_cancel_children (e, log) = Some (e', log')
    \<and> in_play (est e') = {x \<in> in_play (est e). \<not> orphaned (est e) (ended_in log) (instance_of x)}
    \<and> (\<forall>k. standing (est e') k = (if orphaned (est e) (ended_in log) k
          then map_option (\<lambda>(own, parent, _). (own, parent, PITerminated)) (standing (est e) k) else standing (est e) k))
    \<and> (\<forall>p k. \<not> (live (est e') p k \<and> p |\<in>| ended_in log'))"
proof -
  have none: "\<not> orphaned s {||} k" for s k
  proof
    assume "orphaned s {||} k"
    then show False by induction auto
  qed
  have "\<exists>el'. cascade_cancel_children (e, log) = Some el' \<and> cascaded (ended_in log) (e, log) el'"
  proof (cases "ended_in log = {||}")
    case True
    then show ?thesis
      using discard_many [of "(e, log)" "[]"] assms by (simp add: cascade_cancel_children_def cascaded_def none)
  next
    case False
    then show ?thesis using cascade_returns [of "(e, log)" "ended_in log"] assms by (simp add: cascade_cancel_children_def)
  qed
  then obtain e' log' where c: "cascade_cancel_children (e, log) = Some (e', log')" "cascaded (ended_in log) (e, log) (e', log')"
    by auto
  note d = c(2) [unfolded cascaded_def discards_def terminate_standing_def, simplified]
  have "\<not> (live (est e') p k \<and> p |\<in>| ended_in log')" for p k
  proof
    assume "live (est e') p k \<and> p |\<in>| ended_in log'"
    moreover from this have "p |\<in>| ended_in log \<or> orphaned (est e) (ended_in log) p" using d by auto
    moreover have "live (est e') p k \<longleftrightarrow> live (est e) p k \<and> \<not> orphaned (est e) (ended_in log) k"
      using d by (auto simp: live_def split: if_splits)
    ultimately show False by (auto intro: orphaned.intros)
  qed
  with c(1) d show ?thesis by (auto simp: split_beta option.map_id)
qed

definition family :: engine where
  "family = engine_of (state_new\<lparr> instances :=
     fmupd 4 (running_instance\<lparr> pi_key := 4 \<rparr>)
      (fmupd 3 (running_instance\<lparr> pi_key := 3, pi_parent_process_instance_key := Some 2 \<rparr>)
        (fmupd 2 (running_instance\<lparr> pi_key := 2, pi_parent_process_instance_key := Some 1 \<rparr>)
          (fmupd 1 (running_instance\<lparr> pi_state := PITerminated \<rparr>) fmempty))) \<rparr>) 0 10"

lemma family_standing:
  "standing (est family) 4 = Some (4, None, PIActive)" "standing (est family) 3 = Some (3, Some 2, PIActive)"
  "standing (est family) 2 = Some (2, Some 1, PIActive)"
  by (simp_all add: standing_def family_def engine_of_def running_instance_def)

theorem cascade_ends_live_descendants_witness:
  "\<exists>e' log'. cascade_cancel_children (family, [ELifecycle (ProcessInstanceTerminated 1)]) = Some (e', log')
     \<and> standing (est e') 2 = Some (2, Some 1, PITerminated) \<and> standing (est e') 3 = Some (3, Some 2, PITerminated)
     \<and> standing (est e') 4 = Some (4, None, PIActive)"
proof -
  let ?log = "[ELifecycle (ProcessInstanceTerminated 1)]"
  have "all_keyed (est family)"
    by (auto simp: all_keyed_def entity_keys_inv_def family_def engine_of_def state_new_def running_instance_def
        intro!: stored_under_upd)
  from cascade_ends_live_descendants [OF this, of ?log] obtain e' log' where
    c: "cascade_cancel_children (family, ?log) = Some (e', log')"
    and st: "\<forall>k. standing (est e') k = (if orphaned (est family) (ended_in ?log) k
        then map_option (\<lambda>(own, parent, _). (own, parent, PITerminated)) (standing (est family) k) else standing (est family) k)"
    by blast
  have "ended_in ?log = {|1|}" by (simp add: ended_in_def List.map_filter_simps terminal_instance_key_def)
  then have two: "orphaned (est family) (ended_in ?log) 2"
    by (intro orphaned.child [of _ 1]) (simp_all add: live_def family_standing)
  have "orphaned (est family) (ended_in ?log) 3"
    by (rule orphaned.deeper [OF _ two]) (simp add: live_def family_standing)
  moreover have "\<not> orphaned (est family) (ended_in ?log) 4"
  proof
    assume "orphaned (est family) (ended_in ?log) 4"
    then show False by cases (simp_all add: live_def family_standing)
  qed
  ultimately show ?thesis using two c by (intro exI [of _ e'] exI [of _ log']) (simp add: st family_standing)
qed

text \<open>The cascade looks at active and terminating children only: a suspended child of an ended instance
  stays suspended, with no parent to return to.\<close>

theorem cascade_keeps_suspended_child:
  assumes "all_keyed (est e)" "standing (est e) k = Some (own, parent, PISuspended)"
    "cascade_cancel_children (e, log) = Some (e', log')"
  shows "standing (est e') k = Some (own, parent, PISuspended)"
proof -
  have "\<not> orphaned (est e) (ended_in log) k" using assms(2) by (auto simp: live_def elim: orphaned.cases)
  moreover have "cascade_cancel_children (e, log) = (if ended_in log = {||} then Some (e, log) else cascade_from (ended_in log) (e, log))"
    by (simp add: cascade_cancel_children_def)
  moreover obtain el' where "cascade_from (ended_in log) (e, log) = Some el'" "cascaded (ended_in log) (e, log) el'"
    using cascade_returns [of "(e, log)" "ended_in log"] assms(1) by auto
  ultimately show ?thesis
    using assms(2,3) by (auto simp: cascaded_def discards_def terminate_standing_def split: if_splits)
qed

end
