(* ===== verification/Step_Loop.thy ===== *)
theory Step_Loop
  imports Completion Cascade
begin

text \<open>
  The step loop (\<open>engine-core/src/engine/mod.rs\<close>): the guard against steps on scopes that are gone, the dispatch of a
  step, the sweeps over drained sub-processes, conditional subscriptions and finished instances, the loop itself with the
  driver a debugger pauses it through, and what follows it in a command (\<open>apply_command_at\<close>) and in a debug session
  (\<open>engine/debug.rs\<close>). The loop may run for ever: a result \<open>None\<close> stands for that or for a panic.
\<close>

section \<open>Steps on what is gone\<close>

text \<open>The instance of a step, the scope it activates in, the element instance it needs and the loop or container it needs;
  \<open>None\<close> for a listener of a user task that is no longer open.\<close>

definition step_target :: "engine \<Rightarrow> step \<Rightarrow> (key \<times> key option \<times> key option \<times> key option) option" where
  "step_target e st = (case st of
     SActivate ik _ scope _ \<Rightarrow> Some (ik, Some scope, None, None)
   | SComplete ik eik _ \<Rightarrow> Some (ik, None, Some eik, None)
   | SCompleteAdHocCallActivityTool ik eik _ _ _ _ \<Rightarrow> Some (ik, None, Some eik, None)
   | SCreateJob ik eik _ \<Rightarrow> Some (ik, None, Some eik, None)
   | SReopenCatch ik eik _ \<Rightarrow> Some (ik, None, Some eik, None)
   | SRetryActivation ik eik _ \<Rightarrow> Some (ik, None, Some eik, None)
   | SAdvanceListener ik eik _ _ _ _ \<Rightarrow> Some (ik, None, Some eik, None)
   | SRetryCallActivitySpawn ik eik _ _ \<Rightarrow> Some (ik, None, Some eik, None)
   | SActivateMiChild ik _ body_key _ \<Rightarrow> Some (ik, None, None, Some body_key)
   | SCompleteMiBody ik body_key \<Rightarrow> Some (ik, None, None, Some body_key)
   | SActivateAdHocTool ik container_key _ _ \<Rightarrow> Some (ik, None, None, Some container_key)
   | SCompleteAdHoc ik container_key _ \<Rightarrow> Some (ik, None, None, Some container_key)
   | SRetryMiChildActivation ik _ body_key child_key _ \<Rightarrow> Some (ik, None, Some child_key, Some body_key)
   | SRetryMiBodyActivation ik _ body_key _ \<Rightarrow> Some (ik, None, Some body_key, None)
   | SCompleteCallActivity ik _ _ _ \<Rightarrow> Some (ik, None, None, None)
   | SAdvanceTaskListener utk _ _ \<Rightarrow> (case fmlookup (user_tasks (est e)) utk of
       Some t \<Rightarrow> if ut_state t = UTCreated then Some (ut_instance_key t, None, None, None) else None
     | None \<Rightarrow> None))"

definition owns_children :: "process_instance \<Rightarrow> key \<Rightarrow> bool" where
  "owns_children i k \<longleftrightarrow> k |\<in>| fmdom (pi_multi_instances i) \<or> k |\<in>| fmdom (pi_adhoc_instances i)"

definition step_targets_dead_scope :: "engine \<Rightarrow> step \<Rightarrow> bool" where
  "step_targets_dead_scope e st = (case step_target e st of
     None \<Rightarrow> True
   | Some (ik, scope, eik, owner) \<Rightarrow> (case fmlookup (instances (est e)) ik of
       None \<Rightarrow> True
     | Some i \<Rightarrow>
         pi_state i = PITerminated
         \<or> (case scope of None \<Rightarrow> False | Some s \<Rightarrow>
              s \<noteq> 0 \<and> (s |\<in>| torn_down_scopes e \<or> s |\<notin>| fmdom (pi_active i) \<and> \<not> owns_children i s))
         \<or> (case eik of None \<Rightarrow> False | Some k \<Rightarrow> k |\<notin>| fmdom (pi_active i))
         \<or> (case owner of None \<Rightarrow> False | Some k \<Rightarrow> \<not> owns_children i k)))"

definition revoke_dropped_join_arrival :: "engine \<Rightarrow> step \<Rightarrow> event list" where
  "revoke_dropped_join_arrival e st = (case st of
     SActivate ik eid _ (Some _) \<Rightarrow>
       (if (case fmlookup (instances (est e)) ik of None \<Rightarrow> False
            | Some i \<Rightarrow> eid |\<in>| fmdom (pi_join_flow_arrivals i) \<or> eid |\<in>| fmdom (pi_join_counts i))
           \<and> join_kind_of e ik eid \<noteq> None \<and> join_eik e ik eid = None
        then [EElement (ParallelJoinReset ik eid)] else [])
   | _ \<Rightarrow> [])"

section \<open>One step\<close>

definition process_step :: "feel \<Rightarrow> step \<Rightarrow> step list \<Rightarrow> engine \<Rightarrow> plan" where
  "process_step F st pending e =
     (if step_targets_dead_scope e st then Some ((revoke_dropped_join_arrival e st, []), e)
      else case st of
        SActivate ik eid scope via \<Rightarrow> activate F ik eid scope via pending e
      | SComplete ik eik eid \<Rightarrow> engine_complete F ik eik eid e
      | SCompleteAdHocCallActivityTool ik eik eid container_key inner_key updates \<Rightarrow>
          complete_adhoc_tool F ik eik eid container_key inner_key (Some updates) e
      | SCreateJob ik eik eid \<Rightarrow> create_job_for F ik eik eid e
      | SReopenCatch ik eik eid \<Rightarrow>
          do { vs \<leftarrow> variables_for_element e ik eik; run_activation_body F ik eid eik (scope_of e ik eik) vs e }
      | SRetryActivation ik eik eid \<Rightarrow> activate_body F ik eid eik (scope_of e ik eik) e
      | SActivateMiChild ik eid body_key index \<Rightarrow> activate_mi_child F ik eid body_key index e
      | SCompleteMiBody ik body_key \<Rightarrow> complete_multi_instance_body F ik body_key e
      | SActivateAdHocTool ik container_key eid vs \<Rightarrow> activate_adhoc_tool F ik container_key eid vs e
      | SCompleteAdHoc ik container_key cancel \<Rightarrow> complete_adhoc_container F ik container_key cancel e
      | SAdvanceListener ik eik eid ty index scope \<Rightarrow> advance_listener F ik eik eid ty index scope e
      | SAdvanceTaskListener utk ty index \<Rightarrow> advance_task_listener F utk ty index e
      | SCompleteCallActivity ik eik eid child_variables \<Rightarrow> complete_call_activity F ik eik eid child_variables e
      | SRetryMiChildActivation ik eid body_key child_key index \<Rightarrow> retry_mi_child_activation F ik eid body_key child_key index e
      | SRetryMiBodyActivation ik eid body_key scope \<Rightarrow> (case multi_instance_of e ik eid of
          Some mi \<Rightarrow> run_mi_body_activation F ik eid body_key scope mi e | None \<Rightarrow> no_plan e)
      | SRetryCallActivitySpawn ik eik eid preserved \<Rightarrow> retry_call_activity_spawn F ik eik eid preserved e)"

text \<open>A step off the queue: its events are emitted, its follow-ups join the queue.\<close>

definition take_step :: "feel \<Rightarrow> step list \<Rightarrow> logged \<Rightarrow> (step list \<times> logged) option" where
  "take_step F queue el = do {
     ((events, followups), e1) \<leftarrow> process_step F (hd queue) (tl queue) (fst el);
     Some (tl queue @ followups, fold emit events (e1, snd el))
   }"

section \<open>Drained sub-processes\<close>

definition touched :: "event list \<Rightarrow> key fset" where
  "touched log = fset_of_list (List.map_filter event_instance_key log)"

definition is_drained :: "engine \<Rightarrow> process_definition \<Rightarrow> process_instance \<Rightarrow> key \<times> elementid \<Rightarrow> bool" where
  "is_drained e p i x = (case x of (eik, eid) \<Rightarrow>
     (case map_option e_kind (pd_element p eid) of Some (EK_SubProcess _) \<Rightarrow> True | _ \<Rightarrow> False)
     \<and> eik |\<notin>| fmran (pi_scopes i) \<and> active_job_on e eik = None)"

definition drained_in :: "engine \<Rightarrow> key \<Rightarrow> (key \<times> key \<times> elementid) list" where
  "drained_in e ik = (case fmlookup (instances (est e)) ik of
     None \<Rightarrow> []
   | Some i \<Rightarrow> (if pi_state i \<noteq> PIActive then []
       else case definition_for (est e) i of
         None \<Rightarrow> []
       | Some d \<Rightarrow> map (Pair (pi_key i)) (filter (is_drained e (dp_definition d) i) (sorted_list_of_fmap (pi_active i)))))"

definition drained :: "logged \<Rightarrow> (key \<times> key \<times> elementid) list" where
  "drained el = sort (concat (map (drained_in (fst el)) (sorted_list_of_fset (touched (snd el)))))"

definition disarm_boundaries :: "key \<Rightarrow> logged \<Rightarrow> logged" where
  "disarm_boundaries eik el =
     emit_all (\<lambda>e. cancel_boundary_conditional_subscriptions_on e eik)
       (emit_all (\<lambda>e. cancel_boundary_signal_subscriptions_on e eik)
         (emit_all (\<lambda>e. cancel_boundary_message_subscriptions_on e eik)
           (emit_all (\<lambda>e. cancel_boundary_timers_on e eik) el)))"

text \<open>A sub-process that is a child of a loop or a tool completes through its own step.\<close>

definition completes_by_step :: "engine \<Rightarrow> key \<Rightarrow> key \<Rightarrow> elementid \<Rightarrow> bool" where
  "completes_by_step e ik eik eid \<longleftrightarrow>
     (case mi_state_of e ik (scope_of e ik eik) of None \<Rightarrow> False | Some mi \<Rightarrow> mis_element_id mi = eid)
     \<or> is_active_tool e ik (scope_of e ik (scope_of e ik eik)) eik"

definition drain_outputs :: "feel \<Rightarrow> engine \<Rightarrow> key \<Rightarrow> key \<Rightarrow> elementid \<Rightarrow> (string + vars) option" where
  "drain_outputs F e ik eik eid =
     (let outputs = engine_io_outputs e ik eid
      in if outputs = [] then Some (Inr fmempty)
         else map_option (\<lambda>visible. eval_io_mappings_in F visible outputs) (variables_for_element e ik eik))"

definition emit_propagated :: "key \<Rightarrow> key \<Rightarrow> vars \<Rightarrow> logged \<Rightarrow> logged option" where
  "emit_propagated ik scope updates el = map_option (\<lambda>evs. fold emit evs el) (propagated_nonempty (fst el) ik scope updates)"

definition drain_scope :: "feel \<Rightarrow> key \<Rightarrow> key \<Rightarrow> elementid \<Rightarrow> key \<Rightarrow> vars \<Rightarrow> logged \<Rightarrow> (step list \<times> logged) option" where
  "drain_scope F ik eik eid scope updates el =
     (if listeners_of (fst el) ik eid ListenerEnd \<noteq> []
      then do {
        visible \<leftarrow> variables_for_element (fst el) ik eik;
        (job, e1) \<leftarrow> begin_end_listener_chain F ik eik eid scope (visible ++\<^sub>f updates) (fst el);
        el1 \<leftarrow> emit_propagated ik scope updates (disarm_boundaries eik (e1, snd el));
        Some ([], emit job el1)
      }
      else do {
        el1 \<leftarrow> emit_propagated ik scope updates (disarm_boundaries eik (emit (EElement (ElementCompleted ik eik eid)) el));
        flows \<leftarrow> take_all_flows (fst el1) ik eid scope;
        Some (map snd flows, fold emit (concat (map fst flows)) el1)
      })"

definition drain_one :: "feel \<Rightarrow> key \<times> key \<times> elementid \<Rightarrow> logged \<Rightarrow> (step list \<times> logged) option" where
  "drain_one F x el = (case x of (ik, eik, eid) \<Rightarrow>
     (if completes_by_step (fst el) ik eik eid then Some ([SComplete ik eik eid], disarm_boundaries eik el)
      else do {
        result \<leftarrow> drain_outputs F (fst el) ik eik eid;
        case result of
          Inl failure \<Rightarrow>
            (let (ev, e1) = io_mapping_incident ik eik eid failure RedriveCompletion (fst el) in Some ([], emit ev (e1, snd el)))
        | Inr updates \<Rightarrow>
            drain_scope F ik eik eid (scope_of (fst el) ik eik) updates (emit (EElement (ElementCompleting ik eik eid)) el)
      }))"

fun drain_all :: "feel \<Rightarrow> (key \<times> key \<times> elementid) list \<Rightarrow> logged \<Rightarrow> (step list \<times> logged) option" where
  "drain_all F [] el = Some ([], el)"
| "drain_all F (x # xs) el = do {
     (steps, el1) \<leftarrow> drain_one F x el;
     (steps', el2) \<leftarrow> drain_all F xs el1;
     Some (steps @ steps', el2)
   }"

definition complete_drained_subprocesses :: "feel \<Rightarrow> logged \<Rightarrow> (step list \<times> logged) option" where
  "complete_drained_subprocesses F el = drain_all F (drained el) el"

section \<open>Conditional subscriptions\<close>

text \<open>What a triggered subscription does to the token it rests on, for conditions, messages and signals alike.\<close>

definition release_token :: "message_subscription_kind \<Rightarrow> key \<Rightarrow> key \<Rightarrow> elementid \<Rightarrow> step list \<times> logged \<Rightarrow> (step list \<times> logged) option" where
  "release_token kind ik eik eid ql = (case ql of (queue, el) \<Rightarrow> (case kind of
     SubIntermediateCatch \<Rightarrow> Some (queue @ [SComplete ik eik eid], el)
   | SubInterruptingBoundary b \<Rightarrow>
       map_option (\<lambda>el1. (queue @ [SActivate ik b (scope_of (fst el) ik eik) None], el1)) (interrupt_activity_via_boundary ik eik eid el)
   | SubNonInterruptingBoundary b \<Rightarrow> Some (queue @ [SActivate ik b (scope_of (fst el) ik eik) None], el)))"

definition changed_names :: "event \<Rightarrow> key \<Rightarrow> string fset" where
  "changed_names ev ik = (case ev of
     EVariable (VariablesUpdated k vs) \<Rightarrow> if k = ik then fmdom vs else {||}
   | EVariable (ProcessInstanceCreated k _ vs _ _ _ _ _ _ _) \<Rightarrow> if k = ik then fmdom vs else {||}
   | _ \<Rightarrow> {||})"

definition opens_subscription :: "event \<Rightarrow> key \<Rightarrow> bool" where
  "opens_subscription ev k = (case ev of ESignal (ConditionalSubscriptionCreated sk _ _ _ _ _ _) \<Rightarrow> sk = k | _ \<Rightarrow> False)"

definition condition_candidates :: "event list \<Rightarrow> engine \<Rightarrow> key list" where
  "condition_candidates recent e = sort (map cd_key (filter
     (\<lambda>s. cd_state s = SubOpen
        \<and> (list_ex (\<lambda>ev. opens_subscription ev (cd_key s)) recent
           \<or> list_ex (\<lambda>v. list_ex (\<lambda>ev. v |\<in>| changed_names ev (cd_instance_key s)) recent) (cd_referenced_vars s)))
     (map snd (sorted_list_of_fmap (conditional_subscriptions (est e))))))"

definition trigger_condition :: "feel \<Rightarrow> key \<Rightarrow> step list \<times> logged \<Rightarrow> (step list \<times> logged) option" where
  "trigger_condition F k ql = (case fmlookup (conditional_subscriptions (est (fst (snd ql)))) k of
     None \<Rightarrow> Some ql
   | Some s \<Rightarrow>
       (if cd_state s \<noteq> SubOpen \<or> \<not> holds F (cd_condition s) (engine_variables (fst (snd ql)) (cd_instance_key s)) then Some ql
        else release_token (cd_kind s) (cd_instance_key s) (cd_element_instance_key s) (cd_element_id s)
          (fst ql, emit (ESignal (ConditionalTriggered k (cd_instance_key s) (cd_element_instance_key s) (cd_element_id s))) (snd ql))))"

fun trigger_conditions :: "feel \<Rightarrow> key list \<Rightarrow> step list \<times> logged \<Rightarrow> (step list \<times> logged) option" where
  "trigger_conditions F [] ql = Some ql"
| "trigger_conditions F (k # ks) ql = Option.bind (trigger_condition F k ql) (trigger_conditions F ks)"

definition reevaluate_conditionals :: "feel \<Rightarrow> step list \<Rightarrow> nat \<Rightarrow> logged \<Rightarrow> (step list \<times> nat \<times> logged) option" where
  "reevaluate_conditionals F queue cursor el =
     map_option (\<lambda>(q, el1). (q, length (snd el), el1))
       (trigger_conditions F (condition_candidates (drop cursor (snd el)) (fst el)) (queue, el))"

section \<open>Finished instances\<close>

definition is_finished :: "engine \<Rightarrow> key \<Rightarrow> bool" where
  "is_finished e ik = (case fmlookup (instances (est e)) ik of
     None \<Rightarrow> False | Some i \<Rightarrow> pi_state i = PIActive \<and> pi_active i = fmempty)"

fun finish_all :: "key list \<Rightarrow> logged \<Rightarrow> step list \<times> logged" where
  "finish_all [] el = ([], el)"
| "finish_all (ik # iks) el =
     (let (steps, el1) = finish_all iks (emit (ELifecycle (ProcessInstanceCompleted ik)) el)
      in ((case call_activity_completion_step (fst el) ik of None \<Rightarrow> [] | Some s \<Rightarrow> [s]) @ steps, el1))"

definition complete_finished_instances :: "logged \<Rightarrow> step list \<times> logged" where
  "complete_finished_instances el = finish_all (filter (is_finished (fst el)) (sorted_list_of_fset (touched (snd el)))) el"

section \<open>The loop\<close>

text \<open>A driver answers whether to pause, given the events since it was last asked. The result of a run that pauses has the
  queue and the cursor it can be resumed with.\<close>

type_synonym driver = "event list \<Rightarrow> bool"

definition run_to_completion :: driver where
  "run_to_completion evs = False"

definition pauses :: "driver \<Rightarrow> logged \<Rightarrow> logged \<Rightarrow> bool" where
  "pauses drv before after \<longleftrightarrow>
     length (snd before) < length (snd after) \<and> drv (drop (length (snd before)) (snd after))"

definition sweep :: "feel \<Rightarrow> nat \<Rightarrow> logged \<Rightarrow> (step list \<times> nat \<times> logged) option" where
  "sweep F cursor el = do {
     (steps, el1) \<leftarrow> complete_drained_subprocesses F el;
     reevaluate_conditionals F steps cursor el1
   }"

partial_function (option) run_with ::
  "feel \<Rightarrow> driver \<Rightarrow> step list \<Rightarrow> nat \<Rightarrow> logged \<Rightarrow> (logged \<times> (step list \<times> nat) option) option" where
  "run_with F drv queue cursor el =
     (if queue \<noteq> []
      then Option.bind (take_step F queue el) (\<lambda>(q, el1).
        if drv (drop (length (snd el)) (snd el1)) then Some (el1, Some (q, cursor)) else run_with F drv q cursor el1)
      else Option.bind (sweep F cursor el) (\<lambda>(q, c, el1).
        if pauses drv el el1 then Some (el1, Some (q, c))
        else if q \<noteq> [] then run_with F drv q c el1
        else (case complete_finished_instances el1 of (steps, el2) \<Rightarrow>
          if pauses drv el1 el2 then Some (el2, Some ([], c))
          else if steps \<noteq> [] then run_with F drv steps c el2
          else Some (el2, None))))"

definition run :: "feel \<Rightarrow> step list \<Rightarrow> logged \<Rightarrow> logged option" where
  "run F queue el = map_option fst (run_with F run_to_completion queue 0 el)"

text \<open>What \<open>apply_command_at\<close> does with a planned command.\<close>

definition run_planned :: "feel \<Rightarrow> event list \<times> step list \<Rightarrow> engine \<Rightarrow> logged option" where
  "run_planned F planned e = do {
     el1 \<leftarrow> run F (snd planned) (e, fst planned);
     el2 \<leftarrow> cascade_cancel_children el1;
     Some (finish_command (snd el2) (fst el2), snd el2)
   }"

section \<open>Debug sessions\<close>

datatype break_condition = BreakElementActivated elementid | BreakElementCompleted elementid | BreakProcessCompleted | BreakEveryStep

definition break_matches :: "break_condition \<Rightarrow> event list \<Rightarrow> bool" where
  "break_matches b evs = (case b of
     BreakEveryStep \<Rightarrow> True
   | BreakElementActivated i \<Rightarrow> list_ex (\<lambda>ev. case ev of EElement (ElementActivated _ _ eid _) \<Rightarrow> eid = i | _ \<Rightarrow> False) evs
   | BreakElementCompleted i \<Rightarrow> list_ex (\<lambda>ev. case ev of EElement (ElementCompleted _ _ eid) \<Rightarrow> eid = i | _ \<Rightarrow> False) evs
   | BreakProcessCompleted \<Rightarrow> list_ex (\<lambda>ev. case ev of ELifecycle (ProcessInstanceCompleted _) \<Rightarrow> True | _ \<Rightarrow> False) evs)"

definition single_step :: driver where
  "single_step evs = True"

definition breakpointing :: "break_condition list \<Rightarrow> driver" where
  "breakpointing bs evs = list_ex (\<lambda>b. break_matches b evs) bs"

record debug_session =
  ds_log :: "event list"
  ds_paused :: "(step list \<times> nat) option"
  ds_breakpoints :: "break_condition list"

definition settle :: "logged \<times> (step list \<times> nat) option \<Rightarrow> debug_session \<Rightarrow> engine \<times> debug_session" where
  "settle r s = (case r of
     (el, Some p) \<Rightarrow> (fst el, s\<lparr> ds_log := snd el, ds_paused := Some p \<rparr>)
   | (el, None) \<Rightarrow> (finish_command (snd el) (fst el), s\<lparr> ds_log := snd el, ds_paused := None \<rparr>))"

definition debug_drive :: "feel \<Rightarrow> driver \<Rightarrow> debug_session \<Rightarrow> engine \<Rightarrow> (engine \<times> debug_session) option" where
  "debug_drive F drv s e = (case ds_paused s of
     None \<Rightarrow> Some (e, s)
   | Some (queue, cursor) \<Rightarrow> map_option (\<lambda>r. settle r s) (run_with F drv queue cursor (e, ds_log s)))"

definition debug_resume :: "feel \<Rightarrow> debug_session \<Rightarrow> engine \<Rightarrow> (engine \<times> debug_session) option" where
  "debug_resume F s e = debug_drive F (breakpointing (ds_breakpoints s)) s e"

definition debug_step :: "feel \<Rightarrow> debug_session \<Rightarrow> engine \<Rightarrow> (engine \<times> debug_session) option" where
  "debug_step F s e = debug_drive F single_step s e"

text \<open>What \<open>debug_command_at\<close> does with a planned command.\<close>

definition debug_planned :: "feel \<Rightarrow> break_condition list \<Rightarrow> event list \<times> step list \<Rightarrow> engine \<Rightarrow> (engine \<times> debug_session) option" where
  "debug_planned F bs planned e =
     debug_resume F \<lparr> ds_log = fst planned, ds_paused = Some (snd planned, 0), ds_breakpoints = bs \<rparr> e"

end
