(* ===== verification/Deployments.thy ===== *)
theory Deployments
  imports Step_Loop
begin

text \<open>
  Planning of commands that deploy resources and start instances (\<open>engine-core/src/engine/mod.rs\<close>). A command is
  rejected with an error before it changes anything, or it emits its first events and leaves the steps for the loop;
  \<open>None\<close> stands for a walk of the source that does not end or a panic. Versions count the deployments of an id.
\<close>

type_synonym planned = "(engine_error + step list \<times> logged) option"

definition rejected :: "engine_error \<Rightarrow> planned" where
  "rejected err = Some (Inl err)"

definition accepted :: "step list \<Rightarrow> logged \<Rightarrow> planned" where
  "accepted steps el = Some (Inr (steps, el))"

text \<open>Minting while a log is written.\<close>

definition mint :: "logged \<Rightarrow> key \<times> logged" where
  "mint el = (let (k, e1) = mint_key (fst el) in (k, (e1, snd el)))"

section \<open>Deploying processes\<close>

definition typed_starts :: "process_definition \<Rightarrow> element list" where
  "typed_starts p = sort_key e_id (filter (\<lambda>el. e_parent el = None
     \<and> (case e_kind el of EK_MessageStartEvent _ \<Rightarrow> True | EK_TimerStartEvent _ _ \<Rightarrow> True | _ \<Rightarrow> False)) (elements_list p))"

definition deploy_start :: "feel \<Rightarrow> key \<Rightarrow> string \<Rightarrow> element \<Rightarrow> logged \<Rightarrow> logged" where
  "deploy_start F pdk process_id start el = (case e_kind start of
     EK_MessageStartEvent message_name \<Rightarrow>
       emit (EMessage (MessageStartSubscriptionCreated pdk process_id (resolve_event_name F fmempty message_name) (e_id start))) el
   | EK_TimerStartEvent interval_millis repeating \<Rightarrow>
       (let (timer_key, el1) = mint el;
            (due_at, interval) = resolve_timer F fmempty (e_timer start) (now (fst el1)) interval_millis
        in emit (ETimer (ProcessStartTimerArmed timer_key pdk process_id (e_id start) due_at interval repeating)) el1)
   | _ \<Rightarrow> el)"

definition next_version :: "engine \<Rightarrow> string \<Rightarrow> int" where
  "next_version e process_id = (case fmlookup (processes (est e)) process_id of None \<Rightarrow> 1 | Some p \<Rightarrow> dp_version p + 1)"

definition deploy_process :: "feel \<Rightarrow> key \<Rightarrow> process_definition \<Rightarrow> logged \<Rightarrow> logged" where
  "deploy_process F deployment_key p el =
     (if map_option dp_definition (fmlookup (processes (est (fst el))) (pd_id p)) = Some p then el
      else
        (let version = next_version (fst el) (pd_id p);
             (pdk, el1) = mint el
         in fold (deploy_start F pdk (pd_id p)) (typed_starts p) (emit (EProcess (ProcessDeployed deployment_key pdk version p)) el1)))"

definition open_deployment :: "logged \<Rightarrow> key \<times> logged" where
  "open_deployment el = (let (k, el1) = mint el in (k, emit (EProcess (DeploymentCreated k)) el1))"

definition deploy :: "feel \<Rightarrow> process_definition list \<Rightarrow> engine \<Rightarrow> planned" where
  "deploy F ps e =
     (let processes = map normalize_legacy_agent_tasks ps
      in case List.find (\<lambda>p. pd_start_event p |\<notin>| fmdom (pd_elements p)) processes of
           Some p \<Rightarrow> rejected (NoStartEvent (pd_id p))
         | None \<Rightarrow>
             (let (deployment_key, el) = open_deployment (e, [])
              in accepted [] (fold (deploy_process F deployment_key) processes el)))"

section \<open>Deploying decisions, forms and other resources\<close>

definition deploy_decision :: "key \<Rightarrow> key \<Rightarrow> decision \<Rightarrow> logged \<Rightarrow> logged" where
  "deploy_decision deployment_key drk d el =
     (let version = (case fmlookup (decisions (est (fst el))) (dc_id d) of None \<Rightarrow> 1 | Some x \<Rightarrow> dd_version x + 1);
          (decision_key, el1) = mint el
      in emit (EResource (DecisionDeployed deployment_key drk decision_key (dc_id d) (dc_name d) version)) el1)"

definition deploy_graph :: "key \<Rightarrow> decision_requirements_graph \<Rightarrow> logged \<Rightarrow> logged" where
  "deploy_graph deployment_key drg el = (case fmlookup (decision_requirements (est (fst el))) (drg_id drg) of
     Some existing \<Rightarrow>
       (if dg_drg existing = drg then el
        else (let (drk, el1) = mint el
              in fold (deploy_decision deployment_key drk) (drg_decisions drg)
                   (emit (EResource (DecisionRequirementsDeployed deployment_key drk (dg_version existing + 1) drg)) el1)))
   | None \<Rightarrow>
       (let (drk, el1) = mint el
        in fold (deploy_decision deployment_key drk) (drg_decisions drg)
             (emit (EResource (DecisionRequirementsDeployed deployment_key drk 1 drg)) el1)))"

definition deploy_decisions :: "decision_requirements_graph list \<Rightarrow> engine \<Rightarrow> planned" where
  "deploy_decisions graphs e =
     (let (deployment_key, el) = open_deployment (e, []) in accepted [] (fold (deploy_graph deployment_key) graphs el))"

record form_resource =
  fr_id :: string
  fr_resource_name :: string
  fr_schema :: string

definition deploy_form :: "key \<Rightarrow> form_resource \<Rightarrow> logged \<Rightarrow> logged" where
  "deploy_form deployment_key f el =
     (let existing = fmlookup (forms (est (fst el))) (fr_id f)
      in if map_option df_schema existing = Some (fr_schema f) then el
         else
           (let (form_key, el1) = mint el;
                version = (case existing of None \<Rightarrow> 1 | Some x \<Rightarrow> df_version x + 1)
            in emit (EResource (FormDeployed deployment_key form_key version (fr_id f) (fr_resource_name f) (fr_schema f))) el1))"

definition deploy_forms :: "form_resource list \<Rightarrow> engine \<Rightarrow> planned" where
  "deploy_forms fs e =
     (let (deployment_key, el) = open_deployment (e, []) in accepted [] (fold (deploy_form deployment_key) fs el))"

record generic_resource =
  gr_resource_id :: string
  gr_resource_name :: string
  gr_content :: string

definition deploy_generic_resource :: "key \<Rightarrow> generic_resource \<Rightarrow> logged \<Rightarrow> logged" where
  "deploy_generic_resource deployment_key r el =
     (let existing = fmlookup (resources (est (fst el))) (gr_resource_id r)
      in if (case existing of None \<Rightarrow> False
             | Some x \<Rightarrow> dres_resource_name x = gr_resource_name r \<and> dres_content x = gr_content r) then el
         else
           (let (resource_key, el1) = mint el;
                version = (case existing of None \<Rightarrow> 1 | Some x \<Rightarrow> dres_version x + 1)
            in emit (EResource (GenericResourceDeployed deployment_key resource_key version (gr_resource_id r)
                 (gr_resource_name r) (gr_content r))) el1))"

definition deploy_generic_resources :: "generic_resource list \<Rightarrow> engine \<Rightarrow> planned" where
  "deploy_generic_resources rs e =
     (let (deployment_key, el) = open_deployment (e, []) in accepted [] (fold (deploy_generic_resource deployment_key) rs el))"

definition delete_decision_instance :: "key \<Rightarrow> key \<Rightarrow> engine \<Rightarrow> planned" where
  "delete_decision_instance ik decision_evaluation_key e =
     accepted [] (emit (EResource (DecisionInstanceDeleted ik decision_evaluation_key)) (e, []))"

section \<open>Evaluating a deployed decision\<close>

record decision_evaluation =
  de_decision_key :: key
  de_version :: int
  de_decision_id :: string
  de_decision_name :: string
  de_decision_requirements_key :: key
  de_decision_requirements_id :: string
  de_result :: decision_evaluation_result

definition evaluate_deployed_decision ::
  "feel \<Rightarrow> engine \<Rightarrow> string option \<Rightarrow> key option \<Rightarrow> vars \<Rightarrow> decision_evaluation option option" where
  "evaluate_deployed_decision F e by_id by_key vs =
     (case (case (by_id, by_key) of
          (Some i, _) \<Rightarrow> fmlookup (decisions (est e)) i
        | (None, Some k) \<Rightarrow> decision_by_key (est e) k
        | (None, None) \<Rightarrow> None) of
        None \<Rightarrow> Some None
      | Some d \<Rightarrow> map_option (\<lambda>r. Some \<lparr> de_decision_key = dd_key d, de_version = dd_version d, de_decision_id = dd_decision_id d,
            de_decision_name = dd_decision_name d, de_decision_requirements_key = dd_decision_requirements_key d,
            de_decision_requirements_id = drg_id (dd_drg d), de_result = r \<rparr>)
          (dmn_evaluate F (dd_drg d) (dd_decision_id d) vs))"

section \<open>Starting instances\<close>

definition start_instance ::
  "string \<Rightarrow> elementid \<Rightarrow> vars \<Rightarrow> string list \<Rightarrow> string option \<Rightarrow> key \<Rightarrow> step list \<times> logged \<Rightarrow> step list \<times> logged" where
  "start_instance process_id start_event vs tags business_id pdk ql =
     (let (ik, el) = mint (snd ql);
          (k, version) = (case or_else (fmlookup (process_versions (est (fst el))) pdk) (fmlookup (processes (est (fst el))) process_id) of
              None \<Rightarrow> (pdk, 0) | Some d \<Rightarrow> (dp_key d, dp_version d))
      in (fst ql @ [SActivate ik start_event 0 None],
          emit (EVariable (ProcessInstanceCreated ik process_id vs (now (fst el)) tags business_id k version None None)) el))"

text \<open>A start from an event is spread over the partitions; one for another partition is only recorded for dispatch.\<close>

definition start_or_dispatch_instance ::
  "string \<Rightarrow> elementid \<Rightarrow> vars \<Rightarrow> string list \<Rightarrow> string option \<Rightarrow> step list \<times> logged \<Rightarrow> step list \<times> logged" where
  "start_or_dispatch_instance process_id start_event vs tags business_id ql =
     (let e = fst (snd ql)
      in if num_partitions e \<le> 1 then start_instance process_id start_event vs tags business_id 0 ql
         else
           (let target = start_dispatch_rr e mod num_partitions e;
                el = (e\<lparr> start_dispatch_rr := start_dispatch_rr e + 1 \<rparr>, snd (snd ql))
            in if target = partition_id e then start_instance process_id start_event vs tags business_id 0 (fst ql, el)
               else (fst ql, emit (EAgent (StartInstanceDispatched process_id start_event vs tags business_id target)) el)))"

definition create_instance ::
  "string \<Rightarrow> vars \<Rightarrow> string list \<Rightarrow> string option \<Rightarrow> key option \<Rightarrow> int option \<Rightarrow> engine \<Rightarrow> planned" where
  "create_instance process_id vs tags business_id pdk version e =
     (case (case (filter_option (\<lambda>k. k \<noteq> 0) pdk, filter_option (\<lambda>v. 0 < v) version) of
          (Some k, _) \<Rightarrow> process_by_key (est e) k
        | (None, Some v) \<Rightarrow> process_version (est e) process_id v
        | (None, None) \<Rightarrow> fmlookup (processes (est e)) process_id) of
        None \<Rightarrow> rejected (ProcessNotFound process_id)
      | Some d \<Rightarrow> Some (Inr (start_instance (pd_id (dp_definition d)) (pd_start_event (dp_definition d)) vs tags business_id (dp_key d) ([], (e, [])))))"

definition dispatch_start_instance :: "string \<Rightarrow> elementid \<Rightarrow> vars \<Rightarrow> string list \<Rightarrow> string option \<Rightarrow> engine \<Rightarrow> planned" where
  "dispatch_start_instance process_id start_event vs tags business_id e =
     Some (Inr (start_instance process_id start_event vs tags business_id 0 ([], (e, []))))"

end
