(* ===== verification/Task_Commands.thy ===== *)
theory Task_Commands
  imports Deployments
begin

text \<open>
  Planning of the commands of workers and of people (\<open>engine-core/src/engine/mod.rs\<close>): completing a job with its
  listener and ad-hoc results, throwing a BPMN error from a job, assigning, updating and completing user tasks. Every
  guard is evaluated before the first event.
\<close>

section \<open>Completing a job\<close>

definition no_listener_result :: task_listener_job_result where
  "no_listener_result = \<lparr> tjr_denied = False, tjr_denied_reason = None, tjr_corrections = no_corrections \<rparr>"

definition no_adhoc_result :: adhoc_job_result where
  "no_adhoc_result = \<lparr> ajr_activate_elements = [], ajr_completion_condition_fulfilled = False, ajr_cancel_remaining_instances = False \<rparr>"

definition or_default :: "'a \<Rightarrow> 'a option \<Rightarrow> 'a" where
  "or_default d x = (case x of None \<Rightarrow> d | Some y \<Rightarrow> y)"

definition task_has_assignee :: "engine \<Rightarrow> key \<Rightarrow> bool" where
  "task_has_assignee e utk = (case fmlookup (user_tasks (est e)) utk of
     None \<Rightarrow> False
   | Some t \<Rightarrow> ut_assignee t \<noteq> None \<or> (case ut_pending t of None \<Rightarrow> False | Some p \<Rightarrow> put_assignee p \<noteq> None))"

definition listener_result_error ::
  "engine \<Rightarrow> key \<Rightarrow> task_listener_event_type \<Rightarrow> key \<Rightarrow> vars \<Rightarrow> task_listener_job_result \<Rightarrow> engine_error option" where
  "listener_result_error e jk ty utk vs r =
     (if vs \<noteq> fmempty then Some (TaskListenerJobWithVariables jk)
      else if tjr_denied r \<and> \<not> corrections_is_empty (tjr_corrections r) then Some (TaskListenerDenyWithCorrections jk)
      else if tjr_denied r \<and> \<not> task_event_supports_deny ty then Some (TaskListenerDenyNotSupported jk)
      else if ty = Creating \<and> uc_assignee (tjr_corrections r) \<noteq> None \<and> task_has_assignee e utk
        then Some (TaskListenerAssigneeCorrectionOnCreating utk)
      else None)"

definition validate_adhoc_activation_targets ::
  "adhoc_subprocess_def \<Rightarrow> key \<Rightarrow> adhoc_activate_element list \<Rightarrow> engine_error option" where
  "validate_adhoc_activation_targets d ik instrs = map_option (\<lambda>i. AdHocUnknownElement ik (aae_element_id i))
     (List.find (\<lambda>i. \<not> list_ex (\<lambda>t. tool_element_id t = aae_element_id i) (asd_tools d)) instrs)"

definition adhoc_result_error :: "engine \<Rightarrow> key \<Rightarrow> job \<Rightarrow> adhoc_job_result option \<Rightarrow> engine_error option" where
  "adhoc_result_error e jk j result =
     (case (result, adhoc_def_of e (jb_instance_key j) (jb_element_id j)) of
        (Some r, Some d) \<Rightarrow>
          (case validate_adhoc_activation_targets d (jb_instance_key j) (ajr_activate_elements r) of
             Some err \<Rightarrow> Some err
           | None \<Rightarrow> if ajr_completion_condition_fulfilled r \<and> ajr_activate_elements r \<noteq> []
               then Some (AdHocActivateWithCompletion jk) else None)
      | _ \<Rightarrow> None)"

definition active_tools :: "engine \<Rightarrow> key \<Rightarrow> key \<Rightarrow> nat" where
  "active_tools e ik container_key =
     (case Option.bind (fmlookup (instances (est e)) ik) (\<lambda>i. fmlookup (pi_adhoc_instances i) container_key) of
        None \<Rightarrow> 0 | Some a \<Rightarrow> fcard (ahs_active a))"

definition enqueue_adhoc_turn :: "engine \<Rightarrow> key \<Rightarrow> key \<Rightarrow> adhoc_activate_element list \<Rightarrow> bool \<Rightarrow> step list" where
  "enqueue_adhoc_turn e ik container_key instrs cancel_remaining =
     (if cancel_remaining then [SCompleteAdHoc ik container_key True]
      else map (\<lambda>i. SActivateAdHocTool ik container_key (aae_element_id i) (aae_variables i)) instrs
        @ (if active_tools e ik container_key + length instrs = 0 then [SCompleteAdHoc ik container_key False] else []))"

definition resolve_listener_job ::
  "key \<Rightarrow> key \<Rightarrow> task_listener_event_type \<Rightarrow> nat \<Rightarrow> task_listener_job_result \<Rightarrow> logged \<Rightarrow> step list \<times> logged" where
  "resolve_listener_job utk ik ty index r el =
     (if tjr_denied r
      then ([], emit (EUserTask (UserTaskTransitionResolved utk ik (Some (or_default [] (tjr_denied_reason r))))) el)
      else ([SAdvanceTaskListener utk ty index],
            if corrections_is_empty (tjr_corrections r) then el
            else emit (EUserTask (UserTaskCorrectionsApplied utk ik (tjr_corrections r))) el))"

definition completed_adhoc_turn :: "engine \<Rightarrow> job \<Rightarrow> adhoc_job_result \<Rightarrow> step list" where
  "completed_adhoc_turn e j r =
     (if ajr_completion_condition_fulfilled r then [SCompleteAdHoc (jb_instance_key j) (jb_element_instance_key j) True]
      else enqueue_adhoc_turn e (jb_instance_key j) (jb_element_instance_key j) (ajr_activate_elements r)
             (ajr_cancel_remaining_instances r))"

definition after_job :: "job \<Rightarrow> adhoc_job_result option \<Rightarrow> task_listener_job_result \<Rightarrow> logged \<Rightarrow> step list \<times> logged" where
  "after_job j adhoc_result r el =
     (let ik = jb_instance_key j; eik = jb_element_instance_key j; eid = jb_element_id j
      in case jb_kind j of
           TaskListener ty index utk \<Rightarrow> resolve_listener_job utk ik ty index r el
         | ExecutionListener ty index scope \<Rightarrow> ([SAdvanceListener ik eik eid ty index scope], el)
         | BpmnElement \<Rightarrow>
             (if adhoc_def_of (fst el) ik eid \<noteq> None
              then (completed_adhoc_turn (fst el) j (or_default no_adhoc_result adhoc_result), el)
              else ([SComplete ik eik eid], el)))"

definition complete_job ::
  "key \<Rightarrow> string option \<Rightarrow> vars \<Rightarrow> adhoc_job_result option \<Rightarrow> task_listener_job_result option \<Rightarrow> engine \<Rightarrow> planned" where
  "complete_job jk lease_token vs adhoc_result listener_result e = (case worker_command_guard e jk lease_token of
     Inl err \<Rightarrow> rejected err
   | Inr j \<Rightarrow>
       (let r = or_default no_listener_result listener_result;
            ik = jb_instance_key j
        in case (case jb_kind j of TaskListener ty _ utk \<Rightarrow> listener_result_error e jk ty utk vs r | _ \<Rightarrow> None) of
             Some err \<Rightarrow> rejected err
           | None \<Rightarrow>
               (case adhoc_result_error e jk j adhoc_result of
                  Some err \<Rightarrow> rejected err
                | None \<Rightarrow> do {
                    let el = emit (EJob (JobCompleted jk ik (jb_created_at j) (jb_job_type j) (attribution_worker j))) (e, []);
                    el1 \<leftarrow> emit_propagated ik (scope_of (fst el) ik (jb_element_instance_key j)) vs el;
                    Some (Inr (after_job j adhoc_result r el1))
                  })))"

section \<open>Throwing an error\<close>

text \<open>The guards of the source, in its order: here the lease is checked last.\<close>

definition throw_guard :: "engine \<Rightarrow> key \<Rightarrow> string option \<Rightarrow> engine_error + job" where
  "throw_guard e jk lease_token = (case fmlookup (jobs (est e)) jk of
     None \<Rightarrow> Inl (JobNotFound jk)
   | Some j \<Rightarrow>
       (if jb_state j \<in> {JCompleted, JFailed, JErrored, JCanceled} then Inl (JobNotActive jk)
        else if \<not> lenient_completion e \<and> \<not> jb_activated j then Inl (JobNotActivated jk)
        else case validate_job_lease j lease_token True of Some err \<Rightarrow> Inl err | None \<Rightarrow> Inr j))"

definition unhandled_error :: "string \<Rightarrow> string \<Rightarrow> string" where
  "unhandled_error code message =
     ''unhandled BPMN error '' @ quoted code @ (if message = [] then [] else '': '' @ message)"

definition caught_error :: "key \<Rightarrow> key \<Rightarrow> elementid \<Rightarrow> key \<Rightarrow> elementid \<Rightarrow> vars \<Rightarrow> logged \<Rightarrow> (step list \<times> logged) option" where
  "caught_error ik eik boundary_id caught_eik caught_id vs el = do {
     let boundary_scope = scope_of (fst el) ik caught_eik;
     el1 \<leftarrow> (if caught_eik \<noteq> eik then terminate_subprocess_scope ik caught_eik el else Some el);
     let el2 = disarm_boundaries caught_eik (complete_element ik caught_eik caught_id el1);
     evs \<leftarrow> (if vs = fmempty then Some [] else propagated_updates (fst el2) ik boundary_scope vs True);
     Some ([SActivate ik boundary_id boundary_scope None], fold emit evs el2)
   }"

definition throw_job_error :: "key \<Rightarrow> string option \<Rightarrow> string \<Rightarrow> string \<Rightarrow> vars \<Rightarrow> engine \<Rightarrow> planned" where
  "throw_job_error jk lease_token error_code error_message vs e = (case throw_guard e jk lease_token of
     Inl err \<Rightarrow> rejected err
   | Inr j \<Rightarrow> do {
       let ik = jb_instance_key j;
       let eik = jb_element_instance_key j;
       let el = emit (EJob (JobErrorThrown jk ik error_code (attribution_worker j))) (e, []);
       catch \<leftarrow> find_catching_error_boundary (fst el) ik (jb_element_id j) eik error_code;
       case catch of
         Some (boundary_id, caught_eik, caught_id) \<Rightarrow> map_option Inr (caught_error ik eik boundary_id caught_eik caught_id vs el)
       | None \<Rightarrow>
           (let (ev, e1) = incident_raised ik eik (jb_element_id j) UnhandledError None (unhandled_error error_code error_message) (fst el)
            in accepted [] (emit ev (e1, snd el)))
     })"

section \<open>User tasks\<close>

definition user_task_guard :: "engine \<Rightarrow> key \<Rightarrow> engine_error + user_task" where
  "user_task_guard e utk = (case fmlookup (user_tasks (est e)) utk of
     None \<Rightarrow> Inl (UserTaskNotFound utk)
   | Some t \<Rightarrow> if ut_state t \<noteq> UTCreated \<or> ut_pending t \<noteq> None then Inl (UserTaskNotActive utk) else Inr t)"

text \<open>A transition that listeners watch is deferred until they are done; otherwise it happens at once.\<close>

definition transition_task ::
  "feel \<Rightarrow> user_task \<Rightarrow> key \<Rightarrow> pending_user_task_transition \<Rightarrow> (logged \<Rightarrow> (step list \<times> logged) option) \<Rightarrow> engine \<Rightarrow> planned" where
  "transition_task F t utk pending direct e =
     (let ty = put_event_type pending
      in case task_listeners_of e (ut_instance_key t) (ut_element_id t) ty of
           first # _ \<Rightarrow> do {
             (evs, e1) \<leftarrow> start_task_listener_chain F utk (ut_instance_key t) (ut_element_instance_key t) (ut_element_id t) ty pending first e;
             accepted [] (fold emit evs (e1, []))
           }
         | [] \<Rightarrow> map_option Inr (direct (e, [])))"

definition assign_user_task :: "feel \<Rightarrow> key \<Rightarrow> string \<Rightarrow> bool \<Rightarrow> engine \<Rightarrow> planned" where
  "assign_user_task F utk assignee allow_override e = (case user_task_guard e utk of
     Inl err \<Rightarrow> rejected err
   | Inr t \<Rightarrow>
       (if \<not> allow_override \<and> ut_assignee t \<noteq> None then rejected (UserTaskAlreadyAssigned utk)
        else transition_task F t utk (pending_transition Assigning (Some assignee))
          (\<lambda>el. Some ([], emit (EUserTask (UserTaskAssigned utk (ut_instance_key t) (Some assignee))) el)) e))"

definition unassign_user_task :: "feel \<Rightarrow> key \<Rightarrow> engine \<Rightarrow> planned" where
  "unassign_user_task F utk e = (case user_task_guard e utk of
     Inl err \<Rightarrow> rejected err
   | Inr t \<Rightarrow> transition_task F t utk (pending_transition Assigning None)
       (\<lambda>el. Some ([], emit (EUserTask (UserTaskAssigned utk (ut_instance_key t) None)) el)) e)"

record user_task_changeset =
  ucs_candidate_groups :: "string list option"
  ucs_candidate_users :: "string list option"
  ucs_due_date :: "string option option"
  ucs_follow_up_date :: "string option option"
  ucs_priority :: "int option"

definition changeset_is_empty :: "user_task_changeset \<Rightarrow> bool" where
  "changeset_is_empty c \<longleftrightarrow> ucs_candidate_groups c = None \<and> ucs_candidate_users c = None \<and> ucs_due_date c = None
     \<and> ucs_follow_up_date c = None \<and> ucs_priority c = None"

definition update_user_task :: "feel \<Rightarrow> key \<Rightarrow> user_task_changeset \<Rightarrow> engine \<Rightarrow> planned" where
  "update_user_task F utk c e = (case user_task_guard e utk of
     Inl err \<Rightarrow> rejected err
   | Inr t \<Rightarrow>
       (let due = map_option nonempty (ucs_due_date c);
            follow_up = map_option nonempty (ucs_follow_up_date c);
            pending = (pending_transition Updating None)\<lparr> put_update := Some \<lparr> puu_candidate_groups = ucs_candidate_groups c,
              puu_candidate_users = ucs_candidate_users c, puu_due_date = due, puu_follow_up_date = follow_up,
              puu_priority = ucs_priority c \<rparr> \<rparr>
        in transition_task F t utk pending
             (\<lambda>el. Some ([], emit (EUserTask (UserTaskUpdated utk (ut_instance_key t) (ucs_candidate_groups c)
                (ucs_candidate_users c) due follow_up (ucs_priority c))) el)) e))"

definition complete_user_task :: "feel \<Rightarrow> key \<Rightarrow> vars \<Rightarrow> engine \<Rightarrow> planned" where
  "complete_user_task F utk vs e = (case user_task_guard e utk of
     Inl err \<Rightarrow> rejected err
   | Inr t \<Rightarrow>
       (let ik = ut_instance_key t; eik = ut_element_instance_key t
        in transition_task F t utk ((pending_transition Completing None)\<lparr> put_variables := vs \<rparr>)
             (\<lambda>el. (let el1 = emit (EUserTask (UserTaskCompleted utk ik)) el
                in map_option (Pair [SComplete ik eik (ut_element_id t)])
                     (emit_propagated ik (scope_of (fst el1) ik eik) vs el1))) e))"

end
