(* ===== verification/Triggers.thy ===== *)
theory Triggers
  imports Deployments
begin

text \<open>
  Planning of the commands that wake waiting tokens (\<open>engine-core/src/engine/mod.rs\<close>): due timers and start timers,
  messages with their correlation across partitions, signals, and the writes of variables. Tokens wake in the order of
  their keys; a token that an earlier one of the same command has removed is skipped.
\<close>

section \<open>Folding over keys\<close>

definition fmap_values :: "('k :: linorder, 'v) fmap \<Rightarrow> 'v list" where
  "fmap_values m = map snd (sorted_list_of_fmap m)"

fun plan_each :: "('a \<Rightarrow> step list \<times> logged \<Rightarrow> (step list \<times> logged) option) \<Rightarrow> 'a list \<Rightarrow> step list \<times> logged \<Rightarrow> (step list \<times> logged) option" where
  "plan_each f [] ql = Some ql"
| "plan_each f (x # xs) ql = Option.bind (f x ql) (plan_each f xs)"

section \<open>Timers\<close>

definition subscription_kind_of_timer :: "timer_kind \<Rightarrow> message_subscription_kind" where
  "subscription_kind_of_timer kind = (case kind of
     TimerIntermediateCatch \<Rightarrow> SubIntermediateCatch
   | TimerInterruptingBoundary b \<Rightarrow> SubInterruptingBoundary b
   | TimerNonInterruptingBoundary b \<Rightarrow> SubNonInterruptingBoundary b)"

definition due_timers :: "u64 \<Rightarrow> engine \<Rightarrow> key list" where
  "due_timers t e = sort (map tm_key (filter (\<lambda>x. tm_state x = TMCreated \<and> tm_due_at x \<le> t
     \<and> \<not> instance_is_suspended e (tm_instance_key x)) (fmap_values (timers (est e)))))"

text \<open>A repeating timer on an activity that goes on is armed again, from its own due date.\<close>

definition rearm_timer :: "feel \<Rightarrow> timer \<Rightarrow> logged \<Rightarrow> logged option" where
  "rearm_timer F tm el = (case tm_kind tm of
     TimerNonInterruptingBoundary b \<Rightarrow>
       (case element_kind_of (fst el) (tm_instance_key tm) b of
          Some (EK_TimerBoundaryEvent _ duration_millis _ True) \<Rightarrow> do {
            let (next_timer_key, el1) = mint el;
            vs \<leftarrow> variables_for_element (fst el1) (tm_instance_key tm) (tm_element_instance_key tm);
            let (next_due_at, _) = resolve_timer F vs (timer_def_of (fst el1) (tm_instance_key tm) b) (tm_due_at tm) duration_millis;
            Some (emit (ETimer (TimerCreated next_timer_key (tm_instance_key tm) (tm_element_instance_key tm) (tm_element_id tm)
              next_due_at (TimerNonInterruptingBoundary b))) el1)
          }
        | _ \<Rightarrow> Some el)
   | _ \<Rightarrow> Some el)"

definition trigger_timer :: "feel \<Rightarrow> key \<Rightarrow> step list \<times> logged \<Rightarrow> (step list \<times> logged) option" where
  "trigger_timer F timer_key ql = (case fmlookup (timers (est (fst (snd ql)))) timer_key of
     None \<Rightarrow> Some ql
   | Some tm \<Rightarrow>
       (if tm_state tm \<noteq> TMCreated then Some ql
        else do {
          let el = emit (ETimer (TimerTriggered timer_key (tm_instance_key tm) (tm_element_instance_key tm) (tm_element_id tm))) (snd ql);
          (steps, el1) \<leftarrow> release_token (subscription_kind_of_timer (tm_kind tm)) (tm_instance_key tm) (tm_element_instance_key tm)
            (tm_element_id tm) (fst ql, el);
          el2 \<leftarrow> rearm_timer F tm el1;
          Some (steps, el2)
        }))"

definition due_start_timers :: "u64 \<Rightarrow> engine \<Rightarrow> key list" where
  "due_start_timers t e = sort (map st_timer_key
     (filter (\<lambda>x. case st_due_at x of None \<Rightarrow> False | Some d \<Rightarrow> d \<le> t) (fmap_values (start_timers (est e)))))"

definition fire_start_timer :: "key \<Rightarrow> step list \<times> logged \<Rightarrow> step list \<times> logged" where
  "fire_start_timer timer_key ql = (case fmlookup (start_timers (est (fst (snd ql)))) timer_key of
     None \<Rightarrow> ql
   | Some tm \<Rightarrow>
       (case st_due_at tm of
          None \<Rightarrow> ql
        | Some d \<Rightarrow>
            (let next = (if st_repeating tm then Some (saturating_add d (st_interval_millis tm)) else None)
             in start_or_dispatch_instance (st_process_id tm) (st_start_element_id tm) fmempty [] None
                  (fst ql, emit (ETimer (ProcessStartTimerFired timer_key next)) (snd ql)))))"

definition trigger_timers :: "feel \<Rightarrow> u64 \<Rightarrow> engine \<Rightarrow> planned" where
  "trigger_timers F t e = do {
     ql \<leftarrow> plan_each (trigger_timer F) (due_timers t e) ([], (e, []));
     Some (Inr (fold fire_start_timer (due_start_timers t (fst (snd ql))) ql))
   }"

section \<open>Messages\<close>

definition advance_correlated_token ::
  "key \<Rightarrow> key \<Rightarrow> key \<Rightarrow> key \<Rightarrow> elementid \<Rightarrow> message_subscription_kind \<Rightarrow> vars \<Rightarrow> step list \<times> logged \<Rightarrow> (step list \<times> logged) option" where
  "advance_correlated_token sk message_key ik eik eid kind vs ql = do {
     let el = emit (EMessage (MessageCorrelated sk message_key ik eik eid)) (snd ql);
     el1 \<leftarrow> emit_propagated ik (scope_of (fst el) ik eik) vs el;
     release_token kind ik eik eid (fst ql, el1)
   }"

definition matching_subscriptions :: "string \<Rightarrow> string \<Rightarrow> engine \<Rightarrow> key list" where
  "matching_subscriptions message_name correlation_key e = sort (map ms_key (filter (\<lambda>s. ms_state s = SubOpen
     \<and> ms_message_name s = message_name \<and> ms_correlation_key s = correlation_key) (fmap_values (message_subscriptions (est e)))))"

text \<open>
  One matching subscription: the token it waits with moves here, or on its own partition, or, in a suspended instance,
  not at all. The flag records that the message found a subscription.
\<close>

definition correlate_one ::
  "key \<Rightarrow> vars \<Rightarrow> key \<Rightarrow> bool \<times> step list \<times> logged \<Rightarrow> (bool \<times> step list \<times> logged) option" where
  "correlate_one message_key vs sk fql = (case fql of (found, ql) \<Rightarrow>
     (case fmlookup (message_subscriptions (est (fst (snd ql)))) sk of
        None \<Rightarrow> Some fql
      | Some s \<Rightarrow>
          (if ms_state s \<noteq> SubOpen then Some fql
           else if partition_of (ms_instance_key s) = partition_id (fst (snd ql))
           then (if instance_is_suspended (fst (snd ql)) (ms_instance_key s) then Some (True, ql)
                 else map_option (Pair True) (advance_correlated_token sk message_key (ms_instance_key s) (ms_element_instance_key s)
                        (ms_element_id s) (ms_kind s) vs ql))
           else Some (True, fst ql, emit (EMessage (RemoteMessageCorrelation sk message_key (ms_instance_key s)
                  (ms_element_instance_key s) (ms_element_id s) (ms_kind s) vs)) (snd ql)))))"

fun correlate_each :: "key \<Rightarrow> vars \<Rightarrow> key list \<Rightarrow> bool \<times> step list \<times> logged \<Rightarrow> (bool \<times> step list \<times> logged) option" where
  "correlate_each message_key vs [] fql = Some fql"
| "correlate_each message_key vs (sk # sks) fql = Option.bind (correlate_one message_key vs sk fql) (correlate_each message_key vs sks)"

definition message_starts :: "string \<Rightarrow> engine \<Rightarrow> (string \<times> elementid) list" where
  "message_starts message_name e = sort (map (\<lambda>s. (mss_process_id s, mss_start_element_id s))
     (filter (\<lambda>s. mss_message_name s = message_name) (fmap_values (message_start_subscriptions (est e)))))"

definition correlate_message :: "string \<Rightarrow> string \<Rightarrow> vars \<Rightarrow> engine \<Rightarrow> planned" where
  "correlate_message message_name correlation_key vs e = do {
     let (message_key, el) = mint (e, []);
     let el1 = emit (EMessage (MessagePublished message_key message_name correlation_key)) el;
     (found, ql) \<leftarrow> correlate_each message_key vs (matching_subscriptions message_name correlation_key (fst el1)) (False, [], el1);
     Some (Inr (if found then ql
       else fold (\<lambda>(process_id, start_event). start_or_dispatch_instance process_id start_event vs [] None)
              (message_starts message_name (fst (snd ql))) ql))
   }"

definition open_message_subscription ::
  "key \<Rightarrow> key \<Rightarrow> key \<Rightarrow> elementid \<Rightarrow> string \<Rightarrow> string \<Rightarrow> message_subscription_kind \<Rightarrow> engine \<Rightarrow> planned" where
  "open_message_subscription sk ik eik eid message_name correlation_key kind e =
     accepted [] (if sk |\<in>| fmdom (message_subscriptions (est e)) then (e, [])
       else emit (EMessage (MessageSubscriptionCreated sk ik eik eid message_name correlation_key kind)) (e, []))"

definition subscription_state :: "engine \<Rightarrow> key \<Rightarrow> message_subscription_state option" where
  "subscription_state e sk = map_option ms_state (fmlookup (message_subscriptions (est e)) sk)"

definition correlate_message_subscription ::
  "key \<Rightarrow> key \<Rightarrow> key \<Rightarrow> key \<Rightarrow> elementid \<Rightarrow> message_subscription_kind \<Rightarrow> vars \<Rightarrow> engine \<Rightarrow> planned" where
  "correlate_message_subscription sk message_key ik eik eid kind vs e =
     (if subscription_state e sk = Some SubOpening \<and> \<not> instance_is_suspended e ik
      then map_option Inr (advance_correlated_token sk message_key ik eik eid kind vs ([], (e, [])))
      else accepted [] (e, []))"

definition close_message_subscription :: "key \<Rightarrow> key \<Rightarrow> key \<Rightarrow> elementid \<Rightarrow> engine \<Rightarrow> planned" where
  "close_message_subscription sk ik eik eid e =
     accepted [] (if subscription_state e sk = Some SubOpen
       then emit (EMessage (MessageSubscriptionCanceled sk ik eik eid)) (e, []) else (e, []))"

section \<open>Signals\<close>

definition advance_signal_correlated_token ::
  "key \<Rightarrow> key \<Rightarrow> key \<Rightarrow> key \<Rightarrow> elementid \<Rightarrow> message_subscription_kind \<Rightarrow> vars \<Rightarrow> step list \<times> logged \<Rightarrow> (step list \<times> logged) option" where
  "advance_signal_correlated_token sk signal_key ik eik eid kind vs ql = do {
     let el = emit (ESignal (SignalCorrelated sk signal_key ik eik eid)) (snd ql);
     el1 \<leftarrow> emit_propagated ik (scope_of (fst el) ik eik) vs el;
     release_token kind ik eik eid (fst ql, el1)
   }"

definition signal_one :: "key \<Rightarrow> vars \<Rightarrow> key \<Rightarrow> step list \<times> logged \<Rightarrow> (step list \<times> logged) option" where
  "signal_one signal_key vs sk ql = (case fmlookup (signal_subscriptions (est (fst (snd ql)))) sk of
     None \<Rightarrow> Some ql
   | Some s \<Rightarrow>
       (if ss_state s \<noteq> SubOpen then Some ql
        else advance_signal_correlated_token sk signal_key (ss_instance_key s) (ss_element_instance_key s) (ss_element_id s) (ss_kind s) vs ql))"

definition broadcast_signal :: "string \<Rightarrow> vars \<Rightarrow> engine \<Rightarrow> planned" where
  "broadcast_signal signal_name vs e =
     (let (signal_key, el) = mint (e, []);
          el1 = emit (ESignal (SignalBroadcast signal_key signal_name)) el
      in map_option Inr (plan_each (signal_one signal_key vs)
           (sort (map ss_key (filter (\<lambda>s. ss_state s = SubOpen \<and> ss_signal_name s = signal_name)
              (fmap_values (signal_subscriptions (est (fst el1))))))) ([], el1)))"

section \<open>Variables\<close>

definition set_variables :: "key \<Rightarrow> vars \<Rightarrow> bool \<Rightarrow> engine \<Rightarrow> planned" where
  "set_variables scope_key vs local e = (case resolve_scope e scope_key of
     None \<Rightarrow> rejected (ScopeNotFound scope_key)
   | Some ik \<Rightarrow>
       (if vs = fmempty then accepted [] (e, [])
        else Option.bind (propagated_updates e ik scope_key vs local) (\<lambda>evs. accepted [] (fold emit evs (e, [])))))"

end
