(* ===== verification/Instance_Commands.thy ===== *)
theory Instance_Commands
  imports Task_Commands Triggers
begin

text \<open>
  Planning of the commands on a whole process instance (\<open>engine-core/src/engine/mod.rs\<close>): resolving an incident, which
  redrives what had failed, cancelling, migrating to another definition, modifying, and turning an ad-hoc sub-process from
  outside. Each is checked completely before its first event.
\<close>

section \<open>Resolving an incident\<close>

definition tool_output_redrive :: "engine \<Rightarrow> key \<Rightarrow> key \<Rightarrow> elementid \<Rightarrow> vars \<Rightarrow> step" where
  "tool_output_redrive e ik eik eid precomputed = (case adhoc_tool_container_of e ik eik of
     Some (container_key, inner_key) \<Rightarrow> SCompleteAdHocCallActivityTool ik eik eid container_key inner_key precomputed
   | None \<Rightarrow> SComplete ik eik eid)"

definition is_message_catch :: "element_kind option \<Rightarrow> bool" where
  "is_message_catch k = (case k of Some (EK_MessageIntermediateCatchEvent _ _) \<Rightarrow> True | _ \<Rightarrow> False)"

definition evaluation_redrive :: "engine \<Rightarrow> key \<Rightarrow> key \<Rightarrow> elementid \<Rightarrow> io_mapping_redrive option \<Rightarrow> step" where
  "evaluation_redrive e ik eik eid redrive =
     (if is_message_catch (element_kind_of e ik eid) then SReopenCatch ik eik eid
      else case redrive of
        Some CallActivitySpawn \<Rightarrow> SRetryCallActivitySpawn ik eik eid None
      | Some (AdHocCallActivitySpawn seed) \<Rightarrow> SRetryCallActivitySpawn ik eik eid (Some seed)
      | Some (AdHocToolOutputCollection precomputed) \<Rightarrow> tool_output_redrive e ik eik eid precomputed
      | _ \<Rightarrow> SComplete ik eik eid)"

definition io_redrive :: "engine \<Rightarrow> key \<Rightarrow> key \<Rightarrow> elementid \<Rightarrow> io_mapping_redrive option \<Rightarrow> step option" where
  "io_redrive e ik eik eid redrive = (case redrive of
     None \<Rightarrow> Some (SRetryActivation ik eik eid)
   | Some RedriveActivation \<Rightarrow> Some (SRetryActivation ik eik eid)
   | Some RedriveCompletion \<Rightarrow> if is_sub_process_kind e ik eid then None else Some (SComplete ik eik eid)
   | Some (MiChildActivation body_key index) \<Rightarrow> Some (SRetryMiChildActivation ik eid body_key eik index)
   | Some MiBodyActivation \<Rightarrow> Some (SRetryMiBodyActivation ik eid eik (scope_of e ik eik))
   | Some MiBodyCompletion \<Rightarrow> Some (SCompleteMiBody ik eik)
   | Some (AdHocToolActivation tool_id vs) \<Rightarrow> Some (SActivateAdHocTool ik eik tool_id vs)
   | Some CallActivitySpawn \<Rightarrow> Some (SRetryCallActivitySpawn ik eik eid None)
   | Some (AdHocCallActivitySpawn seed) \<Rightarrow> Some (SRetryCallActivitySpawn ik eik eid (Some seed))
   | Some (AdHocToolOutputCollection precomputed) \<Rightarrow> Some (tool_output_redrive e ik eik eid precomputed)
   | Some (CallActivityCompletion vs) \<Rightarrow> Some (SCompleteCallActivity ik eik eid vs))"

definition redrive_steps :: "engine \<Rightarrow> incident \<Rightarrow> step list" where
  "redrive_steps e i =
     (let ik = inc_instance_key i; eik = inc_element_instance_key i; eid = inc_element_id i
      in case inc_kind i of
           JobNoRetries \<Rightarrow> []
         | UnhandledError \<Rightarrow> [SCreateJob ik eik eid]
         | IoMappingIncident \<Rightarrow> (case io_redrive e ik eik eid (inc_redrive i) of None \<Rightarrow> [] | Some s \<Rightarrow> [s])
         | _ \<Rightarrow> [evaluation_redrive e ik eik eid (inc_redrive i)])"

definition job_retries :: "engine \<Rightarrow> key \<Rightarrow> int" where
  "job_retries e jk = (case fmlookup (jobs (est e)) jk of None \<Rightarrow> 0 | Some j \<Rightarrow> jb_retries j)"

definition no_retries_left :: "key \<Rightarrow> string" where
  "no_retries_left jk = ''job '' @ nat_string (unat jk) @ '' still has no retries; update its retries first''"

definition resolve_incident_command :: "key \<Rightarrow> int option \<Rightarrow> engine \<Rightarrow> planned" where
  "resolve_incident_command incident_key operation_reference e = (case fmlookup (incidents (est e)) incident_key of
     None \<Rightarrow> rejected (IncidentNotFound incident_key)
   | Some i \<Rightarrow>
       (if inc_state i \<noteq> IncActive then rejected (IncidentNotResolvable incident_key ''incident is already resolved'')
        else case filter_option (\<lambda>jk. job_retries e jk \<le> 0) (inc_job_key i) of
          Some jk \<Rightarrow> rejected (IncidentNotResolvable incident_key (no_retries_left jk))
        | None \<Rightarrow>
            (let el = emit (EIncident (IncidentResolved incident_key (inc_instance_key i) (inc_job_key i) (now e) operation_reference)) (e, [])
             in accepted (redrive_steps (fst el) i) el)))"

section \<open>Cancelling\<close>

definition instance_cancellations :: "engine \<Rightarrow> key \<Rightarrow> event list" where
  "instance_cancellations e ik =
     map (\<lambda>j. EJob (JobCanceled (jb_key j) ik))
       (sorted_values jb_key (\<lambda>j. jb_instance_key j = ik \<and> jb_state j \<in> {JCreated, JActivated, JFailed}) (jobs (est e)))
     @ map (\<lambda>t. ETimer (TimerCanceled (tm_key t) ik (tm_element_instance_key t) (tm_element_id t)))
       (sorted_values tm_key (\<lambda>t. tm_instance_key t = ik \<and> tm_state t = TMCreated) (timers (est e)))
     @ map disarm_subscription_event
       (sorted_values ms_key (\<lambda>s. ms_instance_key s = ik \<and> ms_state s \<in> {SubOpen, SubOpening}) (message_subscriptions (est e)))
     @ map (\<lambda>s. ESignal (SignalSubscriptionCanceled (ss_key s) ik (ss_element_instance_key s) (ss_element_id s)))
       (sorted_values ss_key (\<lambda>s. ss_instance_key s = ik \<and> ss_state s = SubOpen) (signal_subscriptions (est e)))
     @ map (\<lambda>s. ESignal (ConditionalSubscriptionCanceled (cd_key s) ik (cd_element_instance_key s) (cd_element_id s)))
       (sorted_values cd_key (\<lambda>s. cd_instance_key s = ik \<and> cd_state s = SubOpen) (conditional_subscriptions (est e)))"

definition canceling_listener :: "engine \<Rightarrow> key \<Rightarrow> user_task \<Rightarrow> task_listener option" where
  "canceling_listener e ik t =
     (if ut_pending t \<noteq> None then None
      else case task_listeners_of e ik (ut_element_id t) Canceling of [] \<Rightarrow> None | first # _ \<Rightarrow> Some first)"

definition created_user_tasks :: "engine \<Rightarrow> key \<Rightarrow> user_task list" where
  "created_user_tasks e ik = sorted_values ut_key (\<lambda>t. ut_instance_key t = ik \<and> ut_state t = UTCreated) (user_tasks (est e))"

definition immediate_user_task_cancels :: "engine \<Rightarrow> key \<Rightarrow> event list" where
  "immediate_user_task_cancels e ik = map (\<lambda>t. EUserTask (UserTaskCanceled (ut_key t) ik))
     (filter (\<lambda>t. canceling_listener e ik t = None) (created_user_tasks e ik))"

definition canceling_starts :: "engine \<Rightarrow> key \<Rightarrow> (user_task \<times> task_listener) list" where
  "canceling_starts e ik = List.map_filter (\<lambda>t. map_option (Pair t) (canceling_listener e ik t)) (created_user_tasks e ik)"

definition start_canceling :: "feel \<Rightarrow> key \<Rightarrow> user_task \<times> task_listener \<Rightarrow> step list \<times> logged \<Rightarrow> (step list \<times> logged) option" where
  "start_canceling F ik watched ql = do {
     (evs, e1) \<leftarrow> start_task_listener_chain F (ut_key (fst watched)) ik (ut_element_instance_key (fst watched)) (ut_element_id (fst watched))
       Canceling (pending_transition Canceling None) (snd watched) (fst (snd ql));
     Some (fst ql, fold emit evs (e1, snd (snd ql)))
   }"

definition is_active_instance :: "engine \<Rightarrow> key \<Rightarrow> bool" where
  "is_active_instance e ik = (case fmlookup (instances (est e)) ik of None \<Rightarrow> False | Some i \<Rightarrow> pi_state i = PIActive)"

definition cancel_instance :: "feel \<Rightarrow> key \<Rightarrow> engine \<Rightarrow> planned" where
  "cancel_instance F ik e =
     (if \<not> is_active_instance e ik then rejected (InstanceNotFound ik)
      else
        (let el = fold emit (immediate_user_task_cancels e ik) (fold emit (instance_cancellations e ik) (e, []));
             starts = canceling_starts e ik
         in if starts = [] then accepted [] (emit (ELifecycle (ProcessInstanceTerminated ik)) el)
            else map_option Inr (plan_each (start_canceling F ik) starts ([], emit (ELifecycle (ProcessInstanceTerminating ik)) el))))"

section \<open>Migrating\<close>

definition unsupported_migration_reason :: "element_kind \<Rightarrow> string option" where
  "unsupported_migration_reason k = (case k of
     EK_ErrorBoundaryEvent _ _ \<Rightarrow> Some ''boundary events are not migratable yet''
   | EK_TimerBoundaryEvent _ _ _ _ \<Rightarrow> Some ''boundary events are not migratable yet''
   | EK_MessageBoundaryEvent _ _ _ _ \<Rightarrow> Some ''boundary events are not migratable yet''
   | EK_SignalBoundaryEvent _ _ _ \<Rightarrow> Some ''boundary events are not migratable yet''
   | EK_ConditionalBoundaryEvent _ _ _ \<Rightarrow> Some ''boundary events are not migratable yet''
   | EK_EscalationBoundaryEvent _ _ _ \<Rightarrow> Some ''boundary events are not migratable yet''
   | EK_CallActivity _ _ _ \<Rightarrow> Some ''call activities are not migratable yet''
   | EK_SubProcess _ \<Rightarrow> Some ''embedded sub-processes are not migratable yet''
   | EK_EventBasedGateway \<Rightarrow> Some ''event-based gateways are not migratable yet''
   | _ \<Rightarrow> None)"

text \<open>The discriminant of a kind: its constructor without its fields.\<close>

definition kind_discriminant :: "element_kind \<Rightarrow> nat" where
  "kind_discriminant k = (case k of
     EK_StartEvent \<Rightarrow> 0 | EK_EndEvent \<Rightarrow> 1 | EK_TerminateEndEvent \<Rightarrow> 2 | EK_ServiceTask _ _ _ _ _ \<Rightarrow> 3
   | EK_BusinessRuleTask _ _ \<Rightarrow> 4 | EK_UserTask _ \<Rightarrow> 5 | EK_ExclusiveGateway \<Rightarrow> 6 | EK_ParallelGateway \<Rightarrow> 7
   | EK_InclusiveGateway \<Rightarrow> 8 | EK_EventBasedGateway \<Rightarrow> 9 | EK_ErrorBoundaryEvent _ _ \<Rightarrow> 10
   | EK_TimerIntermediateCatchEvent _ \<Rightarrow> 11 | EK_TimerBoundaryEvent _ _ _ _ \<Rightarrow> 12
   | EK_MessageIntermediateCatchEvent _ _ \<Rightarrow> 13 | EK_MessageBoundaryEvent _ _ _ _ \<Rightarrow> 14 | EK_MessageStartEvent _ \<Rightarrow> 15
   | EK_TimerStartEvent _ _ \<Rightarrow> 16 | EK_SubProcess _ \<Rightarrow> 17 | EK_EscalationThrowEvent _ \<Rightarrow> 18
   | EK_EscalationBoundaryEvent _ _ _ \<Rightarrow> 19 | EK_IntermediateThrowEvent \<Rightarrow> 20 | EK_LinkIntermediateThrowEvent _ \<Rightarrow> 21
   | EK_LinkIntermediateCatchEvent _ \<Rightarrow> 22 | EK_Task \<Rightarrow> 23 | EK_ScriptTask _ _ \<Rightarrow> 24 | EK_CallActivity _ _ _ \<Rightarrow> 25
   | EK_SignalIntermediateCatchEvent _ \<Rightarrow> 26 | EK_SignalBoundaryEvent _ _ _ \<Rightarrow> 27
   | EK_ConditionalIntermediateCatchEvent _ \<Rightarrow> 28 | EK_ConditionalBoundaryEvent _ _ _ \<Rightarrow> 29
   | EK_CompensationBoundaryEvent _ _ \<Rightarrow> 30 | EK_CompensationThrowEvent \<Rightarrow> 31 | EK_AgentTask _ _ _ _ \<Rightarrow> 32)"

fun mapping_error ::
  "key \<Rightarrow> key \<Rightarrow> process_definition \<Rightarrow> process_definition \<Rightarrow> elementid list \<Rightarrow> (elementid \<times> elementid) list \<Rightarrow> engine_error option" where
  "mapping_error ik target_key source target seen [] = None"
| "mapping_error ik target_key source target seen ((src, tgt) # rest) =
     (if src \<in> set seen then Some (DuplicateMappingSourceElement ik src)
      else case (pd_element source src, pd_element target tgt) of
        (None, _) \<Rightarrow> Some (MappingSourceElementNotFound ik src)
      | (Some _, None) \<Rightarrow> Some (MappingTargetElementNotFound target_key tgt)
      | (Some s, Some t) \<Rightarrow>
          (if kind_discriminant (e_kind s) \<noteq> kind_discriminant (e_kind t) then Some (MappedElementTypeChanged ik src tgt)
           else mapping_error ik target_key source target (src # seen) rest))"

definition active_ids :: "process_instance \<Rightarrow> elementid list" where
  "active_ids i = sort (remdups (fmap_values (pi_active i)))"

definition unsupported_active :: "key \<Rightarrow> process_definition \<Rightarrow> process_instance \<Rightarrow> engine_error option" where
  "unsupported_active ik source i = (case List.map_filter (\<lambda>eid. map_option (UnsupportedMigration ik eid)
       (Option.bind (pd_element source eid) (\<lambda>el. unsupported_migration_reason (e_kind el)))) (active_ids i) of
     [] \<Rightarrow> None | err # _ \<Rightarrow> Some err)"

definition boundary_of_timer :: "timer_kind \<Rightarrow> elementid option" where
  "boundary_of_timer k = (case k of
     TimerIntermediateCatch \<Rightarrow> None | TimerInterruptingBoundary b \<Rightarrow> Some b | TimerNonInterruptingBoundary b \<Rightarrow> Some b)"

definition boundary_of_subscription :: "message_subscription_kind \<Rightarrow> elementid option" where
  "boundary_of_subscription k = (case k of
     SubIntermediateCatch \<Rightarrow> None | SubInterruptingBoundary b \<Rightarrow> Some b | SubNonInterruptingBoundary b \<Rightarrow> Some b)"

text \<open>Every boundary event that was armed in the instance; the source does not look at the state of the holder.\<close>

definition armed_boundaries :: "engine \<Rightarrow> key \<Rightarrow> elementid list" where
  "armed_boundaries e ik =
     List.map_filter (\<lambda>t. if tm_instance_key t = ik then boundary_of_timer (tm_kind t) else None) (fmap_values (timers (est e)))
     @ List.map_filter (\<lambda>s. if ms_instance_key s = ik then boundary_of_subscription (ms_kind s) else None) (fmap_values (message_subscriptions (est e)))
     @ List.map_filter (\<lambda>s. if ss_instance_key s = ik then boundary_of_subscription (ss_kind s) else None) (fmap_values (signal_subscriptions (est e)))
     @ List.map_filter (\<lambda>s. if cd_instance_key s = ik then boundary_of_subscription (cd_kind s) else None) (fmap_values (conditional_subscriptions (est e)))"

definition least :: "('a :: linorder) list \<Rightarrow> 'a option" where
  "least xs = (case sort xs of [] \<Rightarrow> None | x # _ \<Rightarrow> Some x)"

definition unremappable :: "process_instance \<Rightarrow> elementid list" where
  "unremappable i = map mis_element_id (fmap_values (pi_multi_instances i)) @ map ahs_element_id (fmap_values (pi_adhoc_instances i))"

definition scoped_active :: "process_instance \<Rightarrow> elementid list" where
  "scoped_active i = List.map_filter (\<lambda>x. fmlookup (pi_active i) (fst x)) (sorted_list_of_fmap (pi_scopes i))"

definition migrated_flow :: "(elementid \<times> elementid) list \<Rightarrow> incoming_flow \<Rightarrow> incoming_flow" where
  "migrated_flow instrs flow = IncomingFlow (or_default (if_from flow) (map_of instrs (if_from flow))) (if_ordinal flow)"

text \<open>An open join that is not mapped is a panic of the source.\<close>

definition join_migration_error ::
  "key \<Rightarrow> process_definition \<Rightarrow> process_definition \<Rightarrow> (elementid \<times> elementid) list \<Rightarrow> process_instance \<Rightarrow> elementid \<Rightarrow> engine_error option option" where
  "join_migration_error ik source target instrs i src =
     (let kind = map_option e_kind (pd_element source src);
          is_parallel = (kind = Some EK_ParallelGateway)
      in if \<not> is_parallel \<and> kind \<noteq> Some EK_InclusiveGateway then Some None
         else case map_of instrs src of
           None \<Rightarrow> None
         | Some tgt \<Rightarrow>
             (if (is_parallel \<or> (case fmlookup (pi_join_counts i) src of None \<Rightarrow> False | Some n \<Rightarrow> 0 < n))
                \<and> incoming_count source src \<noteq> incoming_count target tgt
              then Some (Some (MigratedParallelJoinArityChanged ik src tgt (incoming_count source src) (incoming_count target tgt)))
              else Some (map_option (\<lambda>(flow, _). MigratedJoinFlowMissing ik src tgt (if_from flow) (if_ordinal flow))
                (List.find (\<lambda>(flow, _). \<not> has_incoming_flow target tgt (migrated_flow instrs flow))
                  (or_default [] (fmlookup (pi_join_flow_arrivals i) src))))))"

fun first_error :: "('a \<Rightarrow> 'b option option) \<Rightarrow> 'a list \<Rightarrow> 'b option option" where
  "first_error f [] = Some None"
| "first_error f (x # xs) = (case f x of None \<Rightarrow> None | Some (Some err) \<Rightarrow> Some (Some err) | Some None \<Rightarrow> first_error f xs)"

definition migration_error ::
  "engine \<Rightarrow> key \<Rightarrow> key \<Rightarrow> process_definition \<Rightarrow> process_definition \<Rightarrow> (elementid \<times> elementid) list \<Rightarrow> process_instance \<Rightarrow> engine_error option option" where
  "migration_error e ik target_key source target instrs i = first_error id
     [Some (mapping_error ik target_key source target [] instrs),
      Some (unsupported_active ik source i),
      Some (map_option (\<lambda>b. UnsupportedMigration ik b ''boundary events are not migratable yet'') (least (armed_boundaries e ik))),
      Some (map_option (\<lambda>eid. UnsupportedMigration ik eid ''multi-instance and ad-hoc sub-process activities are not migratable yet'')
        (least (unremappable i))),
      Some (map_option (\<lambda>eid. UnsupportedMigration ik eid ''elements inside a nested flow scope are not migratable yet'')
        (least (scoped_active i))),
      Some (map_option (UnmappedActiveElement ik) (List.find (\<lambda>eid. map_of instrs eid = None) (active_ids i))),
      first_error (join_migration_error ik source target instrs i) (map fst (sorted_list_of_fmap (pi_join_instances i)))]"

definition migrate_instance_command :: "key \<Rightarrow> key \<Rightarrow> (elementid \<times> elementid) list \<Rightarrow> engine \<Rightarrow> planned" where
  "migrate_instance_command ik target_key instrs e = (case fmlookup (instances (est e)) ik of
     None \<Rightarrow> rejected (InstanceNotFound ik)
   | Some i \<Rightarrow>
       (if pi_state i \<noteq> PIActive then rejected (InstanceNotFound ik)
        else case find_value (\<lambda>d. dp_key d = target_key) (processes (est e)) of
          None \<Rightarrow> rejected (TargetProcessDefinitionNotFound target_key)
        | Some target \<Rightarrow>
            (case fmlookup (processes (est e)) (pi_process_id i) of
               None \<Rightarrow> rejected (ProcessNotFound (pi_process_id i))
             | Some source \<Rightarrow> do {
                 failure \<leftarrow> migration_error e ik target_key (dp_definition source) (dp_definition target) instrs i;
                 case failure of
                   Some err \<Rightarrow> rejected err
                 | None \<Rightarrow> accepted [] (emit (ELifecycle (ProcessInstanceMigrated ik (pd_id (dp_definition target)) target_key instrs)) (e, []))
               })))"

section \<open>Modifying\<close>

record activate_element_instruction =
  aei_element_id :: elementid
  aei_variables :: vars

definition terminate_one :: "key \<Rightarrow> key \<Rightarrow> step list \<times> logged \<Rightarrow> (step list \<times> logged) option" where
  "terminate_one ik eik ql = (case element_id_of_instance (fst (snd ql)) ik eik of
     None \<Rightarrow> Some ql
   | Some eid \<Rightarrow> map_option (Pair (fst ql)) (terminate_element_instance ik eik eid (snd ql)))"

definition activate_at :: "key \<Rightarrow> activate_element_instruction \<Rightarrow> step list \<times> logged \<Rightarrow> (step list \<times> logged) option" where
  "activate_at ik a ql =
     map_option (Pair (fst ql @ [SActivate ik (aei_element_id a) 0 None])) (emit_propagated ik ik (aei_variables a) (snd ql))"

definition modification_error :: "engine \<Rightarrow> key \<Rightarrow> activate_element_instruction list \<Rightarrow> key list \<Rightarrow> engine_error option" where
  "modification_error e ik activations terminations =
     (if \<not> is_active_instance e ik then Some (InstanceNotFound ik)
      else case List.find (\<lambda>a. Option.bind (process_of_instance e ik) (\<lambda>p. pd_element p (aei_element_id a)) = None) activations of
        Some a \<Rightarrow> Some (ElementNotFound ik (aei_element_id a))
      | None \<Rightarrow> map_option (ElementInstanceNotFound ik) (List.find (\<lambda>eik. element_id_of_instance e ik eik = None) terminations))"

definition nothing_active :: "engine \<Rightarrow> key \<Rightarrow> bool" where
  "nothing_active e ik = (case fmlookup (instances (est e)) ik of None \<Rightarrow> True | Some i \<Rightarrow> pi_active i = fmempty)"

definition modify_instance :: "key \<Rightarrow> activate_element_instruction list \<Rightarrow> key list \<Rightarrow> engine \<Rightarrow> planned" where
  "modify_instance ik activations terminations e = (case modification_error e ik activations terminations of
     Some err \<Rightarrow> rejected err
   | None \<Rightarrow> do {
       ql1 \<leftarrow> plan_each (terminate_one ik) (sort (remdups terminations)) ([], (e, []));
       (steps, el) \<leftarrow> plan_each (activate_at ik) activations ql1;
       accepted steps (if nothing_active (fst el) ik \<and> activations = [] then emit (ELifecycle (ProcessInstanceTerminated ik)) el else el)
     })"

section \<open>Ad-hoc sub-processes from outside\<close>

definition adhoc_owner :: "engine \<Rightarrow> key \<Rightarrow> (key \<times> elementid) option" where
  "adhoc_owner e container_key = (case List.map_filter (\<lambda>(ik, i).
       map_option (\<lambda>a. (ik, ahs_element_id a)) (fmlookup (pi_adhoc_instances i) container_key)) (sorted_list_of_fmap (instances (est e))) of
     [] \<Rightarrow> None | x # _ \<Rightarrow> Some x)"

definition activate_adhoc_activities :: "key \<Rightarrow> adhoc_activate_element list \<Rightarrow> bool \<Rightarrow> engine \<Rightarrow> planned" where
  "activate_adhoc_activities container_key instrs cancel_remaining e =
     (if instrs = [] \<and> \<not> cancel_remaining then rejected (AdHocNoActivationTargets container_key)
      else case adhoc_owner e container_key of
        None \<Rightarrow> rejected (AdHocSubProcessNotFound container_key)
      | Some (ik, eid) \<Rightarrow>
          (case adhoc_def_of e ik eid of
             None \<Rightarrow> rejected (AdHocSubProcessNotFound container_key)
           | Some d \<Rightarrow>
               (case validate_adhoc_activation_targets d ik instrs of
                  Some err \<Rightarrow> rejected err
                | None \<Rightarrow> accepted (enqueue_adhoc_turn e ik container_key instrs cancel_remaining) (e, []))))"

end
