(* ===== verification/Agent_Commands.thy ===== *)
theory Agent_Commands
  imports Instance_Commands
begin

text \<open>
  Planning of the commands on agent instances (\<open>engine-core/src/engine/mod.rs\<close>, \<open>agent_behavior.rs\<close>): creating an
  agent for an active element, updating it under the fence of its job, completing it, and appending turns to its history
  with deduplication by the worker's item id.
\<close>

section \<open>Lookups and guards\<close>

definition resolve_active_element_instance :: "engine \<Rightarrow> key \<Rightarrow> (key \<times> elementid) option" where
  "resolve_active_element_instance e eik = (case List.map_filter (\<lambda>(ik, i).
       map_option (Pair ik) (fmlookup (pi_active i) eik)) (sorted_list_of_fmap (instances (est e))) of
     [] \<Rightarrow> None | x # _ \<Rightarrow> Some x)"

definition owning_agent_instance :: "engine \<Rightarrow> key \<Rightarrow> key option" where
  "owning_agent_instance e eik = map_option ai_agent_instance_key (List.find (\<lambda>a. eik \<in> set (ai_element_instance_keys a))
     (concat (map (\<lambda>i. fmap_values (pi_agent_instances i)) (fmap_values (instances (est e))))))"

definition agent_instance_ownership :: "engine \<Rightarrow> key \<Rightarrow> (elementid \<times> key) option" where
  "agent_instance_ownership e aik = map_option (\<lambda>a. (ai_element_id a, ai_process_instance_key a)) (find_agent_instance e aik)"

definition validate_agent_job_context :: "engine \<Rightarrow> key \<Rightarrow> key \<Rightarrow> string \<Rightarrow> bool \<Rightarrow> engine_error option" where
  "validate_agent_job_context e eik jk job_lease has_history =
     (if jk = 0 then (if has_history then Some (AgentInstanceJobRequiredForHistory eik) else None)
      else case filter_option (\<lambda>j. jb_state j = JActivated) (fmlookup (jobs (est e)) jk) of
        None \<Rightarrow> Some (AgentInstanceJobNotActive eik jk)
      | Some j \<Rightarrow>
          (if jb_lease_token j \<noteq> None \<and> jb_lease_token j \<noteq> Some job_lease then Some (AgentInstanceJobLeaseMismatch eik jk)
           else if jb_element_instance_key j \<noteq> eik then Some (AgentInstanceJobElementMismatch jk (jb_element_instance_key j) eik)
           else None))"

definition configuration_fields :: "string list" where
  "configuration_fields = [''model'', ''provider'', ''systemPrompt'', ''tools'', ''maxTokens'', ''maxModelCalls'', ''maxToolCalls'']"

definition history_item :: "agent_history_turn \<Rightarrow> string option" where
  "history_item turn = filter_option (\<lambda>i. trim i \<noteq> []) (aht_history_item_id turn)"

fun turns_error :: "string list \<Rightarrow> agent_history_turn list \<Rightarrow> engine_error option" where
  "turns_error ids [] = None"
| "turns_error ids (turn # turns) = (case history_item turn of
     None \<Rightarrow> Some (AgentHistoryInvalid ''historyItemId is required'')
   | Some i \<Rightarrow>
       (if i \<in> set ids then Some (AgentHistoryInvalid ''historyItemId must be unique within the request'')
        else if aht_loop_iteration turn < 1 then Some (AgentHistoryInvalid ''loopIteration must be positive'')
        else if aht_role turn = RoleConfiguration \<and> (configuration_attributes turn = []
            \<or> list_ex (\<lambda>name. name \<notin> set configuration_fields) (configuration_attributes turn))
          then Some (AgentHistoryInvalid ''CONFIGURATION must change supported configuration fields'')
        else turns_error (i # ids) turns))"

definition establishes :: "(agent_history_turn \<Rightarrow> bool) \<Rightarrow> agent_history_turn list \<Rightarrow> bool" where
  "establishes P history \<longleftrightarrow> list_ex (\<lambda>turn. aht_role turn = RoleConfiguration \<and> P turn) history"

definition nonblank :: "string option \<Rightarrow> bool" where
  "nonblank s = (case s of None \<Rightarrow> False | Some v \<Rightarrow> trim v \<noteq> [])"

definition validate_agent_history :: "agent_history_turn list \<Rightarrow> bool \<Rightarrow> engine_error option" where
  "validate_agent_history history creating = (case turns_error [] history of
     Some err \<Rightarrow> Some err
   | None \<Rightarrow>
       (if creating \<and> history \<noteq> []
          \<and> \<not> (establishes (\<lambda>t. nonblank (aht_model t)) history \<and> establishes (\<lambda>t. nonblank (aht_provider t)) history
             \<and> establishes (\<lambda>t. case aht_system_prompt t of None \<Rightarrow> False | Some blocks \<Rightarrow> blocks \<noteq> []) history)
        then Some (AgentHistoryInvalid ''CREATE history must establish model, provider and systemPrompt'') else None))"

section \<open>History\<close>

definition duplicate_agent_history :: "engine \<Rightarrow> key \<Rightarrow> agent_history_turn \<Rightarrow> key option" where
  "duplicate_agent_history e aik turn = do {
     i \<leftarrow> nonempty (aht_history_item_id turn);
     a \<leftarrow> find_agent_instance e aik;
     inst \<leftarrow> fmlookup (instances (est e)) (ai_process_instance_key a);
     records \<leftarrow> fmlookup (pi_agent_history inst) aik;
     map_option ahr_agent_history_key (List.find (\<lambda>r. ahr_history_item_id r = Some i
       \<and> (ahr_commit_status r = CommitCommitted
          \<or> ahr_commit_status r = CommitPending \<and> ahr_job_key r = aht_job_key turn \<and> ahr_job_lease r = aht_job_lease turn)) records)
   }"

definition count_of :: "(agent_history_metrics \<Rightarrow> int option) \<Rightarrow> agent_history_turn \<Rightarrow> int" where
  "count_of f turn = or_default 0 (Option.bind (aht_metrics turn) f)"

definition turn_delta :: "agent_history_turn \<Rightarrow> agent_metrics_delta" where
  "turn_delta turn = \<lparr> input_tokens = count_of ahm_input_tokens turn, output_tokens = count_of ahm_output_tokens turn,
     reasoning_token_count = count_of ahm_reasoning_token_count turn,
     cache_creation_token_count = count_of ahm_cache_creation_token_count turn,
     cache_read_token_count = count_of ahm_cache_read_token_count turn,
     model_calls = (if aht_role turn = RoleAssistant then 1 else 0),
     tool_calls = (if aht_role turn = RoleAssistant then int (length (aht_tool_calls turn)) else 0) \<rparr>"

definition apply_history_change :: "engine \<Rightarrow> bool \<Rightarrow> agent_history_turn \<Rightarrow> agent_instance \<Rightarrow> agent_instance" where
  "apply_history_change e creating turn a =
     (if duplicate_agent_history e (ai_agent_instance_key a) turn \<noteq> None then a
      else (let a1 = (if creating then apply_agent_configuration turn a else a)
            in a1\<lparr> ai_metrics := with_delta (ai_metrics a1) (turn_delta turn) \<rparr>))"

definition apply_history_changes :: "engine \<Rightarrow> bool \<Rightarrow> agent_history_turn list \<Rightarrow> agent_instance \<Rightarrow> agent_instance" where
  "apply_history_changes e creating history a = fold (apply_history_change e creating) history a"

definition record_of_turn :: "agent_instance \<Rightarrow> key \<Rightarrow> key \<Rightarrow> agent_history_turn \<Rightarrow> agent_history_record" where
  "record_of_turn base aik k turn = \<lparr> ahr_changed_attributes = configuration_attributes turn, ahr_agent_history_key = k,
     ahr_agent_instance_key = aik, ahr_element_instance_key = ai_element_instance_key base,
     ahr_process_instance_key = ai_process_instance_key base, ahr_root_process_instance_key = ai_root_process_instance_key base,
     ahr_bpmn_process_id = ai_bpmn_process_id base, ahr_process_definition_key = ai_process_definition_key base,
     ahr_tenant_id = ai_tenant_id base, ahr_job_key = aht_job_key turn, ahr_job_lease = aht_job_lease turn,
     ahr_loop_iteration = aht_loop_iteration turn, ahr_role = aht_role turn, ahr_produced_at = aht_produced_at turn,
     ahr_content = aht_content turn, ahr_system_prompt = aht_system_prompt turn, ahr_tool_calls = aht_tool_calls turn,
     ahr_metrics = aht_metrics turn, ahr_history_item_id = aht_history_item_id turn, ahr_tools = aht_tools turn,
     ahr_model = aht_model turn, ahr_provider = aht_provider turn, ahr_limits = aht_limits turn,
     ahr_is_duplicate = aht_is_duplicate turn, ahr_commit_status = CommitPending \<rparr>"

definition append_turn :: "agent_instance \<Rightarrow> key \<Rightarrow> agent_history_turn \<Rightarrow> logged \<Rightarrow> logged" where
  "append_turn base aik turn el = (case duplicate_agent_history (fst el) aik turn of
     Some original \<Rightarrow> emit (EAgent (AgentHistoryDeduplicated (ai_process_instance_key base) aik
        (or_default [] (aht_history_item_id turn)) original)) el
   | None \<Rightarrow>
       (let (k, el1) = mint el
        in emit (EAgent (AgentHistoryCreated (ai_process_instance_key base) (record_of_turn base aik k turn))) el1))"

definition append_agent_history :: "key \<Rightarrow> agent_history_turn list \<Rightarrow> logged \<Rightarrow> logged" where
  "append_agent_history aik turns el = (case find_agent_instance (fst el) aik of
     None \<Rightarrow> el
   | Some base \<Rightarrow> fold (append_turn base aik) turns el)"

definition stamp :: "key \<Rightarrow> string \<Rightarrow> agent_history_turn list \<Rightarrow> agent_history_turn list" where
  "stamp jk job_lease history = map (\<lambda>t. t\<lparr> aht_job_key := jk, aht_job_lease := job_lease \<rparr>) history"

section \<open>Creating\<close>

definition new_agent ::
  "engine \<Rightarrow> key \<Rightarrow> key \<Rightarrow> key \<Rightarrow> elementid \<Rightarrow> agent_type \<Rightarrow> key \<Rightarrow> string \<Rightarrow> agent_definition \<Rightarrow> agent_instance_limits \<Rightarrow> agent_instance" where
  "new_agent e aik ik eik eid ty jk job_lease d limits =
     (let (process_id, pdk, version) = (case fmlookup (instances (est e)) ik of
            None \<Rightarrow> ([], 0, 0)
          | Some i \<Rightarrow> (pi_process_id i, pi_process_definition_key i,
              case fmlookup (process_versions (est e)) (pi_process_definition_key i) of None \<Rightarrow> 0 | Some p \<Rightarrow> dp_version p))
      in \<lparr> ai_agent_instance_key = aik, ai_agent_definition_key = 0, ai_element_instance_key = eik,
           ai_element_instance_keys = [eik], ai_element_id = eid, ai_process_instance_key = ik,
           ai_root_process_instance_key = root_process_instance_key e ik, ai_bpmn_process_id = process_id,
           ai_process_definition_key = pdk, ai_process_definition_version = version,
           ai_process_definition_version_tag = None, ai_tenant_id = DEFAULT_TENANT, ai_agent_type = ty,
           ai_status = Initializing, ai_definition = d, ai_limits = limits, ai_metrics = default_metrics, ai_tools = [],
           ai_job_key = jk, ai_job_lease = job_lease, ai_created_at = now e, ai_last_updated_at = now e, ai_completed_at = 0 \<rparr>)"

definition process_create_agent_instance ::
  "key \<Rightarrow> key \<Rightarrow> string \<Rightarrow> agent_definition \<Rightarrow> agent_instance_limits option \<Rightarrow> agent_history_turn list \<Rightarrow> engine \<Rightarrow> planned" where
  "process_create_agent_instance eik jk job_lease d limits history e = (case resolve_active_element_instance e eik of
     None \<Rightarrow> rejected (AgentInstanceElementInstanceInactive eik)
   | Some (ik, eid) \<Rightarrow>
       (case owning_agent_instance e eik of
          Some aik \<Rightarrow> rejected (AgentInstanceAlreadyExists eik aik)
        | None \<Rightarrow>
            (case agent_type_for_element e ik eid eik of
               Inl err \<Rightarrow> rejected err
             | Inr ty \<Rightarrow>
                 (case or_else (validate_agent_job_context e eik jk job_lease (history \<noteq> [])) (validate_agent_history history True) of
                    Some err \<Rightarrow> rejected err
                  | None \<Rightarrow>
                      (let turns = stamp jk job_lease history;
                           (aik, el) = mint (e, []);
                           a = new_agent (fst el) aik ik eik eid ty jk job_lease
                             (if history = [] then d else default_agent_definition)
                             (if history = [] then or_default default_limits limits else default_limits);
                           el1 = emit (EAgent (AgentInstanceCreated ik (apply_history_changes (fst el) True turns a))) el
                       in accepted [] (if turns = [] then el1 else append_agent_history aik turns el1))))))"

section \<open>Updating and completing\<close>

definition active_writer :: "engine \<Rightarrow> key \<Rightarrow> bool" where
  "active_writer e eik \<longleftrightarrow> list_ex (\<lambda>j. jb_element_instance_key j = eik \<and> jb_state j = JActivated) (fmap_values (jobs (est e)))"

definition update_target_error ::
  "engine \<Rightarrow> agent_instance \<Rightarrow> key \<Rightarrow> key \<Rightarrow> elementid \<Rightarrow> key \<Rightarrow> engine_error option" where
  "update_target_error e a aik eik eid ik =
     (if ai_element_id a \<noteq> eid \<or> ai_process_instance_key a \<noteq> ik then Some (AgentInstanceOwnershipMismatch aik)
      else case resolve_active_element_instance e eik of
        None \<Rightarrow> Some (AgentInstanceElementInstanceInactive eik)
      | Some (active_pi, active_id) \<Rightarrow>
          (if active_id \<noteq> ai_element_id a \<or> active_pi \<noteq> ai_process_instance_key a then Some (AgentInstanceOwnershipMismatch aik)
           else case filter_option (\<lambda>owner. owner \<noteq> aik) (owning_agent_instance e eik) of
             Some owner \<Rightarrow> Some (AgentInstanceConflict aik eik owner)
           | None \<Rightarrow>
               (if ai_element_instance_key a \<noteq> eik \<and> active_writer e (ai_element_instance_key a)
                then Some (AgentInstanceActiveWriter aik (ai_element_instance_key a)) else None)))"

definition metrics_error ::
  "agent_metrics_delta \<Rightarrow> agent_tool list option \<Rightarrow> agent_history_turn list \<Rightarrow> engine_error option" where
  "metrics_error m tools history =
     (if history \<noteq> [] \<and> (m \<noteq> default_metrics \<or> tools \<noteq> None)
        then Some (AgentHistoryInvalid ''history-bearing UPDATE permits only status at request level'')
      else if list_ex (\<lambda>v. v < -1) [input_tokens m, output_tokens m, model_calls m, tool_calls m]
        then Some (AgentHistoryInvalid ''metric deltas must be -1 or nonnegative'')
      else None)"

definition status_error :: "agent_instance \<Rightarrow> key \<Rightarrow> agent_instance_status option \<Rightarrow> engine_error option" where
  "status_error a aik status = map_option (AgentInstanceStatusNotSettable aik)
     (filter_option (\<lambda>target. \<not> agent_is_active target \<or> target = Initializing \<and> ai_status a \<noteq> Initializing) status)"

definition updated_agent ::
  "engine \<Rightarrow> key \<Rightarrow> key \<Rightarrow> string \<Rightarrow> agent_instance_status option \<Rightarrow> agent_metrics_delta \<Rightarrow> agent_tool list option \<Rightarrow> agent_history_turn list
     \<Rightarrow> agent_instance \<Rightarrow> agent_instance" where
  "updated_agent e eik jk job_lease status m tools turns a =
     (let a1 = apply_history_changes e False turns
            (a\<lparr> ai_status := or_default (ai_status a) status, ai_metrics := with_delta (ai_metrics a) m \<rparr>);
          a2 = a1\<lparr> ai_tools := or_default (ai_tools a1) tools \<rparr>;
          a3 = (if jk \<noteq> 0 then a2\<lparr> ai_job_key := jk, ai_job_lease := job_lease \<rparr> else a2)
      in a3\<lparr> ai_element_instance_keys := (if eik \<in> set (ai_element_instance_keys a3) then ai_element_instance_keys a3
               else ai_element_instance_keys a3 @ [eik]),
             ai_element_instance_key := eik, ai_last_updated_at := now e \<rparr>)"

definition process_update_agent_instance ::
  "key \<Rightarrow> key \<Rightarrow> elementid \<Rightarrow> key \<Rightarrow> key \<Rightarrow> string \<Rightarrow> agent_instance_status option \<Rightarrow> agent_metrics_delta \<Rightarrow> agent_tool list option
     \<Rightarrow> agent_history_turn list \<Rightarrow> engine \<Rightarrow> planned" where
  "process_update_agent_instance aik eik eid ik jk job_lease status m tools history e = (case find_agent_instance e aik of
     None \<Rightarrow> rejected (AgentInstanceNotFound aik)
   | Some a \<Rightarrow>
       (case or_else (update_target_error e a aik eik eid ik)
          (or_else (validate_agent_job_context e eik jk job_lease (history \<noteq> []))
            (or_else (validate_agent_history history False)
              (or_else (metrics_error m tools history) (status_error a aik status)))) of
          Some err \<Rightarrow> rejected err
        | None \<Rightarrow>
            (let turns = stamp jk job_lease history;
                 a1 = updated_agent e eik jk job_lease status m tools turns a;
                 el = emit (EAgent (AgentInstanceUpdated (ai_process_instance_key a1) a1)) (e, [])
             in accepted [] (if turns = [] then el else append_agent_history aik turns el))))"

definition process_complete_agent_instance :: "key \<Rightarrow> engine \<Rightarrow> planned" where
  "process_complete_agent_instance aik e = (case find_agent_instance e aik of
     None \<Rightarrow> rejected (AgentInstanceNotFound aik)
   | Some a \<Rightarrow>
       (if \<not> agent_is_active (ai_status a) then rejected (AgentInstanceAlreadyCompleted aik)
        else accepted [] (emit (EAgent (AgentInstanceCompleted (ai_process_instance_key a)
          (a\<lparr> ai_status := AgentCompleted, ai_completed_at := now e, ai_last_updated_at := now e \<rparr>))) (e, []))))"

end
