(* ===== verification/Commands.thy ===== *)
theory Commands
  imports Agent_Commands
begin

text \<open>
  The commands of the engine and their processing (\<open>engine-core/src/command.rs\<close>, \<open>engine/mod.rs\<close>): a command is
  planned, which rejects it or emits its first events and queues steps; the step loop runs until nothing is left to do; the
  children of ended instances are cancelled. The journal of an engine is the concatenation of the logs of its commands.
\<close>

datatype command =
    DeployProcess process_definition
  | DeployResources "process_definition list"
  | DeployDecisionRequirements "decision_requirements_graph list"
  | DeployForms "form_resource list"
  | DeployGenericResources "generic_resource list"
  | DeleteDecisionInstance key key
  | CreateInstance string vars "string list" "string option" "key option" "int option"
  | CompleteJob key "string option" vars "adhoc_job_result option" "task_listener_job_result option"
  | AssignUserTask key string bool
  | UnassignUserTask key
  | UpdateUserTask key user_task_changeset
  | CompleteUserTask key vars
  | ActivateJobs string string nat u64 u64 "string list" bool
  | ActivateJobsByKey "key list" string u64 u64 "string list" bool
  | ExpireJobs u64
  | ExpireJobsByDurability u64 bool
  | TriggerTimers u64
  | FailJob key "string option" int string
  | ThrowJobError key "string option" string string vars
  | UpdateJobRetries key "string option" int "int option"
  | UpdateJobTimeout key "string option" int "int option"
  | UpdateJob key "int option" "int option" "int option" "string option"
  | ResolveIncident key "int option"
  | SetVariables key vars bool
  | CorrelateMessage string string vars
  | BroadcastSignal string vars
  | OpenMessageSubscription key key key elementid string string message_subscription_kind
  | CorrelateMessageSubscription key key key key elementid message_subscription_kind vars
  | CloseMessageSubscription key key key elementid
  | CancelInstance key
  | SuspendInstance key
  | ResumeInstance key
  | MigrateInstance key key "(elementid \<times> elementid) list"
  | ModifyInstance key "activate_element_instruction list" "key list"
  | DispatchStartInstance string elementid vars "string list" "string option"
  | ActivateAdHocActivities key "adhoc_activate_element list" bool
  | CreateAgentInstance key key string agent_definition "agent_instance_limits option" "agent_history_turn list"
  | UpdateAgentInstance key key elementid key key string "agent_instance_status option" agent_metrics_delta
      "agent_tool list option" "agent_history_turn list"
  | CompleteAgentInstance key

definition quietly :: "engine_error + logged \<Rightarrow> planned" where
  "quietly r = Some (map_sum id (Pair []) r)"

definition dispatch_command :: "feel \<Rightarrow> command \<Rightarrow> u64 \<Rightarrow> engine \<Rightarrow> planned" where
  "dispatch_command F c t e = (case c of
     DeployProcess p \<Rightarrow> deploy F [p] e
   | DeployResources ps \<Rightarrow> deploy F ps e
   | DeployDecisionRequirements graphs \<Rightarrow> deploy_decisions graphs e
   | DeployForms fs \<Rightarrow> deploy_forms fs e
   | DeployGenericResources rs \<Rightarrow> deploy_generic_resources rs e
   | DeleteDecisionInstance ik dek \<Rightarrow> delete_decision_instance ik dek e
   | CreateInstance process_id vs tags business_id pdk version \<Rightarrow> create_instance process_id vs tags business_id pdk version e
   | CompleteJob jk lease_token vs adhoc_result listener_result \<Rightarrow> complete_job jk lease_token vs adhoc_result listener_result e
   | AssignUserTask utk assignee allow_override \<Rightarrow> assign_user_task F utk assignee allow_override e
   | UnassignUserTask utk \<Rightarrow> unassign_user_task F utk e
   | UpdateUserTask utk changeset \<Rightarrow> update_user_task F utk changeset e
   | CompleteUserTask utk vs \<Rightarrow> complete_user_task F utk vs e
   | ActivateJobs job_type worker max_jobs timeout now' fetch with_lease \<Rightarrow>
       accepted [] (activate_jobs_command job_type worker max_jobs timeout now' fetch with_lease e)
   | ActivateJobsByKey jks worker timeout now' fetch with_lease \<Rightarrow>
       accepted [] (activate_jobs_by_key_command jks worker timeout now' fetch with_lease e)
   | ExpireJobs now' \<Rightarrow> accepted [] (expire_job_locks now' None (e, []))
   | ExpireJobsByDurability now' durable \<Rightarrow> accepted [] (expire_job_locks now' (Some durable) (e, []))
   | TriggerTimers now' \<Rightarrow> trigger_timers F now' e
   | FailJob jk lease_token retries message \<Rightarrow> quietly (fail_job jk lease_token retries message e)
   | ThrowJobError jk lease_token code message vs \<Rightarrow> throw_job_error jk lease_token code message vs e
   | UpdateJobRetries jk lease_token retries opref \<Rightarrow> quietly (update_job_properties jk (Some retries) None opref lease_token (e, []))
   | UpdateJobTimeout jk lease_token timeout opref \<Rightarrow> quietly (update_job_properties jk None (Some timeout) opref lease_token (e, []))
   | UpdateJob jk retries timeout opref lease_token \<Rightarrow> quietly (update_job_properties jk retries timeout opref lease_token (e, []))
   | ResolveIncident incident_key opref \<Rightarrow> resolve_incident_command incident_key opref e
   | SetVariables scope_key vs local \<Rightarrow> set_variables scope_key vs local e
   | CorrelateMessage name ck vs \<Rightarrow> correlate_message name ck vs e
   | BroadcastSignal name vs \<Rightarrow> broadcast_signal name vs e
   | OpenMessageSubscription sk ik eik eid name ck kind \<Rightarrow> open_message_subscription sk ik eik eid name ck kind e
   | CorrelateMessageSubscription sk mk ik eik eid kind vs \<Rightarrow> correlate_message_subscription sk mk ik eik eid kind vs e
   | CloseMessageSubscription sk ik eik eid \<Rightarrow> close_message_subscription sk ik eik eid e
   | CancelInstance ik \<Rightarrow> cancel_instance F ik e
   | SuspendInstance ik \<Rightarrow> quietly (suspend_instance ik t e)
   | ResumeInstance ik \<Rightarrow> quietly (resume_instance ik e)
   | MigrateInstance ik target_key instrs \<Rightarrow> migrate_instance_command ik target_key instrs e
   | ModifyInstance ik activations terminations \<Rightarrow> modify_instance ik activations terminations e
   | DispatchStartInstance process_id start_event vs tags business_id \<Rightarrow>
       dispatch_start_instance process_id start_event vs tags business_id e
   | ActivateAdHocActivities container_key instrs cancel_remaining \<Rightarrow>
       activate_adhoc_activities container_key instrs cancel_remaining e
   | CreateAgentInstance eik jk job_lease d limits history \<Rightarrow> process_create_agent_instance eik jk job_lease d limits history e
   | UpdateAgentInstance aik eik eid ik jk job_lease status m tools history \<Rightarrow>
       process_update_agent_instance aik eik eid ik jk job_lease status m tools history e
   | CompleteAgentInstance aik \<Rightarrow> process_complete_agent_instance aik e)"

definition plan_command_at :: "feel \<Rightarrow> command \<Rightarrow> u64 \<Rightarrow> engine \<Rightarrow> planned" where
  "plan_command_at F c t e = dispatch_command F c t (begin_command t e)"

text \<open>A rejected command has set the clock and forgotten the torn-down scopes of the command before, nothing else.\<close>

definition apply_command_at :: "feel \<Rightarrow> command \<Rightarrow> u64 \<Rightarrow> engine \<Rightarrow> (engine \<times> (engine_error + event list)) option" where
  "apply_command_at F c t e = do {
     r \<leftarrow> plan_command_at F c t e;
     case r of
       Inl err \<Rightarrow> Some (begin_command t e, Inl err)
     | Inr (queue, e1, log) \<Rightarrow> map_option (map_prod id Inr) (run_planned F (log, queue) e1)
   }"

definition apply_command :: "feel \<Rightarrow> command \<Rightarrow> engine \<Rightarrow> (engine \<times> (engine_error + event list)) option" where
  "apply_command F c e = apply_command_at F c (now e) e"

text \<open>A sequence of commands, each at its time, with the journal they write.\<close>

fun process_commands :: "feel \<Rightarrow> (command \<times> u64) list \<Rightarrow> logged \<Rightarrow> logged option" where
  "process_commands F [] el = Some el"
| "process_commands F ((c, t) # cs) el = do {
     (e1, r) \<leftarrow> apply_command_at F c t (fst el);
     process_commands F cs (e1, snd el @ (case r of Inl _ \<Rightarrow> [] | Inr log \<Rightarrow> log))
   }"

end
