(* ===== verification/Planning.thy ===== *)
theory Planning
  imports Step_Loop
begin

text \<open>
  Planners do not change the state: whatever step is processed, the engine it leaves differs from the engine it found in
  the key counter and in the scopes marked as torn down only. With \<open>emit\<close> this makes the whole step loop event sourced.
\<close>

section \<open>The frame of a planner\<close>

definition strip :: "engine \<Rightarrow> engine" where
  "strip e = e\<lparr> next_local := 0, torn_down_scopes := {||} \<rparr>"

lemma strip_updates [simp]:
  "strip (e\<lparr> next_local := n \<rparr>) = strip e" "strip (e\<lparr> torn_down_scopes := s \<rparr>) = strip e"
  by (simp_all add: strip_def)

lemma strip_fields: "strip e1 = strip e \<Longrightarrow> est e1 = est e \<and> partition_id e1 = partition_id e \<and> now e1 = now e"
  by (cases e; cases e1) (simp add: strip_def)

named_theorems planner \<open>a planner that returns leaves the engine it was given, up to minted keys and torn-down marks\<close>

lemma mint_key_strip [simp]: "strip (snd (mint_key e)) = strip e"
  by (simp add: mint_key_def Let_def)

lemma mint_each_strip [simp]: "strip (snd (mint_each f xs e)) = strip e"
  by (induction xs arbitrary: e) (simp_all add: Let_def case_prod_beta)

lemma incident_strip [simp]:
  "strip (snd (incident_raised ik eik eid kind r reason e)) = strip e"
  "strip (snd (io_mapping_incident ik eik eid reason rd e)) = strip e"
  by (simp_all add: incident_raised_def io_mapping_incident_def Let_def case_prod_beta)

lemma job_strip [simp]:
  "strip (snd (listener_job F vs ik eik eid ty index scope l e)) = strip e"
  "strip (snd (job_created ik eik eid t p r e)) = strip e"
  "strip (snd (service_job F vs ik eik eid t prio retries e)) = strip e"
  by (simp_all add: listener_job_def job_created_def service_job_def Let_def case_prod_beta)

lemma join_strip [simp]:
  "strip (snd (open_join ik eid scope e)) = strip e"
  "strip (snd (fire_join ik eid scope arrivals e)) = strip e"
  "strip (snd (fire_open_inclusive_join ik eik eid scope e)) = strip e"
  by (simp_all add: open_join_def fire_join_def fire_open_inclusive_join_def Let_def case_prod_beta split: option.split)

lemma after_eventsE: "after_events evs p = Some y \<Longrightarrow> (\<And>x. p = Some x \<Longrightarrow> snd y = snd x \<Longrightarrow> P) \<Longrightarrow> P"
  by (auto simp: after_events_def)

lemma bind_SomeE: "Option.bind m f = Some y \<Longrightarrow> (\<And>x. m = Some x \<Longrightarrow> f x = Some y \<Longrightarrow> P) \<Longrightarrow> P"
  by (cases m) auto

lemmas plan_simps = Let_def case_prod_beta no_plan_def
lemmas plan_elims = after_eventsE bind_SomeE
lemmas plan_splits = option.splits sum.splits list.splits if_splits

lemma begin_end_listener_chain_keeps [planner]:
  "begin_end_listener_chain F ik eik eid scope vs e = Some y \<Longrightarrow> strip (snd y) = strip e"
  by (auto simp: begin_end_listener_chain_def split: list.splits)

lemma arm_boundary_events_keeps [planner]: "arm_boundary_events F ik eik scope eid e = Some y \<Longrightarrow> strip (snd y) = strip e"
  by (auto simp: arm_boundary_events_def Let_def case_prod_beta)

lemma raise_incident_keeps [planner]: "raise_incident ik eik eid kind redrive reason e = Some y \<Longrightarrow> strip (snd y) = strip e"
  by (auto simp: raise_incident_def Let_def case_prod_beta)

section \<open>Gateways\<close>

lemma complete_exclusive_gateway_keeps [planner]: "complete_exclusive_gateway F ik eik eid e = Some y \<Longrightarrow> strip (snd y) = strip e"
  by (auto simp: complete_exclusive_gateway_def plan_simps split: plan_splits elim!: plan_elims dest!: planner)

lemma finalize_exclusive_gateway_keeps [planner]: "finalize_exclusive_gateway F ik eik eid scope e = Some y \<Longrightarrow> strip (snd y) = strip e"
  by (auto simp: finalize_exclusive_gateway_def plan_simps split: plan_splits elim!: plan_elims dest!: planner)

lemma route_inclusive_gateway_keeps [planner]: "route_inclusive_gateway F ik eik eid scope e = Some y \<Longrightarrow> strip (snd y) = strip e"
  by (auto simp: route_inclusive_gateway_def plan_simps split: plan_splits elim!: plan_elims dest!: planner)

lemma complete_inclusive_gateway_keeps [planner]: "complete_inclusive_gateway F ik eik eid e = Some y \<Longrightarrow> strip (snd y) = strip e"
  by (auto simp: complete_inclusive_gateway_def plan_simps split: plan_splits elim!: plan_elims dest!: planner)

lemma finalize_inclusive_gateway_keeps [planner]: "finalize_inclusive_gateway F ik eik eid scope e = Some y \<Longrightarrow> strip (snd y) = strip e"
  by (auto simp: finalize_inclusive_gateway_def plan_simps split: plan_splits elim!: plan_elims dest!: planner)

lemma activate_parallel_join_keeps [planner]: "activate_parallel_join ik eid scope via pending e = Some y \<Longrightarrow> strip (snd y) = strip e"
  by (auto simp: activate_parallel_join_def plan_simps split: plan_splits elim!: plan_elims dest!: planner)

lemma activate_inclusive_join_keeps [planner]: "activate_inclusive_join F ik eid scope via pending e = Some y \<Longrightarrow> strip (snd y) = strip e"
  by (auto simp: activate_inclusive_join_def plan_simps split: plan_splits elim!: plan_elims dest!: planner)

lemma activate_join_keeps [planner]: "activate_join F ik eid scope via join pending e = Some y \<Longrightarrow> strip (snd y) = strip e"
  by (auto simp: activate_join_def plan_simps split: plan_splits join_kind.splits elim!: plan_elims dest!: planner)

section \<open>Activation\<close>

lemma spawn_call_activity_instance_keeps [planner]: "spawn_call_activity_instance F parent call_eik eid called view seed projection e = Some y \<Longrightarrow> strip (snd y) = strip e"
  by (auto simp: spawn_call_activity_instance_def plan_simps split: plan_splits elim!: plan_elims dest!: planner)

lemma spawn_call_activity_child_keeps [planner]: "spawn_call_activity_child F parent call_eik eid called prop vs e = Some y \<Longrightarrow> strip (snd y) = strip e"
  by (auto simp: spawn_call_activity_child_def plan_simps split: plan_splits elim!: plan_elims dest!: planner)

lemma mint_task_listener_job_keeps [planner]: "mint_task_listener_job F utk ik eik eid ty index l e = Some y \<Longrightarrow> strip (snd y) = strip e"
  by (auto simp: mint_task_listener_job_def plan_simps split: plan_splits elim!: plan_elims dest!: planner)

lemma start_task_listener_chain_keeps [planner]: "start_task_listener_chain F utk ik eik eid ty pending first e = Some y \<Longrightarrow> strip (snd y) = strip e"
  by (auto simp: start_task_listener_chain_def plan_simps split: plan_splits elim!: plan_elims dest!: planner)

lemma initial_listeners_keeps [planner]: "initial_listeners F utk ik eik eid deferred e = Some y \<Longrightarrow> strip (snd y) = strip e"
  by (auto simp: initial_listeners_def plan_simps split: plan_splits elim!: plan_elims dest!: planner)

lemma activate_service_task_keeps [planner]: "activate_service_task F ik eik eid scope vs t prio e = Some y \<Longrightarrow> strip (snd y) = strip e"
  by (auto simp: activate_service_task_def plan_simps split: plan_splits elim!: plan_elims dest!: planner)

lemma activate_user_task_keeps [planner]: "activate_user_task F ik eik eid scope vs props e = Some y \<Longrightarrow> strip (snd y) = strip e"
  by (auto simp: activate_user_task_def plan_simps split: plan_splits elim!: plan_elims dest!: planner)

lemma activate_timer_catch_keeps [planner]: "activate_timer_catch F ik eik eid vs millis e = Some y \<Longrightarrow> strip (snd y) = strip e"
  by (auto simp: activate_timer_catch_def plan_simps split: plan_splits elim!: plan_elims dest!: planner)

lemma activate_message_catch_keeps [planner]: "activate_message_catch F ik eik eid vs name ck e = Some y \<Longrightarrow> strip (snd y) = strip e"
  by (auto simp: activate_message_catch_def plan_simps split: plan_splits elim!: plan_elims dest!: planner)

lemma activate_signal_catch_keeps [planner]: "activate_signal_catch F ik eik eid vs name e = Some y \<Longrightarrow> strip (snd y) = strip e"
  by (auto simp: activate_signal_catch_def plan_simps split: plan_splits elim!: plan_elims dest!: planner)

lemma activate_conditional_catch_keeps [planner]: "activate_conditional_catch F ik eik eid condition e = Some y \<Longrightarrow> strip (snd y) = strip e"
  by (auto simp: activate_conditional_catch_def plan_simps split: plan_splits elim!: plan_elims dest!: planner)

lemma activate_sub_process_keeps [planner]: "activate_sub_process F ik eik eid scope start e = Some y \<Longrightarrow> strip (snd y) = strip e"
  by (auto simp: activate_sub_process_def plan_simps split: plan_splits elim!: plan_elims dest!: planner)

lemma activate_call_activity_keeps [planner]: "activate_call_activity F ik eik eid scope vs called prop e = Some y \<Longrightarrow> strip (snd y) = strip e"
  by (auto simp: activate_call_activity_def plan_simps split: plan_splits elim!: plan_elims dest!: planner)

lemma activate_compensation_throw_keeps [planner]: "activate_compensation_throw ik eik eid scope e = Some y \<Longrightarrow> strip (snd y) = strip e"
  by (auto simp: activate_compensation_throw_def plan_simps split: plan_splits elim!: plan_elims dest!: planner)

lemma run_activation_body_keeps [planner]: "run_activation_body F ik eid eik scope vs e = Some y \<Longrightarrow> strip (snd y) = strip e"
  by (auto simp: run_activation_body_def plan_simps split: plan_splits element_kind.splits elim!: plan_elims dest!: planner)

lemma activate_body_keeps [planner]: "activate_body F ik eid eik scope e = Some y \<Longrightarrow> strip (snd y) = strip e"
  by (auto simp: activate_body_def plan_simps split: plan_splits elim!: plan_elims dest!: planner)

lemma run_mi_body_activation_keeps [planner]: "run_mi_body_activation F ik eid body_key scope mi e = Some y \<Longrightarrow> strip (snd y) = strip e"
  by (auto simp: run_mi_body_activation_def plan_simps split: plan_splits elim!: plan_elims dest!: planner)

lemma activate_multi_instance_body_keeps [planner]: "activate_multi_instance_body F ik eid scope mi e = Some y \<Longrightarrow> strip (snd y) = strip e"
  by (auto simp: activate_multi_instance_body_def plan_simps split: plan_splits elim!: plan_elims dest!: planner)

lemma activate_keeps [planner]: "activate F ik eid scope via pending e = Some y \<Longrightarrow> strip (snd y) = strip e"
  by (auto simp: activate_def plan_simps split: plan_splits elim!: plan_elims dest!: planner)

lemma run_mi_child_behaviour_keeps [planner]: "run_mi_child_behaviour F ik eid child_key vs e = Some y \<Longrightarrow> strip (snd y) = strip e"
  by (auto simp: run_mi_child_behaviour_def plan_simps split: plan_splits element_kind.splits elim!: plan_elims dest!: planner)

lemma activate_mi_child_keeps [planner]: "activate_mi_child F ik eid body_key index e = Some y \<Longrightarrow> strip (snd y) = strip e"
  by (auto simp: activate_mi_child_def plan_simps split: plan_splits elim!: plan_elims dest!: planner)

lemma retry_mi_child_activation_keeps [planner]: "retry_mi_child_activation F ik eid body_key child_key index e = Some y \<Longrightarrow> strip (snd y) = strip e"
  by (auto simp: retry_mi_child_activation_def plan_simps split: plan_splits elim!: plan_elims dest!: planner)

lemma activate_nested_container_keeps [planner]: "activate_nested_container F ik child_key eid kind vs d e = Some y \<Longrightarrow> strip (snd y) = strip e"
  by (auto simp: activate_nested_container_def plan_simps split: plan_splits elim!: plan_elims dest!: planner)

lemma run_tool_behaviour_keeps [planner]: "run_tool_behaviour F ik child_key inner_key eid kind vs inputs e = Some y \<Longrightarrow> strip (snd y) = strip e"
  by (auto simp: run_tool_behaviour_def plan_simps split: plan_splits adhoc_tool_kind.splits elim!: plan_elims dest!: planner)

lemma activate_adhoc_tool_keeps [planner]: "activate_adhoc_tool F ik container_key eid seed e = Some y \<Longrightarrow> strip (snd y) = strip e"
  by (auto simp: activate_adhoc_tool_def plan_simps split: plan_splits elim!: plan_elims dest!: planner)

lemma create_job_for_keeps [planner]: "create_job_for F ik eik eid e = Some y \<Longrightarrow> strip (snd y) = strip e"
  by (auto simp: create_job_for_def plan_simps split: plan_splits element_kind.splits elim!: plan_elims dest!: planner)

section \<open>Loops and containers\<close>

lemma then_every_flow_keeps [planner]: "then_every_flow evs ik eid scope e = Some y \<Longrightarrow> strip (snd y) = strip e"
  by (auto simp: then_every_flow_def plan_simps split: plan_splits elim!: plan_elims dest!: planner)

lemma complete_mi_child_keeps [planner]: "complete_mi_child F ik child_eik eid body_key produced e = Some y \<Longrightarrow> strip (snd y) = strip e"
  by (auto simp: complete_mi_child_def plan_simps split: plan_splits elim!: plan_elims dest!: planner)

lemma cancel_mi_children_keeps [planner]: "cancel_mi_children ik body_key children e = Some y \<Longrightarrow> strip (snd y) = strip e"
  by (induction children arbitrary: e y) (auto simp: plan_simps split: if_splits elim!: plan_elims)

lemma complete_multi_instance_body_keeps [planner]: "complete_multi_instance_body F ik body_key e = Some y \<Longrightarrow> strip (snd y) = strip e"
  by (auto simp: complete_multi_instance_body_def plan_simps split: plan_splits elim!: plan_elims dest!: planner)

lemma finalize_multi_instance_body_keeps [planner]: "finalize_multi_instance_body ik body_key e = Some y \<Longrightarrow> strip (snd y) = strip e"
  by (auto simp: finalize_multi_instance_body_def plan_simps split: plan_splits elim!: plan_elims dest!: planner)

lemma adhoc_agent_job_events_keeps [planner]: "adhoc_agent_job_events F ik container_key container_id e = Some y \<Longrightarrow> strip (snd y) = strip e"
  by (auto simp: adhoc_agent_job_events_def plan_simps split: plan_splits elim!: plan_elims dest!: planner)

lemma next_turn_keeps [planner]: "next_turn F ik container_key a e = Some y \<Longrightarrow> strip (snd y) = strip e"
  by (auto simp: next_turn_def plan_simps split: plan_splits elim!: plan_elims dest!: planner)

lemma after_tool_keeps [planner]:
  "after_tool F e ik container_key a updates events p = Some y \<Longrightarrow> (\<And>x. p = Some x \<Longrightarrow> strip (snd x) = strip e) \<Longrightarrow> strip (snd y) = strip e"
  by (auto simp: after_tool_def plan_simps split: adhoc_post_tool.splits elim!: plan_elims)

lemma continue_adhoc_inner_flow_keeps [planner]: "continue_adhoc_inner_flow F ik child_eik tool_id container_key inner_key targets precomputed e = Some y \<Longrightarrow> strip (snd y) = strip e"
  by (auto simp: continue_adhoc_inner_flow_def plan_simps split: plan_splits elim!: plan_elims dest!: planner)

lemma complete_adhoc_tool_keeps [planner]: "complete_adhoc_tool F ik child_eik tool_id container_key inner_key precomputed e = Some y \<Longrightarrow> strip (snd y) = strip e"
  by (auto simp: complete_adhoc_tool_def plan_simps split: plan_splits elim!: plan_elims dest!: planner)

lemma complete_nested_container_keeps [planner]: "complete_nested_container F ik container_key eid parent inner_key cancel e = Some y \<Longrightarrow> strip (snd y) = strip e"
  by (auto simp: complete_nested_container_def plan_simps split: plan_splits elim!: plan_elims dest!: planner)

lemma complete_flow_container_keeps [planner]: "complete_flow_container F ik container_key a scope cancel e = Some y \<Longrightarrow> strip (snd y) = strip e"
  by (auto simp: complete_flow_container_def plan_simps split: plan_splits elim!: plan_elims dest!: planner)

lemma complete_adhoc_container_keeps [planner]: "complete_adhoc_container F ik container_key cancel e = Some y \<Longrightarrow> strip (snd y) = strip e"
  by (auto simp: complete_adhoc_container_def plan_simps split: plan_splits elim!: plan_elims dest!: planner)

lemma finalize_adhoc_container_keeps [planner]: "finalize_adhoc_container ik container_key cancelled e = Some y \<Longrightarrow> strip (snd y) = strip e"
  by (auto simp: finalize_adhoc_container_def plan_simps split: plan_splits elim!: plan_elims dest!: planner)

section \<open>Completion\<close>

lemma interrupted_by_escalation_keeps [planner]: "interrupted_by_escalation ik throw_eik boundary_id caught_eik caught_id e = Some y \<Longrightarrow> strip (snd y) = strip e"
  by (auto simp: interrupted_by_escalation_def plan_simps split: plan_splits elim!: plan_elims dest!: planner)

lemma raise_escalation_from_throw_keeps [planner]: "raise_escalation_from_throw ik throw_eik throw_id scope code events e = Some y \<Longrightarrow> strip (snd y) = strip e"
  by (auto simp: raise_escalation_from_throw_def plan_simps split: plan_splits elim!: plan_elims dest!: planner)

lemma complete_terminate_end_keeps [planner]: "complete_terminate_end ik eik eid scope e = Some y \<Longrightarrow> strip (snd y) = strip e"
  by (auto simp: complete_terminate_end_def plan_simps split: plan_splits elim!: plan_elims dest!: planner)

lemma route_thrown_keeps [planner]: "route_thrown ik eik eid scope events compensable e = Some y \<Longrightarrow> strip (snd y) = strip e"
  by (auto simp: route_thrown_def plan_simps split: plan_splits element_kind.splits elim!: plan_elims dest!: planner)

lemma route_completed_keeps [planner]: "route_completed ik eik eid scope events e = Some y \<Longrightarrow> strip (snd y) = strip e"
  by (auto simp: route_completed_def plan_simps split: plan_splits elim!: plan_elims dest!: planner)

lemma complete_with_keeps [planner]: "complete_with F ik eik eid decision_event script_update e = Some y \<Longrightarrow> strip (snd y) = strip e"
  by (auto simp: complete_with_def plan_simps split: plan_splits elim!: plan_elims dest!: planner)

lemma complete_script_task_keeps [planner]: "complete_script_task F ik eik eid expression result_variable e = Some y \<Longrightarrow> strip (snd y) = strip e"
  by (auto simp: complete_script_task_def plan_simps split: plan_splits elim!: plan_elims dest!: planner)

lemma complete_business_rule_task_keeps [planner]: "complete_business_rule_task F ik eik eid decision_id result_variable e = Some y \<Longrightarrow> strip (snd y) = strip e"
  by (auto simp: complete_business_rule_task_def plan_simps split: plan_splits elim!: plan_elims dest!: planner)

lemma engine_complete_keeps [planner]: "engine_complete F ik eik eid e = Some y \<Longrightarrow> strip (snd y) = strip e"
  by (auto simp: engine_complete_def plan_simps split: plan_splits element_kind.splits elim!: plan_elims dest!: planner)

lemma finalize_compensation_handler_keeps [planner]: "finalize_compensation_handler ik eik eid throw_eik e = Some y \<Longrightarrow> strip (snd y) = strip e"
  by (auto simp: finalize_compensation_handler_def plan_simps split: plan_splits elim!: plan_elims dest!: planner)

lemma finalize_completion_keeps [planner]: "finalize_completion ik eik eid scope e = Some y \<Longrightarrow> strip (snd y) = strip e"
  by (auto simp: finalize_completion_def plan_simps split: plan_splits elim!: plan_elims dest!: planner)

lemma finalize_subprocess_keeps [planner]: "finalize_subprocess ik eik eid scope e = Some y \<Longrightarrow> strip (snd y) = strip e"
  by (auto simp: finalize_subprocess_def plan_simps split: plan_splits elim!: plan_elims dest!: planner)

lemma finalize_end_transition_keeps [planner]: "finalize_end_transition F ik eik eid scope e = Some y \<Longrightarrow> strip (snd y) = strip e"
  by (auto simp: finalize_end_transition_def plan_simps split: plan_splits element_kind.splits elim!: plan_elims dest!: planner)

lemma advance_listener_keeps [planner]: "advance_listener F ik eik eid ty index scope e = Some y \<Longrightarrow> strip (snd y) = strip e"
  by (auto simp: advance_listener_def plan_simps split: plan_splits listener_event_type.splits elim!: plan_elims dest!: planner)

lemma commit_user_task_transition_keeps [planner]: "commit_user_task_transition F utk e = Some y \<Longrightarrow> strip (snd y) = strip e"
  by (auto simp: commit_user_task_transition_def plan_simps split: plan_splits task_listener_event_type.splits elim!: plan_elims dest!: planner)

lemma advance_task_listener_keeps [planner]: "advance_task_listener F utk ty index e = Some y \<Longrightarrow> strip (snd y) = strip e"
  by (auto simp: advance_task_listener_def plan_simps split: plan_splits elim!: plan_elims dest!: planner)

lemma respawn_adhoc_call_activity_tool_keeps [planner]: "respawn_adhoc_call_activity_tool F ik child_eik container_key eid preserved e = Some y \<Longrightarrow> strip (snd y) = strip e"
  by (auto simp: respawn_adhoc_call_activity_tool_def plan_simps split: plan_splits adhoc_tool_kind.splits elim!: plan_elims dest!: planner)

lemma retry_call_activity_spawn_keeps [planner]: "retry_call_activity_spawn F ik eik eid preserved e = Some y \<Longrightarrow> strip (snd y) = strip e"
  by (auto simp: retry_call_activity_spawn_def plan_simps split: plan_splits element_kind.splits elim!: plan_elims dest!: planner)

lemma call_completion_incident_keeps [planner]: "call_completion_incident ik eik eid failure vs e = Some y \<Longrightarrow> strip (snd y) = strip e"
  by (auto simp: call_completion_incident_def plan_simps split: plan_splits elim!: plan_elims dest!: planner)

lemma complete_adhoc_call_activity_tool_keeps [planner]: "complete_adhoc_call_activity_tool F ik child_eik eid container_key inner_key vs e = Some y \<Longrightarrow> strip (snd y) = strip e"
  by (auto simp: complete_adhoc_call_activity_tool_def plan_simps split: plan_splits elim!: plan_elims dest!: planner)

lemma complete_call_activity_keeps [planner]: "complete_call_activity F ik eik eid vs e = Some y \<Longrightarrow> strip (snd y) = strip e"
  by (auto simp: complete_call_activity_def plan_simps split: plan_splits elim!: plan_elims dest!: planner)

lemma process_step_keeps [planner]: "process_step F st pending e = Some y \<Longrightarrow> strip (snd y) = strip e"
  by (auto simp: process_step_def plan_simps split: plan_splits step.splits elim!: plan_elims dest!: planner)

end
