(* ===== verification/Loop_Log.thy ===== *)
theory Loop_Log
  imports Planning
begin

text \<open>
  The step loop is event sourced: every change it makes to the state is an event it appends to the log, in the order of the
  log, whatever the driver, so that replaying the log of a command rebuilds the state the command left.
\<close>

section \<open>Evolution of an engine with its log\<close>

definition evolves :: "logged \<Rightarrow> logged \<Rightarrow> bool" where
  "evolves el el' \<longleftrightarrow> (\<exists>evs. snd el' = snd el @ evs \<and> est (fst el') = fold apply_event evs (est (fst el)))
     \<and> retired_tombstones (fst el') = retired_tombstones (fst el)"

lemma evolves_refl [simp]: "evolves el el"
  by (auto simp: evolves_def intro: exI [of _ "[]"])

lemma evolves_trans: "evolves a b \<Longrightarrow> evolves b c \<Longrightarrow> evolves a c"
  unfolding evolves_def
proof (elim conjE exE)
  fix xs ys
  assume "snd b = snd a @ xs" "est (fst b) = fold apply_event xs (est (fst a))"
    "snd c = snd b @ ys" "est (fst c) = fold apply_event ys (est (fst b))"
    "retired_tombstones (fst b) = retired_tombstones (fst a)" "retired_tombstones (fst c) = retired_tombstones (fst b)"
  then show "(\<exists>evs. snd c = snd a @ evs \<and> est (fst c) = fold apply_event evs (est (fst a)))
      \<and> retired_tombstones (fst c) = retired_tombstones (fst a)"
    by (intro conjI exI [of _ "xs @ ys"]) simp_all
qed

lemma evolves_emit [simp]: "evolves el (emit ev el)"
  using emits_emit [of ev el] by (auto simp: evolves_def emits_def emit_tombstones)

lemma evolves_emitI: "evolves el el1 \<Longrightarrow> evolves el (emit ev el1)"
  by (rule evolves_trans [OF _ evolves_emit])

lemma evolves_emitD: "evolves (emit ev el) el1 \<Longrightarrow> evolves el el1"
  by (rule evolves_trans [OF evolves_emit])

lemma evolves_foldI: "(\<And>x el. evolves el (f x el)) \<Longrightarrow> evolves el el1 \<Longrightarrow> evolves el (fold f xs el1)"
proof (induction xs arbitrary: el1)
  case (Cons x xs)
  have "evolves el (f x el1)" using Cons.prems evolves_trans by blast
  with Cons show ?case by simp
qed simp

lemma evolves_planned: "strip e1 = strip (fst el) \<Longrightarrow> evolves el (e1, snd el)"
  by (cases el; cases e1; cases "fst el") (auto simp: evolves_def strip_def intro: exI [of _ "[]"])

lemma evolves_plannedI: "evolves a el \<Longrightarrow> strip e1 = strip (fst el) \<Longrightarrow> evolves a (e1, snd el)"
  using evolves_trans evolves_planned by blast

lemma evolves_emit_allI: "evolves el el1 \<Longrightarrow> evolves el (emit_all f el1)"
  unfolding emit_all_def by (rule evolves_foldI) simp_all

lemmas evolution = evolves_emitI evolves_emit_allI evolves_foldI evolves_plannedI

section \<open>Teardown and cascades\<close>

lemma complete_element_evolves: "evolves el el1 \<Longrightarrow> evolves el (complete_element ik eik eid el1)"
  unfolding complete_element_def by (intro evolution)

lemma terminate_scope_evolves:
  "terminate_subprocess_scope ik scope el = Some el1 \<Longrightarrow> evolves el el1"
  unfolding terminate_subprocess_scope_def Let_def
  by (auto intro!: evolves_foldI evolves_plannedI [OF evolves_refl])

lemma discard_evolves: "evolves el (discard_and_terminate_instance ik el)"
  unfolding discard_and_terminate_instance_def by (auto simp: Let_def intro!: evolution)

lemma terminate_scope_evolvesI:
  "terminate_subprocess_scope ik scope el1 = Some el2 \<Longrightarrow> evolves el el1 \<Longrightarrow> evolves el el2"
  using terminate_scope_evolves evolves_trans by blast

lemma interrupt_evolves:
  assumes "interrupt_activity_via_boundary ik eik eid el = Some el1"
  shows "evolves el el1"
proof -
  define cancel_job where "cancel_job = (\<lambda>el. emit_all (\<lambda>e. option_event (\<lambda>jk. EJob (JobCanceled jk ik)) (active_job_on e eik)) el)"
  have job: "evolves el (cancel_job el)" unfolding cancel_job_def by (intro evolution evolves_refl)
  from assms obtain el0 where el1: "el1 = emit_all (\<lambda>e. cancel_boundary_conditional_subscriptions_on e eik)
      (emit_all (\<lambda>e. cancel_boundary_signal_subscriptions_on e eik)
        (emit_all (\<lambda>e. cancel_boundary_message_subscriptions_on e eik)
          (emit_all (\<lambda>e. cancel_boundary_timers_on e eik) (complete_element ik eik eid el0))))"
    and "(if is_multi_instance_body (fst el) ik eik
       then map_option (emit (EMultiInstance (MultiInstanceCompleted ik eik)))
              (terminate_subprocess_scope ik eik (emit_all (\<lambda>e. resolve_incidents_on e ik eik) (cancel_job el)))
       else if is_subprocess (fst el) ik eid then terminate_subprocess_scope ik eik el
       else if is_adhoc_container (fst el) ik eik
       then map_option (emit (EAdHoc (AdHocCompleted ik eik True))) (terminate_subprocess_scope ik eik (cancel_job el))
       else (case call_activity_child_of (fst el) eik of
           Some child \<Rightarrow> Some (discard_and_terminate_instance child el) | None \<Rightarrow> Some (cancel_job el))) = Some el0"
    unfolding interrupt_activity_via_boundary_def Let_def cancel_job_def map_option_eq_Some by blast
  from this(2) have "evolves el el0"
    by (auto simp del: split_paired_All split_paired_Ex split: if_splits option.splits
        intro!: evolves_emitI evolves_emit_allI job discard_evolves intro: terminate_scope_evolvesI)
  then show ?thesis unfolding el1 by (intro evolution complete_element_evolves)
qed

lemma cascade_from_evolves:
  assumes "cascade_from ended el = Some el1"
  shows "evolves el el1"
proof (rule cascade_from.raw_induct [where P = "\<lambda>_ el el1. evolves el el1", OF _ assms])
  fix f ended and el el1 :: logged
  assume IH: "\<And>ended el y. f ended el = Some y \<Longrightarrow> evolves el y"
    and "(let children = live_children (est (fst el)) ended
      in if children = [] then Some el
         else f (ended |\<union>| fset_of_list children) (fold discard_and_terminate_instance children el)) = Some el1"
  then show "evolves el el1"
    by (auto simp: Let_def simp del: split_paired_All split_paired_Ex split: if_splits
        intro: evolves_trans [OF evolves_foldI [OF discard_evolves evolves_refl] IH])
qed

lemma cascade_evolves: "cascade_cancel_children el = Some el1 \<Longrightarrow> evolves el el1"
  unfolding cascade_cancel_children_def Let_def by (auto split: if_splits dest: cascade_from_evolves)

section \<open>The loop\<close>

lemma take_step_evolves: "take_step F queue el = Some r \<Longrightarrow> evolves el (snd r)"
  unfolding take_step_def
  by (auto elim!: bind_SomeE dest!: process_step_keeps simp: case_prod_beta intro!: evolves_foldI evolves_planned)

lemma disarm_boundaries_evolves: "evolves el el1 \<Longrightarrow> evolves el (disarm_boundaries eik el1)"
  unfolding disarm_boundaries_def by (intro evolution)

lemma emit_propagated_evolves: "emit_propagated ik scope updates el = Some el1 \<Longrightarrow> evolves el el1"
  unfolding emit_propagated_def by (auto intro!: evolves_foldI)

lemma drain_scope_evolves: "drain_scope F ik eik eid scope updates el = Some r \<Longrightarrow> evolves el (snd r)"
  unfolding drain_scope_def
  by (auto elim!: bind_SomeE dest!: begin_end_listener_chain_keeps emit_propagated_evolves split: if_splits
      simp: case_prod_beta intro!: evolves_emitI evolves_foldI
      intro: evolves_trans [OF disarm_boundaries_evolves [OF evolves_planned]]
        evolves_trans [OF disarm_boundaries_evolves [OF evolves_emit]])

lemma drain_one_evolves: "drain_one F x el = Some r \<Longrightarrow> evolves el (snd r)"
  unfolding drain_one_def
  by (auto elim!: bind_SomeE dest!: drain_scope_evolves evolves_emitD split: if_splits sum.splits simp: Let_def case_prod_beta
      intro!: disarm_boundaries_evolves evolves_emitI evolves_planned)

lemma drain_all_evolves: "drain_all F xs el = Some r \<Longrightarrow> evolves el (snd r)"
  by (induction xs arbitrary: el r) (auto elim!: bind_SomeE dest!: drain_one_evolves intro: evolves_trans)

lemma release_token_evolves: "release_token kind ik eik eid ql = Some r \<Longrightarrow> evolves (snd ql) (snd r)"
  unfolding release_token_def by (auto split: prod.splits message_subscription_kind.splits dest: interrupt_evolves)

lemma trigger_condition_evolves: "trigger_condition F k ql = Some r \<Longrightarrow> evolves (snd ql) (snd r)"
  unfolding trigger_condition_def
  by (auto split: option.splits if_splits dest!: release_token_evolves intro: evolves_trans [OF evolves_emit])

lemma trigger_conditions_evolves: "trigger_conditions F ks ql = Some r \<Longrightarrow> evolves (snd ql) (snd r)"
  by (induction ks arbitrary: ql r) (auto elim!: bind_SomeE dest!: trigger_condition_evolves intro: evolves_trans)

lemma sweep_evolves: "sweep F cursor el = Some (q, c, el1) \<Longrightarrow> evolves el el1"
  unfolding sweep_def complete_drained_subprocesses_def reevaluate_conditionals_def
  by (auto elim!: bind_SomeE dest!: drain_all_evolves trigger_conditions_evolves intro: evolves_trans)

lemma finish_all_evolves: "evolves el (snd (finish_all iks el))"
proof (induction iks arbitrary: el)
  case (Cons ik iks)
  show ?case using evolves_trans [OF evolves_emit Cons.IH] by (simp add: Let_def case_prod_beta)
qed simp

lemma complete_finished_evolves: "complete_finished_instances el = (steps, el1) \<Longrightarrow> evolves el el1"
  unfolding complete_finished_instances_def by (metis finish_all_evolves snd_conv)

text \<open>Induction along a run that returns, turn by turn.\<close>

lemma run_with_induct [consumes 1, case_names step_pause step sweep_pause sweep finish_pause finish quiet]:
  assumes run: "run_with F drv queue cursor el = Some r"
    and step_pause: "\<And>queue c el q e1 log1. queue \<noteq> [] \<Longrightarrow> take_step F queue el = Some (q, e1, log1) \<Longrightarrow>
      drv (drop (length (snd el)) log1) \<Longrightarrow> P queue c el ((e1, log1), Some (q, c))"
    and step: "\<And>queue c el q e1 log1 r. queue \<noteq> [] \<Longrightarrow> take_step F queue el = Some (q, e1, log1) \<Longrightarrow>
      \<not> drv (drop (length (snd el)) log1) \<Longrightarrow> P q c (e1, log1) r \<Longrightarrow> P queue c el r"
    and sweep_pause: "\<And>c el q c1 el1. sweep F c el = Some (q, c1, el1) \<Longrightarrow> pauses drv el el1 \<Longrightarrow> P [] c el (el1, Some (q, c1))"
    and sweep: "\<And>c el q c1 el1 r. sweep F c el = Some (q, c1, el1) \<Longrightarrow> \<not> pauses drv el el1 \<Longrightarrow> q \<noteq> [] \<Longrightarrow>
      P q c1 el1 r \<Longrightarrow> P [] c el r"
    and finish_pause: "\<And>c el c1 el1 steps el2. sweep F c el = Some ([], c1, el1) \<Longrightarrow> \<not> pauses drv el el1 \<Longrightarrow>
      complete_finished_instances el1 = (steps, el2) \<Longrightarrow> pauses drv el1 el2 \<Longrightarrow> P [] c el (el2, Some ([], c1))"
    and finish: "\<And>c el c1 el1 steps el2 r. sweep F c el = Some ([], c1, el1) \<Longrightarrow> \<not> pauses drv el el1 \<Longrightarrow>
      complete_finished_instances el1 = (steps, el2) \<Longrightarrow> \<not> pauses drv el1 el2 \<Longrightarrow> steps \<noteq> [] \<Longrightarrow> P steps c1 el2 r \<Longrightarrow> P [] c el r"
    and quiet: "\<And>c el c1 el1 el2. sweep F c el = Some ([], c1, el1) \<Longrightarrow> \<not> pauses drv el el1 \<Longrightarrow>
      complete_finished_instances el1 = ([], el2) \<Longrightarrow> \<not> pauses drv el1 el2 \<Longrightarrow> P [] c el (el2, None)"
  shows "P queue cursor el r"
proof -
  have "F = F \<longrightarrow> drv = drv \<longrightarrow> P queue cursor el r"
  proof (rule run_with.raw_induct [where P = "\<lambda>F' drv' q c el r. F' = F \<longrightarrow> drv' = drv \<longrightarrow> P q c el r", OF _ run])
    fix f :: "feel \<Rightarrow> driver \<Rightarrow> step list \<Rightarrow> nat \<Rightarrow> logged \<Rightarrow> (logged \<times> (step list \<times> nat) option) option"
      and F' drv' queue c el r
    assume IH: "\<And>F' drv' q c el y. f F' drv' q c el = Some y \<Longrightarrow> F' = F \<longrightarrow> drv' = drv \<longrightarrow> P q c el y"
    assume turn: "(if queue \<noteq> []
        then Option.bind (take_step F' queue el) (\<lambda>(q, el1).
          if drv' (drop (length (snd el)) (snd el1)) then Some (el1, Some (q, c)) else f F' drv' q c el1)
        else Option.bind (Step_Loop.sweep F' c el) (\<lambda>(q, c1, el1).
          if pauses drv' el el1 then Some (el1, Some (q, c1))
          else if q \<noteq> [] then f F' drv' q c1 el1
          else (case complete_finished_instances el1 of (steps, el2) \<Rightarrow>
            if pauses drv' el1 el2 then Some (el2, Some ([], c1))
            else if steps \<noteq> [] then f F' drv' steps c1 el2
            else Some (el2, None)))) = Some r"
    have rec: "P q c el y" if "f F drv q c el = Some y" for q c el y using IH [OF that] by blast
    show "F' = F \<longrightarrow> drv' = drv \<longrightarrow> P queue c el r"
    proof (intro impI)
      assume eqs: "F' = F" "drv' = drv"
      show "P queue c el r" using turn unfolding eqs
        by (cases "queue = []")
          (auto split: if_splits prod.splits elim!: bind_SomeE
            intro: step_pause step [OF _ _ _ rec] sweep_pause sweep [OF _ _ _ rec] finish_pause finish [OF _ _ _ _ _ rec] quiet)
    qed
  qed
  then show ?thesis by simp
qed

lemma run_with_evolves: "run_with F drv queue cursor el = Some r \<Longrightarrow> evolves el (fst r)"
  by (induction rule: run_with_induct)
    (auto dest!: take_step_evolves sweep_evolves complete_finished_evolves intro: evolves_trans)

lemma run_to_completion_never_pauses: "run_with F run_to_completion queue cursor el = Some r \<Longrightarrow> snd r = None"
  by (induction rule: run_with_induct) (simp_all add: pauses_def run_to_completion_def)

lemma run_evolves: "run F queue el = Some el1 \<Longrightarrow> evolves el el1"
  unfolding run_def by (auto dest: run_with_evolves)

lemma evolves_replay:
  assumes "map_option est (replay_partition pid (snd el)) = Some (est (fst el))" "evolves el el'"
  shows "map_option est (replay_partition pid (snd el')) = Some (est (fst el'))"
proof -
  from assms(2) obtain evs where new: "snd el' = snd el @ evs" "est (fst el') = fold apply_event evs (est (fst el))"
    unfolding evolves_def by blast
  have "pid \<le> MAX_PARTITION_ID" "est (fst el) = fold apply_event (snd el) state_new"
    using assms(1) replay_fold [of pid state_new 0 "snd el"]
    by (auto simp: replay_partition_def engine_of_def split: if_splits prod.splits)
  then show ?thesis
    using new replay_fold [of pid state_new 0 "snd el'"]
    by (cases "foldl (replay_step pid) (state_new, 0) (snd el')") (simp add: replay_partition_def engine_of_def)
qed

end
