(* ===== verification/Sample_Run.thy ===== *)
theory Sample_Run
  imports Commands
begin

text \<open>
  Two commands, evaluated: the deployment of a process whose start event leads to an exclusive gateway with no way out,
  and the creation of an instance, which the step loop takes to the gateway, where it stays with an incident.
\<close>

declare scope_defining.simps [code] scope_chain.simps [code] descend.simps [code] cascade_from.simps [code]
  find_catching_escalation_boundary.simps [code] find_catching_error_boundary.simps [code] cancel_adhoc_children.simps [code]
  run_with.simps [code]

definition line_process :: process_definition where
  "line_process = \<lparr> pd_id = ''line'', pd_name = None,
     pd_elements = fmap_of_list [(''s'', gateway ''s'' EK_StartEvent [''t'']),
       (''t'', gateway ''t'' EK_ExclusiveGateway [])],
     pd_start_event = ''s'', pd_xml = [], pd_adhoc = [], pd_start_form_id = None \<rparr>"

definition line_deployed :: "logged option" where
  "line_deployed = process_commands literal_feel [(DeployProcess line_process, 0)] (engine_of state_new 0 0, [])"

definition line_command :: command where
  "line_command = CreateInstance ''line'' fmempty [] None None None"

text \<open>The evaluation goes through the planners of the two commands; what \<open>dispatch_command\<close> adds is rewritten away.\<close>

definition accepted_part :: "planned \<Rightarrow> (step list \<times> logged) option" where
  "accepted_part p = (case p of Some (Inr r) \<Rightarrow> Some r | _ \<Rightarrow> None)"

lemma accepted_partD: "accepted_part p = Some r \<Longrightarrow> p = Some (Inr r)"
  by (auto simp: accepted_part_def split: option.splits sum.splits)

definition creates :: "key \<Rightarrow> event \<Rightarrow> bool" where
  "creates k ev = (case ev of EVariable (ProcessInstanceCreated ik _ _ _ _ _ _ _ _ _) \<Rightarrow> ik = k | _ \<Rightarrow> False)"

definition line_check :: "bool option" where
  "line_check = do {
     (queue0, e0, log0) \<leftarrow> accepted_part (deploy literal_feel [line_process] (engine_of state_new 0 0));
     (e, journal) \<leftarrow> run_planned literal_feel (log0, queue0) e0;
     (queue, e1, log) \<leftarrow> accepted_part (create_instance ''line'' fmempty [] None None None e);
     (e', log') \<leftarrow> run literal_feel queue (e1, log);
     _ \<leftarrow> cascade_cancel_children (e', log');
     (q, _) \<leftarrow> take_step literal_feel queue (e1, log);
     i \<leftarrow> fmlookup (instances (est e')) 3;
     Some (now e = 0 \<and> torn_down_scopes e = {||} \<and> length journal = 2 \<and> queue \<noteq> [] \<and> q \<noteq> [] \<and> length log' = 9
       \<and> list_ex (creates 3) log \<and> pi_state i = PIActive)
   }"

lemma line_evaluated: "line_check = Some True"
  by code_simp

lemma begin_quiet: "now e = 0 \<Longrightarrow> torn_down_scopes e = {||} \<Longrightarrow> begin_command 0 e = e"
  by (cases e) (simp add: begin_command_def)

lemma line_runs:
  obtains e journal queue e1 log q el1 e' log' el i where "line_deployed = Some (e, journal)" "length journal = 2"
    "plan_command_at literal_feel line_command 0 e = Some (Inr (queue, e1, log))" "queue \<noteq> []"
    "take_step literal_feel queue (e1, log) = Some (q, el1)" "q \<noteq> []"
    "run literal_feel queue (e1, log) = Some (e', log')" "cascade_cancel_children (e', log') = Some el"
    "fmlookup (instances (est e')) 3 = Some i" "pi_state i = PIActive" "list_ex (creates 3) log"
proof -
  from line_evaluated obtain queue0 e0 log0 e journal queue e1 log q el1 e' log' el i where
      deployed: "deploy literal_feel [line_process] (engine_of state_new 0 0) = Some (Inr (queue0, e0, log0))"
        "run_planned literal_feel (log0, queue0) e0 = Some (e, journal)" "length journal = 2"
    and created: "create_instance ''line'' fmempty [] None None None e = Some (Inr (queue, e1, log))" "queue \<noteq> []"
        "now e = 0" "torn_down_scopes e = {||}" "list_ex (creates 3) log"
    and ran: "run literal_feel queue (e1, log) = Some (e', log')" "cascade_cancel_children (e', log') = Some el"
        "take_step literal_feel queue (e1, log) = Some (q, el1)" "q \<noteq> []"
        "fmlookup (instances (est e')) 3 = Some i" "pi_state i = PIActive"
    unfolding line_check_def by (auto simp: Option.bind_eq_Some_conv dest!: accepted_partD)
  have "line_deployed = Some (e, journal)"
    using deployed begin_quiet [of "engine_of state_new 0 0"]
    by (simp add: line_deployed_def apply_command_at_def plan_command_at_def dispatch_command_def engine_of_def)
  moreover have "plan_command_at literal_feel line_command 0 e = Some (Inr (queue, e1, log))"
    using created begin_quiet [of e] by (simp add: plan_command_at_def dispatch_command_def line_command_def)
  ultimately show ?thesis using that deployed(3) created(2,5) ran by blast
qed

end
