(* ===== verification/Journal.thy ===== *)
theory Journal
  imports Commands Loop_Log Sample_Run
begin

text \<open>
  The journal is the engine: every command, accepted or rejected, changes the state only by the events it returns, in
  their order, so that replaying the journal of any sequence of commands rebuilds the state they left.
\<close>

section \<open>Minting and starting\<close>

lemma evolves_same:
  "evolves a el \<Longrightarrow> est e1 = est (fst el) \<Longrightarrow> retired_tombstones e1 = retired_tombstones (fst el) \<Longrightarrow> evolves a (e1, snd el)"
  by (simp add: evolves_def)

lemma mint_evolves: "evolves a el \<Longrightarrow> evolves a (snd (mint el))"
  by (auto simp: mint_def Let_def case_prod_beta intro: evolves_plannedI)

lemma emitted: "emit ev el = el1 \<Longrightarrow> evolves el el1" "emit_all f el = el1 \<Longrightarrow> evolves el el1"
  by (auto intro: evolution evolves_refl)

lemma fold_emitted: "fold emit evs (e1, log) = el \<Longrightarrow> strip e1 = strip e \<Longrightarrow> evolves (e, log) el"
  using evolves_planned [of e1 "(e, log)"] by (auto intro!: evolves_foldI)

lemma announced: "evolves el (emit ev (snd (mint el)))"
  by (intro evolves_emitI mint_evolves evolves_refl)

lemma deploy_start_evolves: "evolves el (deploy_start F pdk process_id start el)"
  by (auto simp: deploy_start_def Let_def case_prod_beta split: element_kind.split intro!: evolves_emitI mint_evolves)

lemma deploy_process_evolves: "evolves el (deploy_process F dk p el)"
  by (auto simp: deploy_process_def Let_def case_prod_beta intro!: evolves_foldI deploy_start_evolves evolves_emitI mint_evolves)

lemma open_deployment_evolves: "evolves el (snd (open_deployment el))"
  by (auto simp: open_deployment_def Let_def case_prod_beta intro!: evolves_emitI mint_evolves)

lemma deploy_decision_evolves: "evolves el (deploy_decision dk drk d el)"
  by (auto simp: deploy_decision_def Let_def case_prod_beta intro!: evolves_emitI mint_evolves)

lemma deploy_graph_evolves: "evolves el (deploy_graph dk drg el)"
  by (auto simp: deploy_graph_def Let_def case_prod_beta split: option.split
      intro!: evolves_foldI deploy_decision_evolves evolves_emitI mint_evolves)

lemma deploy_resource_evolves:
  "evolves el (deploy_form dk f el)" "evolves el (deploy_generic_resource dk r el)"
  by (auto simp: deploy_form_def deploy_generic_resource_def Let_def case_prod_beta intro!: evolves_emitI mint_evolves)

lemma start_instance_evolves: "evolves (snd ql) (snd (start_instance process_id start vs tags bid pdk ql))"
  by (auto simp: start_instance_def Let_def case_prod_beta intro!: evolves_emitI mint_evolves)

lemma start_or_dispatch_evolves: "evolves (snd ql) (snd (start_or_dispatch_instance process_id start vs tags bid ql))"
proof -
  define el where "el = ((fst (snd ql))\<lparr> start_dispatch_rr := start_dispatch_rr (fst (snd ql)) + 1 \<rparr>, snd (snd ql))"
  have "evolves (snd ql) el" unfolding el_def by (rule evolves_same) simp_all
  then show ?thesis
    using start_instance_evolves [of ql] start_instance_evolves [of "(fst ql, el)"] evolves_trans [of "snd ql" el]
    by (auto simp: start_or_dispatch_instance_def Let_def el_def [symmetric] intro!: evolves_emitI)
qed

definition evolving :: "('a \<Rightarrow> step list \<times> logged \<Rightarrow> (step list \<times> logged) option) \<Rightarrow> bool" where
  "evolving f \<longleftrightarrow> (\<forall>x ql r. f x ql = Some r \<longrightarrow> evolves (snd ql) (snd r))"

lemma plan_each_evolves:
  assumes "evolving f"
  shows "plan_each f xs (q, el) = Some (q', el') \<Longrightarrow> evolves el el'"
proof (induction xs arbitrary: q el)
  case (Cons x xs)
  then obtain q1 el1 where one: "f x (q, el) = Some (q1, el1)" "plan_each f xs (q1, el1) = Some (q', el')"
    by (auto elim!: bind_SomeE)
  have "evolves el el1" using one(1) assms unfolding evolving_def by (metis snd_conv)
  then show ?case using Cons.IH [OF one(2)] by (rule evolves_trans)
qed simp

lemma starts_evolve:
  assumes "\<And>x ql. evolves (snd ql) (snd (f x ql))"
  shows "evolves el (snd ql) \<Longrightarrow> evolves el (snd (fold f xs ql))"
proof (induction xs arbitrary: ql)
  case (Cons x xs)
  show ?case using Cons.IH [OF evolves_trans [OF Cons.prems assms]] by simp
qed simp

section \<open>Each command\<close>

text \<open>\<open>grows e p\<close>: a plan made on the engine \<open>e\<close> is a rejection or grew from the engine and an empty log.\<close>

definition grows :: "engine \<Rightarrow> planned \<Rightarrow> bool" where
  "grows e p \<longleftrightarrow> (\<forall>queue el. p = Some (Inr (queue, el)) \<longrightarrow> evolves (e, []) el)"

lemma growsI: "(\<And>queue el. p = Some (Inr (queue, el)) \<Longrightarrow> evolves (e, []) el) \<Longrightarrow> grows e p"
  by (simp add: grows_def)

lemma grows_simps [simp]:
  "grows e (rejected err)" "grows e None" "grows e (Some (Inr y)) \<longleftrightarrow> evolves (e, []) (snd y)"
  "grows e (accepted queue el) \<longleftrightarrow> evolves (e, []) el"
  by (auto simp: grows_def rejected_def accepted_def prod_eq_iff)

lemma grows_bind: "(\<And>x. m = Some x \<Longrightarrow> grows e (f x)) \<Longrightarrow> grows e (Option.bind m f)"
  by (cases m) auto

lemma grows_map: "(\<And>y. m = Some y \<Longrightarrow> evolves (e, []) (snd y)) \<Longrightarrow> grows e (map_option Inr m)"
  by (cases m) auto

lemma deploy_grows: "grows e (deploy F ps e)" "grows e (deploy_decisions gs e)" "grows e (deploy_forms fs e)"
    "grows e (deploy_generic_resources rs e)" "grows e (delete_decision_instance ik dek e)"
  by (auto simp: deploy_def deploy_decisions_def deploy_forms_def deploy_generic_resources_def delete_decision_instance_def
      Let_def case_prod_beta split: option.split
      intro!: evolves_foldI deploy_process_evolves deploy_graph_evolves deploy_resource_evolves open_deployment_evolves)

lemma create_grows: "grows e (create_instance process_id vs tags bid pdk version e)"
    "grows e (dispatch_start_instance process_id start vs tags bid e)"
  using start_instance_evolves [of "([], e, [])"]
  by (auto simp: create_instance_def dispatch_start_instance_def split: option.split)

lemma after_job_evolves: "evolves el (snd (after_job j ar r el))"
  by (auto simp: after_job_def resolve_listener_job_def Let_def split: job_kind.split)

lemma complete_job_grows: "grows e (complete_job jk lt vs ar lr e)"
  unfolding complete_job_def Let_def
  by (auto split: sum.split option.split intro!: grows_bind
      dest!: emit_propagated_evolves evolves_emitD intro: evolves_trans [OF _ after_job_evolves])

lemma caught_error_evolves: "caught_error ik eik b ceik cid vs el = Some r \<Longrightarrow> evolves el (snd r)"
  unfolding caught_error_def Let_def
  by (auto elim!: bind_SomeE split: if_splits dest!: terminate_scope_evolves
      intro!: evolves_foldI disarm_boundaries_evolves complete_element_evolves)

lemma throw_job_error_grows: "grows e (throw_job_error jk lt code message vs e)"
  unfolding throw_job_error_def Let_def
  by (auto split: sum.split option.split simp: case_prod_beta intro!: grows_bind grows_map evolves_emitI evolves_plannedI
      dest!: caught_error_evolves evolves_emitD)

lemma transition_task_grows:
  assumes "\<And>q el. direct (e, []) = Some (q, el) \<Longrightarrow> evolves (e, []) el"
  shows "grows e (transition_task F t utk pending direct e)"
  unfolding transition_task_def Let_def
  by (auto split: list.split simp: case_prod_beta intro!: grows_bind grows_map evolves_foldI
      evolves_planned [of _ "(e, [])", simplified] dest!: start_task_listener_chain_keeps dest: assms)

lemma user_task_grows:
  "grows e (assign_user_task F utk a ov e)" "grows e (unassign_user_task F utk e)" "grows e (update_user_task F utk c e)"
  "grows e (complete_user_task F utk vs e)"
  by (auto simp: assign_user_task_def unassign_user_task_def update_user_task_def complete_user_task_def Let_def split: sum.split
      intro!: transition_task_grows dest!: emit_propagated_evolves evolves_emitD emitted)

lemma quietly_grows [simp]: "grows e (quietly (Inl err))" "grows e (quietly (Inr el)) \<longleftrightarrow> evolves (e, []) el"
  by (cases el; auto simp: quietly_def grows_def)+

lemma job_update_grows:
  "grows e (quietly (fail_job jk lt retries message e))"
  "grows e (quietly (update_job_properties jk rt timeout opref lt (e, [])))"
  "grows e (quietly (suspend_instance ik t e))" "grows e (quietly (resume_instance ik e))"
  by (auto simp: fail_job_def update_job_properties_def suspend_instance_def resume_instance_def Let_def case_prod_beta
      split: sum.split option.split process_instance_state.split intro!: evolves_emitI evolves_plannedI)

lemma activate_one_evolves: "evolves el (activate_one plan k el)"
  by (auto simp: activate_one_def Let_def case_prod_beta intro!: evolves_emitI evolves_planned)

lemma apply_plan_evolves: "evolves el (apply_plan_keys plan seen ks el)"
proof (induction plan seen ks el rule: apply_plan_keys.induct)
  case (2 plan seen k ks el)
  then show ?case
    using evolves_trans [OF activate_one_evolves [of el plan k], of "apply_plan_keys plan (finsert k seen) ks (activate_one plan k el)"]
    by (simp add: Let_def)
qed simp

lemma job_lock_evolves:
  "evolves (e, []) (activate_jobs_command ty worker n timeout t fetch wl e)"
  "evolves (e, []) (activate_jobs_by_key_command ks worker timeout t fetch wl e)"
  "evolves (e, []) (expire_job_locks t d (e, []))"
  by (auto simp: activate_jobs_command_def activate_jobs_by_key_command_def apply_activation_plan_def expire_job_locks_def
      intro!: apply_plan_evolves evolves_foldI)

lemma rearm_timer_evolves: "rearm_timer F tm el = Some el1 \<Longrightarrow> evolves el el1"
  unfolding rearm_timer_def
  by (auto split: timer_kind.splits option.splits element_kind.splits bool.splits elim!: bind_SomeE simp: Let_def case_prod_beta
      intro!: evolves_emitI mint_evolves)

lemma trigger_timer_evolving: "evolving (trigger_timer F)"
  unfolding evolving_def trigger_timer_def Let_def
  by (auto split: option.splits if_splits elim!: bind_SomeE dest!: release_token_evolves rearm_timer_evolves
      intro: evolves_trans [OF evolves_emit evolves_trans])

lemma fire_start_timer_evolves: "evolves (snd ql) (snd (fire_start_timer k ql))"
  unfolding fire_start_timer_def Let_def
  by (auto split: option.split intro: evolves_trans [OF evolves_emit start_or_dispatch_evolves [where ql = "(fst ql, emit ev (snd ql))" for ev, simplified]])

lemma trigger_timers_grows: "grows e (trigger_timers F t e)"
  unfolding trigger_timers_def
  by (auto intro!: grows_bind starts_evolve [OF fire_start_timer_evolves] 
      dest!: plan_each_evolves [OF trigger_timer_evolving])

lemma advance_evolves:
  "advance_correlated_token sk mk ik eik eid kind vs ql = Some r \<Longrightarrow> evolves (snd ql) (snd r)"
  "advance_signal_correlated_token sk mk ik eik eid kind vs ql = Some r \<Longrightarrow> evolves (snd ql) (snd r)"
  unfolding advance_correlated_token_def advance_signal_correlated_token_def Let_def
  by (auto elim!: bind_SomeE dest!: emit_propagated_evolves release_token_evolves evolves_emitD intro: evolves_trans)

lemma correlate_one_evolves: "correlate_one mk vs sk fql = Some r \<Longrightarrow> evolves (snd (snd fql)) (snd (snd r))"
  unfolding correlate_one_def by (auto split: option.splits if_splits prod.splits dest!: advance_evolves)

lemma correlate_each_evolves: "correlate_each mk vs sks fql = Some r \<Longrightarrow> evolves (snd (snd fql)) (snd (snd r))"
  by (induction sks arbitrary: fql r) (auto elim!: bind_SomeE dest!: correlate_one_evolves intro: evolves_trans)

lemma correlate_message_grows: "grows e (correlate_message name ck vs e)"
  unfolding correlate_message_def Let_def
  by (auto simp: case_prod_beta intro!: grows_bind starts_evolve start_or_dispatch_evolves dest!: correlate_each_evolves
      evolves_trans [OF announced])

lemma signal_one_evolving: "evolving (signal_one mk vs)"
  unfolding evolving_def signal_one_def by (auto split: option.splits if_splits dest!: advance_evolves)

lemma broadcast_signal_grows: "grows e (broadcast_signal name vs e)"
  unfolding broadcast_signal_def Let_def
  by (auto simp: case_prod_beta intro!: grows_map dest!: plan_each_evolves [OF signal_one_evolving]
      evolves_trans [OF announced])

lemma subscription_grows:
  "grows e (open_message_subscription sk ik eik eid name ck kind e)"
  "grows e (correlate_message_subscription sk mk ik eik eid kind vs e)"
  "grows e (close_message_subscription sk ik eik eid e)" "grows e (set_variables scope vs local e)"
  by (auto simp: open_message_subscription_def correlate_message_subscription_def close_message_subscription_def set_variables_def
      split: option.split intro!: grows_map grows_bind evolves_foldI dest!: advance_evolves)

lemma start_canceling_evolving: "evolving (start_canceling F ik)"
  unfolding evolving_def start_canceling_def
  by (auto elim!: bind_SomeE dest!: start_task_listener_chain_keeps intro: fold_emitted)

lemma cancel_instance_grows: "grows e (cancel_instance F ik e)"
proof -
  have ev: "evolves (e, []) (fold emit ys (fold emit xs (e, [])))" for xs ys by (auto intro!: evolves_foldI)
  then show ?thesis unfolding cancel_instance_def Let_def
    by (auto intro!: grows_map evolves_emitI dest!: plan_each_evolves [OF start_canceling_evolving] evolves_emitD
        evolves_trans [OF ev])
qed

lemma terminate_element_evolves: "terminate_element_instance ik eik eid el = Some el1 \<Longrightarrow> evolves el el1"
  unfolding terminate_element_instance_def
  by (auto split: if_splits option.splits dest!: terminate_scope_evolves emitted intro!: complete_element_evolves evolves_emit_allI evolves_emitI)

lemma modify_instance_grows: "grows e (modify_instance ik acts terms e)"
proof -
  have t: "evolving (terminate_one ik)"
    unfolding evolving_def terminate_one_def by (auto split: option.splits dest: terminate_element_evolves)
  have a: "evolving (activate_at ik)"
    unfolding evolving_def activate_at_def by (auto dest: emit_propagated_evolves)
  show ?thesis unfolding modify_instance_def
    by (auto split: option.split intro!: grows_bind evolves_emitI dest!: plan_each_evolves [OF t] plan_each_evolves [OF a] intro: evolves_trans)
qed

lemma instance_command_grows:
  "grows e (resolve_incident_command k opref e)" "grows e (migrate_instance_command ik tk instrs e)"
  "grows e (activate_adhoc_activities container_key els cancel e)"
  by (auto simp: resolve_incident_command_def migrate_instance_command_def activate_adhoc_activities_def Let_def
      split: option.split prod.split intro!: grows_bind)

lemma append_agent_history_evolves: "evolves a el \<Longrightarrow> evolves a (append_agent_history aik turns el)"
  by (auto simp: append_agent_history_def append_turn_def Let_def case_prod_beta split: option.split
      intro!: evolves_foldI evolves_emitI mint_evolves)

lemma agent_command_grows:
  "grows e (process_create_agent_instance eik jk jl d limits history e)"
  "grows e (process_update_agent_instance aik eik eid ik jk jl status m tools history e)"
  "grows e (process_complete_agent_instance aik e)"
  by (auto simp: process_create_agent_instance_def process_update_agent_instance_def process_complete_agent_instance_def
      Let_def case_prod_beta split: option.split sum.split
      intro!: append_agent_history_evolves evolves_emitI mint_evolves)

lemmas command_grows = deploy_grows create_grows complete_job_grows throw_job_error_grows user_task_grows job_update_grows
  job_lock_evolves trigger_timers_grows correlate_message_grows broadcast_signal_grows subscription_grows cancel_instance_grows
  modify_instance_grows instance_command_grows agent_command_grows

lemma plan_grows: "grows e (dispatch_command F c t e)"
  by (cases c) (simp_all add: dispatch_command_def command_grows)

section \<open>The journal\<close>

lemma run_planned_evolves:
  assumes "run_planned F (log, queue) e = Some (e', log')" "retired_tombstones e = {||}"
  shows "evolves (e, log) (e', log')"
proof -
  from assms(1) obtain el1 el2 where run: "run F queue (e, log) = Some el1" "cascade_cancel_children el1 = Some el2"
    and fin: "e' = finish_command (snd el2) (fst el2)" "log' = snd el2"
    by (auto simp: run_planned_def elim!: bind_SomeE)
  have ev: "evolves (e, log) el2" using run_evolves [OF run(1)] cascade_evolves [OF run(2)] by (rule evolves_trans)
  then have "e' = fst el2" using assms(2) fin(1) by (simp add: evolves_def finish_command_def)
  with ev fin(2) show ?thesis by simp
qed

lemma command_evolves:
  assumes "apply_command_at F c t e = Some (e', r)" "retired_tombstones e = {||}"
  shows "evolves (e, []) (e', case r of Inl _ \<Rightarrow> [] | Inr log \<Rightarrow> log)"
proof -
  have start: "evolves (e, []) (begin_command t e, [])"
    using evolves_same [of "(e, [])" "(e, [])" "begin_command t e"] by (simp add: begin_command_def)
  from assms(1) consider (rejected) err where "r = Inl err" "e' = begin_command t e"
    | (ran) queue e1 log log' where "dispatch_command F c t (begin_command t e) = Some (Inr (queue, e1, log))"
        "run_planned F (log, queue) e1 = Some (e', log')" "r = Inr log'"
    by (auto simp: apply_command_at_def plan_command_at_def elim!: bind_SomeE split: sum.splits)
  then show ?thesis
  proof cases
    case rejected
    with start show ?thesis by simp
  next
    case ran
    have planned: "evolves (begin_command t e, []) (e1, log)" using plan_grows [of "begin_command t e" F c t] ran(1) by simp
    then have "retired_tombstones e1 = {||}" using assms(2) by (simp add: evolves_def begin_command_def)
    with ran(2) have "evolves (e1, log) (e', log')" by (rule run_planned_evolves)
    with start planned ran(3) show ?thesis using evolves_trans by (metis sum.case(2))
  qed
qed

lemma evolves_append: "evolves (e, []) (e', log) \<Longrightarrow> evolves (e, journal) (e', journal @ log)"
  by (auto simp: evolves_def)

lemma process_commands_evolves:
  "process_commands F cs el = Some el' \<Longrightarrow> retired_tombstones (fst el) = {||} \<Longrightarrow> evolves el el'"
proof (induction cs arbitrary: el)
  case (Cons x cs)
  from Cons.prems(1) obtain e1 r where one: "apply_command_at F (fst x) (snd x) (fst el) = Some (e1, r)"
    and rest: "process_commands F cs (e1, snd el @ (case r of Inl _ \<Rightarrow> [] | Inr log \<Rightarrow> log)) = Some el'"
    by (cases x) (auto elim!: bind_SomeE)
  have ev: "evolves el (e1, snd el @ (case r of Inl _ \<Rightarrow> [] | Inr log \<Rightarrow> log))"
    using evolves_append [OF command_evolves [OF one Cons.prems(2)], of "snd el"] by simp
  moreover from ev have "retired_tombstones e1 = {||}" using Cons.prems(2) by (simp add: evolves_def)
  ultimately show ?case using Cons.IH [OF rest] evolves_trans by fastforce
qed simp

text \<open>C2: the journal rebuilds the engine. Whatever commands a new engine is given, at whatever times, accepted or
  rejected, the events they returned, in order, replay to exactly the state the engine is in: nothing changes the state but
  the events, from deployments and job completions to timers, messages, migrations and agent updates.\<close>

theorem journal_rebuilds_engine:
  assumes "with_partition pid = Some e0" "process_commands F cs (e0, []) = Some (e, journal)"
  shows "map_option est (replay_partition pid journal) = Some (est e)"
proof -
  from assms(1) have e0: "e0 = engine_of state_new pid 0" "pid \<le> MAX_PARTITION_ID"
    by (auto simp: with_partition_def split: if_splits)
  then have "map_option est (replay_partition pid []) = Some (est e0)" by (simp add: replay_partition_def engine_of_def)
  moreover have "evolves (e0, []) (e, journal)"
    by (rule process_commands_evolves [OF assms(2)]) (simp add: e0 engine_of_def)
  ultimately show ?thesis using evolves_replay [of pid "(e0, [])" "(e, journal)"] by simp
qed

definition broken_process :: process_definition where
  "broken_process = line_process\<lparr> pd_start_event := ''nowhere'' \<rparr>"

lemma broken_rejected: "apply_command_at F (DeployProcess broken_process) t e = Some (begin_command t e, Inl (NoStartEvent ''line''))"
  by (simp add: apply_command_at_def plan_command_at_def dispatch_command_def deploy_def normalize_legacy_agent_tasks_def
      broken_process_def line_process_def rejected_def fmap_of_list_simps Let_def)

theorem journal_rebuilds_engine_witness:
  "\<exists>e journal. with_partition 0 = Some (engine_of state_new 0 0)
     \<and> process_commands literal_feel [(DeployProcess line_process, 0), (line_command, 0), (DeployProcess broken_process, 7)]
         (engine_of state_new 0 0, []) = Some (e, journal)
     \<and> 2 < length journal \<and> map_option est (replay_partition 0 journal) = Some (est e)"
proof -
  obtain e journal queue e1 log e' log' el where deployed: "line_deployed = Some (e, journal)" "length journal = 2"
    and plan: "plan_command_at literal_feel line_command 0 e = Some (Inr (queue, e1, log))"
    and run: "run literal_feel queue (e1, log) = Some (e', log')" "cascade_cancel_children (e', log') = Some el"
    and created: "list_ex (creates 3) log"
    by (rule line_runs)
  have second: "apply_command_at literal_feel line_command 0 e = Some (finish_command (snd el) (fst el), Inr (snd el))"
    using plan run by (simp add: apply_command_at_def run_planned_def)
  have "snd el \<noteq> []"
    using created run_evolves [OF run(1)] cascade_evolves [OF run(2)] by (auto simp: evolves_def)
  moreover have "process_commands literal_feel [(DeployProcess line_process, 0), (line_command, 0), (DeployProcess broken_process, 7)]
      (engine_of state_new 0 0, []) = Some (begin_command 7 (finish_command (snd el) (fst el)), journal @ snd el)"
    using deployed(1) second by (auto simp: line_deployed_def broken_rejected elim!: bind_SomeE)
  moreover have "with_partition 0 = Some (engine_of state_new 0 0)" by (simp add: with_partition_def)
  ultimately show ?thesis using deployed(2) journal_rebuilds_engine by fastforce
qed

end
