(* ===== verification/Quiescence.thy ===== *)
theory Quiescence
  imports Loop_Log Sample_Run
begin

text \<open>
  What holds when the step loop returns: no instance that took part in the command is left active without a token.
\<close>

section \<open>Completing finished instances\<close>

definition out_of_tokens :: "state \<Rightarrow> key \<Rightarrow> bool" where
  "out_of_tokens s ik = (case fmlookup (instances s) ik of None \<Rightarrow> False | Some i \<Rightarrow> pi_state i = PIActive \<and> pi_active i = fmempty)"

lemma is_finished_out: "is_finished e ik = out_of_tokens (est e) ik"
  by (simp add: is_finished_def out_of_tokens_def)

lemma out_of_tokens_on_instance:
  "(\<And>i. pi_state (f i) = pi_state i \<and> pi_active (f i) = pi_active i) \<Longrightarrow>
   out_of_tokens (on_instance k f s) ik = out_of_tokens s ik"
  by (simp add: out_of_tokens_def on_instance_def split: option.split)

lemma out_of_tokens_agent: "is_agent ev \<Longrightarrow> out_of_tokens (apply_event ev s) ik = out_of_tokens s ik"
  unfolding is_agent_def
proof (elim exE)
  fix ae
  assume "ev = EAgent ae"
  then show ?thesis by (cases ae) (simp_all add: instance_arm_defs out_of_tokens_on_instance)
qed

lemma out_of_tokens_completed:
  "out_of_tokens (apply_event (ELifecycle (ProcessInstanceCompleted k)) s) ik \<longleftrightarrow> out_of_tokens s ik \<and> ik \<noteq> k"
  by (auto simp: out_of_tokens_def apply_ProcessInstanceCompleted_def clear_completed_def Let_def on_instance_def
      split: option.splits if_splits)

text \<open>Completing instances, with the agent clean-up that goes with it, takes exactly these out of the unfinished ones.\<close>

abbreviation completions :: "key list \<Rightarrow> event list" where
  "completions ks \<equiv> map (\<lambda>k. ELifecycle (ProcessInstanceCompleted k)) ks"

lemma out_of_tokens_fold:
  "filter (\<lambda>ev. \<not> is_agent ev) new = completions ks \<Longrightarrow>
   out_of_tokens (fold apply_event new s) ik \<longleftrightarrow> out_of_tokens s ik \<and> ik \<notin> set ks"
proof (induction new arbitrary: ks s)
  case (Cons ev new)
  show ?case
  proof (cases "is_agent ev")
    case True
    with Cons show ?thesis by (simp add: out_of_tokens_agent)
  next
    case False
    with Cons.prems obtain k ks' where "ks = k # ks'" "ev = ELifecycle (ProcessInstanceCompleted k)"
        "filter (\<lambda>ev. \<not> is_agent ev) new = completions ks'"
      by (cases ks) auto
    with Cons.IH [of ks'] out_of_tokens_completed [of k s ik] show ?thesis by auto
  qed
qed simp

lemma finish_all_emits: "emits (completions iks) el (snd (finish_all iks el))"
proof (induction iks arbitrary: el)
  case (Cons ik iks)
  show ?case using emits_trans [OF emits_emit Cons.IH] by (simp add: Let_def case_prod_beta)
qed simp

text \<open>The instances that events other than agent records speak of.\<close>

definition took_part :: "event list \<Rightarrow> key \<Rightarrow> bool" where
  "took_part log ik \<longleftrightarrow> (\<exists>ev \<in> set log. \<not> is_agent ev \<and> event_instance_key ev = Some ik)"

lemma took_part_touched: "took_part log ik \<Longrightarrow> ik |\<in>| touched log"
  by (force simp: took_part_def touched_def fset_of_list_elem List.map_filter_def)

lemma finished_completed:
  assumes "complete_finished_instances el = (steps, el')" "took_part (snd el') ik"
  shows "\<not> is_finished (fst el') ik"
proof -
  define iks where "iks = filter (is_finished (fst el)) (sorted_list_of_fset (touched (snd el)))"
  have "emits (completions iks) el el'"
    using finish_all_emits [of iks el] assms(1) by (simp add: complete_finished_instances_def iks_def)
  then obtain new where new: "snd el' = snd el @ new" "est (fst el') = fold apply_event new (est (fst el))"
      "filter (\<lambda>ev. \<not> is_agent ev) new = filter (\<lambda>ev. \<not> is_agent ev) (completions iks)"
    unfolding emits_def by blast
  have "filter (\<lambda>ev. \<not> is_agent ev) (completions iks) = completions iks" by (simp add: filter_id_conv is_agent_def)
  then have only: "filter (\<lambda>ev. \<not> is_agent ev) new = completions iks" using new(3) by simp
  have out: "out_of_tokens (est (fst el')) ik \<longleftrightarrow> out_of_tokens (est (fst el)) ik \<and> ik \<notin> set iks"
    unfolding new(2) by (rule out_of_tokens_fold [OF only])
  have "took_part (snd el) ik \<or> ik \<in> set iks"
  proof -
    from assms(2) new(1) consider "took_part (snd el) ik" | ev where "ev \<in> set new" "\<not> is_agent ev" "event_instance_key ev = Some ik"
      by (auto simp: took_part_def)
    then show ?thesis
    proof cases
      case 2
      then have "ev \<in> set (completions iks)" unfolding only [symmetric] by simp
      with 2(3) show ?thesis by auto
    qed simp
  qed
  moreover have "ik \<in> set iks" if "took_part (snd el) ik" "out_of_tokens (est (fst el)) ik"
    using took_part_touched [OF that(1)] that(2) by (simp add: iks_def is_finished_out)
  ultimately show ?thesis using out by (auto simp: is_finished_out)
qed

section \<open>Quiescence\<close>

lemma run_with_quiescent:
  "run_with F drv queue cursor el = Some r \<Longrightarrow> snd r = None \<Longrightarrow> took_part (snd (fst r)) ik \<Longrightarrow> \<not> is_finished (fst (fst r)) ik"
  by (induction rule: run_with_induct) (simp_all add: finished_completed)

text \<open>C3: no instance is stranded at the end of a command's step loop. Whenever the loop, run to the end without a
  debugger's pauses, returns, every instance that some event of the log speaks of (agent records aside) and that is still active
  holds at least one token: an instance whose last token retires does not stay active.\<close>

theorem loop_leaves_no_stranded_instance:
  assumes "run F queue (e, log) = Some (e', log')" "took_part log' ik"
    and "fmlookup (instances (est e')) ik = Some i" "pi_state i = PIActive"
  shows "pi_active i \<noteq> fmempty"
proof -
  from assms(1) obtain r where r: "run_with F run_to_completion queue 0 (e, log) = Some ((e', log'), r)"
    by (auto simp: run_def)
  then have "r = None" by (auto dest: run_to_completion_never_pauses)
  with run_with_quiescent [OF r] assms(2) have "\<not> is_finished e' ik" by simp
  with assms(3,4) show ?thesis by (simp add: is_finished_def)
qed

lemma created_by: "creates k ev \<Longrightarrow> \<not> is_agent ev \<and> event_instance_key ev = Some k"
  by (cases ev) (auto simp: creates_def is_agent_def split: variable_event.splits)

theorem loop_leaves_no_stranded_instance_witness:
  "\<exists>e journal queue e1 log e' log' i. line_deployed = Some (e, journal)
     \<and> plan_command_at literal_feel line_command 0 e = Some (Inr (queue, e1, log))
     \<and> run literal_feel queue (e1, log) = Some (e', log') \<and> took_part log' 3
     \<and> fmlookup (instances (est e')) 3 = Some i \<and> pi_state i = PIActive \<and> pi_active i \<noteq> fmempty"
proof -
  obtain e journal queue e1 log e' log' i where plan: "line_deployed = Some (e, journal)"
      "plan_command_at literal_feel line_command 0 e = Some (Inr (queue, e1, log))"
    and run: "run literal_feel queue (e1, log) = Some (e', log')"
    and i: "fmlookup (instances (est e')) 3 = Some i" "pi_state i = PIActive"
    and created: "list_ex (creates 3) log"
    by (rule line_runs)
  have "set log \<subseteq> set log'" using run_evolves [OF run] by (auto simp: evolves_def)
  with created have "took_part log' 3" by (auto simp: took_part_def list_ex_iff dest: created_by)
  with plan run i loop_leaves_no_stranded_instance [OF run] show ?thesis by blast
qed

end
