(* ===== verification/Debugging.thy ===== *)
theory Debugging
  imports Quiescence
begin

text \<open>
  Debug sessions (\<open>engine-core/src/engine/debug.rs\<close>): a session that is moved forward by any sequence of single steps
  and resumes, with breakpoints changing as one likes, does what the loop does when it is not interrupted. The pause at
  the completion of an instance is the exception: it forgets the steps the completion released.
\<close>

section \<open>Pausing and resuming\<close>

lemma breakpointing_none: "breakpointing [] = run_to_completion"
  by (rule ext) (simp add: breakpointing_def run_to_completion_def)

lemma never_pauses [simp]: "\<not> pauses run_to_completion el el1" "\<not> run_to_completion (drop n evs)"
  by (simp_all add: pauses_def run_to_completion_def)

lemma uninterrupted:
  "queue \<noteq> [] \<Longrightarrow> take_step F queue el = Some (q, el1) \<Longrightarrow>
   run_with F run_to_completion queue c el = run_with F run_to_completion q c el1"
  "sweep F c el = Some (q, c1, el1) \<Longrightarrow> q \<noteq> [] \<Longrightarrow>
   run_with F run_to_completion [] c el = run_with F run_to_completion q c1 el1"
  "sweep F c el = Some ([], c1, el1) \<Longrightarrow> complete_finished_instances el1 = (steps, el2) \<Longrightarrow> steps \<noteq> [] \<Longrightarrow>
   run_with F run_to_completion [] c el = run_with F run_to_completion steps c1 el2"
  "sweep F c el = Some ([], c1, el1) \<Longrightarrow> complete_finished_instances el1 = ([], el2) \<Longrightarrow>
   run_with F run_to_completion [] c el = Some (el2, None)"
  by (subst run_with.simps, simp)+

lemma interrupted_run:
  "run_with F drv queue c el = Some r \<Longrightarrow>
   (case snd r of None \<Rightarrow> run_with F run_to_completion queue c el = Some r
    | Some (q', c') \<Rightarrow> q' \<noteq> [] \<longrightarrow> run_with F run_to_completion queue c el = run_with F run_to_completion q' c' (fst r))"
  by (induction rule: run_with_induct) (auto simp: uninterrupted split: option.splits)

section \<open>Sessions\<close>

text \<open>A move of a session: a resume with breakpoints or a single step. A move that pauses leaves steps to take, or it took a
  single step from the queue, be it the last one.\<close>

definition resumable :: "debug_session \<Rightarrow> bool" where
  "resumable s = (case ds_paused s of None \<Rightarrow> True | Some (queue, _) \<Rightarrow> queue \<noteq> [])"

definition steps_left :: "debug_session \<Rightarrow> bool" where
  "steps_left s = (case ds_paused s of None \<Rightarrow> False | Some (queue, _) \<Rightarrow> queue \<noteq> [])"

inductive moves :: "feel \<Rightarrow> engine \<times> debug_session \<Rightarrow> engine \<times> debug_session \<Rightarrow> bool" for F where
  resume: "debug_resume F (s\<lparr> ds_breakpoints := bs \<rparr>) e = Some (e1, s1) \<Longrightarrow> resumable s1 \<Longrightarrow> moves F (e, s) (e1, s1)"
| step: "debug_step F s e = Some (e1, s1) \<Longrightarrow> resumable s1 \<or> steps_left s \<Longrightarrow> moves F (e, s) (e1, s1)"

inductive_cases movesE: "moves F (e, s) (e1, s1)"

text \<open>What a session will have come to when the loop is not interrupted any more.\<close>

definition outcome :: "feel \<Rightarrow> engine \<times> debug_session \<Rightarrow> logged option" where
  "outcome F es = (case ds_paused (snd es) of
     None \<Rightarrow> Some (fst es, ds_log (snd es))
   | Some (queue, c) \<Rightarrow> map_option (\<lambda>(el, _). (finish_command (snd el) (fst el), snd el))
       (run_with F run_to_completion queue c (fst es, ds_log (snd es))))"

lemma drive_outcome:
  assumes "debug_drive F drv s e = Some (e1, s1)" "resumable s1"
  shows "outcome F (e, s) = outcome F (e1, s1)"
proof (cases "ds_paused s")
  case None
  with assms(1) show ?thesis by (simp add: debug_drive_def)
next
  case (Some qc)
  obtain queue c where qc: "qc = (queue, c)" by fastforce
  with assms(1) Some obtain r where r: "run_with F drv queue c (e, ds_log s) = Some r" "(e1, s1) = settle r s"
    by (auto simp: debug_drive_def)
  with interrupted_run [OF r(1)] Some qc assms(2) show ?thesis
    by (auto simp: outcome_def settle_def resumable_def split: option.splits prod.splits)
qed

lemma single_step_pauses:
  "queue \<noteq> [] \<Longrightarrow> take_step F queue el = Some (q, el1) \<Longrightarrow> run_with F single_step queue c el = Some (el1, Some (q, c))"
  by (subst run_with.simps) (simp add: single_step_def)

lemma step_outcome:
  assumes "debug_step F s e = Some (e1, s1)" "steps_left s"
  shows "outcome F (e, s) = outcome F (e1, s1)"
proof -
  from assms(2) obtain queue c where paused: "ds_paused s = Some (queue, c)" "queue \<noteq> []"
    by (auto simp: steps_left_def split: option.splits)
  with assms(1) have "run_with F single_step queue c (e, ds_log s) \<noteq> None" by (auto simp: debug_step_def debug_drive_def)
  then obtain q el where step: "take_step F queue (e, ds_log s) = Some (q, el)"
    using paused(2) by (subst (asm) run_with.simps) (auto simp: Option.bind_eq_Some_conv split: if_splits)
  from single_step_pauses [OF paused(2) step] assms(1) paused(1) have "e1 = fst el" "s1 = s\<lparr> ds_log := snd el, ds_paused := Some (q, c) \<rparr>"
    by (auto simp: debug_step_def debug_drive_def settle_def)
  then show ?thesis using paused uninterrupted(1) [OF paused(2) step] by (simp add: outcome_def)
qed

lemma outcome_breakpoints [simp]: "outcome F (e, s\<lparr> ds_breakpoints := bs \<rparr>) = outcome F (e, s)"
  by (simp add: outcome_def split: option.split)

lemma move_outcome: "moves F es es1 \<Longrightarrow> outcome F es = outcome F es1"
  by (cases es; cases es1)
    (auto elim!: movesE simp: step_outcome, auto simp: debug_resume_def debug_step_def dest!: drive_outcome)

lemma moves_outcome: "(moves F)\<^sup>*\<^sup>* es es1 \<Longrightarrow> outcome F es = outcome F es1"
  by (induction rule: rtranclp_induct) (simp_all add: move_outcome)

definition opened :: "break_condition list \<Rightarrow> event list \<times> step list \<Rightarrow> debug_session" where
  "opened bs planned = \<lparr> ds_log = fst planned, ds_paused = Some (snd planned, 0), ds_breakpoints = bs \<rparr>"

lemma cascade_idle: "live_children (est (fst el)) (ended_in (snd el)) = [] \<Longrightarrow> cascade_cancel_children el = Some el"
  by (simp add: cascade_cancel_children_def Let_def cascade_from.simps)

text \<open>C13: stepping through a command against applying it. However a session is moved, by single steps and by resumes with
  any breakpoints, as long as every pause leaves steps to take or follows a single step taken from the queue, when it has
  finished its log is the log that the step loop writes without interruption, and its engine is the one the loop leaves, with
  the end of the command (the reaping of retired instances) applied to it. Applying the command does the same and, before that
  end, cancels the live children of the instances that ended, which the session leaves out; so the session ends with exactly the
  engine and the events of applying the command whenever there are no such children.\<close>

theorem debug_session_parity:
  assumes "plan_command_at F cmd t e0 = Some (Inr (queue, e, log))"
    and "(moves F)\<^sup>*\<^sup>* (e, opened bs (log, queue)) (e', s')" "ds_paused s' = None"
  shows "\<exists>e1. run F queue (e, log) = Some (e1, ds_log s') \<and> e' = finish_command (ds_log s') e1
    \<and> apply_command_at F cmd t e0 = map_option (\<lambda>(e2, log2). (finish_command log2 e2, Inr log2)) (cascade_cancel_children (e1, ds_log s'))
    \<and> (live_children (est e1) (ended_in (ds_log s')) = [] \<longrightarrow> apply_command_at F cmd t e0 = Some (e', Inr (ds_log s')))"
proof -
  from moves_outcome [OF assms(2)] assms(3) obtain e1 where e1: "run F queue (e, log) = Some (e1, ds_log s')"
    "e' = finish_command (ds_log s') e1"
    by (auto simp: outcome_def opened_def run_def split: prod.splits)
  then have "apply_command_at F cmd t e0 =
      map_option (\<lambda>(e2, log2). (finish_command log2 e2, Inr log2)) (cascade_cancel_children (e1, ds_log s'))"
    by (cases "cascade_cancel_children (e1, ds_log s')") (auto simp: apply_command_at_def assms(1) run_planned_def)
  with e1 cascade_idle [of "(e1, ds_log s')"] show ?thesis by simp
qed

theorem debug_session_parity_witness:
  "\<exists>e0 journal queue e log e' s' e1. line_deployed = Some (e0, journal)
     \<and> plan_command_at literal_feel line_command 0 e0 = Some (Inr (queue, e, log))
     \<and> (moves literal_feel)\<^sup>*\<^sup>* (e, opened [] (log, queue)) (e', s') \<and> ds_paused s' = None
     \<and> run literal_feel queue (e, log) = Some (e1, ds_log s') \<and> e' = finish_command (ds_log s') e1
     \<and> (live_children (est e1) (ended_in (ds_log s')) = [] \<longrightarrow>
          apply_command_at literal_feel line_command 0 e0 = Some (e', Inr (ds_log s')))"
proof -
  obtain e0 journal queue e log q el e' log' where plan: "line_deployed = Some (e0, journal)"
      "plan_command_at literal_feel line_command 0 e0 = Some (Inr (queue, e, log))"
    and queue: "queue \<noteq> []" and q: "take_step literal_feel queue (e, log) = Some (q, el)" "q \<noteq> []"
    and run: "run literal_feel queue (e, log) = Some (e', log')"
    by (rule line_runs)
  define s where "s = opened [] (log, queue)"
  from run obtain r where "run_with literal_feel run_to_completion queue 0 (e, log) = Some ((e', log'), r)"
    by (auto simp: run_def)
  then have rest: "run_with literal_feel run_to_completion q 0 el = Some ((e', log'), None)"
    using uninterrupted(1) [OF queue q(1)] run_to_completion_never_pauses by fastforce
  define s1 where "s1 = s\<lparr> ds_log := snd el, ds_paused := Some (q, 0) \<rparr>"
  define s2 where "s2 = s1\<lparr> ds_breakpoints := [], ds_log := log', ds_paused := None \<rparr>"
  have "debug_step literal_feel s e = Some (fst el, s1)"
    using single_step_pauses [OF queue q(1)] by (simp add: debug_step_def debug_drive_def settle_def s_def opened_def s1_def)
  moreover have "debug_resume literal_feel (s1\<lparr> ds_breakpoints := [] \<rparr>) (fst el) = Some (finish_command log' e', s2)"
    using rest by (simp add: debug_resume_def debug_drive_def settle_def breakpointing_none s1_def s2_def)
  ultimately have "moves literal_feel (e, s) (fst el, s1)" "moves literal_feel (fst el, s1) (finish_command log' e', s2)"
    using q(2) moves.step [of literal_feel s e "fst el" s1] moves.resume [of literal_feel "[]" s1 "fst el" "finish_command log' e'" s2]
    by (simp_all add: resumable_def s1_def s2_def)
  then have m: "(moves literal_feel)\<^sup>*\<^sup>* (e, opened [] (log, queue)) (finish_command log' e', s2)" unfolding s_def by auto
  have "ds_paused s2 = None" by (simp add: s2_def)
  with plan m debug_session_parity [OF plan(2) m] show ?thesis by blast
qed

lemma completion_pause:
  assumes "sweep F c el = Some ([], c1, el1)" "\<not> pauses drv el el1" "complete_finished_instances el1 = (steps, el2)"
    and "pauses drv el1 el2"
  shows "run_with F drv [] c el = Some (el2, Some ([], c1)) \<and> (took_part (snd el2) ik \<longrightarrow> \<not> is_finished (fst el2) ik)"
  using assms finished_completed [OF assms(3)] by (subst run_with.simps) simp

end
