(* ===== verification/Instance_Laws.thy ===== *)
theory Instance_Laws
  imports Instance_Commands Scope_Teardown
begin

text \<open>
  What cancelling and migrating an instance promise: a cancelled instance leaves nothing in play, and after a migration
  every token stands on an element of the target definition of the kind it stood on before.
\<close>

section \<open>Cancelling\<close>

lemma canceling_listener_pending: "canceling_starts e ik = [] \<longleftrightarrow> filter (\<lambda>t. canceling_listener e ik t \<noteq> None) (created_user_tasks e ik) = []"
  by (auto simp: canceling_starts_def List.map_filter_def filter_empty_conv)

lemma cancellations_discard:
  assumes "canceling_starts e ik = []"
  shows "instance_cancellations e ik @ immediate_user_task_cancels e ik = discard_instance_token_events e ik"
proof -
  have mem: "P x" if "x \<in> set (sorted_values key P m)" for x P key and m :: "(key, 'v) fmap"
    using that by (auto simp: sorted_values_def)
  have "filter (\<lambda>t. canceling_listener e ik t = None) (created_user_tasks e ik) = created_user_tasks e ik"
    using assms by (auto simp: canceling_listener_pending filter_empty_conv filter_id_conv)
  then show ?thesis
    unfolding instance_cancellations_def immediate_user_task_cancels_def discard_instance_token_events_def
    by (auto simp: created_user_tasks_def cancel_timer_def cancel_signal_def cancel_conditional_def cancel_user_task_def
        dest!: mem intro!: map_cong)
qed

lemma cancel_discards:
  assumes "is_active_instance e ik" "canceling_starts e ik = []"
  shows "cancel_instance F ik e = accepted [] (discard_and_terminate_instance ik (e, []))"
  using assms cancellations_discard [OF assms(2)]
  by (simp add: cancel_instance_def Let_def discard_and_terminate_instance_def discard_instance_events_def
      flip: fold_append_concat_rev)
     (metis comp_apply fold_append)

text \<open>C11: cancelling an instance whose open user tasks no cancelling listener watches takes every job, timer,
  subscription, user task and token of the instance out of play at once, terminates it, queues no step, and touches nothing
  that belongs to any other instance.\<close>

theorem cancel_takes_out_of_play:
  assumes "all_keyed (est e)" "is_active_instance e ik" "canceling_starts e ik = []"
  shows "\<exists>e' log. cancel_instance F ik e = Some (Inr ([], e', log))
    \<and> in_play (est e') = {x \<in> in_play (est e). instance_of x \<noteq> ik}
    \<and> (\<forall>k. standing (est e') k = (if k = ik then map_option (\<lambda>(own, parent, _). (own, parent, PITerminated)) (standing (est e) k)
          else standing (est e) k))"
proof -
  obtain e' log where d: "discard_and_terminate_instance ik (e, []) = (e', log)" by fastforce
  show ?thesis
    using cancel_discards [OF assms(2,3), of F] discard_one [of "(e, [])" ik] assms(1) d
    by (auto simp: accepted_def discards_def terminate_standing_def split_beta option.map_id)
qed

lemma two_instances_cancel: "is_active_instance two_instances 1" "canceling_starts two_instances 1 = []"
  by (simp_all add: is_active_instance_def canceling_starts_def created_user_tasks_def sorted_values_def two_instances_def engine_of_def
      running_instance_def state_new_def sorted_list_of_fmap_def List.map_filter_simps)

theorem cancel_takes_out_of_play_witness:
  "\<exists>e' log. cancel_instance literal_feel 1 two_instances = Some (Inr ([], e', log))
     \<and> (HTimer, 5, 1, 3) \<in> in_play (est two_instances) \<and> (HTimer, 5, 1, 3) \<notin> in_play (est e')
     \<and> (HElement, 4, 2, 4) \<in> in_play (est e') \<and> standing (est e') 1 = Some (1, None, PITerminated)"
proof -
  have "standing (est two_instances) 1 = Some (1, None, PIActive)"
    by (simp add: standing_def two_instances_def engine_of_def running_instance_def)
  with two_instances_play cancel_takes_out_of_play [OF two_instances_keyed two_instances_cancel, of literal_feel]
  show ?thesis by fastforce
qed

section \<open>Suspension\<close>

text \<open>A message leaves the token of a suspended instance where it is; a signal moves it all the same.\<close>

lemma message_respects_suspension:
  "fmlookup (message_subscriptions (est (fst el))) sk = Some s \<Longrightarrow> ms_state s = SubOpen \<Longrightarrow>
   partition_of (ms_instance_key s) = partition_id (fst el) \<Longrightarrow> instance_is_suspended (fst el) (ms_instance_key s) \<Longrightarrow>
   correlate_one mk vs sk (found, q, el) = Some (True, q, el)"
  by (simp add: correlate_one_def)

lemma signal_ignores_suspension:
  "fmlookup (signal_subscriptions (est (fst el))) sk = Some s \<Longrightarrow> ss_state s = SubOpen \<Longrightarrow> ss_kind s = SubIntermediateCatch \<Longrightarrow>
   instance_is_suspended (fst el) (ss_instance_key s) \<Longrightarrow>
   map_option fst (signal_one sigk fmempty sk (q, el)) = Some (q @ [SComplete (ss_instance_key s) (ss_element_instance_key s) (ss_element_id s)])"
  by (simp add: signal_one_def advance_signal_correlated_token_def emit_propagated_def propagated_nonempty_def release_token_def
      Let_def split: prod.split)

section \<open>Migrating\<close>

lemma first_error_none: "first_error f xs = Some None \<longleftrightarrow> (\<forall>x \<in> set xs. f x = Some None)"
  by (induction xs) (auto split: option.split)

text \<open>A boundary timer that has fired keeps its instance from being migrated.\<close>

lemma settled_boundary_blocks_migration:
  "fmlookup (timers (est e)) k = Some t \<Longrightarrow> tm_instance_key t = ik \<Longrightarrow> tm_state t = TMTriggered \<Longrightarrow>
   tm_kind t = TimerInterruptingBoundary b \<Longrightarrow> migration_error e ik tk source target instrs i \<noteq> Some None"
proof
  assume t: "fmlookup (timers (est e)) k = Some t" "tm_instance_key t = ik" "tm_kind t = TimerInterruptingBoundary b"
    and ok: "migration_error e ik tk source target instrs i = Some None"
  then have "least (armed_boundaries e ik) = None" unfolding migration_error_def first_error_none by simp
  then have "armed_boundaries e ik = []" by (simp add: least_def split: list.splits) (metis set_empty set_sort)
  moreover have "t \<in> set (fmap_values (timers (est e)))"
    using t(1) by (force simp: fmap_values_def simp flip: map_of_sorted_list dest: map_of_SomeD)
  ultimately show False using t(2,3) by (auto simp: armed_boundaries_def boundary_of_timer_def List.map_filter_def filter_empty_conv)
qed

lemma mapping_ok:
  assumes "mapping_error ik tk source target seen instrs = None"
  shows "distinct (map fst instrs) \<and> set seen \<inter> fst ` set instrs = {}
    \<and> (\<forall>(src, tgt) \<in> set instrs. \<exists>s t. pd_element source src = Some s \<and> pd_element target tgt = Some t
         \<and> kind_discriminant (e_kind s) = kind_discriminant (e_kind t))"
  using assms
proof (induction ik tk source target seen instrs rule: mapping_error.induct)
  case (2 ik tk source target seen src tgt rest)
  then show ?case by (auto split: if_splits option.splits)
qed simp

lemma map_of_rev_distinct: "distinct (map fst xs) \<Longrightarrow> map_of (rev xs) = map_of xs"
proof
  fix k
  assume "distinct (map fst xs)"
  then have "map_of (rev xs) k = Some v \<longleftrightarrow> map_of xs k = Some v" for v
    by (subst (1 2) map_of_eq_Some_iff) (auto simp: rev_map [symmetric])
  then show "map_of (rev xs) k = map_of xs k" by (metis option.exhaust)
qed

lemma remap_distinct: "distinct (map fst instrs) \<Longrightarrow> remap_id instrs eid = or_default eid (map_of instrs eid)"
  by (simp add: remap_id_def or_default_def map_of_rev_distinct)

lemma active_id_mapped:
  assumes "migration_error e ik tk source target instrs i = Some None" "fmlookup (pi_active i) eik = Some eid"
  obtains tgt where "map_of instrs eid = Some tgt"
proof -
  have "eid \<in> set (active_ids i)"
    using assms(2) by (force simp: active_ids_def fmap_values_def simp flip: map_of_sorted_list dest: map_of_SomeD)
  moreover have "List.find (\<lambda>eid. map_of instrs eid = None) (active_ids i) = None"
    using assms(1) unfolding migration_error_def first_error_none by simp
  ultimately show ?thesis using that by (auto simp: find_None_iff)
qed

lemma migrated_instance:
  "fmlookup (instances s) ik = Some i \<Longrightarrow>
   fmlookup (instances (apply_event (ELifecycle (ProcessInstanceMigrated ik pid pdk instrs)) s)) ik
     = Some (migrate_instance pid pdk (remap_id instrs) i)"
  by (simp add: apply_ProcessInstanceMigrated_def Let_def migrate_attached_def migrate_inflight_def on_instance_def
      decrement_inflight_by_process_def split: option.split)

text \<open>C12: an accepted migration loses no token and makes none, gives the instance the key and the process id of the target
  definition, and moves every token onto an element that exists there. The kind of that element is the one that the latest
  deployed version of the instance's process gives to the element the token stood on; when the instance runs this version, it is
  the kind of the element the token stood on. For an instance that runs an older version the code compares with the latest one
  all the same.\<close>

theorem migration_keeps_tokens:
  assumes "migrate_instance_command ik target_key instrs e = Some (Inr (queue, e', log))"
    and "fmlookup (instances (est e)) ik = Some i"
  shows "\<exists>source target i'. fmlookup (processes (est e)) (pi_process_id i) = Some source
    \<and> find_value (\<lambda>d. dp_key d = target_key) (processes (est e)) = Some target
    \<and> fmlookup (instances (est e')) ik = Some i' \<and> pi_process_definition_key i' = target_key
    \<and> pi_process_id i' = pd_id (dp_definition target) \<and> fmdom (pi_active i') = fmdom (pi_active i)
    \<and> (\<forall>eik eid. fmlookup (pi_active i) eik = Some eid \<longrightarrow>
         (\<exists>eid' s t. fmlookup (pi_active i') eik = Some eid' \<and> pd_element (dp_definition source) eid = Some s
            \<and> pd_element (dp_definition target) eid' = Some t \<and> kind_discriminant (e_kind s) = kind_discriminant (e_kind t)
            \<and> (process_of_instance e ik = Some (dp_definition source) \<longrightarrow>
                 map_option kind_discriminant (element_kind_of e ik eid) = Some (kind_discriminant (e_kind t)))))"
proof -
  from assms obtain source target where defs: "fmlookup (processes (est e)) (pi_process_id i) = Some source"
      "find_value (\<lambda>d. dp_key d = target_key) (processes (est e)) = Some target"
    and ok: "migration_error e ik target_key (dp_definition source) (dp_definition target) instrs i = Some None"
    and out: "(e', log) = emit (ELifecycle (ProcessInstanceMigrated ik (pd_id (dp_definition target)) target_key instrs)) (e, [])"
    by (auto simp: migrate_instance_command_def rejected_def accepted_def Option.bind_eq_Some_conv split: option.splits if_splits)
  define i' where "i' = migrate_instance (pd_id (dp_definition target)) target_key (remap_id instrs) i"
  have "est e' = apply_event (ELifecycle (ProcessInstanceMigrated ik (pd_id (dp_definition target)) target_key instrs)) (est e)"
    using out by (auto simp: emit_simple emit_resolution_def terminal_instance_key_def emit_plain_def Let_def track_dirty_def split: option.splits if_splits)
  then have after: "fmlookup (instances (est e')) ik = Some i'" using migrated_instance [OF assms(2)] by (simp add: i'_def)
  from ok have mapped: "mapping_error ik target_key (dp_definition source) (dp_definition target) [] instrs = None"
    unfolding migration_error_def first_error_none by simp
  note m = mapping_ok [OF mapped]
  have "\<exists>eid' s t. fmlookup (pi_active i') eik = Some eid' \<and> pd_element (dp_definition source) eid = Some s
      \<and> pd_element (dp_definition target) eid' = Some t \<and> kind_discriminant (e_kind s) = kind_discriminant (e_kind t)"
    if token: "fmlookup (pi_active i) eik = Some eid" for eik eid
  proof -
    obtain tgt where tgt: "map_of instrs eid = Some tgt" by (rule active_id_mapped [OF ok token])
    with m have "remap_id instrs eid = tgt" by (simp add: remap_distinct or_default_def)
    moreover from m map_of_SomeD [OF tgt] obtain s t where "pd_element (dp_definition source) eid = Some s"
        "pd_element (dp_definition target) tgt = Some t" "kind_discriminant (e_kind s) = kind_discriminant (e_kind t)" by blast
    ultimately show ?thesis using token by (simp add: i'_def migrate_instance_def)
  qed
  then have "\<exists>eid' s t. fmlookup (pi_active i') eik = Some eid' \<and> pd_element (dp_definition source) eid = Some s
      \<and> pd_element (dp_definition target) eid' = Some t \<and> kind_discriminant (e_kind s) = kind_discriminant (e_kind t)
      \<and> (process_of_instance e ik = Some (dp_definition source) \<longrightarrow>
           map_option kind_discriminant (element_kind_of e ik eid) = Some (kind_discriminant (e_kind t)))"
    if "fmlookup (pi_active i) eik = Some eid" for eik eid
    using that by (fastforce simp: element_kind_of_def)
  with defs after show ?thesis
    by (intro exI [of _ source] exI [of _ target] exI [of _ i']) (simp add: i'_def migrate_instance_def)
qed

definition simple_process :: "string \<Rightarrow> elementid \<Rightarrow> process_definition" where
  "simple_process process_id task = \<lparr> pd_id = process_id, pd_name = None,
     pd_elements = fmupd task (gateway task EK_Task []) fmempty, pd_start_event = task, pd_xml = [], pd_adhoc = [],
     pd_start_form_id = None \<rparr>"

definition deployed_as :: "key \<Rightarrow> process_definition \<Rightarrow> deployed_process" where
  "deployed_as k p = \<lparr> dp_key = k, dp_version = 1, dp_definition = p \<rparr>"

definition migratable :: engine where
  "migratable = engine_of (state_new\<lparr>
     processes := fmupd ''new'' (deployed_as 10 (simple_process ''new'' ''b'')) (fmupd ''old'' (deployed_as 9 (simple_process ''old'' ''a'')) fmempty),
     instances := fmupd 1 (running_instance\<lparr> pi_process_id := ''old'', pi_active := fmupd 3 ''a'' fmempty \<rparr>) fmempty \<rparr>) 0 20"

lemma migratable_target:
  "find_value (\<lambda>d. dp_key d = 10) (processes (est migratable)) = Some (deployed_as 10 (simple_process ''new'' ''b''))"
  by (simp add: migratable_def engine_of_def find_value_def deployed_as_def sorted_list_of_fmap_def sorted_list_of_fset.rep_eq)

lemma migratable_accepts:
  "\<exists>e' log. migrate_instance_command 1 10 [(''a'', ''b'')] migratable = Some (Inr ([], e', log))"
  unfolding migrate_instance_command_def migratable_target
  by (simp add: migratable_def engine_of_def running_instance_def deployed_as_def
      sorted_list_of_fmap_def migration_error_def unsupported_active_def active_ids_def fmap_values_def pd_element_def
      simple_process_def gateway_def kind_discriminant_def unsupported_migration_reason_def armed_boundaries_def state_new_def
      least_def unremappable_def scoped_active_def List.map_filter_simps accepted_def sorted_list_of_fset.rep_eq)

theorem migration_keeps_tokens_witness:
  "\<exists>e' log i'. migrate_instance_command 1 10 [(''a'', ''b'')] migratable = Some (Inr ([], e', log))
     \<and> fmlookup (instances (est e')) 1 = Some i' \<and> pi_process_id i' = ''new'' \<and> fmlookup (pi_active i') 3 = Some ''b''"
proof -
  obtain e' log where run: "migrate_instance_command 1 10 [(''a'', ''b'')] migratable = Some (Inr ([], e', log))"
    using migratable_accepts by blast
  obtain i where i: "fmlookup (instances (est migratable)) 1 = Some i" "fmlookup (pi_active i) 3 = Some ''a''"
    by (simp add: migratable_def engine_of_def)
  from migration_keeps_tokens [OF run i(1)] i(2) migratable_target run show ?thesis
    by (auto simp: deployed_as_def simple_process_def pd_element_def split: if_splits)
qed

end
