(* ===== verification/Routing.thy ===== *)
theory Routing
  imports Gateways
begin

text \<open>
  The loops that route a gateway against what they mean: a verdict for each outgoing flow, the first flow that is not
  refused for an exclusive gateway, all accepted flows for an inclusive one, the default flow when there is none, and an
  incident at the first condition that cannot be evaluated.
\<close>

definition verdict :: "feel \<Rightarrow> vars \<Rightarrow> sequence_flow \<Rightarrow> string + bool" where
  "verdict F vs flow =
     (if sf_is_default flow then Inr False else case sf_condition flow of None \<Rightarrow> Inr True | Some c \<Rightarrow> feel_eval_bool F c vs)"

definition failed :: "string + bool \<Rightarrow> bool" where
  "failed v = (case v of Inl _ \<Rightarrow> True | Inr _ \<Rightarrow> False)"

primrec last_default :: "(nat \<times> sequence_flow) list \<Rightarrow> nat option" where
  "last_default [] = None"
| "last_default (x # xs) = (case last_default xs of Some d \<Rightarrow> Some d | None \<Rightarrow> if sf_is_default (snd x) then Some (fst x) else None)"

definition failure_at :: "string \<Rightarrow> feel \<Rightarrow> vars \<Rightarrow> elementid \<Rightarrow> sequence_flow \<Rightarrow> string" where
  "failure_at what F vs eid flow = (case (sf_condition flow, verdict F vs flow) of
     (Some c, Inl err) \<Rightarrow> condition_failure what c eid err | _ \<Rightarrow> [])"

definition exclusive_reference :: "feel \<Rightarrow> vars \<Rightarrow> elementid \<Rightarrow> (nat \<times> sequence_flow) list \<Rightarrow> string + nat option" where
  "exclusive_reference F vs eid flows = (case List.find (\<lambda>x. verdict F vs (snd x) \<noteq> Inr False) flows of
     Some x \<Rightarrow> if failed (verdict F vs (snd x)) then Inl (failure_at ''exclusive'' F vs eid (snd x)) else Inr (Some (fst x))
   | None \<Rightarrow> Inr (last_default flows))"

definition inclusive_reference :: "feel \<Rightarrow> vars \<Rightarrow> elementid \<Rightarrow> (nat \<times> sequence_flow) list \<Rightarrow> string + nat list" where
  "inclusive_reference F vs eid flows = (case List.find (\<lambda>x. failed (verdict F vs (snd x))) flows of
     Some x \<Rightarrow> Inl (failure_at ''inclusive'' F vs eid (snd x))
   | None \<Rightarrow>
       (let accepted_flows = map fst (filter (\<lambda>x. verdict F vs (snd x) = Inr True) flows)
        in Inr (if accepted_flows = [] then (case last_default flows of None \<Rightarrow> [] | Some d \<Rightarrow> [d]) else accepted_flows)))"

lemmas verdict_defs = verdict_def failed_def failure_at_def

lemma exclusive_from_reference:
  "exclusive_from F vs eid flows dflt = (case List.find (\<lambda>x. verdict F vs (snd x) \<noteq> Inr False) flows of
     Some x \<Rightarrow> if failed (verdict F vs (snd x)) then Inl (failure_at ''exclusive'' F vs eid (snd x)) else Inr (Some (fst x))
   | None \<Rightarrow> Inr (case last_default flows of None \<Rightarrow> dflt | Some d \<Rightarrow> Some d))"
proof (induction F vs eid flows dflt rule: exclusive_from.induct)
  case (2 F vs eid index flow flows dflt)
  consider (dflt) "sf_is_default flow" | (free) "\<not> sf_is_default flow" "sf_condition flow = None"
    | (eval) c where "\<not> sf_is_default flow" "sf_condition flow = Some c" by fastforce
  then show ?case
  proof cases
    case (eval c)
    with 2 show ?thesis
      by (cases "feel_eval_bool F c vs") (auto simp: verdict_defs split: option.split bool.split)
  qed (use 2 in \<open>auto simp: verdict_defs split: option.split\<close>)
qed simp

lemma inclusive_from_reference:
  "inclusive_from F vs eid flows dflt selected = (case List.find (\<lambda>x. failed (verdict F vs (snd x))) flows of
     Some x \<Rightarrow> Inl (failure_at ''inclusive'' F vs eid (snd x))
   | None \<Rightarrow> Inr (case last_default flows of None \<Rightarrow> dflt | Some d \<Rightarrow> Some d,
       selected @ map fst (filter (\<lambda>x. verdict F vs (snd x) = Inr True) flows)))"
proof (induction F vs eid flows dflt selected rule: inclusive_from.induct)
  case (2 F vs eid index flow flows dflt selected)
  consider (dflt) "sf_is_default flow" | (free) "\<not> sf_is_default flow" "sf_condition flow = None"
    | (eval) c where "\<not> sf_is_default flow" "sf_condition flow = Some c" by fastforce
  then show ?case
  proof cases
    case (eval c)
    with 2 show ?thesis
      by (cases "feel_eval_bool F c vs") (auto simp: verdict_defs split: option.split bool.split)
  qed (use 2 in \<open>auto simp: verdict_defs split: option.split\<close>)
qed simp

text \<open>C26: routing a gateway means what BPMN says. An exclusive gateway takes the first outgoing flow, in drawing order, that
  is not the default flow and whose condition holds or that has none; an inclusive gateway takes all of these; the default flow
  is taken only when there is none. The first condition that fails to evaluate before the decision has fallen is reported
  instead, and an inclusive gateway evaluates them all.\<close>

theorem gateway_routing:
  "select_exclusive_flow F e ik eid = exclusive_reference F (engine_variables e ik) eid (enumerate 0 (outgoing e ik eid))
   \<and> select_inclusive_flows F e ik eid = inclusive_reference F (engine_variables e ik) eid (enumerate 0 (outgoing e ik eid))"
  by (auto simp: select_exclusive_flow_def select_inclusive_flows_def exclusive_from_reference inclusive_from_reference
      exclusive_reference_def inclusive_reference_def Let_def split: option.split)

end
