(* ===== verification/Spec2Isabelle.thy ===== *)
theory Spec2Isabelle
  imports Fresh_Keys Memory Calendar Journal Debugging Instance_Laws Routing
begin

text \<open>
  The nano-bpm workflow engine (\<open>src/engine-core\<close>).

  The engine is event sourced. A command is planned against the state, the plan emits events, and an
  event changes the state through exactly one applier; the log of events is the durable truth, and a
  recovering node rebuilds its state by replaying it. The development models the data, every event
  and every applier, every command with its planning, and the step loop that runs a planned command to
  its end; where the code calls the FEEL evaluator, it is a parameter, and the theorems hold for every
  evaluator.

  Theories, in the order of the code:

  \<^item> \<open>Prelude\<close>: Rust collections and arithmetic. A \<open>HashMap\<close> is an \<open>fmap\<close>, a set an \<open>fset\<close>, a
    \<open>Vec\<close> a list, \<open>u64\<close> a \<open>64 word\<close>; \<open>get_mut\<close>, \<open>fmretain\<close> and \<open>entry_or\<close> name the map idioms.
  \<^item> \<open>Keys\<close> (\<open>state/types.rs\<close>, \<open>lease.rs\<close>): the layout of a 64-bit key, the stable hash, lease tokens.
  \<^item> \<open>Agent\<close>, \<open>Dmn_Model\<close>, \<open>Model\<close>, \<open>Cluster_Vars\<close> (\<open>agent.rs\<close>, \<open>dmn/model.rs\<close>, \<open>model.rs\<close>,
    \<open>cluster_vars.rs\<close>): the data a deployment and an instance carry.
  \<^item> \<open>Flow_Arrivals\<close>, \<open>State_Types\<close> (\<open>state/types.rs\<close>): the token vector of a join with Rust's binary
    search, and every entity of the state.
  \<^item> \<open>Events\<close> (\<open>event.rs\<close>): the events, grouped in one datatype per family, and their keys.
  \<^item> \<open>Registry\<close> (\<open>state/types.rs\<close>, \<open>state/apply\<close>): versioned deployments; the locale
    \<open>versioned_registry\<close> is interpreted for processes, graphs, decisions, forms and resources.
  \<^item> \<open>Job_Index\<close>, \<open>Apply_Job\<close>, \<open>Apply_Instance\<close>, \<open>Apply_Element\<close>, \<open>Apply_Waiting\<close>, \<open>Apply\<close>
    (\<open>state/apply\<close>): one function per arm of the appliers, and the dispatch.
  \<^item> \<open>State_Invariants\<close>, \<open>Entity_Keys\<close>: what every applier keeps: the job indices, the in-flight
    counters, suspension marks, well-formed join vectors and histories, entities stored under their
    own key, and the reverse index from instances to jobs.
  \<^item> \<open>Engine\<close> (\<open>engine/mod.rs\<close>, \<open>engine/agent_behavior.rs\<close>): the key generator, replay, deployment
    installation, and \<open>emit\<close> with the settlement and clean-up of agents it triggers.
  \<^item> \<open>Histories\<close>: the locale \<open>event_invariant\<close> lifts an invariant of one event to every admissible
    log; it is interpreted for each invariant and for their conjunction.
  \<^item> \<open>Fresh_Keys\<close>: the keys a state uses, what an event adds to them, and the generator after a replay.
  \<^item> \<open>Jobs\<close> (\<open>engine/api.rs\<close>, \<open>engine/mod.rs\<close>): selection and activation of jobs, lock expiry, leases,
    failing and updating a job, suspension and resumption.
  \<^item> \<open>Memory\<close> (\<open>engine/memory.rs\<close>): snapshots, eviction, retirement, variable spill and cold spill.
  \<^item> \<open>Joins\<close> (\<open>engine/mod.rs\<close>, \<open>engine/resolve.rs\<close>): parallel and inclusive joins.
  \<^item> \<open>Scopes\<close>: the order of the scope trees, an interpretation of \<open>event_invariant\<close>, and walks up a tree.
  \<^item> \<open>Variables\<close>, \<open>Expressions\<close> (\<open>engine/resolve.rs\<close>): what an element sees of the variables, where a
    merge lands, dotted mapping targets; attributes that are literals or FEEL expressions, over the
    record \<open>feel\<close> of evaluation functions.
  \<^item> \<open>Text\<close>, \<open>Temporal\<close>, \<open>Calendar\<close> (\<open>temporal.rs\<close>, \<open>feel/temporal.rs\<close>): Rust strings and numbers, the
    grammar of ISO-8601 durations, and the calendar of FEEL.
  \<^item> \<open>Boundary\<close> (\<open>engine/boundary.rs\<close>, \<open>engine/mod.rs\<close>, \<open>engine/call_activity.rs\<close>): the searches for
    a boundary event that catches, the teardown of element instances, scopes and whole instances, and
    the cascade over child instances.
  \<^item> \<open>Teardown\<close>, \<open>Scope_Teardown\<close>, \<open>Cascade\<close>: an abstract view of everything in play as a set of tokens.
    The locale \<open>waiting_kind\<close>, interpreted for jobs, timers, user tasks and the three kinds of
    subscriptions, says that cancelling a kind disarms exactly its tokens; the theorems on teardown are
    equations between token sets.
  \<^item> \<open>Arming\<close> (\<open>engine/boundary.rs\<close>): arming the boundary events of an activity.
  \<^item> \<open>Doubles\<close>, \<open>Decisions\<close> (\<open>dmn/eval.rs\<close>, \<open>dmn/parser.rs\<close>): the arithmetic of binary64 on bit
    patterns, exact with one rounding, and the evaluation of decisions: unary tests, tables with every hit
    policy, and the walk over the requirements graph.
  \<^item> \<open>Gateways\<close>, \<open>Activation\<close>, \<open>Loops\<close>, \<open>Completion\<close> (\<open>engine/mod.rs\<close>, \<open>engine/call_activity.rs\<close>): the
    behaviour of the elements, as planners that return events and steps: routing, activation of every
    kind of element, multi-instance and ad-hoc bodies, completion with listeners, compensation and
    escalation, call activities. \<open>Routing\<close> proves the loops that route a gateway equal to a reference.
  \<^item> \<open>Step_Loop\<close> (\<open>engine/mod.rs\<close>, \<open>engine/debug.rs\<close>): \<open>process_step\<close>, the sweeps over drained
    sub-processes, conditions and finished instances, the loop with its drivers, debug sessions.
  \<^item> \<open>Planning\<close>, \<open>Loop_Log\<close>, \<open>Quiescence\<close>, \<open>Debugging\<close>: no planner changes the state; the loop only
    changes it by the events it logs; what holds when the loop returns; a session that is stepped through
    against the loop that runs.
  \<^item> \<open>Deployments\<close>, \<open>Task_Commands\<close>, \<open>Triggers\<close>, \<open>Instance_Commands\<close>, \<open>Agent_Commands\<close>, \<open>Commands\<close>
    (\<open>engine/mod.rs\<close>, \<open>engine/agent_behavior.rs\<close>, \<open>command.rs\<close>): the planning of all 39 commands, with
    every guard and early return, and \<open>apply_command_at\<close>.
  \<^item> \<open>Journal\<close>, \<open>Instance_Laws\<close>, \<open>Sample_Run\<close>: the journal of a sequence of commands, the laws of
    cancelling and migrating an instance, and an evaluated example.

  What the lemmas show. The log determines the state: emitting and replaying agree, and the journal of
  any sequence of commands replays to the state they left. When the step loop returns, no instance that
  took part is left active without a token. A debug session that is moved to its end writes the log of
  the loop, and ends as the command does when no ended instance has live children. A cancelled instance
  leaves nothing in play; a migration keeps every token, on elements of the kind that the latest version
  of the process gives. Decisions are evaluated once each, after the decisions they require, and the
  matching rules of a table are ranked by its declared output values. Keys never repeat within the
  counter's range, and a replay leaves the generator past every key of its partition that the state held,
  provided no event hides such a key behind a larger one of another partition. Every admissible history
  keeps the invariants. Jobs are handed out best first, locked, fenced by their lease and released on expiry. A recovery from a snapshot
  and a tail equals a full replay; both spills are inverse to their rehydration; eviction removes
  exactly what it should (and the theorems of \<open>Memory\<close> that say what it forgets record defects). A
  join fires exactly when its tokens allow, consumes one token of each flow and keeps the surplus. An
  element sees the nearest binding of each variable, and a merge changes exactly what it should. The
  walks over scopes return; the nearest boundary event catches; tearing down an instance takes exactly its
  tokens out of play, and tearing down a scope does so too, up to a second job on an element instance; the
  cascade ends exactly the live descendants of the instances a command ended. Arming an activity puts in
  play exactly its timer, message, signal and conditional boundary events, each with its flag and its
  trigger. A duration is
  accepted exactly when it is of the grammar and its value fits; day numbers and dates are inverse, and
  adding a duration moves an instant by exactly that much.

  Bounds. The parent walk of \<open>root_process_instance_key\<close> has the bound of the source loop
  (\<open>MAX_CALL_ACTIVITY_DEPTH\<close> + 1 steps). The breadth-first search of the inclusive join terminates
  because the set of unvisited elements shrinks or the queue does. The walks over scopes and the cascade
  are partial functions, \<open>None\<close> where the loop of the source would not end; the theorems prove that
  they return, from the order of the scope keys and from the number of live instances. Panics of the source (an assertion
  on the partition id, an index out of range) are \<open>None\<close>.

  Where the source takes the first match in the iteration over a hash map (\<open>active_job_on\<close>, the searches over
  \<open>values()\<close>), the model takes the one with the smallest key. No property depends on which job of an
  element instance \<open>active_job_on\<close> yields.

  The step loop is a partial function too: a process that loops without waiting never comes to rest, in
  the source as in the model.

  Not modelled. The FEEL language: its lexer, parser and evaluator, which the engine calls as
  functions of a text and a context and which the record \<open>feel\<close> stands for; its calendar is modelled.
  BPMN and DMN parsing, JSON, the read model, the server, storage and replication, the console and the
  bindings are input and output around the engine. Metrics and debug assertions have no effect on the
  state.
\<close>

end
